(* ===== verification/Prelude.thy ===== *)
theory Prelude
  imports Main "HOL-Library.Word"
begin

text \<open>
  Shared vocabulary of the development: machine integers and byte strings, the result type
  of guest and host code (a value, a panic or a guest exit code), checked slices, little-endian
  integers, and Rust's saturating arithmetic. Everything here is generic; the components
  import it and use its simplification rules through the collections \<open>result_simps\<close>
  and \<open>bytes_simps\<close>.
\<close>

named_theorems result_simps "reading results of sequenced fallible code"
named_theorems bytes_simps "slices, splices and little-endian integers"

section \<open>Integers and bytes\<close>

type_synonym u8 = "8 word"
type_synonym u16 = "16 word"
type_synonym u32 = "32 word"
type_synonym u64 = "64 word"
type_synonym u128 = "128 word"
type_synonym bytes = "8 word list"

abbreviation bytes32 :: "bytes \<Rightarrow> bool" where
  "bytes32 b \<equiv> length b = 32"

section \<open>Results: a value, a panic, or a guest exit code\<close>

text \<open>
  \<open>Panic\<close> is a Rust panic (an \<open>assert!\<close>, \<open>expect\<close>, or an index out of range); \<open>Halt\<close> is a guest session
  that logs a message and halts with a non-zero code; \<open>Exit\<close> is a host process ending with a code.
\<close>

datatype failure = Panic string | Halt u8 string | Exit u8

type_synonym 'a result = "failure + 'a"

fun rbind :: "'e + 'a \<Rightarrow> ('a \<Rightarrow> 'e + 'b) \<Rightarrow> 'e + 'b" where
  "rbind (Inl e) k = Inl e"
| "rbind (Inr x) k = k x"

definition check :: "bool \<Rightarrow> 'e \<Rightarrow> 'e + unit" where
  "check c e = (if c then Inr () else Inl e)"

abbreviation out_of_range :: failure where
  "out_of_range \<equiv> Panic ''range end index out of range''"

lemma rbind_Inr_iff [result_simps]: "rbind m k = Inr y \<longleftrightarrow> (\<exists>x. m = Inr x \<and> k x = Inr y)"
  by (cases m) auto

lemma rbind_Inl_iff [result_simps]:
  "rbind m k = Inl e \<longleftrightarrow> m = Inl e \<or> (\<exists>x. m = Inr x \<and> k x = Inl e)"
  by (cases m) auto

lemma check_Inr_iff [result_simps]: "check c e = Inr u \<longleftrightarrow> c"
  by (simp add: check_def)

lemma check_Inl_iff [result_simps]: "check c e = Inl e' \<longleftrightarrow> \<not> c \<and> e' = e"
  by (auto simp: check_def)

lemma check_True [simp]: "check True e = Inr ()"
  by (simp add: check_def)

lemma check_False [simp]: "check False e = Inl e"
  by (simp add: check_def)

lemma rbind_assoc: "rbind (rbind m f) g = rbind m (\<lambda>x. rbind (f x) g)"
  by (cases m) auto

lemma rbind_cong [fundef_cong]:
  "m = m' \<Longrightarrow> (\<And>x. m' = Inr x \<Longrightarrow> f x = g x) \<Longrightarrow> rbind m f = rbind m' g"
  by (cases m') auto

text \<open>A fallible step for each element, left to right, stopping at the first failure.\<close>

primrec rmap :: "('a \<Rightarrow> 'e + 'b) \<Rightarrow> 'a list \<Rightarrow> 'e + 'b list" where
  "rmap f [] = Inr []"
| "rmap f (x # xs) = rbind (f x) (\<lambda>y. rbind (rmap f xs) (\<lambda>ys. Inr (y # ys)))"

lemma rmap_ok: "(\<And>x. x \<in> set xs \<Longrightarrow> f x = Inr (g x)) \<Longrightarrow> rmap f xs = Inr (map g xs)"
  by (induction xs) auto

text \<open>Matching a list of exactly so many elements, as \<open>try_into\<close> to an array does.\<close>

lemma list_case_1 [result_simps]:
  "(case xs of [a] \<Rightarrow> g a | _ \<Rightarrow> Inl err) = Inr y \<longleftrightarrow> (\<exists>a. xs = [a] \<and> g a = Inr y)"
  by (auto split: list.splits)

lemma list_case_2 [result_simps]:
  "(case xs of [a, b] \<Rightarrow> g a b | _ \<Rightarrow> Inl err) = Inr y \<longleftrightarrow> (\<exists>a b. xs = [a, b] \<and> g a b = Inr y)"
  by (auto split: list.splits)

lemma list_case_3 [result_simps]:
  "(case xs of [a, b, c] \<Rightarrow> g a b c | _ \<Rightarrow> Inl err) = Inr y \<longleftrightarrow> (\<exists>a b c. xs = [a, b, c] \<and> g a b c = Inr y)"
  by (auto split: list.splits)

lemma list_case_4 [result_simps]:
  "(case xs of [a, b, c, d] \<Rightarrow> g a b c d | _ \<Rightarrow> Inl err) = Inr y \<longleftrightarrow> (\<exists>a b c d. xs = [a, b, c, d] \<and> g a b c d = Inr y)"
  by (auto split: list.splits)

lemma list_case_5 [result_simps]:
  "(case xs of [a, b, c, d, e] \<Rightarrow> g a b c d e | _ \<Rightarrow> Inl err) = Inr y \<longleftrightarrow> (\<exists>a b c d e. xs = [a, b, c, d, e] \<and> g a b c d e = Inr y)"
  by (auto split: list.splits)

lemma list_case_6 [result_simps]:
  "(case xs of [a, b, c, d, e, f] \<Rightarrow> g a b c d e f | _ \<Rightarrow> Inl err) = Inr y \<longleftrightarrow> (\<exists>a b c d e f. xs = [a, b, c, d, e, f] \<and> g a b c d e f = Inr y)"
  by (auto split: list.splits)

text \<open>A left fold of fallible steps.\<close>

fun rfold :: "('s \<Rightarrow> 'a \<Rightarrow> 'e + 's) \<Rightarrow> 's \<Rightarrow> 'a list \<Rightarrow> 'e + 's" where
  "rfold f s [] = Inr s"
| "rfold f s (x # xs) = rbind (f s x) (\<lambda>s1. rfold f s1 xs)"

lemma rfold_append: "rfold f s (xs @ ys) = rbind (rfold f s xs) (\<lambda>t. rfold f t ys)"
  by (induction xs arbitrary: s) (simp_all add: rbind_assoc)

lemma rfold_invariant:
  "rfold f s xs = Inr s' \<Longrightarrow> P s \<Longrightarrow>
    (\<And>t x t'. x \<in> set xs \<Longrightarrow> P t \<Longrightarrow> f t x = Inr t' \<Longrightarrow> P t') \<Longrightarrow> P s'"
proof (induction xs arbitrary: s)
  case Nil
  then show ?case by simp
next
  case (Cons x xs)
  from Cons.prems(1) obtain t where t: "f s x = Inr t" "rfold f t xs = Inr s'"
    by (auto simp: rbind_Inr_iff)
  have "P t" using Cons.prems(2,3) t(1) by (meson list.set_intros(1))
  then show ?case using Cons.IH [OF t(2)] Cons.prems(3) by (meson list.set_intros(2))
qed

text \<open>\<open>xs[i]\<close>, which panics out of range.\<close>

definition index_at :: "'a list \<Rightarrow> nat \<Rightarrow> 'a result" where
  "index_at xs i = (if i < length xs then Inr (xs ! i) else Inl (Panic ''index out of bounds''))"

lemma index_at_ok [simp]: "i < length xs \<Longrightarrow> index_at xs i = Inr (xs ! i)"
  by (simp add: index_at_def)

section \<open>Displaying numbers\<close>

definition digit_char :: "nat \<Rightarrow> char" where "digit_char d = char_of (48 + d)"

fun decimal :: "nat \<Rightarrow> string" where
  "decimal n = (if n < 10 then [digit_char n] else decimal (n div 10) @ [digit_char (n mod 10)])"

declare decimal.simps [simp del]

section \<open>Slices\<close>

definition slice :: "nat \<Rightarrow> nat \<Rightarrow> 'a list \<Rightarrow> 'a list" where
  "slice a n xs = take n (drop a xs)"

text \<open>\<open>&data[a..a + n]\<close>, which panics when the range ends past the data.\<close>

definition read_slice :: "nat \<Rightarrow> nat \<Rightarrow> 'a list \<Rightarrow> 'a list result" where
  "read_slice a n xs = (if a + n \<le> length xs then Inr (slice a n xs) else Inl out_of_range)"

definition splice :: "nat \<Rightarrow> 'a list \<Rightarrow> 'a list \<Rightarrow> 'a list" where
  "splice a ys xs = take a xs @ ys @ drop (a + length ys) xs"

text \<open>\<open>data[a..a + ys.len()].copy_from_slice(ys)\<close>.\<close>

definition write_slice :: "nat \<Rightarrow> 'a list \<Rightarrow> 'a list \<Rightarrow> 'a list result" where
  "write_slice a ys xs =
     (if a + length ys \<le> length xs then Inr (splice a ys xs) else Inl out_of_range)"

lemma length_slice [bytes_simps]: "a + n \<le> length xs \<Longrightarrow> length (slice a n xs) = n"
  by (simp add: slice_def)

lemma length_splice [bytes_simps]:
  "a + length ys \<le> length xs \<Longrightarrow> length (splice a ys xs) = length xs"
  by (simp add: splice_def)

lemma read_slice_ok [bytes_simps]: "a + n \<le> length xs \<Longrightarrow> read_slice a n xs = Inr (slice a n xs)"
  by (simp add: read_slice_def)

lemma write_slice_ok [bytes_simps]:
  "a + length ys \<le> length xs \<Longrightarrow> write_slice a ys xs = Inr (splice a ys xs)"
  by (simp add: write_slice_def)

lemma read_slice_Inr_iff [result_simps]:
  "read_slice a n xs = Inr ys \<longleftrightarrow> a + n \<le> length xs \<and> ys = slice a n xs"
  by (auto simp: read_slice_def)

lemma write_slice_Inr_iff [result_simps]:
  "write_slice a ys xs = Inr zs \<longleftrightarrow> a + length ys \<le> length xs \<and> zs = splice a ys xs"
  by (auto simp: write_slice_def)

lemma slice_splice_same [bytes_simps]:
  "a + length ys \<le> length xs \<Longrightarrow> length ys = n \<Longrightarrow> slice a n (splice a ys xs) = ys"
  by (simp add: slice_def splice_def)

lemma slice_splice_before [bytes_simps]:
  "b + n \<le> a \<Longrightarrow> a + length ys \<le> length xs \<Longrightarrow> slice b n (splice a ys xs) = slice b n xs"
  by (simp add: slice_def splice_def min_def take_drop)

lemma slice_splice_after [bytes_simps]:
  assumes "a + length ys \<le> b" and "a + length ys \<le> length xs"
  shows "slice b n (splice a ys xs) = slice b n xs"
proof -
  have "drop b (splice a ys xs) = drop (b - (a + length ys)) (drop (a + length ys) xs)"
    using assms by (simp add: splice_def)
  also have "\<dots> = drop b xs" using assms by simp
  finally show ?thesis by (simp add: slice_def)
qed

lemma slice_splice_within [bytes_simps]:
  "a \<le> b \<Longrightarrow> b + n \<le> a + length ys \<Longrightarrow> a + length ys \<le> length xs \<Longrightarrow>
     slice b n (splice a ys xs) = slice (b - a) n ys"
  by (simp add: slice_def splice_def)

lemma slice_slice [bytes_simps]: "b + m \<le> n \<Longrightarrow> slice b m (slice a n xs) = slice (a + b) m xs"
  by (simp add: slice_def drop_take min_def add.commute)

lemma nth_splice_before [bytes_simps]: "i < a \<Longrightarrow> a \<le> length xs \<Longrightarrow> splice a ys xs ! i = xs ! i"
  by (simp add: splice_def nth_append)

lemma slice_append_left [bytes_simps]:
  "a + n \<le> length xs \<Longrightarrow> slice a n (xs @ ys) = slice a n xs"
  by (simp add: slice_def)

lemma slice_append_right [bytes_simps]:
  "length xs \<le> a \<Longrightarrow> slice a n (xs @ ys) = slice (a - length xs) n ys"
  by (simp add: slice_def)

lemma slice_all: "slice 0 (length xs) xs = xs"
  by (simp add: slice_def)

lemma slice_0: "slice 0 n xs = take n xs"
  by (simp add: slice_def)

lemma drop_splice_after [bytes_simps]:
  "a + length ys \<le> b \<Longrightarrow> a + length ys \<le> length xs \<Longrightarrow> drop b (splice a ys xs) = drop b xs"
  by (simp add: splice_def)

lemma take_splice_within [bytes_simps]:
  assumes "a + length ys \<le> b" and "b \<le> length xs"
  shows "take b (splice a ys xs) = splice a ys (take b xs)"
proof (cases ys)
  case Nil
  have "splice a [] zs = zs" for zs :: "'a list" by (simp add: splice_def)
  with Nil show ?thesis by simp
next
  case (Cons y zs)
  with assms have "a < b" by simp
  with assms show ?thesis by (simp add: splice_def min_def drop_take)
qed

section \<open>Little-endian integers\<close>

primrec le_bytes :: "nat \<Rightarrow> nat \<Rightarrow> bytes" where
  "le_bytes 0 x = []"
| "le_bytes (Suc n) x = word_of_nat x # le_bytes n (x div 256)"

primrec le_nat :: "bytes \<Rightarrow> nat" where
  "le_nat [] = 0"
| "le_nat (b # bs) = unat b + 256 * le_nat bs"

lemma length_le_bytes [simp]: "length (le_bytes n x) = n"
  by (induction n arbitrary: x) auto

lemma le_nat_le_bytes: "le_nat (le_bytes n x) = x mod 256 ^ n"
proof (induction n arbitrary: x)
  case 0
  then show ?case by simp
next
  case (Suc n)
  have "unat (word_of_nat x :: u8) = x mod 256"
    by (simp add: unat_of_nat)
  with Suc show ?case
    by (simp add: mod_mult2_eq)
qed

lemma le_nat_less: "le_nat bs < 256 ^ length bs"
proof (induction bs)
  case Nil
  then show ?case by simp
next
  case (Cons b bs)
  have "unat b < 256" using unsigned_less [of b] by simp
  with Cons show ?case by simp
qed

lemma le_bytes_le_nat: "length bs = n \<Longrightarrow> le_bytes n (le_nat bs) = bs"
proof (induction bs arbitrary: n)
  case Nil
  then show ?case by simp
next
  case (Cons b bs)
  have b: "unat b < 256" using unsigned_less [of b] by simp
  have "unat (word_of_nat (unat b + 256 * le_nat bs) :: u8) = unat b"
    by (rule unat_of_nat [THEN trans]) (simp add: b)
  then have "word_of_nat (unat b + 256 * le_nat bs) = b"
    by (rule word_unat_eq_iff [THEN iffD2])
  with Cons b show ?case by auto
qed

definition u16_le :: "u16 \<Rightarrow> bytes" where "u16_le w = le_bytes 2 (unat w)"
definition u32_le :: "u32 \<Rightarrow> bytes" where "u32_le w = le_bytes 4 (unat w)"
definition u64_le :: "u64 \<Rightarrow> bytes" where "u64_le w = le_bytes 8 (unat w)"
definition u128_le :: "u128 \<Rightarrow> bytes" where "u128_le w = le_bytes 16 (unat w)"

definition u16_of :: "bytes \<Rightarrow> u16" where "u16_of b = word_of_nat (le_nat b)"
definition u32_of :: "bytes \<Rightarrow> u32" where "u32_of b = word_of_nat (le_nat b)"
definition u64_of :: "bytes \<Rightarrow> u64" where "u64_of b = word_of_nat (le_nat b)"
definition u128_of :: "bytes \<Rightarrow> u128" where "u128_of b = word_of_nat (le_nat b)"

lemma length_uint_le [simp]:
  "length (u16_le a) = 2" "length (u32_le b) = 4" "length (u64_le c) = 8" "length (u128_le d) = 16"
  by (simp_all add: u16_le_def u32_le_def u64_le_def u128_le_def)

lemma word_of_unat_mod: "word_of_nat (unat (w :: 'w::len word) mod 2 ^ LENGTH('w)) = w"
proof -
  have "unat w < 2 ^ LENGTH('w)" by (rule unsigned_less)
  then show ?thesis by simp
qed

lemma u16_of_le [simp]: "u16_of (u16_le w) = w"
  using word_of_unat_mod [of w] by (simp add: u16_of_def u16_le_def le_nat_le_bytes)

lemma u32_of_le [simp]: "u32_of (u32_le w) = w"
  using word_of_unat_mod [of w] by (simp add: u32_of_def u32_le_def le_nat_le_bytes)

lemma u64_of_le [simp]: "u64_of (u64_le w) = w"
  using word_of_unat_mod [of w] by (simp add: u64_of_def u64_le_def le_nat_le_bytes)

lemma u128_of_le [simp]: "u128_of (u128_le w) = w"
  using word_of_unat_mod [of w] by (simp add: u128_of_def u128_le_def le_nat_le_bytes)

lemma u16_le_of: "length b = 2 \<Longrightarrow> u16_le (u16_of b) = b"
  using le_nat_less [of b] by (simp add: u16_le_def u16_of_def unat_of_nat le_bytes_le_nat)

lemma u32_le_of: "length b = 4 \<Longrightarrow> u32_le (u32_of b) = b"
  using le_nat_less [of b] by (simp add: u32_le_def u32_of_def unat_of_nat le_bytes_le_nat)

lemma u64_le_of: "length b = 8 \<Longrightarrow> u64_le (u64_of b) = b"
  using le_nat_less [of b] by (simp add: u64_le_def u64_of_def unat_of_nat le_bytes_le_nat)

lemma u128_le_of: "length b = 16 \<Longrightarrow> u128_le (u128_of b) = b"
  using le_nat_less [of b] by (simp add: u128_le_def u128_of_def unat_of_nat le_bytes_le_nat)

lemma u16_le_inject [simp]: "u16_le a = u16_le b \<longleftrightarrow> a = b"
  by (metis u16_of_le)

lemma u64_le_inject [simp]: "u64_le a = u64_le b \<longleftrightarrow> a = b"
  by (metis u64_of_le)

section \<open>Saturating arithmetic\<close>

definition sat_add :: "'w::len word \<Rightarrow> 'w word \<Rightarrow> 'w word" where
  "sat_add a b = (if unat a + unat b < 2 ^ LENGTH('w) then a + b else - 1)"

definition sat_sub :: "'w::len word \<Rightarrow> 'w word \<Rightarrow> 'w word" where
  "sat_sub a b = (if b \<le> a then a - b else 0)"

definition sat_mul :: "'w::len word \<Rightarrow> 'w word \<Rightarrow> 'w word" where
  "sat_mul a b = (if unat a * unat b < 2 ^ LENGTH('w) then a * b else - 1)"

lemma unat_max_word: "unat (- 1 :: 'w::len word) = 2 ^ LENGTH('w) - 1"
  by (simp add: unsigned_minus_1_eq_mask mask_eq_exp_minus_1)

lemma unat_sat_add:
  "unat (sat_add a b :: 'w::len word) = min (unat a + unat b) (2 ^ LENGTH('w) - 1)"
  by (auto simp: sat_add_def unat_max_word unat_word_ariths)

lemma unat_sat_sub: "unat (sat_sub a b) = unat a - unat b"
  by (auto simp: sat_sub_def unat_sub word_le_nat_alt)

lemma unat_sat_mul:
  "unat (sat_mul a b :: 'w::len word) = min (unat a * unat b) (2 ^ LENGTH('w) - 1)"
  by (auto simp: sat_mul_def unat_max_word unat_word_ariths)

lemma unat_le_max: "unat (a :: 'w::len word) \<le> 2 ^ LENGTH('w) - 1"
proof -
  have "unat a < 2 ^ LENGTH('w)" by (rule unsigned_less)
  then show ?thesis by linarith
qed

lemma sat_add_ge: "a \<le> sat_add a b"
  using unat_le_max [of a] by (simp add: word_le_nat_alt unat_sat_add)

lemma unat_sat_add_exact:
  "unat a + unat b < 2 ^ LENGTH('w) \<Longrightarrow> unat (sat_add a b :: 'w::len word) = unat a + unat b"
  by (simp add: unat_sat_add)

end
