(* ===== verification/Borsh.thy ===== *)
theory Borsh
  imports Prelude
begin

text \<open>
  The Borsh format as the derive macros of the sources use it: fixed-width little-endian integers
  and byte arrays in declaration order, an enum variant as its declaration index in one byte. A
  decoder reads a value off the front and returns the rest; \<open>from_slice\<close> wants nothing left over.
  The locale \<open>codec\<close> is the contract of an encoder and its decoder; its facts give round trips
  and the injectivity of the encoding.
\<close>

type_synonym 'a decoder = "bytes \<Rightarrow> ('a \<times> bytes) option"

definition from_slice :: "'a decoder \<Rightarrow> bytes \<Rightarrow> 'a option" where
  "from_slice dec b = (case dec b of Some (x, []) \<Rightarrow> Some x | _ \<Rightarrow> None)"

locale codec =
  fixes ok :: "'a \<Rightarrow> bool"
    and enc :: "'a \<Rightarrow> bytes"
    and dec :: "'a decoder"
  assumes dec_enc: "ok x \<Longrightarrow> dec (enc x @ r) = Some (x, r)"
    and enc_dec: "dec b = Some (x, r) \<Longrightarrow> ok x \<and> b = enc x @ r"
begin

lemma from_slice_enc: "ok x \<Longrightarrow> from_slice dec (enc x) = Some x"
  using dec_enc [of x "[]"] by (simp add: from_slice_def)

lemma from_slice_iff: "from_slice dec b = Some x \<longleftrightarrow> ok x \<and> b = enc x"
proof
  assume "from_slice dec b = Some x"
  then have "dec b = Some (x, [])"
    by (auto simp: from_slice_def split: option.splits list.splits)
  then show "ok x \<and> b = enc x" using enc_dec by fastforce
qed (auto simp: from_slice_enc)

lemma enc_inject: "ok x \<Longrightarrow> ok y \<Longrightarrow> enc x = enc y \<longleftrightarrow> x = y"
  by (metis from_slice_enc option.inject)

lemma enc_prefix_free: "ok x \<Longrightarrow> ok y \<Longrightarrow> enc x @ r = enc y @ s \<Longrightarrow> x = y \<and> r = s"
  by (metis dec_enc option.inject prod.inject)

end

section \<open>Primitive fields\<close>

definition dec_bytes :: "nat \<Rightarrow> bytes decoder" where
  "dec_bytes n b = (if n \<le> length b then Some (take n b, drop n b) else None)"

definition dec_map :: "('a \<Rightarrow> 'b) \<Rightarrow> 'a decoder \<Rightarrow> 'b decoder" where
  "dec_map f d b = map_option (map_prod f id) (d b)"

definition dec_then :: "'a decoder \<Rightarrow> ('a \<Rightarrow> 'b decoder) \<Rightarrow> 'b decoder" where
  "dec_then d k b = (case d b of None \<Rightarrow> None | Some (x, r) \<Rightarrow> k x r)"

definition dec_return :: "'a \<Rightarrow> 'a decoder" where
  "dec_return x b = Some (x, b)"

definition dec_fail :: "'a decoder" where
  "dec_fail b = None"

definition dec_u8 :: "u8 decoder" where
  "dec_u8 b = (case b of [] \<Rightarrow> None | t # r \<Rightarrow> Some (t, r))"

abbreviation dec_u32 :: "u32 decoder" where "dec_u32 \<equiv> dec_map u32_of (dec_bytes 4)"
abbreviation dec_u64 :: "u64 decoder" where "dec_u64 \<equiv> dec_map u64_of (dec_bytes 8)"
abbreviation dec_u128 :: "u128 decoder" where "dec_u128 \<equiv> dec_map u128_of (dec_bytes 16)"
abbreviation dec_32 :: "bytes decoder" where "dec_32 \<equiv> dec_bytes 32"

interpretation bytes_n: codec "\<lambda>x. length x = n" "\<lambda>x. x" "dec_bytes n" for n
  by unfold_locales (auto simp: dec_bytes_def split: if_splits)

interpretation u32_field: codec "\<lambda>_. True" u32_le dec_u32
  by unfold_locales (auto simp: dec_map_def dec_bytes_def u32_le_of split: if_splits)

interpretation u64_field: codec "\<lambda>_. True" u64_le dec_u64
  by unfold_locales (auto simp: dec_map_def dec_bytes_def u64_le_of split: if_splits)

interpretation u128_field: codec "\<lambda>_. True" u128_le dec_u128
  by unfold_locales (auto simp: dec_map_def dec_bytes_def u128_le_of split: if_splits)

lemma dec_u8_Cons: "dec_u8 (t # r) = Some (t, r)"
  by (simp add: dec_u8_def)

lemma dec_u8_Some: "dec_u8 b = Some (t, r) \<Longrightarrow> b = t # r"
  by (cases b) (auto simp: dec_u8_def)

text \<open>Reading the fields one after the other, forwards and backwards.\<close>

named_theorems dec_simps "decoding what was encoded, field by field"

lemma dec_then_u8 [dec_simps]: "dec_then dec_u8 k (t # r) = k t r"
  by (simp add: dec_then_def dec_u8_Cons)

lemma dec_then_32 [dec_simps]: "length x = 32 \<Longrightarrow> dec_then dec_32 k (x @ r) = k x r"
  by (simp add: dec_then_def bytes_n.dec_enc)

lemma dec_then_u32 [dec_simps]: "dec_then dec_u32 k (u32_le x @ r) = k x r"
  by (simp add: dec_then_def u32_field.dec_enc)

lemma dec_then_u64 [dec_simps]: "dec_then dec_u64 k (u64_le x @ r) = k x r"
  by (simp add: dec_then_def u64_field.dec_enc)

lemma dec_then_u128 [dec_simps]: "dec_then dec_u128 k (u128_le x @ r) = k x r"
  by (simp add: dec_then_def u128_field.dec_enc)

lemma dec_return_apply [dec_simps]: "dec_return x b = Some (x, b)"
  by (simp add: dec_return_def)

lemma dec_then_Some:
  "dec_then d k b = Some (y, s) \<Longrightarrow> (\<And>x r. d b = Some (x, r) \<Longrightarrow> k x r = Some (y, s) \<Longrightarrow> P) \<Longrightarrow> P"
  by (auto simp: dec_then_def split: option.splits)

lemma dec_fields_Some:
  "dec_32 b = Some (x, r) \<Longrightarrow> length x = 32 \<and> b = x @ r"
  "dec_u32 b = Some (w, r) \<Longrightarrow> b = u32_le w @ r"
  "dec_u64 b = Some (v, r) \<Longrightarrow> b = u64_le v @ r"
  "dec_u128 b = Some (u, r) \<Longrightarrow> b = u128_le u @ r"
  by (simp_all add: bytes_n.enc_dec u32_field.enc_dec u64_field.enc_dec u128_field.enc_dec)

lemmas dec_dests = dec_fields_Some dec_u8_Some

end
