(* ===== verification/External.thy ===== *)
theory External
  imports Prelude
begin

text \<open>
  The code the programs call and that is not in the repository, as one record of functions:
  the Poseidon crate (\<open>rust_poseidon_bn254_pure\<close>), SHA-256 (\<open>sha2\<close>), the LEZ runtime crate
  (\<open>nssa_core\<close>) and the clock crate (\<open>clock_core\<close>). Every definition that uses one of them
  takes the record as its argument; what a property needs of them is a named hypothesis over it.

  \<^item> \<open>felt_valid b\<close>: \<open>Felt::is_valid(&Felt::unsafe_from_le_bytes(b))\<close>;
  \<^item> \<open>compress1 b\<close>: \<open>Felt::to_le_bytes\<close> of \<open>compress_1\<close> of the element read from \<open>b\<close>;
  \<^item> \<open>compress2 a b\<close>: the same for \<open>compress_2([a, b])\<close>;
  \<^item> \<open>sha256 b\<close>: the digest of \<open>b\<close>;
  \<^item> \<open>for_public_pda p s\<close>: \<open>AccountId::for_public_pda(&p, &PdaSeed::new(s))\<close>;
  \<^item> \<open>clock_account_id\<close>: \<open>clock_core::clock_account_id()\<close>;
  \<^item> \<open>clock_timestamp b\<close>: the timestamp of \<open>ClockAccountData::from_bytes(b)\<close>, \<open>None\<close> when the
    bytes do not decode;
  \<^item> \<open>native_program\<close>: \<open>NATIVE_TOKEN_PROGRAM_ID\<close>;
  \<^item> \<open>native_transfer n\<close>: the serialized \<open>native_token::Instruction::Transfer\<close> of \<open>n\<close>.
\<close>

record external =
  felt_valid :: "bytes \<Rightarrow> bool"
  compress1 :: "bytes \<Rightarrow> bytes"
  compress2 :: "bytes \<Rightarrow> bytes \<Rightarrow> bytes"
  sha256 :: "bytes \<Rightarrow> bytes"
  for_public_pda :: "bytes \<Rightarrow> bytes \<Rightarrow> bytes"
  clock_account_id :: bytes
  clock_timestamp :: "bytes \<Rightarrow> u64 option"
  native_program :: bytes
  native_transfer :: "u128 \<Rightarrow> bytes"

text \<open>
  What a Poseidon digest is, from the crate's interface: a canonical field element, 32 bytes.
\<close>

definition poseidon_canonical :: "external \<Rightarrow> bool" where
  "poseidon_canonical E \<longleftrightarrow>
     (\<forall>a. bytes32 (compress1 E a) \<and> felt_valid E (compress1 E a)) \<and>
     (\<forall>a b. bytes32 (compress2 E a b) \<and> felt_valid E (compress2 E a b))"

end
