(* ===== verification/Layouts.thy ===== *)
theory Layouts
  imports External
begin

text \<open>
  The shared constants and helpers of \<open>rln-layouts\<close> (\<open>rln-layouts/src/lib.rs\<close> and
  \<open>rln-layouts/src/exit.rs\<close>): rate limits, the clock account, membership time windows, the
  geometry of the tree shard, and the guests' exit codes.
\<close>

section \<open>Byte-string literals\<close>

definition ascii :: "string \<Rightarrow> bytes" where
  "ascii s = map of_char s"

lemma length_ascii [simp]: "length (ascii s) = length s"
  by (simp add: ascii_def)

section \<open>Rate limits and the clock account\<close>

definition MIN_RATE_LIMIT :: u64 where "MIN_RATE_LIMIT = 100"

definition MAX_RATE_LIMIT :: u64 where "MAX_RATE_LIMIT = 600"

definition CLOCK_50_ACCOUNT_ID_BYTES :: bytes where
  "CLOCK_50_ACCOUNT_ID_BYTES = ascii ''/LEZ/ClockProgramAccount/0000050''"

definition BUILTIN_PROGRAM_NAME_PREFIX :: bytes where
  "BUILTIN_PROGRAM_NAME_PREFIX = ascii ''/LEE-BuiltinProgram/v1/AccountId''"

definition builtin_program_account_id :: "external \<Rightarrow> bytes \<Rightarrow> bytes" where
  "builtin_program_account_id E name = sha256 E (BUILTIN_PROGRAM_NAME_PREFIX @ name)"

definition clock_program_account_id :: "external \<Rightarrow> bytes" where
  "clock_program_account_id E = builtin_program_account_id E (ascii ''clock'')"

definition CLOCK_CLAIM_TOLERANCE_MS :: u64 where "CLOCK_CLAIM_TOLERANCE_MS = 900000"

definition MILLIS_PER_SECOND :: u64 where "MILLIS_PER_SECOND = 1000"

definition secs_to_millis :: "u32 \<Rightarrow> u64" where
  "secs_to_millis secs = ucast secs * MILLIS_PER_SECOND"

text \<open>The product of a \<open>u32\<close> and 1000 never wraps in a \<open>u64\<close>.\<close>

lemma unat_secs_to_millis: "unat (secs_to_millis s) = unat s * 1000"
proof -
  have s: "unat s < 2 ^ LENGTH(32)" by (rule unsigned_less)
  moreover have "unat (ucast s :: u64) = unat s"
    using s by (simp add: unsigned_ucast_eq take_bit_nat_eq_self)
  ultimately show ?thesis
    by (simp add: secs_to_millis_def MILLIS_PER_SECOND_def unat_word_ariths)
qed

section \<open>Membership time windows\<close>

definition is_in_grace_period :: "u64 \<Rightarrow> u64 \<Rightarrow> u64 \<Rightarrow> bool" where
  "is_in_grace_period grace_start_ms grace_duration_ms now_ms \<longleftrightarrow>
     grace_start_ms \<le> now_ms \<and> now_ms < sat_add grace_start_ms grace_duration_ms"

definition is_expired :: "u64 \<Rightarrow> u64 \<Rightarrow> u64 \<Rightarrow> bool" where
  "is_expired grace_start_ms grace_duration_ms now_ms \<longleftrightarrow>
     sat_add grace_start_ms grace_duration_ms \<le> now_ms"

lemma grace_not_expired: "is_in_grace_period s d n \<Longrightarrow> \<not> is_expired s d n"
  by (simp add: is_in_grace_period_def is_expired_def not_le)

lemma expired_iff: "is_expired s d n \<longleftrightarrow> s \<le> n \<and> \<not> is_in_grace_period s d n"
  using sat_add_ge [of s d] by (auto simp: is_in_grace_period_def is_expired_def)

section \<open>Tree geometry\<close>

definition TREE_DEPTH :: nat where "TREE_DEPTH = 9"
definition TREE_LEAVES :: u64 where "TREE_LEAVES = push_bit TREE_DEPTH 1"
definition TREE_NODES :: nat where "TREE_NODES = push_bit (TREE_DEPTH + 1) 1 - 1"
definition SPARSE_ENTRY_LEN :: nat where "SPARSE_ENTRY_LEN = 34"
definition OFFSET_DEPTH :: nat where "OFFSET_DEPTH = 0"
definition OFFSET_NEXT_INDEX :: nat where "OFFSET_NEXT_INDEX = 1"
definition OFFSET_ROOT :: nat where "OFFSET_ROOT = 9"
definition ROOT_HISTORY_SIZE :: nat where "ROOT_HISTORY_SIZE = 4"
definition OFFSET_ROOT_HISTORY :: nat where "OFFSET_ROOT_HISTORY = 41"

definition OFFSET_CACHED_NODES :: nat where
  "OFFSET_CACHED_NODES = OFFSET_ROOT_HISTORY + ROOT_HISTORY_SIZE * 32"

definition OFFSET_TREE_DATA :: nat where
  "OFFSET_TREE_DATA = OFFSET_CACHED_NODES + (TREE_DEPTH + 1) * 32"

definition TREE_SHARD_MAX_BYTES :: nat where
  "TREE_SHARD_MAX_BYTES = OFFSET_TREE_DATA + 2 + TREE_NODES * SPARSE_ENTRY_LEN"

definition SHARD_MAX_BYTES :: nat where "SHARD_MAX_BYTES = 100 * 1024"

lemmas header_offsets =
  OFFSET_DEPTH_def OFFSET_NEXT_INDEX_def OFFSET_ROOT_def OFFSET_ROOT_HISTORY_def
  ROOT_HISTORY_SIZE_def OFFSET_CACHED_NODES_def OFFSET_TREE_DATA_def TREE_DEPTH_def

text \<open>The two compile-time assertions of the crate.\<close>

lemma depth_fits_u16_offsets: "TREE_DEPTH \<le> 15"
  by (simp add: TREE_DEPTH_def)

lemma full_tree_fits_in_one_shard: "TREE_SHARD_MAX_BYTES \<le> SHARD_MAX_BYTES"
  by (simp add: TREE_SHARD_MAX_BYTES_def SHARD_MAX_BYTES_def TREE_NODES_def SPARSE_ENTRY_LEN_def
      push_bit_eq_mult header_offsets)

lemma offset_tree_data [simp]: "OFFSET_TREE_DATA = 489"
  by (simp add: header_offsets)

lemma unat_TREE_LEAVES [simp]: "unat TREE_LEAVES = 512"
  by (simp add: TREE_LEAVES_def TREE_DEPTH_def push_bit_eq_mult)

section \<open>The tree header\<close>

text \<open>\<open>TreeMainLayout\<close>: the packed header at the front of the tree shard.\<close>

record tree_main_layout =
  tml_tree_depth :: u8
  tml_next_index :: u64
  tml_current_root :: bytes
  tml_root_history :: "bytes list"

definition TreeMainLayout_SIZE :: nat where "TreeMainLayout_SIZE = 169"

definition TreeMainLayout_parse :: "bytes \<Rightarrow> tree_main_layout result" where
  "TreeMainLayout_parse data =
     rbind (read_slice 0 TreeMainLayout_SIZE data) (\<lambda>h.
       Inr \<lparr>tml_tree_depth = h ! 0, tml_next_index = u64_of (slice 1 8 h),
            tml_current_root = slice 9 32 h,
            tml_root_history = map (\<lambda>i. slice (41 + i * 32) 32 h) [0..<4]\<rparr>)"

section \<open>Exit codes\<close>

definition EXIT_STALE_CLOCK :: u8 where "EXIT_STALE_CLOCK = 10"
definition EXIT_CLOCK_NOT_INITIALIZED :: u8 where "EXIT_CLOCK_NOT_INITIALIZED = 11"
definition EXIT_STALE_CONFIG :: u8 where "EXIT_STALE_CONFIG = 12"
definition EXIT_RATE_LIMIT_FULL :: u8 where "EXIT_RATE_LIMIT_FULL = 13"
definition EXIT_MEMBERSHIP_EXISTS :: u8 where "EXIT_MEMBERSHIP_EXISTS = 14"
definition EXIT_MEMBERSHIP_MISSING :: u8 where "EXIT_MEMBERSHIP_MISSING = 15"
definition EXIT_STALE_RATE_LIMIT :: u8 where "EXIT_STALE_RATE_LIMIT = 16"
definition EXIT_NOT_IN_GRACE_PERIOD :: u8 where "EXIT_NOT_IN_GRACE_PERIOD = 17"
definition EXIT_NOT_EXPIRED :: u8 where "EXIT_NOT_EXPIRED = 18"
definition EXIT_LEAF_MISMATCH :: u8 where "EXIT_LEAF_MISMATCH = 19"
definition EXIT_TREE_FULL :: u8 where "EXIT_TREE_FULL = 20"

lemmas exit_codes =
  EXIT_STALE_CLOCK_def EXIT_CLOCK_NOT_INITIALIZED_def EXIT_STALE_CONFIG_def
  EXIT_RATE_LIMIT_FULL_def EXIT_MEMBERSHIP_EXISTS_def EXIT_MEMBERSHIP_MISSING_def
  EXIT_STALE_RATE_LIMIT_def EXIT_NOT_IN_GRACE_PERIOD_def EXIT_NOT_EXPIRED_def
  EXIT_LEAF_MISMATCH_def EXIT_TREE_FULL_def

definition exit_code_name :: "u32 \<Rightarrow> string option" where
  "exit_code_name code =
     (if unat code \<ge> 256 then None
      else let c = ucast code :: u8 in
        if c = EXIT_STALE_CLOCK then Some ''StaleClock''
        else if c = EXIT_CLOCK_NOT_INITIALIZED then Some ''ClockNotInitialized''
        else if c = EXIT_STALE_CONFIG then Some ''StaleConfig''
        else if c = EXIT_RATE_LIMIT_FULL then Some ''RateLimitFull''
        else if c = EXIT_MEMBERSHIP_EXISTS then Some ''MembershipExists''
        else if c = EXIT_MEMBERSHIP_MISSING then Some ''MembershipMissing''
        else if c = EXIT_STALE_RATE_LIMIT then Some ''StaleRateLimit''
        else if c = EXIT_NOT_IN_GRACE_PERIOD then Some ''NotInGracePeriod''
        else if c = EXIT_NOT_EXPIRED then Some ''NotExpired''
        else if c = EXIT_LEAF_MISMATCH then Some ''LeafMismatch''
        else if c = EXIT_TREE_FULL then Some ''TreeFull''
        else None)"

text \<open>
  \<open>ensure!(cond, code, ..)\<close>: log the message and halt with \<open>code\<close> unless \<open>cond\<close>
  (\<open>methods/guest/src/fail.rs\<close>).
\<close>

definition fail :: "u8 \<Rightarrow> string \<Rightarrow> 'a result" where
  "fail code msg = Inl (Halt code msg)"

definition ensure :: "bool \<Rightarrow> u8 \<Rightarrow> string \<Rightarrow> unit result" where
  "ensure cond code msg = (if \<not> cond then fail code msg else Inr ())"

lemma ensure_Inr_iff [result_simps]: "ensure c k msg = Inr u \<longleftrightarrow> c"
  by (simp add: ensure_def fail_def)

lemma ensure_Inl_iff [result_simps]: "ensure c k msg = Inl e \<longleftrightarrow> \<not> c \<and> e = Halt k msg"
  by (auto simp: ensure_def fail_def)

lemma ensure_simps [simp]: "ensure True k msg = Inr ()" "ensure False k msg = Inl (Halt k msg)"
  by (simp_all add: ensure_def fail_def)

section \<open>Properties\<close>

text \<open>
  At any moment a membership is in exactly one of the active, grace and expired windows, and time
  only moves it forward: once in grace it is never active again, once expired it stays expired.
\<close>

theorem membership_windows:
  "(now < s \<or> is_in_grace_period s d now \<or> is_expired s d now) \<and>
   \<not> (now < s \<and> is_in_grace_period s d now) \<and> \<not> (now < s \<and> is_expired s d now) \<and>
   \<not> (is_in_grace_period s d now \<and> is_expired s d now) \<and>
   (is_expired s d now \<and> now \<le> later \<longrightarrow> is_expired s d later)"
  using sat_add_ge [of s d] by (auto simp: is_in_grace_period_def is_expired_def)

theorem membership_windows_witness:
  "is_in_grace_period 100 50 120 \<and> \<not> is_expired 100 50 120 \<and> is_expired 100 50 180"
  using membership_windows [of 120 100 50 130] membership_windows [of 170 100 50 180]
  by (simp add: is_in_grace_period_def is_expired_def sat_add_def)

end
