(* ===== verification/State.thy ===== *)
theory State
  imports Borsh Layouts
begin

text \<open>
  \<open>rln-layouts/src/state.rs\<close>: the Borsh-encoded shards of the registration program, and the
  byte-offset table by which the host reads their fields, \<open>src/rln/constants.rs\<close>.
\<close>

section \<open>The two states\<close>

record config_state =
  cs_merkle_program_id :: bytes
  cs_tree_id :: bytes
  cs_price_per_unit :: u128
  cs_treasury_account_id :: bytes
  cs_total_registrations :: u64
  cs_max_total_rate_limit :: u64
  cs_current_total_rate_limit :: u64
  cs_active_duration_sec :: u32
  cs_grace_period_duration_sec :: u32

record membership_state =
  ms_rate_limit :: u64
  ms_id_commitment :: bytes
  ms_grace_period_start_timestamp_ms :: u64
  ms_active_duration_sec :: u32
  ms_grace_period_duration_sec :: u32

definition can_register :: "config_state \<Rightarrow> u64 \<Rightarrow> bool" where
  "can_register config rate_limit \<longleftrightarrow>
     sat_add (cs_current_total_rate_limit config) rate_limit \<le> cs_max_total_rate_limit config"

definition CONFIG_STATE_SIZE :: nat where "CONFIG_STATE_SIZE = 144"
definition MEMBERSHIP_STATE_SIZE :: nat where "MEMBERSHIP_STATE_SIZE = 56"

section \<open>Borsh\<close>

definition enc_config :: "config_state \<Rightarrow> bytes" where
  "enc_config c =
     cs_merkle_program_id c @ cs_tree_id c @ u128_le (cs_price_per_unit c) @
     cs_treasury_account_id c @ u64_le (cs_total_registrations c) @
     u64_le (cs_max_total_rate_limit c) @ u64_le (cs_current_total_rate_limit c) @
     u32_le (cs_active_duration_sec c) @ u32_le (cs_grace_period_duration_sec c)"

definition dec_config :: "config_state decoder" where
  "dec_config =
     dec_then dec_32 (\<lambda>m. dec_then dec_32 (\<lambda>t. dec_then dec_u128 (\<lambda>p.
     dec_then dec_32 (\<lambda>a. dec_then dec_u64 (\<lambda>n. dec_then dec_u64 (\<lambda>x.
     dec_then dec_u64 (\<lambda>c. dec_then dec_u32 (\<lambda>d. dec_then dec_u32 (\<lambda>g.
     dec_return \<lparr>cs_merkle_program_id = m, cs_tree_id = t, cs_price_per_unit = p,
       cs_treasury_account_id = a, cs_total_registrations = n, cs_max_total_rate_limit = x,
       cs_current_total_rate_limit = c, cs_active_duration_sec = d,
       cs_grace_period_duration_sec = g\<rparr>)))))))))"

definition enc_membership :: "membership_state \<Rightarrow> bytes" where
  "enc_membership m =
     u64_le (ms_rate_limit m) @ ms_id_commitment m @ u64_le (ms_grace_period_start_timestamp_ms m) @
     u32_le (ms_active_duration_sec m) @ u32_le (ms_grace_period_duration_sec m)"

definition dec_membership :: "membership_state decoder" where
  "dec_membership =
     dec_then dec_u64 (\<lambda>l. dec_then dec_32 (\<lambda>c. dec_then dec_u64 (\<lambda>s.
     dec_then dec_u32 (\<lambda>d. dec_then dec_u32 (\<lambda>g.
     dec_return \<lparr>ms_rate_limit = l, ms_id_commitment = c, ms_grace_period_start_timestamp_ms = s,
       ms_active_duration_sec = d, ms_grace_period_duration_sec = g\<rparr>)))))"

text \<open>The arrays of a value are 32 bytes, as their types say.\<close>

definition config_ok :: "config_state \<Rightarrow> bool" where
  "config_ok c \<longleftrightarrow> bytes32 (cs_merkle_program_id c) \<and> bytes32 (cs_tree_id c) \<and> bytes32 (cs_treasury_account_id c)"

definition membership_ok :: "membership_state \<Rightarrow> bool" where
  "membership_ok m \<longleftrightarrow> bytes32 (ms_id_commitment m)"

interpretation config_codec: codec config_ok enc_config dec_config
proof
  show "config_ok c \<Longrightarrow> dec_config (enc_config c @ r) = Some (c, r)" for c r
    by (simp add: config_ok_def enc_config_def dec_config_def dec_simps)
  show "dec_config b = Some (c, r) \<Longrightarrow> config_ok c \<and> b = enc_config c @ r" for b c r
    unfolding dec_config_def
    by (auto elim!: dec_then_Some dest!: dec_dests simp: dec_simps config_ok_def enc_config_def)
qed

interpretation membership_codec: codec membership_ok enc_membership dec_membership
proof
  show "membership_ok c \<Longrightarrow> dec_membership (enc_membership c @ r) = Some (c, r)" for c r
    by (simp add: membership_ok_def enc_membership_def dec_membership_def dec_simps)
  show "dec_membership b = Some (c, r) \<Longrightarrow> membership_ok c \<and> b = enc_membership c @ r" for b c r
    unfolding dec_membership_def
    by (auto elim!: dec_then_Some dest!: dec_dests simp: dec_simps membership_ok_def enc_membership_def)
qed

lemma length_enc_config: "config_ok c \<Longrightarrow> length (enc_config c) = CONFIG_STATE_SIZE"
  by (simp add: config_ok_def enc_config_def CONFIG_STATE_SIZE_def)

lemma length_enc_membership: "membership_ok m \<Longrightarrow> length (enc_membership m) = MEMBERSHIP_STATE_SIZE"
  by (simp add: membership_ok_def enc_membership_def MEMBERSHIP_STATE_SIZE_def)

section \<open>The offset table of \<open>src/rln/constants.rs\<close>\<close>

definition CONFIG_OFFSET_MERKLE_PROGRAM_ID :: nat where "CONFIG_OFFSET_MERKLE_PROGRAM_ID = 0"
definition CONFIG_OFFSET_TREE_ID :: nat where "CONFIG_OFFSET_TREE_ID = 32"
definition CONFIG_OFFSET_PRICE_PER_UNIT :: nat where "CONFIG_OFFSET_PRICE_PER_UNIT = 64"
definition CONFIG_OFFSET_TREASURY_ACCOUNT_ID :: nat where "CONFIG_OFFSET_TREASURY_ACCOUNT_ID = 80"
definition CONFIG_OFFSET_TOTAL_REGISTRATIONS :: nat where "CONFIG_OFFSET_TOTAL_REGISTRATIONS = 112"
definition CONFIG_OFFSET_MAX_TOTAL_RATE_LIMIT :: nat where "CONFIG_OFFSET_MAX_TOTAL_RATE_LIMIT = 120"
definition CONFIG_OFFSET_CURRENT_TOTAL_RATE_LIMIT :: nat where "CONFIG_OFFSET_CURRENT_TOTAL_RATE_LIMIT = 128"
definition CONFIG_OFFSET_ACTIVE_DURATION :: nat where "CONFIG_OFFSET_ACTIVE_DURATION = 136"
definition CONFIG_OFFSET_GRACE_PERIOD_DURATION :: nat where "CONFIG_OFFSET_GRACE_PERIOD_DURATION = 140"
definition MEMBERSHIP_OFFSET_RATE_LIMIT :: nat where "MEMBERSHIP_OFFSET_RATE_LIMIT = 0"
definition MEMBERSHIP_OFFSET_ID_COMMITMENT :: nat where "MEMBERSHIP_OFFSET_ID_COMMITMENT = 8"
definition MEMBERSHIP_OFFSET_GRACE_PERIOD_START_TIMESTAMP :: nat where
  "MEMBERSHIP_OFFSET_GRACE_PERIOD_START_TIMESTAMP = 40"
definition MEMBERSHIP_OFFSET_ACTIVE_DURATION :: nat where "MEMBERSHIP_OFFSET_ACTIVE_DURATION = 48"
definition MEMBERSHIP_OFFSET_GRACE_PERIOD_DURATION :: nat where "MEMBERSHIP_OFFSET_GRACE_PERIOD_DURATION = 52"

lemmas config_offsets = CONFIG_OFFSET_MERKLE_PROGRAM_ID_def CONFIG_OFFSET_TREE_ID_def CONFIG_OFFSET_PRICE_PER_UNIT_def
  CONFIG_OFFSET_TREASURY_ACCOUNT_ID_def CONFIG_OFFSET_TOTAL_REGISTRATIONS_def CONFIG_OFFSET_MAX_TOTAL_RATE_LIMIT_def
  CONFIG_OFFSET_CURRENT_TOTAL_RATE_LIMIT_def CONFIG_OFFSET_ACTIVE_DURATION_def CONFIG_OFFSET_GRACE_PERIOD_DURATION_def

lemmas membership_offsets = MEMBERSHIP_OFFSET_RATE_LIMIT_def MEMBERSHIP_OFFSET_ID_COMMITMENT_def
  MEMBERSHIP_OFFSET_GRACE_PERIOD_START_TIMESTAMP_def MEMBERSHIP_OFFSET_ACTIVE_DURATION_def
  MEMBERSHIP_OFFSET_GRACE_PERIOD_DURATION_def

lemma slice_skip: "length a \<le> n \<Longrightarrow> slice n m (a @ b) = slice (n - length a) m b"
  by (simp add: slice_def)

lemma slice_front: "length a = m \<Longrightarrow> slice 0 m (a @ b) = a"
  by (simp add: slice_def)

lemma slice_whole: "length a = m \<Longrightarrow> slice 0 m a = a"
  by (simp add: slice_def)

lemmas slice_fields = slice_skip slice_front slice_whole

section \<open>Properties\<close>

text \<open>
  A config shard decodes exactly when it is the Borsh encoding of a config: decoding inverts
  encoding, rejects trailing or missing bytes, and every encoding is \<open>CONFIG_STATE_SIZE\<close> bytes long.
\<close>

theorem config_shard_round_trip:
  "from_slice dec_config b = Some c \<longleftrightarrow> config_ok c \<and> b = enc_config c \<and> length b = CONFIG_STATE_SIZE"
  using config_codec.from_slice_iff [of b c] length_enc_config [of c] by blast

text \<open>A membership shard decodes exactly when it is the encoding of a membership, of \<open>MEMBERSHIP_STATE_SIZE\<close> bytes.\<close>

theorem membership_shard_round_trip:
  "from_slice dec_membership b = Some m \<longleftrightarrow>
     membership_ok m \<and> b = enc_membership m \<and> length b = MEMBERSHIP_STATE_SIZE"
  using membership_codec.from_slice_iff [of b m] length_enc_membership [of m] by blast

text \<open>
  The offset table of the host reads the guest's encoding: each field of a config and of a
  membership sits at its offset, at its width.
\<close>

theorem offsets_match_encoding:
  assumes "config_ok c" and "membership_ok m"
  shows "slice CONFIG_OFFSET_MERKLE_PROGRAM_ID 32 (enc_config c) = cs_merkle_program_id c \<and>
    slice CONFIG_OFFSET_TREE_ID 32 (enc_config c) = cs_tree_id c \<and>
    u128_of (slice CONFIG_OFFSET_PRICE_PER_UNIT 16 (enc_config c)) = cs_price_per_unit c \<and>
    slice CONFIG_OFFSET_TREASURY_ACCOUNT_ID 32 (enc_config c) = cs_treasury_account_id c \<and>
    u64_of (slice CONFIG_OFFSET_TOTAL_REGISTRATIONS 8 (enc_config c)) = cs_total_registrations c \<and>
    u64_of (slice CONFIG_OFFSET_MAX_TOTAL_RATE_LIMIT 8 (enc_config c)) = cs_max_total_rate_limit c \<and>
    u64_of (slice CONFIG_OFFSET_CURRENT_TOTAL_RATE_LIMIT 8 (enc_config c)) = cs_current_total_rate_limit c \<and>
    u32_of (slice CONFIG_OFFSET_ACTIVE_DURATION 4 (enc_config c)) = cs_active_duration_sec c \<and>
    u32_of (slice CONFIG_OFFSET_GRACE_PERIOD_DURATION 4 (enc_config c)) = cs_grace_period_duration_sec c \<and>
    u64_of (slice MEMBERSHIP_OFFSET_RATE_LIMIT 8 (enc_membership m)) = ms_rate_limit m \<and>
    slice MEMBERSHIP_OFFSET_ID_COMMITMENT 32 (enc_membership m) = ms_id_commitment m \<and>
    u64_of (slice MEMBERSHIP_OFFSET_GRACE_PERIOD_START_TIMESTAMP 8 (enc_membership m)) =
      ms_grace_period_start_timestamp_ms m \<and>
    u32_of (slice MEMBERSHIP_OFFSET_ACTIVE_DURATION 4 (enc_membership m)) = ms_active_duration_sec m \<and>
    u32_of (slice MEMBERSHIP_OFFSET_GRACE_PERIOD_DURATION 4 (enc_membership m)) = ms_grace_period_duration_sec m"
  using assms
  by (simp add: config_ok_def membership_ok_def enc_config_def enc_membership_def config_offsets membership_offsets
      slice_fields)

theorem offsets_match_encoding_witness:
  "u128_of (slice CONFIG_OFFSET_PRICE_PER_UNIT 16 (enc_config
     \<lparr>cs_merkle_program_id = replicate 32 1, cs_tree_id = replicate 32 2, cs_price_per_unit = 10,
      cs_treasury_account_id = replicate 32 3, cs_total_registrations = 4, cs_max_total_rate_limit = 5,
      cs_current_total_rate_limit = 6, cs_active_duration_sec = 7, cs_grace_period_duration_sec = 8\<rparr>)) = 10"
  using offsets_match_encoding [of "\<lparr>cs_merkle_program_id = replicate 32 1, cs_tree_id = replicate 32 2, cs_price_per_unit = 10,
      cs_treasury_account_id = replicate 32 3, cs_total_registrations = 4, cs_max_total_rate_limit = 5,
      cs_current_total_rate_limit = 6, cs_active_duration_sec = 7, cs_grace_period_duration_sec = 8\<rparr>"
      "\<lparr>ms_rate_limit = 1, ms_id_commitment = replicate 32 1, ms_grace_period_start_timestamp_ms = 2,
       ms_active_duration_sec = 3, ms_grace_period_duration_sec = 4\<rparr>"]
  by (simp add: config_ok_def membership_ok_def)

end
