(* ===== verification/Instruction.thy ===== *)
theory Instruction
  imports Borsh
begin

text \<open>
  \<open>rln-layouts/src/instruction.rs\<close>: the instructions of the registration and merkle programs and
  their Borsh bytes. A variant is encoded as its declaration index, and its fields follow in
  declaration order; the arguments of a constructor stand in that order too.
\<close>

datatype instruction =
    Initialize (init_merkle_program_id: bytes) (init_tree_id: bytes) (init_price_per_unit: u128)
      (init_treasury_account_id: bytes) (init_max_total_rate_limit: u64)
      (init_active_duration_sec: u32) (init_grace_period_duration_sec: u32)
  | InitializeMerkleTree (tree_tree_id: bytes) (tree_merkle_program_id: bytes)
  | Register (reg_tree_id: bytes) (reg_id_commitment: bytes) (reg_rate_limit: u64)
      (reg_merkle_program_id: bytes) (reg_now_ms: u64) (reg_price_per_unit: u128)
      (reg_active_duration_sec: u32) (reg_grace_period_duration_sec: u32)
  | Slash (slash_tree_id: bytes) (slash_id_commitment: bytes) (slash_identity_secret: bytes)
      (slash_merkle_program_id: bytes) (slash_leaf_index: u64) (slash_rate_limit: u64)
  | Extend (ext_tree_id: bytes) (ext_id_commitment: bytes) (ext_now_ms: u64)
      (ext_price_per_unit: u128) (ext_rate_limit: u64)
  | Erase (er_tree_id: bytes) (er_id_commitment: bytes) (er_merkle_program_id: bytes)
      (er_leaf_index: u64) (er_rate_limit: u64) (er_now_ms: u64)

datatype merkle_instruction =
    MInitialize
  | MInsert bytes
  | MRemove u64 bytes
  | MSet u64 bytes

section \<open>Encoding\<close>

fun enc_instruction :: "instruction \<Rightarrow> bytes" where
  "enc_instruction (Initialize m t p a x d g) =
     0 # m @ t @ u128_le p @ a @ u64_le x @ u32_le d @ u32_le g"
| "enc_instruction (InitializeMerkleTree t m) = 1 # t @ m"
| "enc_instruction (Register t c l m n p d g) =
     2 # t @ c @ u64_le l @ m @ u64_le n @ u128_le p @ u32_le d @ u32_le g"
| "enc_instruction (Slash t c s m i l) = 3 # t @ c @ s @ m @ u64_le i @ u64_le l"
| "enc_instruction (Extend t c n p l) = 4 # t @ c @ u64_le n @ u128_le p @ u64_le l"
| "enc_instruction (Erase t c m i l n) = 5 # t @ c @ m @ u64_le i @ u64_le l @ u64_le n"

fun enc_merkle_instruction :: "merkle_instruction \<Rightarrow> bytes" where
  "enc_merkle_instruction MInitialize = [0]"
| "enc_merkle_instruction (MInsert leaf) = 1 # leaf"
| "enc_merkle_instruction (MRemove index leaf) = 2 # u64_le index @ leaf"
| "enc_merkle_instruction (MSet index leaf) = 3 # u64_le index @ leaf"

section \<open>Decoding\<close>

definition dec_instruction :: "instruction decoder" where
  "dec_instruction = dec_then dec_u8 (\<lambda>tag.
     if tag = 0 then
       dec_then dec_32 (\<lambda>m. dec_then dec_32 (\<lambda>t. dec_then dec_u128 (\<lambda>p. dec_then dec_32 (\<lambda>a.
       dec_then dec_u64 (\<lambda>x. dec_then dec_u32 (\<lambda>d. dec_then dec_u32 (\<lambda>g.
       dec_return (Initialize m t p a x d g))))))))
     else if tag = 1 then
       dec_then dec_32 (\<lambda>t. dec_then dec_32 (\<lambda>m. dec_return (InitializeMerkleTree t m)))
     else if tag = 2 then
       dec_then dec_32 (\<lambda>t. dec_then dec_32 (\<lambda>c. dec_then dec_u64 (\<lambda>l. dec_then dec_32 (\<lambda>m.
       dec_then dec_u64 (\<lambda>n. dec_then dec_u128 (\<lambda>p. dec_then dec_u32 (\<lambda>d. dec_then dec_u32 (\<lambda>g.
       dec_return (Register t c l m n p d g)))))))))
     else if tag = 3 then
       dec_then dec_32 (\<lambda>t. dec_then dec_32 (\<lambda>c. dec_then dec_32 (\<lambda>s. dec_then dec_32 (\<lambda>m.
       dec_then dec_u64 (\<lambda>i. dec_then dec_u64 (\<lambda>l. dec_return (Slash t c s m i l)))))))
     else if tag = 4 then
       dec_then dec_32 (\<lambda>t. dec_then dec_32 (\<lambda>c. dec_then dec_u64 (\<lambda>n. dec_then dec_u128 (\<lambda>p.
       dec_then dec_u64 (\<lambda>l. dec_return (Extend t c n p l))))))
     else if tag = 5 then
       dec_then dec_32 (\<lambda>t. dec_then dec_32 (\<lambda>c. dec_then dec_32 (\<lambda>m. dec_then dec_u64 (\<lambda>i.
       dec_then dec_u64 (\<lambda>l. dec_then dec_u64 (\<lambda>n. dec_return (Erase t c m i l n)))))))
     else dec_fail)"

definition dec_merkle_instruction :: "merkle_instruction decoder" where
  "dec_merkle_instruction = dec_then dec_u8 (\<lambda>tag.
     if tag = 0 then dec_return MInitialize
     else if tag = 1 then dec_then dec_32 (\<lambda>leaf. dec_return (MInsert leaf))
     else if tag = 2 then dec_then dec_u64 (\<lambda>i. dec_then dec_32 (\<lambda>leaf. dec_return (MRemove i leaf)))
     else if tag = 3 then dec_then dec_u64 (\<lambda>i. dec_then dec_32 (\<lambda>leaf. dec_return (MSet i leaf)))
     else dec_fail)"

text \<open>The arrays are 32 bytes, as their types say.\<close>

fun instruction_ok :: "instruction \<Rightarrow> bool" where
  "instruction_ok (Initialize m t p a x d g) \<longleftrightarrow> bytes32 m \<and> bytes32 t \<and> bytes32 a"
| "instruction_ok (InitializeMerkleTree t m) \<longleftrightarrow> bytes32 t \<and> bytes32 m"
| "instruction_ok (Register t c l m n p d g) \<longleftrightarrow> bytes32 t \<and> bytes32 c \<and> bytes32 m"
| "instruction_ok (Slash t c s m i l) \<longleftrightarrow> bytes32 t \<and> bytes32 c \<and> bytes32 s \<and> bytes32 m"
| "instruction_ok (Extend t c n p l) \<longleftrightarrow> bytes32 t \<and> bytes32 c"
| "instruction_ok (Erase t c m i l n) \<longleftrightarrow> bytes32 t \<and> bytes32 c \<and> bytes32 m"

fun merkle_instruction_ok :: "merkle_instruction \<Rightarrow> bool" where
  "merkle_instruction_ok MInitialize \<longleftrightarrow> True"
| "merkle_instruction_ok (MInsert leaf) \<longleftrightarrow> bytes32 leaf"
| "merkle_instruction_ok (MRemove index leaf) \<longleftrightarrow> bytes32 leaf"
| "merkle_instruction_ok (MSet index leaf) \<longleftrightarrow> bytes32 leaf"

interpretation instruction_codec: codec instruction_ok enc_instruction dec_instruction
proof
  show "instruction_ok x \<Longrightarrow> dec_instruction (enc_instruction x @ r) = Some (x, r)" for x r
    by (cases x) (simp_all add: dec_instruction_def dec_simps)
  show "dec_instruction b = Some (x, r) \<Longrightarrow> instruction_ok x \<and> b = enc_instruction x @ r" for b x r
    unfolding dec_instruction_def
    by (auto elim!: dec_then_Some dest!: dec_dests simp: dec_simps dec_fail_def split: if_splits)
qed

interpretation merkle_codec: codec merkle_instruction_ok enc_merkle_instruction dec_merkle_instruction
proof
  show "merkle_instruction_ok x \<Longrightarrow> dec_merkle_instruction (enc_merkle_instruction x @ r) = Some (x, r)" for x r
    by (cases x) (simp_all add: dec_merkle_instruction_def dec_simps)
  show "dec_merkle_instruction b = Some (x, r) \<Longrightarrow> merkle_instruction_ok x \<and> b = enc_merkle_instruction x @ r"
    for b x r
    unfolding dec_merkle_instruction_def
    by (auto elim!: dec_then_Some dest!: dec_dests simp: dec_simps dec_fail_def split: if_splits)
qed

text \<open>The length of an encoding is fixed by its variant, and the two enums share none.\<close>

lemma length_enc_instruction:
  "instruction_ok x \<Longrightarrow> length (enc_instruction x) \<in> {129, 65, 137, 145, 97, 121}"
  by (cases x) simp_all

lemma length_enc_merkle: "merkle_instruction_ok x \<Longrightarrow> length (enc_merkle_instruction x) \<in> {1, 33, 41}"
  by (cases x) simp_all

section \<open>Properties\<close>

text \<open>
  C35. The instruction wire formats are exact: the bytes of each program's instruction decode to a
  value exactly when they are its encoding, and no bytes decode as an instruction of both programs,
  so a call meant for one program is never run by the other.
\<close>

theorem instructions_exact_and_disjoint:
  "(from_slice dec_instruction b = Some x \<longleftrightarrow> instruction_ok x \<and> b = enc_instruction x) \<and>
   (from_slice dec_merkle_instruction b = Some y \<longleftrightarrow> merkle_instruction_ok y \<and> b = enc_merkle_instruction y) \<and>
   \<not> (from_slice dec_instruction b = Some x \<and> from_slice dec_merkle_instruction b = Some y)"
  using instruction_codec.from_slice_iff [of b x] merkle_codec.from_slice_iff [of b y]
    length_enc_instruction [of x] length_enc_merkle [of y]
  by auto

end
