(* ===== verification/Lez.thy ===== *)
theory Lez
  imports Layouts
begin

text \<open>
  The data a LEZ program's plan and apply phases exchange with the runtime, as the sources use
  it (\<open>nssa_core::program\<close>, \<open>nssa_core::account\<close>): account metadata, plan inputs, shard effects,
  chained calls, and the \<open>Plan\<close> a program builds up. Account ids are 32-byte strings
  (\<open>AccountId::new\<close> and \<open>AccountId::value\<close> wrap and unwrap them).
\<close>

type_synonym account_id = bytes

record account_meta =
  account_id :: account_id
  is_authorized :: bool
  program_account_id :: account_id

record plan_input =
  self_account_id :: account_id
  caller_account_id :: "account_id option"
  accounts :: "account_meta list"
  instruction_data :: bytes

text \<open>A shard selector is an account id and the id of the program whose shard of it is meant.\<close>

type_synonym selector = "account_id \<times> account_id"

definition meta_selector :: "account_meta \<Rightarrow> selector" where
  "meta_selector m = (account_id m, program_account_id m)"

text \<open>
  A planned effect: the shard it runs on and the program's own payload. \<open>Plan::effect\<close> selects
  the metadata's shard, \<open>Plan::inspect\<close> a shard of a named program.
\<close>

record 'e shard_effect =
  effect_selector :: selector
  effect_data :: 'e

record chained_call =
  callee :: account_id
  shard_selectors :: "selector list"
  call_data :: bytes
  pda_seeds :: "bytes list"

record 'e plan =
  effects :: "'e shard_effect list"
  chained_calls :: "chained_call list"

definition new_plan :: "'e plan" where
  "new_plan = \<lparr>effects = [], chained_calls = []\<rparr>"

definition plan_effect :: "account_meta \<Rightarrow> 'e \<Rightarrow> 'e plan \<Rightarrow> 'e plan" where
  "plan_effect m e p = p\<lparr>effects := effects p @ [\<lparr>effect_selector = meta_selector m, effect_data = e\<rparr>]\<rparr>"

definition plan_inspect :: "account_meta \<Rightarrow> account_id \<Rightarrow> 'e \<Rightarrow> 'e plan \<Rightarrow> 'e plan" where
  "plan_inspect m program e p =
     p\<lparr>effects := effects p @ [\<lparr>effect_selector = (account_id m, program), effect_data = e\<rparr>]\<rparr>"

definition plan_call :: "chained_call \<Rightarrow> 'e plan \<Rightarrow> 'e plan" where
  "plan_call c p = p\<lparr>chained_calls := chained_calls p @ [c]\<rparr>"

lemmas plan_builders = new_plan_def plan_effect_def plan_inspect_def plan_call_def

end
