(* ===== verification/Pda.thy ===== *)
theory Pda
  imports Lez
begin

text \<open>
  Program-derived accounts: the seed helpers of \<open>rln-layouts/src/spel_pda.rs\<close>, the guest's seeds
  (\<open>methods/guest/src/program.rs\<close>), and the host's derivations (\<open>src/spel_seeds.rs\<close>, \<open>src/rln/pda.rs\<close>,
  \<open>src/merkle_tree/pda.rs\<close>). Both sides are shown to be one closed form, \<open>pda_config\<close> and its
  companions, so a selector the host builds is the one the guest wants.
\<close>

section \<open>Seeds\<close>

definition label_seed :: "string \<Rightarrow> bytes result" where
  "label_seed label =
     rbind (check (length (ascii label) \<le> 32) (Panic ''label too long'')) (\<lambda>_.
     write_slice 0 (ascii label) (replicate 32 0))"

definition u32_seed :: "u32 \<Rightarrow> bytes result" where
  "u32_seed v = write_slice 0 (u32_le v) (replicate 32 0)"

definition combine_seeds :: "external \<Rightarrow> bytes list \<Rightarrow> bytes result" where
  "combine_seeds E seeds =
     rbind (check (seeds \<noteq> []) (Panic ''PDA requires at least one seed'')) (\<lambda>_.
     if length seeds = 1 then Inr (seeds ! 0) else Inr (sha256 E (concat seeds)))"

section \<open>The guest's seeds\<close>

definition config_seed :: "external \<Rightarrow> bytes \<Rightarrow> bytes result" where
  "config_seed E tree_id = rbind (label_seed ''config'') (\<lambda>l. combine_seeds E [l, tree_id])"

definition main_seed :: "external \<Rightarrow> bytes \<Rightarrow> bytes result" where
  "main_seed E tree_id = rbind (label_seed ''main'') (\<lambda>l. combine_seeds E [l, tree_id])"

definition membership_seed :: "external \<Rightarrow> bytes \<Rightarrow> bytes \<Rightarrow> bytes result" where
  "membership_seed E tree_id id_commitment =
     rbind (label_seed ''membership'') (\<lambda>l. combine_seeds E [l, tree_id, id_commitment])"

section \<open>The host's derivations\<close>

definition derive_pda :: "external \<Rightarrow> account_id \<Rightarrow> bytes list \<Rightarrow> account_id result" where
  "derive_pda E program_id seeds =
     rbind (combine_seeds E seeds) (\<lambda>s. Inr (for_public_pda E program_id s))"

definition derive_config_account :: "external \<Rightarrow> account_id \<Rightarrow> bytes \<Rightarrow> account_id result" where
  "derive_config_account E program_id tree_id =
     rbind (label_seed ''config'') (\<lambda>l. derive_pda E program_id [l, tree_id])"

definition derive_membership_account :: "external \<Rightarrow> account_id \<Rightarrow> bytes \<Rightarrow> bytes \<Rightarrow> account_id result" where
  "derive_membership_account E program_id tree_id id_commitment =
     rbind (label_seed ''membership'') (\<lambda>l. derive_pda E program_id [l, tree_id, id_commitment])"

definition membership_pda_seed :: "external \<Rightarrow> bytes \<Rightarrow> bytes \<Rightarrow> bytes result" where
  "membership_pda_seed E tree_id id_commitment =
     rbind (label_seed ''membership'') (\<lambda>l. combine_seeds E [l, tree_id, id_commitment])"

definition main_pda_seed :: "external \<Rightarrow> bytes \<Rightarrow> bytes result" where
  "main_pda_seed E tree_id = rbind (label_seed ''main'') (\<lambda>l. combine_seeds E [l, tree_id])"

definition derive_main_account :: "external \<Rightarrow> account_id \<Rightarrow> bytes \<Rightarrow> account_id result" where
  "derive_main_account E registration_program_id tree_id =
     rbind (main_pda_seed E tree_id) (\<lambda>s. Inr (for_public_pda E registration_program_id s))"

section \<open>Closed forms\<close>

definition padded :: "string \<Rightarrow> bytes" where
  "padded label = ascii label @ replicate (32 - length label) 0"

definition seed_config :: "external \<Rightarrow> bytes \<Rightarrow> bytes" where
  "seed_config E tree_id = sha256 E (padded ''config'' @ tree_id)"

definition seed_main :: "external \<Rightarrow> bytes \<Rightarrow> bytes" where
  "seed_main E tree_id = sha256 E (padded ''main'' @ tree_id)"

definition seed_membership :: "external \<Rightarrow> bytes \<Rightarrow> bytes \<Rightarrow> bytes" where
  "seed_membership E tree_id c = sha256 E (padded ''membership'' @ tree_id @ c)"

definition pda_config :: "external \<Rightarrow> account_id \<Rightarrow> bytes \<Rightarrow> account_id" where
  "pda_config E p tree_id = for_public_pda E p (seed_config E tree_id)"

definition pda_main :: "external \<Rightarrow> account_id \<Rightarrow> bytes \<Rightarrow> account_id" where
  "pda_main E p tree_id = for_public_pda E p (seed_main E tree_id)"

definition pda_membership :: "external \<Rightarrow> account_id \<Rightarrow> bytes \<Rightarrow> bytes \<Rightarrow> account_id" where
  "pda_membership E p tree_id c = for_public_pda E p (seed_membership E tree_id c)"

lemma label_seed_ok: "length label \<le> 32 \<Longrightarrow> label_seed label = Inr (padded label)"
  by (simp add: label_seed_def write_slice_def splice_def padded_def)

lemma length_padded: "length label \<le> 32 \<Longrightarrow> length (padded label) = 32"
  by (simp add: padded_def)

lemma seed_forms [simp]:
  "config_seed E t = Inr (seed_config E t)"
  "main_seed E t = Inr (seed_main E t)"
  "membership_seed E t c = Inr (seed_membership E t c)"
  "membership_pda_seed E t c = Inr (seed_membership E t c)"
  "main_pda_seed E t = Inr (seed_main E t)"
  by (simp_all add: config_seed_def main_seed_def membership_seed_def membership_pda_seed_def
      main_pda_seed_def label_seed_ok combine_seeds_def seed_config_def seed_main_def seed_membership_def)

lemma derive_forms [simp]:
  "derive_config_account E p t = Inr (pda_config E p t)"
  "derive_membership_account E p t c = Inr (pda_membership E p t c)"
  "derive_main_account E p t = Inr (pda_main E p t)"
  by (simp_all add: derive_config_account_def derive_membership_account_def derive_main_account_def
      derive_pda_def label_seed_ok combine_seeds_def pda_config_def pda_membership_def pda_main_def
      seed_config_def seed_membership_def)

text \<open>Distinct labels stay distinct when padded, so the hashed preimages never coincide.\<close>

lemma padded_distinct:
  "padded ''config'' \<noteq> padded ''main''" "padded ''config'' \<noteq> padded ''membership''"
  "padded ''main'' \<noteq> padded ''membership''"
  by (simp_all add: padded_def ascii_def)

section \<open>Properties\<close>

text \<open>
  The host derives the accounts the guest wants: for the config, the membership and the tree
  account, deriving on the host gives the program-derived account of the guest's own seed.
\<close>

theorem host_guest_accounts:
  "derive_config_account E p t = rbind (config_seed E t) (\<lambda>s. Inr (for_public_pda E p s)) \<and>
   derive_membership_account E p t c = rbind (membership_seed E t c) (\<lambda>s. Inr (for_public_pda E p s)) \<and>
   derive_main_account E p t = rbind (main_seed E t) (\<lambda>s. Inr (for_public_pda E p s)) \<and>
   membership_pda_seed E t c = membership_seed E t c \<and> main_pda_seed E t = main_seed E t"
  by (simp add: pda_config_def pda_membership_def pda_main_def)

end
