(* ===== verification/Hash.thy ===== *)
theory Hash
  imports Layouts
begin

text \<open>
  \<open>methods/guest/src/hash.rs\<close>: hashing over the Poseidon crate (the parameter
  \<open>external\<close>), with the field-element check in front of every hash, and the pinned table of
  empty-subtree hashes. \<open>default_ladder\<close> states what the repository's test
  \<open>default_hashes_match_the_ladder\<close> checks: the table is \<open>H(zero, zero)\<close> folded upward.
\<close>

definition ZERO :: bytes where "ZERO = replicate 32 0"

lemma length_ZERO [simp]: "length ZERO = 32"
  by (simp add: ZERO_def)

definition validate_field_element :: "external \<Rightarrow> bytes \<Rightarrow> unit result" where
  "validate_field_element E b =
     check (felt_valid E b) (Panic ''Input is not a valid BN254 field element (must be < prime)'')"

definition hash_single :: "external \<Rightarrow> bytes \<Rightarrow> bytes result" where
  "hash_single E input = rbind (validate_field_element E input) (\<lambda>_. Inr (compress1 E input))"

definition hash_pair :: "external \<Rightarrow> bytes \<Rightarrow> bytes \<Rightarrow> bytes result" where
  "hash_pair E left right =
     rbind (validate_field_element E left) (\<lambda>_.
     rbind (validate_field_element E right) (\<lambda>_.
     Inr (compress2 E left right)))"

definition DEFAULT_HASHES :: "bytes list" where
  "DEFAULT_HASHES =
    [[71, 215, 252, 20, 166, 86, 33, 62, 171, 40, 226, 227, 204, 122, 94, 228, 102, 31, 148,
      158, 56, 128, 183, 236, 33, 253, 216, 208, 118, 67, 136, 14],
     [97, 204, 243, 153, 58, 190, 76, 68, 26, 33, 65, 74, 39, 46, 107, 97, 42, 71, 100, 69,
      134, 236, 27, 80, 166, 39, 96, 143, 241, 229, 165, 47],
     [157, 52, 135, 60, 190, 170, 164, 168, 127, 172, 181, 140, 168, 21, 5, 139, 123, 89, 57,
      182, 30, 96, 207, 130, 233, 132, 43, 162, 229, 149, 130, 7],
     [120, 157, 160, 46, 163, 221, 17, 29, 97, 83, 185, 81, 105, 30, 215, 254, 188, 225, 169,
      204, 34, 125, 234, 70, 150, 69, 102, 166, 197, 147, 238, 45],
     [85, 63, 24, 57, 22, 236, 92, 123, 77, 173, 178, 148, 140, 197, 153, 166, 7, 41, 243,
      93, 76, 31, 99, 201, 245, 179, 70, 135, 94, 207, 148, 43],
     [42, 149, 188, 157, 85, 151, 172, 202, 101, 130, 86, 26, 87, 40, 183, 241, 69, 35, 165,
      59, 233, 255, 32, 99, 211, 176, 23, 203, 55, 216, 249, 7],
     [56, 210, 86, 184, 178, 126, 213, 40, 213, 29, 55, 80, 234, 110, 124, 70, 6, 33, 247,
      80, 141, 117, 61, 46, 175, 226, 126, 83, 49, 51, 244, 24],
     [225, 241, 177, 96, 68, 119, 164, 103, 240, 141, 198, 157, 203, 68, 26, 38, 236, 167,
      132, 245, 111, 26, 48, 223, 99, 34, 177, 205, 61, 103, 105, 16],
     [100, 72, 182, 70, 132, 238, 57, 168, 35, 213, 254, 95, 213, 36, 49, 220, 129, 228, 129,
      123, 242, 195, 234, 60, 171, 158, 35, 158, 251, 245, 152, 32],
     [0, 0, 0, 0, 0, 0, 0, 0, 0, 0, 0, 0, 0, 0, 0, 0, 0, 0, 0, 0, 0, 0, 0, 0, 0, 0, 0, 0, 0,
      0, 0, 0]]"

definition compute_default_hashes :: "nat \<Rightarrow> bytes list result" where
  "compute_default_hashes depth =
     rbind (check (depth = TREE_DEPTH)
              (Panic ''only the pinned tree depth has a precomputed hash table'')) (\<lambda>_.
     Inr DEFAULT_HASHES)"

lemma hash_single_Inr_iff [result_simps]:
  "hash_single E a = Inr h \<longleftrightarrow> felt_valid E a \<and> h = compress1 E a"
  by (auto simp: hash_single_def validate_field_element_def check_def)

lemma hash_pair_Inr_iff [result_simps]:
  "hash_pair E a b = Inr h \<longleftrightarrow> felt_valid E a \<and> felt_valid E b \<and> h = compress2 E a b"
  by (auto simp: hash_pair_def validate_field_element_def check_def)

lemma hash_pair_ok: "felt_valid E a \<Longrightarrow> felt_valid E b \<Longrightarrow> hash_pair E a b = Inr (compress2 E a b)"
  by (simp add: hash_pair_Inr_iff)

lemma length_DEFAULT_HASHES [simp]: "length DEFAULT_HASHES = 10"
  by (simp add: DEFAULT_HASHES_def)

lemma DEFAULT_HASHES_leaf: "DEFAULT_HASHES ! TREE_DEPTH = ZERO"
  by (simp add: DEFAULT_HASHES_def TREE_DEPTH_def ZERO_def numeral_eq_Suc)

lemma DEFAULT_HASHES_bytes32: "list_all bytes32 DEFAULT_HASHES"
  by (simp add: DEFAULT_HASHES_def)

definition default_ladder :: "external \<Rightarrow> bool" where
  "default_ladder E \<longleftrightarrow>
     felt_valid E ZERO \<and>
     list_all (\<lambda>l. DEFAULT_HASHES ! l = compress2 E (DEFAULT_HASHES ! Suc l) (DEFAULT_HASHES ! Suc l))
       [0..<TREE_DEPTH]"

lemma default_ladder_step:
  "default_ladder E \<Longrightarrow> l < TREE_DEPTH \<Longrightarrow>
     DEFAULT_HASHES ! l = compress2 E (DEFAULT_HASHES ! Suc l) (DEFAULT_HASHES ! Suc l)"
  by (simp add: default_ladder_def list_all_iff)

lemma default_valid:
  assumes "poseidon_canonical E" and "default_ladder E" and "l \<le> TREE_DEPTH"
  shows "bytes32 (DEFAULT_HASHES ! l)" and "felt_valid E (DEFAULT_HASHES ! l)"
proof -
  show "bytes32 (DEFAULT_HASHES ! l)"
    using DEFAULT_HASHES_bytes32 assms(3) by (simp add: list_all_length TREE_DEPTH_def)
  show "felt_valid E (DEFAULT_HASHES ! l)"
  proof (cases "l = TREE_DEPTH")
    case True
    with assms show ?thesis by (simp add: DEFAULT_HASHES_leaf default_ladder_def)
  next
    case False
    with assms show ?thesis
      by (subst default_ladder_step) (auto simp: poseidon_canonical_def)
  qed
qed

end
