(* ===== verification/Registration.thy ===== *)
theory Registration
  imports Hash Lez
begin

text \<open>\<open>methods/guest/src/registration.rs\<close>: the helpers the registration program's plan and apply share.\<close>

definition validate_rate_limit :: "u64 \<Rightarrow> unit result" where
  "validate_rate_limit rate_limit =
     rbind (check (MIN_RATE_LIMIT \<le> rate_limit) (Panic
         (''Rate limit '' @ decimal (unat rate_limit) @ '' below minimum '' @ decimal (unat MIN_RATE_LIMIT)))) (\<lambda>_.
     check (rate_limit \<le> MAX_RATE_LIMIT) (Panic
       (''Rate limit '' @ decimal (unat rate_limit) @ '' above maximum '' @ decimal (unat MAX_RATE_LIMIT))))"

definition calculate_payment_amount :: "u64 \<Rightarrow> u128 \<Rightarrow> u128" where
  "calculate_payment_amount rate_limit price_per_unit = sat_mul price_per_unit (ucast rate_limit)"

definition compute_registration_leaf :: "external \<Rightarrow> bytes \<Rightarrow> u64 \<Rightarrow> bytes result" where
  "compute_registration_leaf E id_commitment rate_limit =
     rbind (validate_field_element E id_commitment) (\<lambda>_.
     rbind (write_slice 0 (u64_le rate_limit) (replicate 32 0)) (\<lambda>rate_bytes.
     hash_pair E id_commitment rate_bytes))"

definition require_clock_account :: "external \<Rightarrow> account_meta \<Rightarrow> unit result" where
  "require_clock_account E clock =
     rbind (check (account_id clock = CLOCK_50_ACCOUNT_ID_BYTES) (Panic ''Wrong clock account provided'')) (\<lambda>_.
     check (program_account_id clock = clock_account_id E)
       (Panic ''Clock account must select the clock program's shard''))"

text \<open>The message of a clock claim out of range.\<close>

definition stale_clock :: "u64 \<Rightarrow> u64 \<Rightarrow> string" where
  "stale_clock now_ms timestamp =
     ''Claimed now_ms '' @ decimal (unat now_ms) @ '' is not within '' @ decimal (unat CLOCK_CLAIM_TOLERANCE_MS) @
     '' ms before CLOCK_50's timestamp '' @ decimal (unat timestamp)"

definition assert_clock_is :: "external \<Rightarrow> bytes \<Rightarrow> u64 \<Rightarrow> unit result" where
  "assert_clock_is E clock_pre_data now_ms =
     (case clock_timestamp E clock_pre_data of
        None \<Rightarrow> Inl (Panic ''decode ClockAccountData'')
      | Some timestamp \<Rightarrow>
          rbind (ensure (timestamp > 0) EXIT_CLOCK_NOT_INITIALIZED
              ''ClockNotInitialized: CLOCK_50 has not been written yet'') (\<lambda>_.
          ensure (now_ms \<le> timestamp \<and> timestamp - now_ms \<le> CLOCK_CLAIM_TOLERANCE_MS) EXIT_STALE_CLOCK
            (stale_clock now_ms timestamp)))"

section \<open>What they decide\<close>

definition rate_felt :: "u64 \<Rightarrow> bytes" where
  "rate_felt rate_limit = u64_le rate_limit @ replicate 24 0"

text \<open>The leaf of a membership.\<close>

definition membership_leaf :: "external \<Rightarrow> bytes \<Rightarrow> u64 \<Rightarrow> bytes" where
  "membership_leaf E c rate_limit = compress2 E c (rate_felt rate_limit)"

lemma length_rate_felt [simp]: "length (rate_felt r) = 32"
  by (simp add: rate_felt_def)

lemma rate_limit_valid_iff [result_simps]:
  "validate_rate_limit r = Inr u \<longleftrightarrow> MIN_RATE_LIMIT \<le> r \<and> r \<le> MAX_RATE_LIMIT"
  by (auto simp: validate_rate_limit_def result_simps)

lemma registration_leaf_iff [result_simps]:
  "compute_registration_leaf E c r = Inr leaf \<longleftrightarrow>
     felt_valid E c \<and> felt_valid E (rate_felt r) \<and> leaf = membership_leaf E c r"
proof -
  have "write_slice 0 (u64_le r) (replicate 32 0) = Inr (rate_felt r)"
    by (simp add: write_slice_def splice_def rate_felt_def)
  then show ?thesis
    by (auto simp: compute_registration_leaf_def result_simps membership_leaf_def validate_field_element_def)
qed

lemma clock_iff [result_simps]:
  "assert_clock_is E b now = Inr u \<longleftrightarrow>
     (\<exists>ts. clock_timestamp E b = Some ts \<and> 0 < ts \<and> now \<le> ts \<and> unat ts \<le> unat now + 900000)"
proof -
  have "now \<le> ts \<Longrightarrow> ts - now \<le> CLOCK_CLAIM_TOLERANCE_MS \<longleftrightarrow> unat ts \<le> unat now + 900000" for ts
    by (auto simp: CLOCK_CLAIM_TOLERANCE_MS_def word_le_nat_alt unat_sub)
  then show ?thesis
    by (auto simp: assert_clock_is_def result_simps split: option.splits)
qed

text \<open>Saturation, not wrap-around: within the protocol's limits, the amount is the exact product.\<close>

lemma unat_payment:
  "unat (calculate_payment_amount r p) = min (unat p * unat r) (2 ^ 128 - 1)"
proof -
  have "unat r < 2 ^ LENGTH(64)" by (rule unsigned_less)
  then have "unat (ucast r :: u128) = unat r"
    by (simp add: unsigned_ucast_eq take_bit_nat_eq_self)
  then show ?thesis by (simp add: calculate_payment_amount_def unat_sat_mul)
qed

section \<open>Properties\<close>

text \<open>
  The clock claim: \<open>assert_clock_is\<close> accepts a claimed time exactly when the clock has been written,
  the claim is not ahead of it and is at most 900 000 ms behind; an unwritten clock and a claim out
  of that range exit with their own codes.
\<close>

theorem clock_claim_window:
  "assert_clock_is E b now =
     (case clock_timestamp E b of
        None \<Rightarrow> Inl (Panic ''decode ClockAccountData'')
      | Some ts \<Rightarrow>
          if ts = 0 then Inl (Halt EXIT_CLOCK_NOT_INITIALIZED ''ClockNotInitialized: CLOCK_50 has not been written yet'')
          else if unat now \<le> unat ts \<and> unat ts \<le> unat now + 900000 then Inr () 
          else Inl (Halt EXIT_STALE_CLOCK (stale_clock now ts)))"
proof -
  have "now \<le> ts \<Longrightarrow> ts - now \<le> CLOCK_CLAIM_TOLERANCE_MS \<longleftrightarrow> unat ts \<le> unat now + 900000" for ts
    by (auto simp: CLOCK_CLAIM_TOLERANCE_MS_def word_le_nat_alt unat_sub)
  then show ?thesis
    by (auto simp: assert_clock_is_def ensure_def fail_def word_le_nat_alt word_gt_0 split: option.splits)
qed

text \<open>
  The price saturates instead of wrapping: the payment is the exact product of price and rate limit,
  or the largest \<open>u128\<close> when that does not fit.
\<close>

theorem payment_is_saturating_product:
  "unat (calculate_payment_amount r p) = min (unat p * unat r) (2 ^ 128 - 1)"
  by (rule unat_payment)

end
