(* ===== verification/Program.thy ===== *)
theory Program
  imports State Instruction Pda Registration
begin

text \<open>
  The registration program, \<open>methods/guest/src/program.rs\<close>: \<open>plan\<close> turns an instruction and account
  metadata into shard effects and chained calls, one definition per instruction here, and \<open>apply\<close>
  runs one effect on one shard's bytes. A wrong claim is a failure of the apply that stores the
  value.
\<close>

section \<open>Effects\<close>

datatype effect =
    InitConfig config_state
  | InitTreeGuard (itg_tree_id: bytes) (itg_merkle_program_id: bytes)
  | RegisterConfig (rc_tree_id: bytes) (rc_merkle_program_id: bytes) (rc_price_per_unit: u128)
      (rc_treasury: bytes) (rc_rate_limit: u64) (rc_active_duration_sec: u32)
      (rc_grace_period_duration_sec: u32)
  | InitMembership membership_state
  | ClockIs u64
  | ReleaseConfig (rel_tree_id: bytes) (rel_merkle_program_id: bytes) (rel_rate_limit: u64)
  | SlashMembership (sm_id_commitment: bytes) (sm_rate_limit: u64)
  | ExtendConfig (ec_tree_id: bytes) (ec_price_per_unit: u128) (ec_treasury: bytes)
  | ExtendMembership (em_now_ms: u64) (em_rate_limit: u64)
  | EraseMembership (erm_now_ms: u64) (erm_rate_limit: u64)

section \<open>Plan-side account checks\<close>

definition pda :: "external \<Rightarrow> plan_input \<Rightarrow> bytes \<Rightarrow> account_id" where
  "pda E input seed = for_public_pda E (self_account_id input) seed"

definition wrong_accounts :: "string \<Rightarrow> string \<Rightarrow> 'a result" where
  "wrong_accounts what n = Inl (Panic (what @ '' takes exactly '' @ n @ '' accounts''))"

definition require_own_pda ::
  "external \<Rightarrow> plan_input \<Rightarrow> account_meta \<Rightarrow> bytes \<Rightarrow> string \<Rightarrow> unit result" where
  "require_own_pda E input meta seed what =
     rbind (check (account_id meta = pda E input seed) (Panic (''Wrong '' @ what @ '' PDA''))) (\<lambda>_.
     check (program_account_id meta = self_account_id input)
       (Panic (what @ '' must select this program's shard'')))"

definition require_tree_main ::
  "external \<Rightarrow> plan_input \<Rightarrow> account_meta \<Rightarrow> bytes \<Rightarrow> bytes \<Rightarrow> unit result" where
  "require_tree_main E input tree_main tree_id merkle_program_id =
     rbind (main_seed E tree_id) (\<lambda>seed.
     rbind (check (account_id tree_main = pda E input seed) (Panic ''Wrong tree_main PDA'')) (\<lambda>_.
     check (program_account_id tree_main = merkle_program_id)
       (Panic ''tree_main must select the merkle program's shard'')))"

section \<open>Chained calls\<close>

definition merkle_call ::
  "external \<Rightarrow> bytes \<Rightarrow> account_meta \<Rightarrow> bytes \<Rightarrow> merkle_instruction \<Rightarrow> chained_call result" where
  "merkle_call E merkle_program_id tree_main tree_id ix =
     rbind (main_seed E tree_id) (\<lambda>seed.
     Inr \<lparr>callee = merkle_program_id,
          shard_selectors = [(account_id tree_main, merkle_program_id)],
          call_data = enc_merkle_instruction ix,
          pda_seeds = [seed]\<rparr>)"

definition native_payment ::
  "external \<Rightarrow> account_meta \<Rightarrow> account_meta \<Rightarrow> u128 \<Rightarrow> chained_call" where
  "native_payment E payer treasury amount =
     \<lparr>callee = native_program E,
      shard_selectors = [(account_id payer, native_program E), (account_id treasury, native_program E)],
      call_data = native_transfer E amount,
      pda_seeds = []\<rparr>"

section \<open>Plan, one definition per instruction\<close>

definition plan_initialize ::
  "external \<Rightarrow> plan_input \<Rightarrow> bytes \<Rightarrow> bytes \<Rightarrow> u128 \<Rightarrow> bytes \<Rightarrow> u64 \<Rightarrow> u32 \<Rightarrow> u32 \<Rightarrow> effect plan result" where
  "plan_initialize E input merkle_program_id tree_id price_per_unit treasury_account_id
     max_total_rate_limit active_duration_sec grace_period_duration_sec =
     (case accounts input of
        [config] \<Rightarrow>
          rbind (config_seed E tree_id) (\<lambda>seed.
          rbind (require_own_pda E input config seed ''config'') (\<lambda>_.
          rbind (check (max_total_rate_limit > 0) (Panic ''Max total rate limit must be positive'')) (\<lambda>_.
          rbind (check (active_duration_sec > 0) (Panic ''Active duration must be positive'')) (\<lambda>_.
          Inr (plan_effect config
            (InitConfig \<lparr>cs_merkle_program_id = merkle_program_id, cs_tree_id = tree_id,
               cs_price_per_unit = price_per_unit, cs_treasury_account_id = treasury_account_id,
               cs_total_registrations = 0, cs_max_total_rate_limit = max_total_rate_limit,
               cs_current_total_rate_limit = 0, cs_active_duration_sec = active_duration_sec,
               cs_grace_period_duration_sec = grace_period_duration_sec\<rparr>) new_plan)))))
      | _ \<Rightarrow> wrong_accounts ''Initialize'' ''1'')"

definition plan_initialize_merkle_tree ::
  "external \<Rightarrow> plan_input \<Rightarrow> bytes \<Rightarrow> bytes \<Rightarrow> effect plan result" where
  "plan_initialize_merkle_tree E input tree_id merkle_program_id =
     (case accounts input of
        [config, tree_main] \<Rightarrow>
          rbind (config_seed E tree_id) (\<lambda>seed.
          rbind (require_own_pda E input config seed ''config'') (\<lambda>_.
          rbind (require_tree_main E input tree_main tree_id merkle_program_id) (\<lambda>_.
          rbind (merkle_call E merkle_program_id tree_main tree_id MInitialize) (\<lambda>call.
          Inr (plan_call call
            (plan_effect config (InitTreeGuard tree_id merkle_program_id) new_plan))))))
      | _ \<Rightarrow> wrong_accounts ''InitializeMerkleTree'' ''2'')"

definition plan_register ::
  "external \<Rightarrow> plan_input \<Rightarrow> bytes \<Rightarrow> bytes \<Rightarrow> u64 \<Rightarrow> bytes \<Rightarrow> u64 \<Rightarrow> u128 \<Rightarrow> u32 \<Rightarrow> u32 \<Rightarrow> effect plan result" where
  "plan_register E input tree_id id_commitment rate_limit merkle_program_id now_ms price_per_unit
     active_duration_sec grace_period_duration_sec =
     (case accounts input of
        [config, tree_main, payer, treasury, clock, membership] \<Rightarrow>
          rbind (validate_field_element E id_commitment) (\<lambda>_.
          rbind (check (id_commitment \<noteq> replicate 32 0) (Panic ''id_commitment must not be zero'')) (\<lambda>_.
          rbind (validate_rate_limit rate_limit) (\<lambda>_.
          rbind (config_seed E tree_id) (\<lambda>seed.
          rbind (require_own_pda E input config seed ''config'') (\<lambda>_.
          rbind (require_tree_main E input tree_main tree_id merkle_program_id) (\<lambda>_.
          rbind (membership_seed E tree_id id_commitment) (\<lambda>mseed.
          rbind (require_own_pda E input membership mseed ''membership'') (\<lambda>_.
          rbind (require_clock_account E clock) (\<lambda>_.
          rbind (check (is_authorized payer) (Panic ''Payer must authorize payment'')) (\<lambda>_.
          let p1 = plan_effect config
                (RegisterConfig tree_id merkle_program_id price_per_unit (account_id treasury)
                   rate_limit active_duration_sec grace_period_duration_sec) new_plan;
              p2 = plan_inspect clock (program_account_id clock) (ClockIs now_ms) p1;
              p3 = plan_effect membership
                (InitMembership \<lparr>ms_rate_limit = rate_limit, ms_id_commitment = id_commitment,
                   ms_grace_period_start_timestamp_ms = sat_add now_ms (secs_to_millis active_duration_sec),
                   ms_active_duration_sec = active_duration_sec,
                   ms_grace_period_duration_sec = grace_period_duration_sec\<rparr>) p2;
              p4 = plan_call (native_payment E payer treasury
                (calculate_payment_amount rate_limit price_per_unit)) p3
          in rbind (compute_registration_leaf E id_commitment rate_limit) (\<lambda>leaf.
             rbind (merkle_call E merkle_program_id tree_main tree_id (MInsert leaf)) (\<lambda>call.
             Inr (plan_call call p4)))))))))))))
      | _ \<Rightarrow> wrong_accounts ''Register'' ''6'')"

definition plan_slash ::
  "external \<Rightarrow> plan_input \<Rightarrow> bytes \<Rightarrow> bytes \<Rightarrow> bytes \<Rightarrow> bytes \<Rightarrow> u64 \<Rightarrow> u64 \<Rightarrow> effect plan result" where
  "plan_slash E input tree_id id_commitment identity_secret merkle_program_id leaf_index rate_limit =
     (case accounts input of
        [config, tree_main, membership] \<Rightarrow>
          rbind (validate_field_element E identity_secret) (\<lambda>_.
          rbind (hash_single E identity_secret) (\<lambda>h.
          rbind (check (h = id_commitment) (Panic ''id_commitment arg must match hash(identity_secret)'')) (\<lambda>_.
          rbind (config_seed E tree_id) (\<lambda>seed.
          rbind (require_own_pda E input config seed ''config'') (\<lambda>_.
          rbind (require_tree_main E input tree_main tree_id merkle_program_id) (\<lambda>_.
          rbind (membership_seed E tree_id id_commitment) (\<lambda>mseed.
          rbind (require_own_pda E input membership mseed ''membership'') (\<lambda>_.
          let p1 = plan_effect config (ReleaseConfig tree_id merkle_program_id rate_limit) new_plan;
              p2 = plan_effect membership (SlashMembership id_commitment rate_limit) p1
          in rbind (compute_registration_leaf E id_commitment rate_limit) (\<lambda>leaf.
             rbind (merkle_call E merkle_program_id tree_main tree_id (MRemove leaf_index leaf)) (\<lambda>call.
             Inr (plan_call call p2)))))))))))
      | _ \<Rightarrow> wrong_accounts ''Slash'' ''3'')"

definition plan_extend ::
  "external \<Rightarrow> plan_input \<Rightarrow> bytes \<Rightarrow> bytes \<Rightarrow> u64 \<Rightarrow> u128 \<Rightarrow> u64 \<Rightarrow> effect plan result" where
  "plan_extend E input tree_id id_commitment now_ms price_per_unit rate_limit =
     (case accounts input of
        [config, membership, payer, treasury, clock] \<Rightarrow>
          rbind (config_seed E tree_id) (\<lambda>seed.
          rbind (require_own_pda E input config seed ''config'') (\<lambda>_.
          rbind (membership_seed E tree_id id_commitment) (\<lambda>mseed.
          rbind (require_own_pda E input membership mseed ''membership'') (\<lambda>_.
          rbind (require_clock_account E clock) (\<lambda>_.
          rbind (check (is_authorized payer) (Panic ''Payer must authorize payment'')) (\<lambda>_.
          let p1 = plan_effect config (ExtendConfig tree_id price_per_unit (account_id treasury)) new_plan;
              p2 = plan_inspect clock (program_account_id clock) (ClockIs now_ms) p1;
              p3 = plan_effect membership (ExtendMembership now_ms rate_limit) p2
          in Inr (plan_call (native_payment E payer treasury
                (calculate_payment_amount rate_limit price_per_unit)) p3)))))))
      | _ \<Rightarrow> wrong_accounts ''Extend'' ''5'')"

definition plan_erase ::
  "external \<Rightarrow> plan_input \<Rightarrow> bytes \<Rightarrow> bytes \<Rightarrow> bytes \<Rightarrow> u64 \<Rightarrow> u64 \<Rightarrow> u64 \<Rightarrow> effect plan result" where
  "plan_erase E input tree_id id_commitment merkle_program_id leaf_index rate_limit now_ms =
     (case accounts input of
        [config, tree_main, membership, clock] \<Rightarrow>
          rbind (config_seed E tree_id) (\<lambda>seed.
          rbind (require_own_pda E input config seed ''config'') (\<lambda>_.
          rbind (require_tree_main E input tree_main tree_id merkle_program_id) (\<lambda>_.
          rbind (membership_seed E tree_id id_commitment) (\<lambda>mseed.
          rbind (require_own_pda E input membership mseed ''membership'') (\<lambda>_.
          rbind (require_clock_account E clock) (\<lambda>_.
          let p1 = plan_effect config (ReleaseConfig tree_id merkle_program_id rate_limit) new_plan;
              p2 = plan_inspect clock (program_account_id clock) (ClockIs now_ms) p1;
              p3 = plan_effect membership (EraseMembership now_ms rate_limit) p2
          in rbind (compute_registration_leaf E id_commitment rate_limit) (\<lambda>leaf.
             rbind (merkle_call E merkle_program_id tree_main tree_id (MRemove leaf_index leaf)) (\<lambda>call.
             Inr (plan_call call p3)))))))))
      | _ \<Rightarrow> wrong_accounts ''Erase'' ''4'')"

fun plan_instruction :: "external \<Rightarrow> plan_input \<Rightarrow> instruction \<Rightarrow> effect plan result" where
  "plan_instruction E input (Initialize m t p a x d g) = plan_initialize E input m t p a x d g"
| "plan_instruction E input (InitializeMerkleTree t m) = plan_initialize_merkle_tree E input t m"
| "plan_instruction E input (Register t c l m n p d g) = plan_register E input t c l m n p d g"
| "plan_instruction E input (Slash t c s m i l) = plan_slash E input t c s m i l"
| "plan_instruction E input (Extend t c n p l) = plan_extend E input t c n p l"
| "plan_instruction E input (Erase t c m i l n) = plan_erase E input t c m i l n"

section \<open>Apply, one definition per effect\<close>

definition decode_config :: "bytes \<Rightarrow> config_state result" where
  "decode_config pre_data =
     (case from_slice dec_config pre_data of None \<Rightarrow> Inl (Panic ''decode ConfigState'') | Some c \<Rightarrow> Inr c)"

definition decode_membership :: "bytes \<Rightarrow> string \<Rightarrow> membership_state result" where
  "decode_membership pre_data empty_msg =
     rbind (ensure (pre_data \<noteq> []) EXIT_MEMBERSHIP_MISSING empty_msg) (\<lambda>_.
     case from_slice dec_membership pre_data of
       None \<Rightarrow> Inl (Panic ''decode MembershipState'') | Some m \<Rightarrow> Inr m)"

definition assert_config_ids :: "config_state \<Rightarrow> bytes \<Rightarrow> bytes \<Rightarrow> unit result" where
  "assert_config_ids config tree_id merkle_program_id =
     rbind (check (cs_tree_id config = tree_id) (Panic ''tree_id arg must match config'')) (\<lambda>_.
     check (cs_merkle_program_id config = merkle_program_id)
       (Panic ''merkle_program_id claim must match config''))"

definition apply_init_config :: "config_state \<Rightarrow> bytes \<Rightarrow> bytes option result" where
  "apply_init_config state pre_data =
     rbind (check (pre_data = []) (Panic ''AccountAlreadyInitialized: config shard already holds data'')) (\<lambda>_.
     Inr (Some (enc_config state)))"

definition apply_init_tree_guard :: "bytes \<Rightarrow> bytes \<Rightarrow> bytes \<Rightarrow> bytes option result" where
  "apply_init_tree_guard tree_id merkle_program_id pre_data =
     rbind (decode_config pre_data) (\<lambda>config.
     rbind (assert_config_ids config tree_id merkle_program_id) (\<lambda>_.
     Inr None))"

definition apply_register_config ::
  "bytes \<Rightarrow> bytes \<Rightarrow> u128 \<Rightarrow> bytes \<Rightarrow> u64 \<Rightarrow> u32 \<Rightarrow> u32 \<Rightarrow> bytes \<Rightarrow> bytes option result" where
  "apply_register_config tree_id merkle_program_id price_per_unit treasury rate_limit
     active_duration_sec grace_period_duration_sec pre_data =
     rbind (decode_config pre_data) (\<lambda>config.
     rbind (assert_config_ids config tree_id merkle_program_id) (\<lambda>_.
     rbind (ensure (cs_price_per_unit config = price_per_unit) EXIT_STALE_CONFIG
         ''price_per_unit claim must match config'') (\<lambda>_.
     rbind (ensure (cs_treasury_account_id config = treasury) EXIT_STALE_CONFIG ''Wrong treasury'') (\<lambda>_.
     rbind (ensure (cs_active_duration_sec config = active_duration_sec) EXIT_STALE_CONFIG
         ''active_duration_sec claim must match config'') (\<lambda>_.
     rbind (ensure (cs_grace_period_duration_sec config = grace_period_duration_sec) EXIT_STALE_CONFIG
         ''grace_period_duration_sec claim must match config'') (\<lambda>_.
     rbind (ensure (can_register config rate_limit) EXIT_RATE_LIMIT_FULL ''Would exceed max total rate limit'') (\<lambda>_.
     Inr (Some (enc_config
       (config\<lparr>cs_total_registrations := sat_add (cs_total_registrations config) 1,
               cs_current_total_rate_limit := sat_add (cs_current_total_rate_limit config) rate_limit\<rparr>))))))))))"

definition apply_init_membership :: "membership_state \<Rightarrow> bytes \<Rightarrow> bytes option result" where
  "apply_init_membership state pre_data =
     rbind (ensure (pre_data = []) EXIT_MEMBERSHIP_EXISTS
         ''AccountAlreadyInitialized: membership already exists'') (\<lambda>_.
     Inr (Some (enc_membership state)))"

definition apply_release_config :: "bytes \<Rightarrow> bytes \<Rightarrow> u64 \<Rightarrow> bytes \<Rightarrow> bytes option result" where
  "apply_release_config tree_id merkle_program_id rate_limit pre_data =
     rbind (decode_config pre_data) (\<lambda>config.
     rbind (assert_config_ids config tree_id merkle_program_id) (\<lambda>_.
     Inr (Some (enc_config
       (config\<lparr>cs_current_total_rate_limit := sat_sub (cs_current_total_rate_limit config) rate_limit,
               cs_total_registrations := sat_sub (cs_total_registrations config) 1\<rparr>)))))"

definition apply_slash_membership :: "bytes \<Rightarrow> u64 \<Rightarrow> bytes \<Rightarrow> bytes option result" where
  "apply_slash_membership id_commitment rate_limit pre_data =
     rbind (decode_membership pre_data
         ''Membership account is empty - member doesn't exist or already slashed'') (\<lambda>membership.
     rbind (check (ms_id_commitment membership = id_commitment) (Panic ''membership id_commitment mismatch'')) (\<lambda>_.
     rbind (ensure (ms_rate_limit membership = rate_limit) EXIT_STALE_RATE_LIMIT
         ''rate_limit claim must match membership'') (\<lambda>_.
     Inr (Some []))))"

definition apply_extend_config :: "bytes \<Rightarrow> u128 \<Rightarrow> bytes \<Rightarrow> bytes \<Rightarrow> bytes option result" where
  "apply_extend_config tree_id price_per_unit treasury pre_data =
     rbind (decode_config pre_data) (\<lambda>config.
     rbind (check (cs_tree_id config = tree_id) (Panic ''tree_id arg must match config'')) (\<lambda>_.
     rbind (ensure (cs_price_per_unit config = price_per_unit) EXIT_STALE_CONFIG
         ''price_per_unit claim must match config'') (\<lambda>_.
     rbind (ensure (cs_treasury_account_id config = treasury) EXIT_STALE_CONFIG ''Wrong treasury'') (\<lambda>_.
     Inr None))))"

definition apply_extend_membership :: "u64 \<Rightarrow> u64 \<Rightarrow> bytes \<Rightarrow> bytes option result" where
  "apply_extend_membership now_ms rate_limit pre_data =
     rbind (decode_membership pre_data
         ''Membership account is empty - cannot extend a non-existent membership'') (\<lambda>membership.
     rbind (ensure (ms_rate_limit membership = rate_limit) EXIT_STALE_RATE_LIMIT
         ''rate_limit claim must match membership'') (\<lambda>_.
     rbind (ensure (is_in_grace_period (ms_grace_period_start_timestamp_ms membership)
              (secs_to_millis (ms_grace_period_duration_sec membership)) now_ms)
            EXIT_NOT_IN_GRACE_PERIOD
            ''CannotExtendNonGracePeriodMembership: membership is not in its grace period'') (\<lambda>_.
     Inr (Some (enc_membership (membership\<lparr>ms_grace_period_start_timestamp_ms :=
       sat_add (sat_add (ms_grace_period_start_timestamp_ms membership)
                  (secs_to_millis (ms_grace_period_duration_sec membership)))
         (secs_to_millis (ms_active_duration_sec membership))\<rparr>))))))"

definition apply_erase_membership :: "u64 \<Rightarrow> u64 \<Rightarrow> bytes \<Rightarrow> bytes option result" where
  "apply_erase_membership now_ms rate_limit pre_data =
     rbind (decode_membership pre_data
         ''Membership account is empty - nothing to erase'') (\<lambda>membership.
     rbind (ensure (ms_rate_limit membership = rate_limit) EXIT_STALE_RATE_LIMIT
         ''rate_limit claim must match membership'') (\<lambda>_.
     rbind (ensure (is_expired (ms_grace_period_start_timestamp_ms membership)
              (secs_to_millis (ms_grace_period_duration_sec membership)) now_ms)
            EXIT_NOT_EXPIRED ''CannotEraseUnexpiredMembership: membership has not expired yet'') (\<lambda>_.
     Inr (Some []))))"

fun apply_effect :: "external \<Rightarrow> effect \<Rightarrow> bytes \<Rightarrow> bytes option result" where
  "apply_effect E (InitConfig state) pre_data = apply_init_config state pre_data"
| "apply_effect E (InitTreeGuard t m) pre_data = apply_init_tree_guard t m pre_data"
| "apply_effect E (RegisterConfig t m p a l d g) pre_data = apply_register_config t m p a l d g pre_data"
| "apply_effect E (InitMembership state) pre_data = apply_init_membership state pre_data"
| "apply_effect E (ClockIs now_ms) pre_data = rbind (assert_clock_is E pre_data now_ms) (\<lambda>_. Inr None)"
| "apply_effect E (ReleaseConfig t m l) pre_data = apply_release_config t m l pre_data"
| "apply_effect E (SlashMembership c l) pre_data = apply_slash_membership c l pre_data"
| "apply_effect E (ExtendConfig t p a) pre_data = apply_extend_config t p a pre_data"
| "apply_effect E (ExtendMembership n l) pre_data = apply_extend_membership n l pre_data"
| "apply_effect E (EraseMembership n l) pre_data = apply_erase_membership n l pre_data"

end
