(* ===== verification/ProgramSpec.thy ===== *)
theory ProgramSpec
  imports Program
begin

text \<open>
  What the registration program's plan and apply decide: for each instruction, exactly when it
  plans and what, and for each effect, exactly when it applies and what it writes. The
  characterisations are in the collections \<open>plan_simps\<close> and \<open>apply_simps\<close>.
\<close>

named_theorems plan_simps "when an instruction plans, and what"
named_theorems apply_simps "when an effect applies, and what it writes"

section \<open>Selectors\<close>

definition config_sel :: "external \<Rightarrow> account_id \<Rightarrow> bytes \<Rightarrow> selector" where
  "config_sel E R t = (pda_config E R t, R)"

definition membership_sel :: "external \<Rightarrow> account_id \<Rightarrow> bytes \<Rightarrow> bytes \<Rightarrow> selector" where
  "membership_sel E R t c = (pda_membership E R t c, R)"

definition tree_sel :: "external \<Rightarrow> account_id \<Rightarrow> account_id \<Rightarrow> bytes \<Rightarrow> selector" where
  "tree_sel E R M t = (pda_main E R t, M)"

definition clock_sel :: "external \<Rightarrow> selector" where
  "clock_sel E = (CLOCK_50_ACCOUNT_ID_BYTES, clock_account_id E)"

definition native_sel :: "external \<Rightarrow> account_id \<Rightarrow> selector" where
  "native_sel E a = (a, native_program E)"

section \<open>Plan\<close>

lemma require_own_pda_iff [result_simps]:
  "require_own_pda E input m seed what = Inr u \<longleftrightarrow>
     meta_selector m = (for_public_pda E (self_account_id input) seed, self_account_id input)"
  by (auto simp: require_own_pda_def pda_def meta_selector_def result_simps)

lemma require_tree_main_iff [result_simps]:
  "require_tree_main E input m t mid = Inr u \<longleftrightarrow> meta_selector m = tree_sel E (self_account_id input) mid t"
  by (auto simp: require_tree_main_def pda_def meta_selector_def tree_sel_def pda_main_def result_simps)

lemma require_clock_iff [result_simps]:
  "require_clock_account E m = Inr u \<longleftrightarrow> meta_selector m = clock_sel E"
  by (auto simp: require_clock_account_def meta_selector_def clock_sel_def result_simps)

lemma validate_felt_iff [result_simps]: "validate_field_element E b = Inr u \<longleftrightarrow> felt_valid E b"
  by (simp add: validate_field_element_def result_simps)

lemma own_sels:
  "(for_public_pda E R (seed_config E t), R) = config_sel E R t"
  "(for_public_pda E R (seed_membership E t c), R) = membership_sel E R t c"
  by (simp_all add: config_sel_def pda_config_def membership_sel_def pda_membership_def)

definition to_merkle :: "external \<Rightarrow> account_id \<Rightarrow> account_id \<Rightarrow> bytes \<Rightarrow> merkle_instruction \<Rightarrow> chained_call" where
  "to_merkle E R M t ix =
     \<lparr>callee = M, shard_selectors = [tree_sel E R M t], call_data = enc_merkle_instruction ix,
      pda_seeds = [seed_main E t]\<rparr>"

definition payment :: "external \<Rightarrow> account_id \<Rightarrow> account_id \<Rightarrow> u64 \<Rightarrow> u128 \<Rightarrow> chained_call" where
  "payment E payer treasury rate_limit price =
     \<lparr>callee = native_program E, shard_selectors = [native_sel E payer, native_sel E treasury],
      call_data = native_transfer E (calculate_payment_amount rate_limit price), pda_seeds = []\<rparr>"

lemma merkle_call_eq [plan_simps]:
  "meta_selector m = tree_sel E R M t \<Longrightarrow> merkle_call E M m t ix = Inr (to_merkle E R M t ix)"
  by (simp add: merkle_call_def to_merkle_def meta_selector_def tree_sel_def)

lemma native_payment_eq [plan_simps]:
  "native_payment E payer treasury (calculate_payment_amount l p) = payment E (account_id payer) (account_id treasury) l p"
  by (simp add: native_payment_def payment_def native_sel_def)

abbreviation planned :: "(selector \<times> 'e) list \<Rightarrow> chained_call list \<Rightarrow> 'e plan" where
  "planned es cs \<equiv>
     \<lparr>effects = map (\<lambda>(s, e). \<lparr>effect_selector = s, effect_data = e\<rparr>) es, chained_calls = cs\<rparr>"

lemma plan_initialize_iff [plan_simps]:
  "plan_initialize E input m t p a x d g = Inr pl \<longleftrightarrow>
     (\<exists>config. accounts input = [config] \<and> meta_selector config = config_sel E (self_account_id input) t \<and>
        0 < x \<and> 0 < d \<and>
        pl = planned [(config_sel E (self_account_id input) t,
          InitConfig \<lparr>cs_merkle_program_id = m, cs_tree_id = t, cs_price_per_unit = p,
            cs_treasury_account_id = a, cs_total_registrations = 0, cs_max_total_rate_limit = x,
            cs_current_total_rate_limit = 0, cs_active_duration_sec = d,
            cs_grace_period_duration_sec = g\<rparr>)] [])"
  unfolding plan_initialize_def wrong_accounts_def
  by (auto simp: result_simps own_sels plan_builders)

lemma plan_tree_iff [plan_simps]:
  "plan_initialize_merkle_tree E input t m = Inr pl \<longleftrightarrow>
     (\<exists>config tree_main. accounts input = [config, tree_main] \<and>
        meta_selector config = config_sel E (self_account_id input) t \<and>
        meta_selector tree_main = tree_sel E (self_account_id input) m t \<and>
        pl = planned [(config_sel E (self_account_id input) t, InitTreeGuard t m)]
               [to_merkle E (self_account_id input) m t MInitialize])"
  unfolding plan_initialize_merkle_tree_def wrong_accounts_def
  by (auto simp: result_simps own_sels plan_builders plan_simps)

lemma plan_register_iff [plan_simps]:
  "plan_register E input t c l m n p d g = Inr pl \<longleftrightarrow>
     (\<exists>config tree_main payer treasury clock membership.
        accounts input = [config, tree_main, payer, treasury, clock, membership] \<and>
        meta_selector config = config_sel E (self_account_id input) t \<and>
        meta_selector tree_main = tree_sel E (self_account_id input) m t \<and>
        meta_selector membership = membership_sel E (self_account_id input) t c \<and>
        meta_selector clock = clock_sel E \<and> is_authorized payer \<and>
        felt_valid E c \<and> c \<noteq> ZERO \<and> MIN_RATE_LIMIT \<le> l \<and> l \<le> MAX_RATE_LIMIT \<and> felt_valid E (rate_felt l) \<and>
        pl = planned
          [(config_sel E (self_account_id input) t, RegisterConfig t m p (account_id treasury) l d g),
           (clock_sel E, ClockIs n),
           (membership_sel E (self_account_id input) t c,
            InitMembership \<lparr>ms_rate_limit = l, ms_id_commitment = c,
              ms_grace_period_start_timestamp_ms = sat_add n (secs_to_millis d),
              ms_active_duration_sec = d, ms_grace_period_duration_sec = g\<rparr>)]
          [payment E (account_id payer) (account_id treasury) l p,
           to_merkle E (self_account_id input) m t (MInsert (membership_leaf E c l))])"
  unfolding plan_register_def wrong_accounts_def
  by (auto simp: result_simps own_sels plan_builders plan_simps Let_def ZERO_def meta_selector_def
      simp del: replicate.simps)

lemma plan_slash_iff [plan_simps]:
  "plan_slash E input t c s m i l = Inr pl \<longleftrightarrow>
     (\<exists>config tree_main membership.
        accounts input = [config, tree_main, membership] \<and>
        meta_selector config = config_sel E (self_account_id input) t \<and>
        meta_selector tree_main = tree_sel E (self_account_id input) m t \<and>
        meta_selector membership = membership_sel E (self_account_id input) t c \<and>
        felt_valid E s \<and> compress1 E s = c \<and> felt_valid E c \<and> felt_valid E (rate_felt l) \<and>
        pl = planned
          [(config_sel E (self_account_id input) t, ReleaseConfig t m l),
           (membership_sel E (self_account_id input) t c, SlashMembership c l)]
          [to_merkle E (self_account_id input) m t (MRemove i (membership_leaf E c l))])"
  unfolding plan_slash_def wrong_accounts_def
  by (auto simp: result_simps own_sels plan_builders plan_simps Let_def)

lemma plan_extend_iff [plan_simps]:
  "plan_extend E input t c n p l = Inr pl \<longleftrightarrow>
     (\<exists>config membership payer treasury clock.
        accounts input = [config, membership, payer, treasury, clock] \<and>
        meta_selector config = config_sel E (self_account_id input) t \<and>
        meta_selector membership = membership_sel E (self_account_id input) t c \<and>
        meta_selector clock = clock_sel E \<and> is_authorized payer \<and>
        pl = planned
          [(config_sel E (self_account_id input) t, ExtendConfig t p (account_id treasury)),
           (clock_sel E, ClockIs n),
           (membership_sel E (self_account_id input) t c, ExtendMembership n l)]
          [payment E (account_id payer) (account_id treasury) l p])"
  unfolding plan_extend_def wrong_accounts_def
  by (auto simp: result_simps own_sels plan_builders plan_simps Let_def meta_selector_def)

lemma plan_erase_iff [plan_simps]:
  "plan_erase E input t c m i l n = Inr pl \<longleftrightarrow>
     (\<exists>config tree_main membership clock.
        accounts input = [config, tree_main, membership, clock] \<and>
        meta_selector config = config_sel E (self_account_id input) t \<and>
        meta_selector tree_main = tree_sel E (self_account_id input) m t \<and>
        meta_selector membership = membership_sel E (self_account_id input) t c \<and>
        meta_selector clock = clock_sel E \<and> felt_valid E c \<and> felt_valid E (rate_felt l) \<and>
        pl = planned
          [(config_sel E (self_account_id input) t, ReleaseConfig t m l),
           (clock_sel E, ClockIs n),
           (membership_sel E (self_account_id input) t c, EraseMembership n l)]
          [to_merkle E (self_account_id input) m t (MRemove i (membership_leaf E c l))])"
  unfolding plan_erase_def wrong_accounts_def
  by (auto simp: result_simps own_sels plan_builders plan_simps Let_def meta_selector_def)

section \<open>Apply\<close>

lemma decode_config_iff [result_simps]:
  "decode_config d = Inr c \<longleftrightarrow> config_ok c \<and> d = enc_config c"
  using config_codec.from_slice_iff [of d c]
  by (auto simp: decode_config_def split: option.splits)

lemma enc_membership_not_Nil [simp]: "enc_membership m \<noteq> []" "[] \<noteq> enc_membership m"
  using length_uint_le(3) [of "ms_rate_limit m"] by (auto simp: enc_membership_def simp del: length_uint_le)

lemma enc_config_not_Nil [simp]: "enc_config c \<noteq> []" "[] \<noteq> enc_config c"
  using length_uint_le(4) [of "cs_price_per_unit c"] by (auto simp: enc_config_def simp del: length_uint_le)

lemma decode_membership_iff [result_simps]:
  "decode_membership d msg = Inr m \<longleftrightarrow> membership_ok m \<and> d = enc_membership m"
  using membership_codec.from_slice_iff [of d m]
  by (auto simp: decode_membership_def result_simps split: option.splits)

lemma assert_config_ids_iff [result_simps]:
  "assert_config_ids c t m = Inr u \<longleftrightarrow> cs_tree_id c = t \<and> cs_merkle_program_id c = m"
  by (auto simp: assert_config_ids_def result_simps)

lemma can_register_exact:
  "can_register c l \<Longrightarrow> unat (cs_max_total_rate_limit c) < 2 ^ 64 - 1 \<Longrightarrow>
     unat (cs_current_total_rate_limit c) + unat l \<le> unat (cs_max_total_rate_limit c)"
  by (auto simp: can_register_def word_le_nat_alt unat_sat_add min_def split: if_splits)

lemma apply_init_config_iff [apply_simps]:
  "apply_init_config c d = Inr r \<longleftrightarrow> d = [] \<and> r = Some (enc_config c)"
  by (auto simp: apply_init_config_def result_simps)

lemma apply_init_tree_guard_iff [apply_simps]:
  "apply_init_tree_guard t m d = Inr r \<longleftrightarrow>
     (\<exists>c. config_ok c \<and> d = enc_config c \<and> cs_tree_id c = t \<and> cs_merkle_program_id c = m) \<and> r = None"
  by (auto simp: apply_init_tree_guard_def result_simps)

lemma apply_register_config_iff [apply_simps]:
  "apply_register_config t m p a l dur g d = Inr r \<longleftrightarrow>
     (\<exists>c. config_ok c \<and> d = enc_config c \<and> cs_tree_id c = t \<and> cs_merkle_program_id c = m \<and>
        cs_price_per_unit c = p \<and> cs_treasury_account_id c = a \<and> cs_active_duration_sec c = dur \<and>
        cs_grace_period_duration_sec c = g \<and> can_register c l \<and>
        r = Some (enc_config (c\<lparr>cs_total_registrations := sat_add (cs_total_registrations c) 1,
          cs_current_total_rate_limit := sat_add (cs_current_total_rate_limit c) l\<rparr>)))"
  by (auto simp: apply_register_config_def result_simps)

lemma apply_init_membership_iff [apply_simps]:
  "apply_init_membership m d = Inr r \<longleftrightarrow> d = [] \<and> r = Some (enc_membership m)"
  by (auto simp: apply_init_membership_def result_simps)

lemma apply_release_config_iff [apply_simps]:
  "apply_release_config t m l d = Inr r \<longleftrightarrow>
     (\<exists>c. config_ok c \<and> d = enc_config c \<and> cs_tree_id c = t \<and> cs_merkle_program_id c = m \<and>
        r = Some (enc_config (c\<lparr>cs_current_total_rate_limit := sat_sub (cs_current_total_rate_limit c) l,
          cs_total_registrations := sat_sub (cs_total_registrations c) 1\<rparr>)))"
  by (auto simp: apply_release_config_def result_simps)

lemma apply_slash_membership_iff [apply_simps]:
  "apply_slash_membership c l d = Inr r \<longleftrightarrow>
     (\<exists>m. membership_ok m \<and> d = enc_membership m \<and> ms_id_commitment m = c \<and> ms_rate_limit m = l) \<and> r = Some []"
  by (auto simp: apply_slash_membership_def result_simps)

lemma apply_extend_config_iff [apply_simps]:
  "apply_extend_config t p a d = Inr r \<longleftrightarrow>
     (\<exists>c. config_ok c \<and> d = enc_config c \<and> cs_tree_id c = t \<and> cs_price_per_unit c = p \<and>
        cs_treasury_account_id c = a) \<and> r = None"
  by (auto simp: apply_extend_config_def result_simps)

definition renewed :: "membership_state \<Rightarrow> membership_state" where
  "renewed m = m\<lparr>ms_grace_period_start_timestamp_ms :=
     sat_add (sat_add (ms_grace_period_start_timestamp_ms m) (secs_to_millis (ms_grace_period_duration_sec m)))
       (secs_to_millis (ms_active_duration_sec m))\<rparr>"

lemma apply_extend_membership_iff [apply_simps]:
  "apply_extend_membership n l d = Inr r \<longleftrightarrow>
     (\<exists>m. membership_ok m \<and> d = enc_membership m \<and> ms_rate_limit m = l \<and>
        is_in_grace_period (ms_grace_period_start_timestamp_ms m)
          (secs_to_millis (ms_grace_period_duration_sec m)) n \<and>
        r = Some (enc_membership (renewed m)))"
  by (auto simp: apply_extend_membership_def renewed_def result_simps)

lemma apply_erase_membership_iff [apply_simps]:
  "apply_erase_membership n l d = Inr r \<longleftrightarrow>
     (\<exists>m. membership_ok m \<and> d = enc_membership m \<and> ms_rate_limit m = l \<and>
        is_expired (ms_grace_period_start_timestamp_ms m)
          (secs_to_millis (ms_grace_period_duration_sec m)) n) \<and> r = Some []"
  by (auto simp: apply_erase_membership_def result_simps)

text \<open>The record updates of the apply phase keep a value well formed.\<close>

lemma counters_ok [simp]:
  "config_ok (c\<lparr>cs_total_registrations := a, cs_current_total_rate_limit := b\<rparr>) = config_ok c"
  "config_ok (c\<lparr>cs_current_total_rate_limit := b, cs_total_registrations := a\<rparr>) = config_ok c"
  by (simp_all add: config_ok_def)

lemma renewed_sel [simp]:
  "ms_rate_limit (renewed m) = ms_rate_limit m" "ms_id_commitment (renewed m) = ms_id_commitment m"
  "ms_active_duration_sec (renewed m) = ms_active_duration_sec m"
  "ms_grace_period_duration_sec (renewed m) = ms_grace_period_duration_sec m"
  "membership_ok (renewed m) = membership_ok m"
  by (simp_all add: renewed_def membership_ok_def)

text \<open>
  A renewal moves the window past the moment it was made at, so it cannot be repeated at the same
  time: this is what makes an old clock claim harmless.
\<close>

lemma renewed_past:
  assumes "is_in_grace_period (ms_grace_period_start_timestamp_ms m)
      (secs_to_millis (ms_grace_period_duration_sec m)) n"
  shows "n < ms_grace_period_start_timestamp_ms (renewed m)"
proof -
  let ?e = "sat_add (ms_grace_period_start_timestamp_ms m) (secs_to_millis (ms_grace_period_duration_sec m))"
  have "n < ?e" using assms by (simp add: is_in_grace_period_def)
  also have "?e \<le> ms_grace_period_start_timestamp_ms (renewed m)" by (simp add: renewed_def sat_add_ge)
  finally show ?thesis .
qed

end
