(* ===== verification/Sparse.thy ===== *)
theory Sparse
  imports Layouts
begin

text \<open>
  The sparse node map of the tree shard: \<open>rln-layouts/src/sparse.rs\<close> (addressing and the
  binary-search read) and \<open>write_sparse_node\<close> of \<open>methods/guest/src/merkle_tree.rs\<close>.
  The bytes \<open>[count u16le][(offset u16le, hash 32)...]\<close> are refined to a list of entries sorted
  by offset, and that to a finite map; the locale \<open>node_store\<close> is the interface the tree uses.

  \<open>usize\<close> values are naturals: every one here is at most \<open>2 + 65535 * 34\<close>, or is reduced modulo
  65536 by the cast to \<open>u16\<close>, so a 32-bit wrap-around of \<open>node_offset\<close> cannot be seen.
\<close>

section \<open>Definitions\<close>

definition node_offset :: "nat \<Rightarrow> nat \<Rightarrow> nat" where
  "node_offset level index = (push_bit level 1 - 1) + index"

text \<open>The loop that \<open>read_sparse_node\<close> and \<open>write_sparse_node\<close> both run.\<close>

function sparse_search :: "bytes \<Rightarrow> u16 \<Rightarrow> nat \<Rightarrow> nat \<Rightarrow> nat result" where
  "sparse_search data target lo hi =
     (if lo < hi then
        let mid = lo + (hi - lo) div 2;
            entry_start = 2 + mid * 34
        in rbind (read_slice entry_start 2 data) (\<lambda>e.
             if u16_of e < target then sparse_search data target (mid + 1) hi
             else sparse_search data target lo mid)
      else Inr lo)"
  by pat_completeness auto
termination
  by (relation "measure (\<lambda>(data, target, lo, hi). hi - lo)") auto

declare sparse_search.simps [simp del]

definition read_sparse_node :: "bytes \<Rightarrow> nat \<Rightarrow> nat \<Rightarrow> bytes \<Rightarrow> bytes result" where
  "read_sparse_node data level index cached_default =
     (if length data < 2 then Inr cached_default
      else let count = unat (u16_of (slice 0 2 data)) in
        if count = 0 then Inr cached_default
        else let target = (word_of_nat (node_offset level index) :: u16) in
          rbind (sparse_search data target 0 count) (\<lambda>lo.
            if lo < count then
              let entry_start = 2 + lo * 34 in
              rbind (read_slice entry_start 2 data) (\<lambda>e.
                if u16_of e = target then read_slice (entry_start + 2) 32 data
                else Inr cached_default)
            else Inr cached_default))"

text \<open>
  \<open>Vec::resize\<close> with zeros, and \<open>copy_within(src..old_len, dst)\<close> on the resized vector (a panic when
  \<open>src\<close> is past \<open>old_len\<close>).
\<close>

definition grow :: "nat \<Rightarrow> bytes \<Rightarrow> bytes" where
  "grow n data = data @ replicate (n - length data) 0"

definition write_sparse_node :: "bytes \<Rightarrow> nat \<Rightarrow> nat \<Rightarrow> bytes \<Rightarrow> bytes result" where
  "write_sparse_node data0 level index hash =
     (let data = (if length data0 < 2 then grow 2 data0 else data0);
          count = unat (u16_of (slice 0 2 data));
          target = (word_of_nat (node_offset level index) :: u16)
      in rbind (sparse_search data target 0 count) (\<lambda>lo.
        let pos = 2 + lo * SPARSE_ENTRY_LEN in
        rbind (if lo < count
               then rbind (read_slice pos 2 data) (\<lambda>e. Inr (u16_of e = target))
               else Inr False) (\<lambda>present.
          if present then write_slice (pos + 2) hash data
          else
            let old_len = length data;
                grown = grow (old_len + SPARSE_ENTRY_LEN) data
            in rbind (if pos \<le> old_len
                      then write_slice (pos + SPARSE_ENTRY_LEN) (drop pos data) grown
                      else Inl out_of_range) (\<lambda>shifted.
               rbind (write_slice pos (u16_le target) shifted) (\<lambda>d1.
               rbind (write_slice (pos + 2) hash d1) (\<lambda>d2.
               write_slice 0 (u16_le (word_of_nat (count + 1))) d2))))))"

section \<open>Node addressing\<close>

definition in_tree :: "nat \<Rightarrow> nat \<Rightarrow> bool" where
  "in_tree level index \<longleftrightarrow> level \<le> TREE_DEPTH \<and> index < 2 ^ level"

lemma node_offset_eq: "node_offset level index = 2 ^ level - 1 + index"
  by (simp add: node_offset_def push_bit_eq_mult)

lemma node_offset_bound:
  assumes "in_tree l i" shows "node_offset l i < TREE_NODES"
proof -
  have "(2::nat) ^ l \<le> 2 ^ 9" using assms by (intro power_increasing) (auto simp: in_tree_def TREE_DEPTH_def)
  moreover have "i < 2 ^ l" using assms by (simp add: in_tree_def)
  ultimately show ?thesis
    by (simp add: node_offset_eq TREE_NODES_def TREE_DEPTH_def push_bit_eq_mult)
qed

lemma node_offset_less:
  assumes "i < 2 ^ l" and "l < l'" shows "node_offset l i < node_offset l' j"
proof -
  have "(2::nat) ^ Suc l \<le> 2 ^ l'" using assms by (intro power_increasing) auto
  with assms show ?thesis by (simp add: node_offset_eq)
qed

lemma node_offset_inject:
  assumes "in_tree l i" and "in_tree l' i'"
  shows "node_offset l i = node_offset l' i' \<longleftrightarrow> l = l' \<and> i = i'"
proof (cases l l' rule: linorder_cases)
  case less
  with assms node_offset_less [of i l l' i'] show ?thesis by (auto simp: in_tree_def)
next
  case equal
  then show ?thesis by (simp only: node_offset_def add_left_cancel simp_thms)
next
  case greater
  with assms node_offset_less [of i' l' l i] show ?thesis by (auto simp: in_tree_def)
qed

abbreviation offset16 :: "nat \<Rightarrow> nat \<Rightarrow> u16" where
  "offset16 l i \<equiv> word_of_nat (node_offset l i)"

lemma TREE_NODES_eq: "TREE_NODES = 1023"
  by (simp add: TREE_NODES_def TREE_DEPTH_def push_bit_eq_mult)

lemma unat_offset16: "in_tree l i \<Longrightarrow> unat (offset16 l i) = node_offset l i"
  using node_offset_bound [of l i] by (simp add: unat_of_nat TREE_NODES_eq)

lemma offset16_inject:
  "in_tree l i \<Longrightarrow> in_tree l' i' \<Longrightarrow> offset16 l i = offset16 l' i' \<longleftrightarrow> l = l' \<and> i = i'"
  by (metis node_offset_inject unat_offset16)

section \<open>Entries\<close>

type_synonym entries = "(u16 \<times> bytes) list"

definition enc_entry :: "u16 \<times> bytes \<Rightarrow> bytes" where
  "enc_entry e = u16_le (fst e) @ snd e"

definition enc_sparse :: "entries \<Rightarrow> bytes" where
  "enc_sparse es = u16_le (word_of_nat (length es)) @ concat (map enc_entry es)"

definition entries_ok :: "entries \<Rightarrow> bool" where
  "entries_ok es \<longleftrightarrow> sorted_wrt (<) (map fst es) \<and> list_all (\<lambda>e. unat (fst e) < TREE_NODES \<and> bytes32 (snd e)) es"

lemma entries_ok_nth:
  "entries_ok es \<Longrightarrow> i < length es \<Longrightarrow> unat (fst (es ! i)) < TREE_NODES \<and> bytes32 (snd (es ! i))"
  by (simp add: entries_ok_def list_all_length)

lemma entries_ok_less:
  "entries_ok es \<Longrightarrow> i < j \<Longrightarrow> j < length es \<Longrightarrow> fst (es ! i) < fst (es ! j)"
  by (simp add: entries_ok_def sorted_wrt_iff_nth_less)

lemma entries_ok_length:
  assumes "entries_ok es" shows "length es \<le> TREE_NODES"
proof -
  have inj: "inj_on unat (set (map fst es))" by (auto simp: inj_on_def word_unat_eq_iff)
  have "distinct (map fst es)"
    using assms by (auto simp: entries_ok_def strict_sorted_iff)
  then have "length es = card (unat ` set (map fst es))"
    using inj by (metis card_image distinct_card length_map)
  also have "\<dots> \<le> card {..<TREE_NODES}"
    using assms by (intro card_mono) (auto simp: entries_ok_def list_all_iff)
  finally show ?thesis by simp
qed

lemma length_enc_entries:
  "list_all (\<lambda>e. bytes32 (snd e)) es \<Longrightarrow> length (concat (map enc_entry es)) = length es * 34"
  by (induction es) (auto simp: enc_entry_def)

lemma entries_ok_bytes32: "entries_ok es \<Longrightarrow> list_all (\<lambda>e. bytes32 (snd e)) es"
  by (auto simp: entries_ok_def list_all_iff)

lemma length_enc_sparse: "entries_ok es \<Longrightarrow> length (enc_sparse es) = 2 + length es * 34"
  by (simp add: enc_sparse_def length_enc_entries entries_ok_bytes32)

lemma count_enc_sparse:
  assumes "entries_ok es" shows "unat (u16_of (slice 0 2 (enc_sparse es))) = length es"
  using entries_ok_length [OF assms]
  by (simp add: enc_sparse_def slice_def unat_of_nat TREE_NODES_eq)

lemma slice_entry:
  "list_all (\<lambda>e. bytes32 (snd e)) es \<Longrightarrow> i < length es \<Longrightarrow>
     slice (i * 34) 34 (concat (map enc_entry es)) = enc_entry (es ! i)"
proof (induction es arbitrary: i)
  case Nil
  then show ?case by simp
next
  case (Cons e es)
  show ?case
  proof (cases i)
    case 0
    with Cons.prems show ?thesis by (simp add: slice_def enc_entry_def)
  next
    case (Suc j)
    with Cons.prems Cons.IH [of j] show ?thesis by (simp add: slice_def enc_entry_def)
  qed
qed

lemma slice_of_slice: "b + m \<le> n \<Longrightarrow> slice (a + b) m xs = slice b m (slice a n xs)"
  by (simp add: slice_def drop_take min_def add.commute)

lemma enc_sparse_offset:
  assumes "entries_ok es" and "i < length es"
  shows "slice (2 + i * 34) 2 (enc_sparse es) = u16_le (fst (es ! i))"
proof -
  have "slice (2 + i * 34) 2 (enc_sparse es) = slice (i * 34) 2 (concat (map enc_entry es))"
    by (simp add: enc_sparse_def slice_append_right)
  also have "\<dots> = slice 0 2 (slice (i * 34) 34 (concat (map enc_entry es)))"
    using slice_of_slice [of 0 2 34 "i * 34"] by simp
  also have "\<dots> = u16_le (fst (es ! i))"
    using assms by (simp add: slice_entry entries_ok_bytes32) (simp add: enc_entry_def slice_def)
  finally show ?thesis .
qed

lemma enc_sparse_hash:
  assumes "entries_ok es" and "i < length es"
  shows "slice (2 + i * 34 + 2) 32 (enc_sparse es) = snd (es ! i)"
proof -
  have "slice (2 + i * 34 + 2) 32 (enc_sparse es) = slice (i * 34 + 2) 32 (concat (map enc_entry es))"
    by (simp add: enc_sparse_def slice_append_right)
  also have "\<dots> = slice 2 32 (slice (i * 34) 34 (concat (map enc_entry es)))"
    by (rule slice_of_slice) simp
  also have "\<dots> = snd (es ! i)"
    using assms entries_ok_nth [OF assms]
    by (simp add: slice_entry entries_ok_bytes32) (simp add: enc_entry_def slice_def)
  finally show ?thesis .
qed

lemma enc_sparse_read:
  assumes "entries_ok es" and "i < length es"
  shows "read_slice (2 + i * 34) 2 (enc_sparse es) = Inr (u16_le (fst (es ! i)))"
    and "read_slice (2 + i * 34 + 2) 32 (enc_sparse es) = Inr (snd (es ! i))"
proof -
  have "2 + i * 34 + 34 \<le> length (enc_sparse es)"
    using assms by (simp add: length_enc_sparse)
  then have "2 + i * 34 + 2 \<le> length (enc_sparse es)" "2 + i * 34 + 2 + 32 \<le> length (enc_sparse es)"
    by linarith+
  then show "read_slice (2 + i * 34) 2 (enc_sparse es) = Inr (u16_le (fst (es ! i)))"
    and "read_slice (2 + i * 34 + 2) 32 (enc_sparse es) = Inr (snd (es ! i))"
    by (simp_all only: read_slice_ok enc_sparse_offset [OF assms] enc_sparse_hash [OF assms])
qed

section \<open>The read is a map lookup\<close>

definition rank :: "entries \<Rightarrow> u16 \<Rightarrow> nat" where
  "rank es t = length (takeWhile (\<lambda>e. fst e < t) es)"

lemma rank_le: "rank es t \<le> length es"
  by (simp add: rank_def length_takeWhile_le)

lemma rank_below:
  "i < rank es t \<Longrightarrow> fst (es ! i) < t"
  by (metis (no_types, lifting) nth_mem rank_def set_takeWhileD takeWhile_nth)

lemma rank_above:
  assumes "entries_ok es" and "rank es t \<le> i" and "i < length es"
  shows "t \<le> fst (es ! i)"
proof -
  have "\<not> fst (es ! rank es t) < t"
    using assms nth_length_takeWhile [of "\<lambda>e. fst e < t" es] by (simp add: rank_def)
  then have "t \<le> fst (es ! rank es t)" by (simp add: not_less)
  also have "\<dots> \<le> fst (es ! i)"
    using assms entries_ok_less [of es "rank es t" i] by (cases "rank es t = i") auto
  finally show ?thesis .
qed

lemma sparse_search_rank:
  assumes "entries_ok es" and "lo \<le> rank es t" and "rank es t \<le> hi" and "hi \<le> length es"
  shows "sparse_search (enc_sparse es) t lo hi = Inr (rank es t)"
  using assms(2-4)
proof (induction "enc_sparse es" t lo hi rule: sparse_search.induct)
  case (1 t lo hi)
  show ?case
  proof (cases "lo < hi")
    case False
    with "1.prems" show ?thesis by (simp add: sparse_search.simps [of _ t lo hi])
  next
    case True
    define mid where "mid = lo + (hi - lo) div 2"
    have mid: "lo \<le> mid" "mid < hi" using True by (auto simp: mid_def)
    have rd: "read_slice (2 + mid * 34) 2 (enc_sparse es) = Inr (u16_le (fst (es ! mid)))"
      using mid "1.prems" by (intro enc_sparse_read assms(1)) simp
    have step: "sparse_search (enc_sparse es) t lo hi =
        (if fst (es ! mid) < t then sparse_search (enc_sparse es) t (mid + 1) hi
         else sparse_search (enc_sparse es) t lo mid)"
      by (subst sparse_search.simps) (simp only: True if_True Let_def mid_def [symmetric] rd rbind.simps u16_of_le)
    show ?thesis
    proof (cases "fst (es ! mid) < t")
      case lt: True
      then have "mid < rank es t"
        using rank_above [OF assms(1), of t mid] mid "1.prems" by (meson leD le_less_linear less_le_trans)
      with lt "1.hyps"(1) [OF True mid_def refl rd] "1.prems" step show ?thesis
        by simp
    next
      case ge: False
      then have "rank es t \<le> mid"
        using rank_below [of mid es t] by (meson not_le)
      with ge "1.hyps"(2) [OF True mid_def refl rd] "1.prems" mid step show ?thesis
        by simp
    qed
  qed
qed

lemma map_of_rank:
  assumes "entries_ok es"
  shows "map_of es t =
    (if rank es t < length es \<and> fst (es ! rank es t) = t then Some (snd (es ! rank es t)) else None)"
proof -
  have dist: "distinct (map fst es)"
    using assms by (auto simp: entries_ok_def strict_sorted_iff)
  show ?thesis
  proof (cases "rank es t < length es \<and> fst (es ! rank es t) = t")
    case True
    then have "(t, snd (es ! rank es t)) \<in> set es"
      by (metis nth_mem prod.collapse)
    with dist True show ?thesis by simp
  next
    case False
    have "t \<noteq> fst (es ! i)" if "i < length es" for i
    proof (cases "i < rank es t")
      case True
      then show ?thesis using rank_below by blast
    next
      case ge: False
      show ?thesis
      proof (cases "i = rank es t")
        case True
        with False that show ?thesis by auto
      next
        case gt: False
        with ge have "rank es t < i" by simp
        with that have "fst (es ! rank es t) < fst (es ! i)" "t \<le> fst (es ! rank es t)"
          using entries_ok_less [OF assms] rank_above [OF assms] by auto
        then show ?thesis by auto
      qed
    qed
    then have "t \<notin> fst ` set es" by (metis (no_types, lifting) imageE in_set_conv_nth)
    then have "map_of es t = None" by (simp add: map_of_eq_None_iff)
    with False show ?thesis by (simp only: if_False)
  qed
qed

lemma read_sparse_enc:
  assumes "entries_ok es"
  shows "read_sparse_node (enc_sparse es) l i d =
    Inr (case map_of es (offset16 l i) of None \<Rightarrow> d | Some h \<Rightarrow> h)"
proof (cases "es = []")
  case True
  then show ?thesis
    using count_enc_sparse [OF assms] by (simp add: read_sparse_node_def Let_def)
next
  case False
  let ?t = "offset16 l i" and ?k = "rank es (offset16 l i)"
  have len: "\<not> length (enc_sparse es) < 2" by (simp add: length_enc_sparse assms)
  have srch: "sparse_search (enc_sparse es) ?t 0 (length es) = Inr ?k"
    using assms by (intro sparse_search_rank) (auto simp: rank_le)
  have nz: "length es \<noteq> 0" using False by simp
  show ?thesis
  proof (cases "?k < length es")
    case True
    show ?thesis
      unfolding read_sparse_node_def Let_def count_enc_sparse [OF assms] map_of_rank [OF assms]
      using len nz True by (simp only: if_False if_True srch rbind.simps enc_sparse_read [OF assms True] u16_of_le) auto
  next
    case k: False
    show ?thesis
      unfolding read_sparse_node_def Let_def count_enc_sparse [OF assms] map_of_rank [OF assms]
      using len nz k by (simp only: if_False srch rbind.simps) simp
  qed
qed

section \<open>The write is a map update\<close>

definition upd_entries :: "u16 \<Rightarrow> bytes \<Rightarrow> entries \<Rightarrow> entries" where
  "upd_entries t h es =
     filter (\<lambda>e. fst e < t) es @ (t, h) # filter (\<lambda>e. t < fst e) es"

lemma upd_entries_ok:
  assumes "entries_ok es" and "unat t < TREE_NODES" and "bytes32 h"
  shows "entries_ok (upd_entries t h es)"
proof -
  have s: "sorted_wrt (<) (map fst es)" using assms(1) by (simp add: entries_ok_def)
  have f: "sorted_wrt (<) (map fst (filter P es))" for P
    using s by (simp add: sorted_wrt_map sorted_wrt_filter)
  have "sorted_wrt (<) (map fst (upd_entries t h es))"
    using f by (auto simp: upd_entries_def sorted_wrt_append intro: less_trans)
  with assms show ?thesis
    by (auto simp: entries_ok_def upd_entries_def list_all_iff)
qed

lemma map_of_filter_key:
  "map_of (filter (\<lambda>e. P (fst e)) es) u = (if P u then map_of es u else None)"
  by (induction es) auto

lemma map_of_upd_entries: "map_of (upd_entries t h es) = (map_of es)(t \<mapsto> h)"
proof
  fix u
  show "map_of (upd_entries t h es) u = ((map_of es)(t \<mapsto> h)) u"
    using map_of_filter_key [of "\<lambda>x. x < t" es u] map_of_filter_key [of "\<lambda>x. t < x" es u]
    by (cases u t rule: linorder_cases) (auto simp: upd_entries_def map_add_def split: option.split)
qed

lemma sorted_takeWhile_filter:
  fixes es :: entries
  shows "sorted_wrt (<) (map fst es) \<Longrightarrow> takeWhile (\<lambda>e. fst e < t) es = filter (\<lambda>e. fst e < t) es"
proof (induction es)
  case Nil
  then show ?case by simp
next
  case (Cons e es)
  show ?case
  proof (cases "fst e < t")
    case True
    with Cons show ?thesis by simp
  next
    case False
    have "\<forall>x \<in> set es. \<not> fst x < t"
    proof
      fix x assume "x \<in> set es"
      with Cons.prems have "fst e < fst x" by simp
      with False show "\<not> fst x < t" by order
    qed
    with False show ?thesis by (simp add: filter_empty_conv)
  qed
qed

lemma take_rank:
  "entries_ok es \<Longrightarrow> take (rank es t) es = filter (\<lambda>e. fst e < t) es"
proof -
  assume "entries_ok es"
  then have "takeWhile (\<lambda>e. fst e < t) es = filter (\<lambda>e. fst e < t) es"
    by (intro sorted_takeWhile_filter) (simp add: entries_ok_def)
  moreover have "take (rank es t) es = takeWhile (\<lambda>e. fst e < t) es"
    unfolding rank_def by (rule takeWhile_eq_take [symmetric])
  ultimately show ?thesis by simp
qed

lemma in_set_drop_nth: "e \<in> set (drop n es) \<Longrightarrow> \<exists>i. n \<le> i \<and> i < length es \<and> e = es ! i"
proof -
  assume "e \<in> set (drop n es)"
  then obtain j where "j < length es - n" "e = es ! (n + j)"
    by (auto simp: in_set_conv_nth)
  then show ?thesis by (intro exI [of _ "n + j"]) auto
qed

lemma drop_rank:
  assumes "entries_ok es"
  shows "drop (rank es t) es = filter (\<lambda>e. t \<le> fst e) es"
proof -
  let ?k = "rank es t"
  have "filter (\<lambda>e. t \<le> fst e) es = filter (\<lambda>e. t \<le> fst e) (take ?k es @ drop ?k es)"
    by simp
  also have "\<dots> = filter (\<lambda>e. t \<le> fst e) (filter (\<lambda>e. fst e < t) es) @ filter (\<lambda>e. t \<le> fst e) (drop ?k es)"
    by (simp only: filter_append take_rank [OF assms])
  also have "filter (\<lambda>e. t \<le> fst e) (filter (\<lambda>e. fst e < t) es) = []"
    by (auto simp: filter_empty_conv)
  also have "filter (\<lambda>e. t \<le> fst e) (drop ?k es) = drop ?k es"
    using rank_above [OF assms] by (auto simp: filter_id_conv dest!: in_set_drop_nth)
  finally show ?thesis by simp
qed

lemma upd_entries_rank:
  assumes "entries_ok es" and "k = rank es t"
  shows "upd_entries t h es =
    take k es @ (t, h) # (if k < length es \<and> fst (es ! k) = t then drop (Suc k) es else drop k es)"
proof (cases "k < length es \<and> fst (es ! k) = t")
  case True
  then have d: "drop k es = (es ! k) # drop (Suc k) es" by (simp add: Cons_nth_drop_Suc)
  have "t < fst e" if "e \<in> set (drop (Suc k) es)" for e
  proof -
    from that obtain i where "i < length es" "k < i" "e = es ! i"
      by (auto simp: Suc_le_eq dest!: in_set_drop_nth)
    with True entries_ok_less [OF assms(1), of k i] show ?thesis by auto
  qed
  then have "filter (\<lambda>e. t < fst e) (drop (Suc k) es) = drop (Suc k) es"
    by (simp add: filter_id_conv)
  moreover have "filter (\<lambda>e. t < fst e) es = filter (\<lambda>e. t < fst e) (filter (\<lambda>e. t \<le> fst e) es)"
    by (auto intro: filter_cong)
  moreover have "filter (\<lambda>e. t \<le> fst e) es = drop k es"
    using drop_rank [OF assms(1), of t] assms(2) by simp
  ultimately have "filter (\<lambda>e. t < fst e) es = drop (Suc k) es"
    using True by (simp add: d)
  with True assms show ?thesis by (simp add: upd_entries_def take_rank)
next
  case False
  have "map_of es t = None"
    using False assms by (simp only: map_of_rank [OF assms(1)] if_False)
  then have "t < fst e \<longleftrightarrow> t \<le> fst e" if "e \<in> set es" for e
    using that by (auto simp: map_of_eq_None_iff less_le)
  then have "filter (\<lambda>e. t < fst e) es = filter (\<lambda>e. t \<le> fst e) es"
    by (intro filter_cong) auto
  with False assms show ?thesis by (auto simp: upd_entries_def take_rank drop_rank)
qed

lemma splice_middle:
  "length xs = a \<Longrightarrow> length ys = length old \<Longrightarrow> splice a ys (xs @ old @ zs) = xs @ ys @ zs"
  by (simp add: splice_def)

lemma enc_sparse_split:
  "enc_sparse es = u16_le (word_of_nat (length es)) @ concat (map enc_entry (take k es)) @
     concat (map enc_entry (drop k es))"
  by (metis append_take_drop_id concat_append enc_sparse_def map_append)

lemma length_enc_take:
  assumes "entries_ok es" and "k \<le> length es"
  shows "length (concat (map enc_entry (take k es))) = k * 34"
  using assms entries_ok_bytes32 [OF assms(1)]
  by (subst length_enc_entries) (auto simp: list_all_iff dest: in_set_takeD)

lemma length_upd_entries:
  assumes "entries_ok es"
  shows "length (upd_entries t h es) =
    (if rank es t < length es \<and> fst (es ! rank es t) = t then length es else Suc (length es))"
  using rank_le [of es t] by (auto simp: upd_entries_rank [OF assms refl])

lemma write_present:
  assumes "entries_ok es" and "k = rank es t" and "k < length es" and "fst (es ! k) = t" and "bytes32 h"
  shows "write_slice (2 + k * 34 + 2) h (enc_sparse es) = Inr (enc_sparse (upd_entries t h es))"
proof -
  let ?n = "u16_le (word_of_nat (length es))"
  have u: "upd_entries t h es = take k es @ (t, h) # drop (Suc k) es"
    using assms by (simp add: upd_entries_rank)
  have d: "drop k es = (t, snd (es ! k)) # drop (Suc k) es"
    by (metis assms(3,4) Cons_nth_drop_Suc prod.collapse)
  have e: "enc_sparse es = (?n @ concat (map enc_entry (take k es)) @ u16_le t) @ snd (es ! k) @
      concat (map enc_entry (drop (Suc k) es))"
    by (subst enc_sparse_split [of _ k]) (simp add: d enc_entry_def)
  have len: "length (?n @ concat (map enc_entry (take k es)) @ u16_le t) = 2 + k * 34 + 2"
    using assms by (simp add: length_enc_take)
  have "splice (2 + k * 34 + 2) h (enc_sparse es) =
      (?n @ concat (map enc_entry (take k es)) @ u16_le t) @ h @ concat (map enc_entry (drop (Suc k) es))"
    unfolding e using len entries_ok_nth [OF assms(1,3)] assms(5) by (intro splice_middle) auto
  also have "\<dots> = enc_sparse (upd_entries t h es)"
    using assms by (simp add: u enc_sparse_def enc_entry_def)
  finally show ?thesis
    using assms by (simp add: write_slice_def length_enc_sparse)
qed

lemma write_absent:
  assumes "entries_ok es" and "k = rank es t" and "\<not> (k < length es \<and> fst (es ! k) = t)" and "bytes32 h"
  defines "old \<equiv> enc_sparse es"
  defines "grown \<equiv> grow (length old + 34) old"
  shows "rbind (if 2 + k * 34 \<le> length old then write_slice (2 + k * 34 + 34) (drop (2 + k * 34) old) grown
                else Inl out_of_range) (\<lambda>shifted.
         rbind (write_slice (2 + k * 34) (u16_le t) shifted) (\<lambda>d1.
         rbind (write_slice (2 + k * 34 + 2) h d1) (\<lambda>d2.
         write_slice 0 (u16_le (word_of_nat (length es + 1))) d2)))
       = Inr (enc_sparse (upd_entries t h es))"
proof -
  let ?pos = "2 + k * 34"
  define n where "n = u16_le (word_of_nat (length es))"
  define P where "P = concat (map enc_entry (take k es))"
  define Q where "Q = concat (map enc_entry (drop k es))"
  define X where "X = take 34 (Q @ replicate 34 0)"
  have k: "k \<le> length es" using assms(2) by (simp add: rank_le)
  have old: "old = n @ P @ Q" unfolding old_def n_def P_def Q_def by (rule enc_sparse_split)
  have lP: "length (n @ P) = ?pos" using assms(1) k by (simp add: P_def n_def length_enc_take)
  have lX: "length X = 34" by (simp add: X_def)
  have lO: "?pos \<le> length old" "drop ?pos old = Q" using lP by (simp_all add: old)
  define Y where "Y = drop 34 (Q @ replicate 34 0)"
  have lY: "length Y = length Q" by (simp add: Y_def)
  have "grown = n @ P @ (Q @ replicate 34 0)" by (simp add: grown_def grow_def old)
  then have g: "grown = (n @ P @ X) @ Y @ []"
    unfolding X_def Y_def by (simp only: append_assoc append_take_drop_id append_Nil2)
  have lg: "?pos + 34 + length Q = length grown" using lP lX lY by (simp add: g)
  have "splice (?pos + 34) Q grown = (n @ P @ X) @ Q @ []"
    unfolding g by (rule splice_middle) (use lP lX lY in auto)
  then have w1: "write_slice (?pos + 34) (drop ?pos old) grown = Inr (n @ P @ X @ Q)"
    by (simp only: write_slice_def lO(2) lg order_refl if_True append_Nil2 append_assoc)
  have w2: "write_slice ?pos (u16_le t) (n @ P @ X @ Q) = Inr (n @ P @ u16_le t @ drop 2 X @ Q)"
    using lP lX splice_middle [of "n @ P" ?pos "u16_le t" "take 2 X" "drop 2 X @ Q"]
    by (simp add: write_slice_def flip: append_assoc)
  have w3: "write_slice (?pos + 2) h (n @ P @ u16_le t @ drop 2 X @ Q) = Inr (n @ P @ u16_le t @ h @ Q)"
    using lP lX assms(4) splice_middle [of "n @ P @ u16_le t" "?pos + 2" h "drop 2 X" Q]
    by (simp add: write_slice_def)
  have w4: "write_slice 0 c (n @ R) = Inr (c @ R)" if "length c = 2" for c R
    using that splice_middle [of "[]" 0 c n R] by (simp add: write_slice_def n_def)
  have "upd_entries t h es = take k es @ (t, h) # drop k es"
    using assms(2,3) upd_entries_rank [OF assms(1,2), of h] by (simp only: if_False)
  then have "enc_sparse (upd_entries t h es) = u16_le (word_of_nat (length es + 1)) @ P @ u16_le t @ h @ Q"
    using k by (simp add: enc_sparse_def enc_entry_def P_def Q_def)
  then show ?thesis
    by (simp only: lO(1) if_True w1 w2 w3 w4 rbind.simps length_uint_le)
qed

lemma write_sparse_enc:
  assumes "entries_ok es" and "in_tree l i" and "bytes32 h"
  shows "write_sparse_node (enc_sparse es) l i h = Inr (enc_sparse (upd_entries (offset16 l i) h es))"
proof -
  let ?t = "offset16 l i" and ?k = "rank es (offset16 l i)"
  have len: "\<not> length (enc_sparse es) < 2" by (simp add: length_enc_sparse assms)
  have srch: "sparse_search (enc_sparse es) ?t 0 (length es) = Inr ?k"
    using assms by (intro sparse_search_rank) (auto simp: rank_le)
  note unf = write_sparse_node_def Let_def len if_False count_enc_sparse [OF assms(1)] srch
    rbind.simps SPARSE_ENTRY_LEN_def
  show ?thesis
  proof (cases "?k < length es \<and> fst (es ! ?k) = ?t")
    case True
    then have k: "?k < length es" and f: "fst (es ! ?k) = ?t" by auto
    show ?thesis
      by (simp only: unf k f if_True enc_sparse_read [OF assms(1) k] u16_of_le simp_thms
          write_present [OF assms(1) refl k f assms(3)])
  next
    case False
    have "rbind (if ?k < length es then rbind (read_slice (2 + ?k * 34) 2 (enc_sparse es))
        (\<lambda>e. Inr (u16_of e = ?t)) else Inr False) f = f False" for f :: "bool \<Rightarrow> bytes result"
      using False by (cases "?k < length es") (simp_all only: enc_sparse_read [OF assms(1)] if_True if_False rbind.simps u16_of_le simp_thms)
    then show ?thesis
      by (simp only: unf if_False write_absent [OF assms(1) refl False assms(3)])
  qed
qed

section \<open>The map a shard holds\<close>

text \<open>The entries written in the bytes, and when the bytes are exactly their encoding.\<close>

primrec dec_entries :: "nat \<Rightarrow> bytes \<Rightarrow> entries" where
  "dec_entries 0 data = []"
| "dec_entries (Suc n) data = (u16_of (take 2 data), slice 2 32 data) # dec_entries n (drop 34 data)"

definition sparse_entries :: "bytes \<Rightarrow> entries" where
  "sparse_entries data =
     (if length data < 2 then [] else dec_entries (unat (u16_of (slice 0 2 data))) (drop 2 data))"

definition sparse_wf :: "bytes \<Rightarrow> bool" where
  "sparse_wf data \<longleftrightarrow> entries_ok (sparse_entries data) \<and>
     (data = [] \<or> data = enc_sparse (sparse_entries data))"

definition sparse_node :: "bytes \<Rightarrow> nat \<Rightarrow> nat \<Rightarrow> bytes option" where
  "sparse_node data level index = map_of (sparse_entries data) (offset16 level index)"

lemma dec_enc_entries:
  "list_all (\<lambda>e. bytes32 (snd e)) es \<Longrightarrow> dec_entries (length es) (concat (map enc_entry es)) = es"
  by (induction es) (auto simp: enc_entry_def slice_def)

lemma sparse_entries_enc:
  assumes "entries_ok es" shows "sparse_entries (enc_sparse es) = es"
proof -
  have "drop 2 (enc_sparse es) = concat (map enc_entry es)" by (simp add: enc_sparse_def)
  then show ?thesis
    using assms by (simp add: sparse_entries_def length_enc_sparse count_enc_sparse dec_enc_entries entries_ok_bytes32)
qed

lemma sparse_wf_enc: "entries_ok es \<Longrightarrow> sparse_wf (enc_sparse es)"
  by (simp add: sparse_wf_def sparse_entries_enc)

lemma sparse_wf_Nil [simp]: "sparse_wf []"
  by (simp add: sparse_wf_def sparse_entries_def entries_ok_def)

lemma sparse_node_Nil [simp]: "sparse_node [] l i = None"
  by (simp add: sparse_node_def sparse_entries_def)

lemma sparse_wf_cases:
  assumes "sparse_wf data"
  obtains (empty) "data = []"
    | (enc) es where "entries_ok es" "data = enc_sparse es" "sparse_entries data = es"
  using assms unfolding sparse_wf_def by metis

lemma sparse_wf_length:
  assumes "sparse_wf data" shows "length data \<le> 2 + TREE_NODES * SPARSE_ENTRY_LEN"
  using assms
proof (cases rule: sparse_wf_cases)
  case empty
  then show ?thesis by simp
next
  case (enc es)
  then show ?thesis
    using entries_ok_length [of es] by (simp add: length_enc_sparse SPARSE_ENTRY_LEN_def)
qed

text \<open>
  An absent map behaves as the encoding of no entries. (A one-byte map would not: the read takes
  it for empty, the write keeps its byte as the low byte of the count. No operation makes one.)
\<close>

lemma write_Nil: "write_sparse_node [] l i h = write_sparse_node (enc_sparse []) l i h"
proof -
  have "grow 2 [] = enc_sparse []"
    by (simp add: grow_def enc_sparse_def u16_le_def numeral_2_eq_2)
  then show ?thesis by (simp add: write_sparse_node_def length_enc_sparse entries_ok_def)
qed

lemma write_sparse_node_wf:
  assumes "sparse_wf data" and "in_tree l i" and "bytes32 h"
  shows "write_sparse_node data l i h = Inr (enc_sparse (upd_entries (offset16 l i) h (sparse_entries data)))"
    and "entries_ok (upd_entries (offset16 l i) h (sparse_entries data))"
proof -
  have ok: "entries_ok (sparse_entries data)" using assms(1) by (simp add: sparse_wf_def)
  then show "entries_ok (upd_entries (offset16 l i) h (sparse_entries data))"
    using assms node_offset_bound [OF assms(2)] by (intro upd_entries_ok) (simp_all add: unat_offset16)
  from assms(1) show "write_sparse_node data l i h = Inr (enc_sparse (upd_entries (offset16 l i) h (sparse_entries data)))"
  proof (cases rule: sparse_wf_cases)
    case empty
    then show ?thesis
      using write_sparse_enc [of "[]" l i h] assms by (simp add: write_Nil entries_ok_def sparse_entries_def)
  next
    case (enc es)
    then show ?thesis using write_sparse_enc [of es l i h] assms by simp
  qed
qed

section \<open>The interface the tree uses\<close>

locale node_store =
  fixes wf :: "'s \<Rightarrow> bool"
    and node :: "'s \<Rightarrow> nat \<Rightarrow> nat \<Rightarrow> bytes option"
    and rd :: "'s \<Rightarrow> nat \<Rightarrow> nat \<Rightarrow> bytes \<Rightarrow> bytes result"
    and wr :: "'s \<Rightarrow> nat \<Rightarrow> nat \<Rightarrow> bytes \<Rightarrow> 's result"
  assumes read_node: "wf s \<Longrightarrow> rd s l i d = Inr (case node s l i of None \<Rightarrow> d | Some h \<Rightarrow> h)"
    and write_ok: "wf s \<Longrightarrow> in_tree l i \<Longrightarrow> bytes32 h \<Longrightarrow> \<exists>s'. wr s l i h = Inr s'"
    and write_wf: "wf s \<Longrightarrow> in_tree l i \<Longrightarrow> bytes32 h \<Longrightarrow> wr s l i h = Inr s' \<Longrightarrow> wf s'"
    and write_node: "wf s \<Longrightarrow> in_tree l i \<Longrightarrow> bytes32 h \<Longrightarrow> wr s l i h = Inr s' \<Longrightarrow>
      in_tree m j \<Longrightarrow> node s' m j = (if m = l \<and> j = i then Some h else node s m j)"
begin

lemma write_cases:
  assumes "wf s" and "in_tree l i" and "bytes32 h"
  obtains s' where "wr s l i h = Inr s'" and "wf s'"
    and "\<And>m j. in_tree m j \<Longrightarrow> node s' m j = (if m = l \<and> j = i then Some h else node s m j)"
  using assms write_ok write_wf write_node by metis

lemma read_written:
  "wf s \<Longrightarrow> in_tree l i \<Longrightarrow> bytes32 h \<Longrightarrow> wr s l i h = Inr s' \<Longrightarrow> rd s' l i d = Inr h"
  by (simp add: read_node write_wf write_node)

lemma read_other:
  "wf s \<Longrightarrow> in_tree l i \<Longrightarrow> bytes32 h \<Longrightarrow> wr s l i h = Inr s' \<Longrightarrow> in_tree m j \<Longrightarrow>
    (m, j) \<noteq> (l, i) \<Longrightarrow> rd s' m j d = rd s m j d"
  by (auto simp: read_node write_wf write_node)

end

section \<open>The bytes provide it\<close>

lemma read_sparse_node_wf:
  assumes "sparse_wf data"
  shows "read_sparse_node data l i d =
    Inr (case sparse_node data l i of None \<Rightarrow> d | Some h \<Rightarrow> h)"
  using assms
proof (cases rule: sparse_wf_cases)
  case empty
  then show ?thesis by (simp add: read_sparse_node_def)
next
  case (enc es)
  then show ?thesis by (simp add: read_sparse_enc sparse_node_def)
qed

interpretation sparse_map: node_store sparse_wf sparse_node read_sparse_node write_sparse_node
proof
  fix data l i d
  assume "sparse_wf data"
  then show "read_sparse_node data l i d = Inr (case sparse_node data l i of None \<Rightarrow> d | Some h \<Rightarrow> h)"
    by (rule read_sparse_node_wf)
next
  fix data l i h
  assume "sparse_wf data" "in_tree l i" "bytes32 h"
  then show "\<exists>data'. write_sparse_node data l i h = Inr data'"
    using write_sparse_node_wf by blast
next
  fix data l i h data'
  assume "sparse_wf data" "in_tree l i" "bytes32 h" "write_sparse_node data l i h = Inr data'"
  then show "sparse_wf data'"
    using write_sparse_node_wf by (metis Inr_inject sparse_wf_enc)
next
  fix data l i h data' m j
  assume a: "sparse_wf data" "in_tree l i" "bytes32 h" "write_sparse_node data l i h = Inr data'" "in_tree m j"
  let ?es = "upd_entries (offset16 l i) h (sparse_entries data)"
  have "data' = enc_sparse ?es" "entries_ok ?es"
    using a write_sparse_node_wf [OF a(1-3)] by auto
  then show "sparse_node data' m j = (if m = l \<and> j = i then Some h else sparse_node data m j)"
    using a by (auto simp: sparse_node_def sparse_entries_enc map_of_upd_entries offset16_inject)
qed

section \<open>Properties\<close>

text \<open>
  C38. Reading after writing: writing a node of the tree into a well-formed sparse map succeeds, keeps
  it well formed, makes that node read as the written hash whatever default is passed, and leaves
  every other node of the tree as it read before.
\<close>

theorem sparse_read_after_write:
  assumes "sparse_wf data" and "in_tree l i" and "bytes32 h"
  shows "\<exists>data'. write_sparse_node data l i h = Inr data' \<and> sparse_wf data' \<and>
    (\<forall>d. read_sparse_node data' l i d = Inr h) \<and>
    (\<forall>m j d. in_tree m j \<and> (m, j) \<noteq> (l, i) \<longrightarrow> read_sparse_node data' m j d = read_sparse_node data m j d)"
proof -
  obtain data' where w: "write_sparse_node data l i h = Inr data'" "sparse_wf data'"
    using sparse_map.write_cases [OF assms] by metis
  then show ?thesis
    using sparse_map.read_written [OF assms w(1)] sparse_map.read_other [OF assms w(1)] by blast
qed

theorem sparse_read_after_write_witness:
  "\<exists>data'. write_sparse_node [] 9 511 (replicate 32 7) = Inr data' \<and>
     read_sparse_node data' 9 511 [] = Inr (replicate 32 7) \<and> read_sparse_node data' 9 510 [1] = Inr [1]"
proof -
  have t: "in_tree 9 511" "in_tree 9 510" by (simp_all add: in_tree_def TREE_DEPTH_def)
  have "read_sparse_node [] 9 510 [1] = Inr [1]" by (simp add: read_sparse_node_def)
  then show ?thesis
    using sparse_read_after_write [OF sparse_wf_Nil t(1), of "replicate 32 7"] t(2) by fastforce
qed

text \<open>
  Node addresses are unique: two nodes of the tree have the same offset only if they are the same
  node, and every offset fits the \<open>u16\<close> key of an entry.
\<close>

theorem node_addresses_unique:
  assumes "in_tree l i" and "in_tree m j"
  shows "(word_of_nat (node_offset l i) = (word_of_nat (node_offset m j) :: u16) \<longleftrightarrow> l = m \<and> i = j) \<and>
    node_offset l i < TREE_NODES"
  using offset16_inject [OF assms] node_offset_bound [OF assms(1)] by simp

theorem node_addresses_unique_witness:
  "word_of_nat (node_offset 9 511) \<noteq> (word_of_nat (node_offset 8 255) :: u16)"
  using node_addresses_unique [of 9 511 8 255] by (simp add: in_tree_def TREE_DEPTH_def)

end
