(* ===== verification/MerkleTree.thy ===== *)
theory MerkleTree
  imports Sparse Hash Lez Instruction
begin

text \<open>
  The merkle guest program, \<open>methods/guest/src/merkle_tree.rs\<close>: every operation on the bytes of
  the tree shard, and the plan and apply entry points. The fallible operations return the new
  shard or the way the session ends. Guest \<open>usize\<close> is 32 bits wide: \<open>as_usize\<close> is the cast.
\<close>

unbundle bit_operations_syntax

section \<open>Effects\<close>

datatype merkle_effect =
    EInitialize
  | EInsert bytes
  | ERemove u64 bytes
  | ESet u64 bytes

fun merkle_effect_from :: "merkle_instruction \<Rightarrow> merkle_effect" where
  "merkle_effect_from MInitialize = EInitialize"
| "merkle_effect_from (MInsert leaf) = EInsert leaf"
| "merkle_effect_from (MRemove index leaf) = ERemove index leaf"
| "merkle_effect_from (MSet index leaf) = ESet index leaf"

section \<open>Shard constructors and readers\<close>

definition as_usize :: "u64 \<Rightarrow> nat" where
  "as_usize w = unat w mod 2 ^ 32"

primrec write_levels :: "nat \<Rightarrow> bytes list \<Rightarrow> bytes \<Rightarrow> bytes result" where
  "write_levels i [] data = Inr data"
| "write_levels i (h # hs) data =
     rbind (write_slice (OFFSET_CACHED_NODES + i * 32) h data) (write_levels (Suc i) hs)"

definition create_main_account_data_with_state :: "u64 \<Rightarrow> bytes \<Rightarrow> bytes list \<Rightarrow> bytes result" where
  "create_main_account_data_with_state next_index root cached_nodes =
     (let d0 = (replicate OFFSET_TREE_DATA 0)[OFFSET_DEPTH := word_of_nat TREE_DEPTH] in
      rbind (write_slice OFFSET_NEXT_INDEX (u64_le next_index) d0) (\<lambda>d1.
      rbind (write_slice OFFSET_ROOT root d1) (\<lambda>d2.
      write_levels 0 cached_nodes d2)))"

definition create_initialized_main_account_data :: "bytes result" where
  "create_initialized_main_account_data =
     rbind (compute_default_hashes TREE_DEPTH) (\<lambda>cached_nodes.
     rbind (index_at cached_nodes 0) (\<lambda>root.
     create_main_account_data_with_state 0 root cached_nodes))"

definition read_next_index :: "bytes \<Rightarrow> u64 result" where
  "read_next_index data = rbind (read_slice OFFSET_NEXT_INDEX 8 data) (\<lambda>b. Inr (u64_of b))"

definition read_root :: "bytes \<Rightarrow> bytes result" where
  "read_root data = read_slice OFFSET_ROOT 32 data"

section \<open>Internal helpers\<close>

definition check_header :: "bytes \<Rightarrow> unit result" where
  "check_header data =
     rbind (check (OFFSET_TREE_DATA \<le> length data) (Panic ''tree not initialized'')) (\<lambda>_.
     rbind (index_at data OFFSET_DEPTH) (\<lambda>d.
     check (unat d = TREE_DEPTH) (Panic ''tree was built to a different depth than this program'')))"

definition extract_cached_nodes :: "bytes \<Rightarrow> bytes list result" where
  "extract_cached_nodes data =
     rmap (\<lambda>i. read_slice (OFFSET_CACHED_NODES + i * 32) 32 data) [0..<TREE_DEPTH + 1]"

definition push_root_history :: "bytes \<Rightarrow> bytes \<Rightarrow> bytes result" where
  "push_root_history data new_root =
     rbind (read_slice OFFSET_ROOT 32 data) (\<lambda>old_root.
     rbind (read_slice OFFSET_ROOT_HISTORY ((ROOT_HISTORY_SIZE - 1) * 32) data) (\<lambda>kept.
     rbind (write_slice (OFFSET_ROOT_HISTORY + 32) kept data) (\<lambda>d1.
     rbind (write_slice OFFSET_ROOT_HISTORY old_root d1) (\<lambda>d2.
     write_slice OFFSET_ROOT new_root d2))))"

text \<open>The loop of \<open>compute_root_after_update\<close>, from \<open>level\<close> down to 1; it returns the node map and the hash at level 0.\<close>

primrec update_path ::
  "external \<Rightarrow> bytes list \<Rightarrow> nat \<Rightarrow> bytes \<Rightarrow> bytes \<Rightarrow> nat \<Rightarrow> (bytes \<times> bytes) result" where
  "update_path E cached_nodes 0 nodes current_hash current_index = Inr (nodes, current_hash)"
| "update_path E cached_nodes (Suc l) nodes current_hash current_index =
     rbind (write_sparse_node nodes (Suc l) current_index current_hash) (\<lambda>nodes1.
     let sibling_index = current_index XOR 1 in
     rbind (index_at cached_nodes (Suc l)) (\<lambda>d.
     rbind (read_sparse_node nodes1 (Suc l) sibling_index d) (\<lambda>sibling_hash.
     let (left, right) = (if current_index mod 2 = 0 then (current_hash, sibling_hash)
                          else (sibling_hash, current_hash)) in
     rbind (hash_pair E left right) (\<lambda>parent.
     update_path E cached_nodes l nodes1 parent (current_index div 2)))))"

definition compute_root_after_update ::
  "external \<Rightarrow> bytes \<Rightarrow> nat \<Rightarrow> bytes \<Rightarrow> bytes list \<Rightarrow> (bytes \<times> bytes) result" where
  "compute_root_after_update E leaf_value leaf_index nodes cached_nodes =
     rbind (update_path E cached_nodes TREE_DEPTH nodes leaf_value leaf_index) (\<lambda>(nodes1, root).
     rbind (write_sparse_node nodes1 0 0 root) (\<lambda>nodes2.
     Inr (nodes2, root)))"

definition update_leaf :: "external \<Rightarrow> bytes \<Rightarrow> nat \<Rightarrow> bytes \<Rightarrow> bytes result" where
  "update_leaf E pre_data leaf_index leaf =
     rbind (extract_cached_nodes pre_data) (\<lambda>cached_nodes.
     rbind (check (OFFSET_TREE_DATA \<le> length pre_data) out_of_range) (\<lambda>_.
     let data = take OFFSET_TREE_DATA pre_data;
         nodes = drop OFFSET_TREE_DATA pre_data in
     rbind (compute_root_after_update E leaf leaf_index nodes cached_nodes) (\<lambda>(nodes1, new_root).
     rbind (push_root_history data new_root) (\<lambda>data1.
     Inr (data1 @ nodes1)))))"

section \<open>Tree operations\<close>

definition initialize_tree :: "bytes \<Rightarrow> bytes result" where
  "initialize_tree pre_data =
     rbind (check (pre_data = []) (Panic ''tree already initialized'')) (\<lambda>_.
     create_initialized_main_account_data)"

definition insert_leaf :: "external \<Rightarrow> bytes \<Rightarrow> bytes \<Rightarrow> bytes result" where
  "insert_leaf E pre_data leaf =
     rbind (check_header pre_data) (\<lambda>_.
     rbind (validate_field_element E leaf) (\<lambda>_.
     rbind (read_next_index pre_data) (\<lambda>next_index.
     rbind (ensure (next_index < TREE_LEAVES) EXIT_TREE_FULL
         (''tree is full: next_index '' @ decimal (unat next_index) @ '' is past the last leaf'')) (\<lambda>_.
     rbind (update_leaf E pre_data (as_usize next_index) leaf) (\<lambda>data.
     write_slice OFFSET_NEXT_INDEX (u64_le (next_index + 1)) data)))))"

definition remove_leaf :: "external \<Rightarrow> bytes \<Rightarrow> u64 \<Rightarrow> bytes \<Rightarrow> bytes result" where
  "remove_leaf E pre_data index leaf =
     rbind (check_header pre_data) (\<lambda>_.
     rbind (read_next_index pre_data) (\<lambda>next_index.
     rbind (ensure (index < next_index) EXIT_LEAF_MISMATCH
         (''Cannot remove leaf at index '' @ decimal (unat index) @ '' when next_index is '' @ decimal (unat next_index))) (\<lambda>_.
     rbind (extract_cached_nodes pre_data) (\<lambda>cached_nodes.
     rbind (index_at cached_nodes TREE_DEPTH) (\<lambda>d.
     rbind (read_sparse_node (drop OFFSET_TREE_DATA pre_data) TREE_DEPTH (as_usize index) d) (\<lambda>current.
     rbind (ensure (current = leaf) EXIT_LEAF_MISMATCH (''leaf at index '' @ decimal (unat index) @ '' is not this member's'')) (\<lambda>_.
     update_leaf E pre_data (as_usize index) ZERO)))))))"

definition set_leaf :: "external \<Rightarrow> bytes \<Rightarrow> u64 \<Rightarrow> bytes \<Rightarrow> bytes result" where
  "set_leaf E pre_data index leaf =
     rbind (check_header pre_data) (\<lambda>_.
     rbind (validate_field_element E leaf) (\<lambda>_.
     rbind (read_next_index pre_data) (\<lambda>next_index.
     rbind (check (index < next_index) (Panic
         (''Can only set at index < next_index: index '' @ decimal (unat index) @ '' >= next_index '' @ decimal (unat next_index)))) (\<lambda>_.
     rbind (extract_cached_nodes pre_data) (\<lambda>cached_nodes.
     rbind (index_at cached_nodes TREE_DEPTH) (\<lambda>d.
     rbind (read_sparse_node (drop OFFSET_TREE_DATA pre_data) TREE_DEPTH (as_usize index) d) (\<lambda>current.
     rbind (check (current = ZERO \<or> current = d) (Panic ''Can only set at an empty (zeroed) index'')) (\<lambda>_.
     update_leaf E pre_data (as_usize index) leaf))))))))"

section \<open>Entry points\<close>

definition merkle_plan ::
  "plan_input \<Rightarrow> merkle_instruction \<Rightarrow> merkle_effect plan result" where
  "merkle_plan input ix =
     (case accounts input of
        [tree_main] \<Rightarrow>
          rbind (check (is_authorized tree_main)
                   (Panic ''tree account must be authorized by its owning program's pda_seeds'')) (\<lambda>_.
          rbind (check (program_account_id tree_main = self_account_id input)
                   (Panic ''tree account must be selected on the merkle program's own shard'')) (\<lambda>_.
          Inr (plan_effect tree_main (merkle_effect_from ix) new_plan)))
      | _ \<Rightarrow> Inl (Panic (''merkle program takes exactly one account (tree_main), got '' @ decimal (length (accounts input)))))"

fun merkle_apply :: "external \<Rightarrow> merkle_effect \<Rightarrow> bytes \<Rightarrow> bytes option result" where
  "merkle_apply E EInitialize pre_data = rbind (initialize_tree pre_data) (\<lambda>d. Inr (Some d))"
| "merkle_apply E (EInsert leaf) pre_data = rbind (insert_leaf E pre_data leaf) (\<lambda>d. Inr (Some d))"
| "merkle_apply E (ERemove index leaf) pre_data =
     rbind (remove_leaf E pre_data index leaf) (\<lambda>d. Inr (Some d))"
| "merkle_apply E (ESet index leaf) pre_data =
     rbind (set_leaf E pre_data index leaf) (\<lambda>d. Inr (Some d))"

end
