(* ===== verification/MerkleSpec.thy ===== *)
theory MerkleSpec
  imports MerkleTree
begin

text \<open>
  What the tree operations promise: the abstract view of a shard (its header fields and the
  value of every node), the invariant \<open>tree_ok\<close>, the reference tree \<open>merkle_node\<close> that recomputes a
  node from the leaves, and the refinement of each operation to its effect on the view.
\<close>

unbundle bit_operations_syntax

section \<open>The abstract view of a shard\<close>

definition hdr_next :: "bytes \<Rightarrow> u64" where
  "hdr_next d = u64_of (slice OFFSET_NEXT_INDEX 8 d)"

definition hdr_root :: "bytes \<Rightarrow> bytes" where
  "hdr_root d = slice OFFSET_ROOT 32 d"

definition hdr_history :: "bytes \<Rightarrow> bytes list" where
  "hdr_history d = map (\<lambda>i. slice (OFFSET_ROOT_HISTORY + i * 32) 32 d) [0..<ROOT_HISTORY_SIZE]"

definition hdr_cached :: "bytes \<Rightarrow> bytes list" where
  "hdr_cached d = map (\<lambda>i. slice (OFFSET_CACHED_NODES + i * 32) 32 d) [0..<TREE_DEPTH + 1]"

definition node_value :: "bytes \<Rightarrow> nat \<Rightarrow> nat \<Rightarrow> bytes" where
  "node_value nodes l i = (case sparse_node nodes l i of None \<Rightarrow> DEFAULT_HASHES ! l | Some h \<Rightarrow> h)"

definition tree_node :: "bytes \<Rightarrow> nat \<Rightarrow> nat \<Rightarrow> bytes" where
  "tree_node d = node_value (drop OFFSET_TREE_DATA d)"

definition tree_leaf :: "bytes \<Rightarrow> nat \<Rightarrow> bytes" where
  "tree_leaf d i = tree_node d TREE_DEPTH i"

text \<open>Node \<open>j\<close> at height \<open>k\<close> above the leaves, recomputed from the leaves alone.\<close>

primrec merkle_node :: "external \<Rightarrow> (nat \<Rightarrow> bytes) \<Rightarrow> nat \<Rightarrow> nat \<Rightarrow> bytes" where
  "merkle_node E leaf 0 j = leaf j"
| "merkle_node E leaf (Suc k) j =
     compress2 E (merkle_node E leaf k (2 * j)) (merkle_node E leaf k (2 * j + 1))"

definition merkle_root :: "external \<Rightarrow> (nat \<Rightarrow> bytes) \<Rightarrow> bytes" where
  "merkle_root E leaf = merkle_node E leaf TREE_DEPTH 0"

section \<open>The invariant\<close>

definition node_ok :: "external \<Rightarrow> bytes \<Rightarrow> bool" where
  "node_ok E h \<longleftrightarrow> bytes32 h \<and> felt_valid E h"

text \<open>Node \<open>(l, j)\<close> is the hash of its children.\<close>

definition hashed :: "external \<Rightarrow> (nat \<Rightarrow> nat \<Rightarrow> bytes) \<Rightarrow> nat \<Rightarrow> nat \<Rightarrow> bool" where
  "hashed E f l j \<longleftrightarrow> f l j = compress2 E (f (Suc l) (2 * j)) (f (Suc l) (2 * j + 1))"

definition nodes_ok :: "external \<Rightarrow> bytes \<Rightarrow> bool" where
  "nodes_ok E nodes \<longleftrightarrow> sparse_wf nodes \<and>
     (\<forall>l j. in_tree l j \<longrightarrow> node_ok E (node_value nodes l j)) \<and>
     (\<forall>l j. in_tree l j \<and> l < TREE_DEPTH \<longrightarrow> hashed E (node_value nodes) l j)"

definition header_ok :: "bytes \<Rightarrow> bool" where
  "header_ok d \<longleftrightarrow> OFFSET_TREE_DATA \<le> length d \<and> unat (d ! OFFSET_DEPTH) = TREE_DEPTH \<and>
     hdr_cached d = DEFAULT_HASHES"

definition tree_ok :: "external \<Rightarrow> bytes \<Rightarrow> bool" where
  "tree_ok E d \<longleftrightarrow> header_ok d \<and> nodes_ok E (drop OFFSET_TREE_DATA d) \<and>
     hdr_root d = tree_node d 0 0 \<and> unat (hdr_next d) \<le> 2 ^ TREE_DEPTH \<and>
     (\<forall>i. unat (hdr_next d) \<le> i \<and> i < 2 ^ TREE_DEPTH \<longrightarrow> tree_leaf d i = ZERO)"

text \<open>What the operations need of the hash functions.\<close>

definition poseidon_ok :: "external \<Rightarrow> bool" where
  "poseidon_ok E \<longleftrightarrow> poseidon_canonical E \<and> default_ladder E"

lemma poseidon_compress2: "poseidon_ok E \<Longrightarrow> node_ok E (compress2 E a b)"
  by (simp add: poseidon_ok_def poseidon_canonical_def node_ok_def)

lemma poseidon_default: "poseidon_ok E \<Longrightarrow> l \<le> TREE_DEPTH \<Longrightarrow> node_ok E (DEFAULT_HASHES ! l)"
  using default_valid [of E l] by (simp add: poseidon_ok_def node_ok_def)

lemma poseidon_ZERO: "poseidon_ok E \<Longrightarrow> node_ok E ZERO"
  using poseidon_default [of E TREE_DEPTH] by (simp add: DEFAULT_HASHES_leaf)

section \<open>The root is the root of the reference tree\<close>

lemma in_tree_children:
  "in_tree l j \<Longrightarrow> l < TREE_DEPTH \<Longrightarrow> in_tree (Suc l) (2 * j) \<and> in_tree (Suc l) (2 * j + 1)"
  by (auto simp: in_tree_def)

lemma hashed_merkle_node:
  assumes "\<And>l j. in_tree l j \<Longrightarrow> l < TREE_DEPTH \<Longrightarrow> hashed E f l j"
  shows "k \<le> TREE_DEPTH \<Longrightarrow> j < 2 ^ (TREE_DEPTH - k) \<Longrightarrow>
    f (TREE_DEPTH - k) j = merkle_node E (f TREE_DEPTH) k j"
proof (induction k arbitrary: j)
  case 0
  then show ?case by simp
next
  case (Suc k)
  let ?l = "TREE_DEPTH - Suc k"
  have l: "?l < TREE_DEPTH" "Suc ?l = TREE_DEPTH - k" using Suc.prems by auto
  have t: "in_tree ?l j" using Suc.prems by (simp add: in_tree_def)
  have ch: "2 * j < 2 ^ (TREE_DEPTH - k)" "2 * j + 1 < 2 ^ (TREE_DEPTH - k)"
    using in_tree_children [OF t l(1)] l(2) by (auto simp: in_tree_def)
  have "f ?l j = compress2 E (f (Suc ?l) (2 * j)) (f (Suc ?l) (2 * j + 1))"
    using assms [OF t l(1)] by (simp add: hashed_def)
  with Suc.IH [OF _ ch(1)] Suc.IH [OF _ ch(2)] Suc.prems l(2) show ?case by simp
qed

lemma tree_ok_root: "tree_ok E d \<Longrightarrow> hdr_root d = merkle_root E (tree_leaf d)"
  using hashed_merkle_node [of E "tree_node d" TREE_DEPTH 0]
  by (simp add: tree_ok_def nodes_ok_def merkle_root_def tree_node_def tree_leaf_def [abs_def])

section \<open>Updating a path\<close>

lemma xor_one: "(i::nat) XOR 1 = (if even i then i + 1 else i - 1)"
  by (simp add: xor.commute [of i] Suc_0_xor_eq)

lemma sibling_cases:
  fixes i :: nat
  shows "i mod 2 = 0 \<Longrightarrow> 2 * (i div 2) = i \<and> 2 * (i div 2) + 1 = i XOR 1"
    and "i mod 2 \<noteq> 0 \<Longrightarrow> 2 * (i div 2) = i XOR 1 \<and> 2 * (i div 2) + 1 = i"
  unfolding xor_one by presburger+

lemma in_tree_sibling:
  assumes "in_tree (Suc l) i" shows "in_tree (Suc l) (i XOR 1)"
proof -
  have "i < 2 * 2 ^ l" using assms by (simp add: in_tree_def)
  then have "i div 2 < 2 ^ l" by auto
  then have "2 * (i div 2) < 2 * 2 ^ l \<and> 2 * (i div 2) + 1 < 2 * (2 ^ l :: nat)" by linarith
  then have "i XOR 1 < 2 * 2 ^ l" using sibling_cases [of i] by metis
  with assms show ?thesis by (simp add: in_tree_def)
qed

lemma in_tree_parent: "in_tree (Suc l) i \<Longrightarrow> in_tree l (i div 2)"
  by (auto simp: in_tree_def)

lemma in_tree_leaf: "in_tree TREE_DEPTH i \<longleftrightarrow> i < 2 ^ TREE_DEPTH"
  by (simp add: in_tree_def)

text \<open>The values after one write.\<close>

lemma node_value_write:
  assumes "sparse_wf nodes" and "in_tree l i" and "bytes32 h"
  obtains nodes1 where "write_sparse_node nodes l i h = Inr nodes1" and "sparse_wf nodes1"
    and "\<And>m j. in_tree m j \<Longrightarrow> node_value nodes1 m j = (if m = l \<and> j = i then h else node_value nodes m j)"
proof -
  from assms obtain nodes1 where *: "write_sparse_node nodes l i h = Inr nodes1" "sparse_wf nodes1"
    "\<And>m j. in_tree m j \<Longrightarrow> sparse_node nodes1 m j = (if m = l \<and> j = i then Some h else sparse_node nodes m j)"
    by (rule sparse_map.write_cases) blast
  show ?thesis by (rule that [OF *(1,2)]) (simp add: node_value_def *(3))
qed

lemma node_value_read:
  "sparse_wf nodes \<Longrightarrow> read_sparse_node nodes l i (DEFAULT_HASHES ! l) = Inr (node_value nodes l i)"
  by (simp add: sparse_map.read_node node_value_def)

text \<open>One level of the loop: write the node, hash it with its sibling, go to the parent.\<close>

lemma update_path_Suc:
  assumes "poseidon_ok E" and "sparse_wf nodes" and "in_tree (Suc l) i" and "node_ok E h"
    and "node_ok E (node_value nodes (Suc l) (i XOR 1))"
  obtains nodes1 where "sparse_wf nodes1"
    and "\<And>m j. in_tree m j \<Longrightarrow>
      node_value nodes1 m j = (if m = Suc l \<and> j = i then h else node_value nodes m j)"
    and "update_path E DEFAULT_HASHES (Suc l) nodes h i =
      update_path E DEFAULT_HASHES l nodes1
        (compress2 E (node_value nodes1 (Suc l) (2 * (i div 2))) (node_value nodes1 (Suc l) (2 * (i div 2) + 1)))
        (i div 2)"
proof -
  have "bytes32 h" using assms(4) by (simp add: node_ok_def)
  from assms(2,3) this obtain nodes1 where w: "write_sparse_node nodes (Suc l) i h = Inr nodes1"
    and wf: "sparse_wf nodes1"
    and val: "\<And>m j. in_tree m j \<Longrightarrow>
      node_value nodes1 m j = (if m = Suc l \<and> j = i then h else node_value nodes m j)"
    by (rule node_value_write) blast
  have d: "index_at DEFAULT_HASHES (Suc l) = Inr (DEFAULT_HASHES ! Suc l)"
    using assms(3) by (simp add: in_tree_def TREE_DEPTH_def)
  have sib: "node_value nodes1 (Suc l) (i XOR 1) = node_value nodes (Suc l) (i XOR 1)"
  proof -
    have "i XOR 1 \<noteq> i" by (auto simp only: xor_one split: if_splits) (auto elim: oddE)
    then show ?thesis using val [OF in_tree_sibling [OF assms(3)]] by (simp only: simp_thms if_False)
  qed
  have own: "node_value nodes1 (Suc l) i = h" using val [OF assms(3)] by simp
  let ?L = "node_value nodes1 (Suc l) (2 * (i div 2))"
    and ?R = "node_value nodes1 (Suc l) (2 * (i div 2) + 1)"
  have lr: "if i mod 2 = 0 then ?L = h \<and> ?R = node_value nodes1 (Suc l) (i XOR 1)
      else ?R = h \<and> ?L = node_value nodes1 (Suc l) (i XOR 1)"
    using own sibling_cases [of i] by (cases "i mod 2 = 0") auto
  then have "node_ok E ?L \<and> node_ok E ?R"
    using assms(4,5) sib by (simp split: if_splits)
  then have hp: "hash_pair E ?L ?R = Inr (compress2 E ?L ?R)"
    by (simp add: hash_pair_ok node_ok_def)
  have pr: "(if i mod 2 = 0 then (h, node_value nodes1 (Suc l) (i XOR 1))
      else (node_value nodes1 (Suc l) (i XOR 1), h)) = (?L, ?R)"
    using lr by (simp split: if_splits)
  have "update_path E DEFAULT_HASHES (Suc l) nodes h i =
      update_path E DEFAULT_HASHES l nodes1
        (compress2 E (node_value nodes1 (Suc l) (2 * (i div 2))) (node_value nodes1 (Suc l) (2 * (i div 2) + 1)))
        (i div 2)"
    by (simp only: update_path.simps w d rbind.simps Let_def node_value_read [OF wf] pr prod.case hp)
  with wf val show ?thesis by (rule that)
qed

text \<open>
  The loop from level \<open>l\<close>: when every node is the hash of its children except the strict ancestors of
  \<open>(l, i)\<close>, writing \<open>h\<close> there and then its ancestors makes the whole tree consistent again, and
  touches nothing at or below level \<open>l\<close> but that node.
\<close>

definition path_open :: "external \<Rightarrow> (nat \<Rightarrow> nat \<Rightarrow> bytes) \<Rightarrow> nat \<Rightarrow> nat \<Rightarrow> bool" where
  "path_open E f l i \<longleftrightarrow>
     (\<forall>m j. in_tree m j \<and> m < TREE_DEPTH \<and> \<not> (m < l \<and> j = i div 2 ^ (l - m)) \<longrightarrow> hashed E f m j)"

lemma path_open_cong:
  "(\<And>m j. in_tree m j \<Longrightarrow> f m j = g m j) \<Longrightarrow> path_open E f l i = path_open E g l i"
  unfolding path_open_def hashed_def
  by (metis in_tree_children)

lemma path_open_up:
  assumes "path_open E f (Suc l) i"
  shows "path_open E (f(l := (f l)(i div 2 := compress2 E (f (Suc l) (2 * (i div 2))) (f (Suc l) (2 * (i div 2) + 1))))) l (i div 2)"
proof -
  let ?g = "f(l := (f l)(i div 2 := compress2 E (f (Suc l) (2 * (i div 2))) (f (Suc l) (2 * (i div 2) + 1))))"
  show ?thesis
    unfolding path_open_def
  proof (intro allI impI, elim conjE)
    fix m j
    assume t: "in_tree m j" "m < TREE_DEPTH" and out: "\<not> (m < l \<and> j = i div 2 div 2 ^ (l - m))"
    show "hashed E ?g m j"
    proof (cases "m = l \<and> j = i div 2")
      case True
      then show ?thesis by (simp add: hashed_def)
    next
      case False
      have "\<not> (m < Suc l \<and> j = i div 2 ^ (Suc l - m))"
        using False out by (auto simp: less_Suc_eq Suc_diff_le div_mult2_eq)
      with assms t have "hashed E f m j" by (simp only: path_open_def simp_thms)
      moreover have "\<not> (Suc m = l \<and> (2 * j = i div 2 \<or> 2 * j + 1 = i div 2))"
        using out by (auto simp: div_mult2_eq)
      ultimately show ?thesis using False by (auto simp: hashed_def)
    qed
  qed
qed

abbreviation values_ok :: "external \<Rightarrow> bytes \<Rightarrow> bool" where
  "values_ok E nodes \<equiv> \<forall>m j. in_tree m j \<longrightarrow> node_ok E (node_value nodes m j)"

abbreviation put_node :: "(nat \<Rightarrow> nat \<Rightarrow> bytes) \<Rightarrow> nat \<Rightarrow> nat \<Rightarrow> bytes \<Rightarrow> nat \<Rightarrow> nat \<Rightarrow> bytes" where
  "put_node f l i h \<equiv> f(l := (f l)(i := h))"

definition path_updated ::
  "external \<Rightarrow> nat \<Rightarrow> bytes \<Rightarrow> bytes \<Rightarrow> nat \<Rightarrow> bytes \<Rightarrow> bytes \<Rightarrow> bytes \<Rightarrow> bool" where
  "path_updated E l nodes h i nodes1 root nodes2 \<longleftrightarrow>
     update_path E DEFAULT_HASHES l nodes h i = Inr (nodes1, root) \<and>
     write_sparse_node nodes1 0 0 root = Inr nodes2 \<and> nodes_ok E nodes2 \<and> node_value nodes2 0 0 = root \<and>
     (\<forall>m j. in_tree m j \<and> l \<le> m \<longrightarrow> node_value nodes2 m j = put_node (node_value nodes) l i h m j)"

lemma update_path_correct:
  assumes "poseidon_ok E"
  shows "sparse_wf nodes \<Longrightarrow> in_tree l i \<Longrightarrow> node_ok E h \<Longrightarrow> values_ok E nodes \<Longrightarrow>
    path_open E (put_node (node_value nodes) l i h) l i \<Longrightarrow>
    \<exists>nodes1 root nodes2. path_updated E l nodes h i nodes1 root nodes2"
proof (induction l arbitrary: nodes h i)
  case 0
  then have i: "i = 0" by (simp add: in_tree_def)
  have "bytes32 h" using 0 by (simp add: node_ok_def)
  with 0 i obtain nodes2 where w: "write_sparse_node nodes 0 0 h = Inr nodes2" "sparse_wf nodes2"
    and val: "\<And>m j. in_tree m j \<Longrightarrow>
      node_value nodes2 m j = (if m = 0 \<and> j = 0 then h else node_value nodes m j)"
    using node_value_write [of nodes 0 0 h] by metis
  have eq: "node_value nodes2 m j = put_node (node_value nodes) 0 i h m j" if "in_tree m j" for m j
    using val [OF that] i by simp
  have "path_open E (node_value nodes2) 0 i"
    using 0 path_open_cong [of "node_value nodes2", OF eq] by blast
  then have "nodes_ok E nodes2"
    using w(2) 0 eq by (auto simp: nodes_ok_def path_open_def val)
  with w eq i have "path_updated E 0 nodes h i nodes h nodes2"
    by (simp add: path_updated_def in_tree_def)
  then show ?case by blast
next
  case (Suc l)
  have sib: "node_ok E (node_value nodes (Suc l) (i XOR 1))"
    using Suc.prems(2,4) in_tree_sibling by blast
  from assms Suc.prems(1,2,3) sib obtain nodes1 where wf: "sparse_wf nodes1"
    and val: "\<And>m j. in_tree m j \<Longrightarrow>
      node_value nodes1 m j = (if m = Suc l \<and> j = i then h else node_value nodes m j)"
    and step: "update_path E DEFAULT_HASHES (Suc l) nodes h i =
      update_path E DEFAULT_HASHES l nodes1
        (compress2 E (node_value nodes1 (Suc l) (2 * (i div 2))) (node_value nodes1 (Suc l) (2 * (i div 2) + 1)))
        (i div 2)"
    by (rule update_path_Suc) blast
  let ?p = "compress2 E (node_value nodes1 (Suc l) (2 * (i div 2))) (node_value nodes1 (Suc l) (2 * (i div 2) + 1))"
  have eq: "node_value nodes1 m j = put_node (node_value nodes) (Suc l) i h m j" if "in_tree m j" for m j
    using val [OF that] by simp
  have "path_open E (node_value nodes1) (Suc l) i"
    using Suc.prems(5) path_open_cong [of "node_value nodes1", OF eq] by blast
  then have "path_open E (put_node (node_value nodes1) l (i div 2) ?p) l (i div 2)"
    by (rule path_open_up)
  moreover have "values_ok E nodes1" using Suc.prems(3,4) by (simp add: val)
  ultimately obtain nodes2 root nodes3
    where up: "path_updated E l nodes1 ?p (i div 2) nodes2 root nodes3"
    using Suc.IH [OF wf in_tree_parent [OF Suc.prems(2)] poseidon_compress2 [OF assms]] by blast
  have "node_value nodes3 m j = put_node (node_value nodes) (Suc l) i h m j"
    if "in_tree m j" "Suc l \<le> m" for m j
  proof -
    have "node_value nodes3 m j = put_node (node_value nodes1) l (i div 2) ?p m j"
      using up that by (simp only: path_updated_def Suc_leD)
    with that eq show ?thesis by simp
  qed
  then have "\<forall>m j. in_tree m j \<and> Suc l \<le> m \<longrightarrow> node_value nodes3 m j = put_node (node_value nodes) (Suc l) i h m j"
    by blast
  with up step have "path_updated E (Suc l) nodes h i nodes2 root nodes3"
    unfolding path_updated_def by metis
  then show ?case by blast
qed

text \<open>Setting a leaf of a consistent tree.\<close>

lemma compute_root_correct:
  assumes "poseidon_ok E" and "nodes_ok E nodes" and "i < 2 ^ TREE_DEPTH" and "node_ok E h"
  obtains nodes2 where
    "compute_root_after_update E h i nodes DEFAULT_HASHES = Inr (nodes2, node_value nodes2 0 0)"
    and "nodes_ok E nodes2"
    and "\<And>j. j < 2 ^ TREE_DEPTH \<Longrightarrow>
      node_value nodes2 TREE_DEPTH j = (if j = i then h else node_value nodes TREE_DEPTH j)"
proof -
  let ?f = "put_node (node_value nodes) TREE_DEPTH i h"
  have "hashed E ?f m j" if "in_tree m j" "m < TREE_DEPTH" "\<not> (j = i div 2 ^ (TREE_DEPTH - m))" for m j
  proof -
    have "hashed E (node_value nodes) m j" using assms(2) that by (simp add: nodes_ok_def)
    moreover have "\<not> (Suc m = TREE_DEPTH \<and> (2 * j = i \<or> 2 * j + 1 = i))"
    proof
      assume a: "Suc m = TREE_DEPTH \<and> (2 * j = i \<or> 2 * j + 1 = i)"
      then have "TREE_DEPTH - m = 1" by arith
      then show False using that(3) a by auto
    qed
    ultimately show ?thesis using that by (auto simp: hashed_def)
  qed
  then have "path_open E ?f TREE_DEPTH i" by (simp add: path_open_def)
  then obtain nodes1 root nodes2 where "path_updated E TREE_DEPTH nodes h i nodes1 root nodes2"
    using update_path_correct [of E nodes TREE_DEPTH i h] assms by (auto simp: nodes_ok_def in_tree_leaf)
  then show ?thesis
    by (intro that [of nodes2])
      (auto simp: path_updated_def compute_root_after_update_def in_tree_leaf)
qed

end
