(* ===== verification/MerkleOps.thy ===== *)
theory MerkleOps
  imports MerkleSpec
begin

text \<open>
  The tree operations refine their specification: a tree is a next index, 512 leaves and the
  history of roots; the root is that of the reference tree over the leaves. Every operation
  commutes with the view of a shard on every branch, and keeps the invariant \<open>tree_ok\<close>.
\<close>

unbundle bit_operations_syntax

section \<open>The specification\<close>

record tree_view =
  tv_next :: nat
  tv_leaves :: "bytes list"
  tv_history :: "bytes list"

definition view :: "bytes \<Rightarrow> tree_view" where
  "view d = \<lparr>tv_next = unat (hdr_next d), tv_leaves = map (tree_leaf d) [0..<2 ^ TREE_DEPTH],
             tv_history = hdr_history d\<rparr>"

definition spec_root :: "external \<Rightarrow> tree_view \<Rightarrow> bytes" where
  "spec_root E t = merkle_root E (\<lambda>i. tv_leaves t ! i)"

definition spec_put :: "external \<Rightarrow> nat \<Rightarrow> bytes \<Rightarrow> tree_view \<Rightarrow> tree_view" where
  "spec_put E i h t = t\<lparr>tv_leaves := (tv_leaves t)[i := h],
                        tv_history := spec_root E t # take 3 (tv_history t)\<rparr>"

definition spec_insert :: "external \<Rightarrow> bytes \<Rightarrow> tree_view \<Rightarrow> tree_view result" where
  "spec_insert E leaf t =
     (if \<not> felt_valid E leaf then Inl (Panic ''Input is not a valid BN254 field element (must be < prime)'')
      else if tv_next t = 2 ^ TREE_DEPTH then Inl (Halt EXIT_TREE_FULL
        (''tree is full: next_index '' @ decimal (tv_next t) @ '' is past the last leaf''))
      else Inr ((spec_put E (tv_next t) leaf t)\<lparr>tv_next := tv_next t + 1\<rparr>))"

definition spec_remove :: "external \<Rightarrow> nat \<Rightarrow> bytes \<Rightarrow> tree_view \<Rightarrow> tree_view result" where
  "spec_remove E i leaf t =
     (if \<not> i < tv_next t then Inl (Halt EXIT_LEAF_MISMATCH
        (''Cannot remove leaf at index '' @ decimal i @ '' when next_index is '' @ decimal (tv_next t)))
      else if tv_leaves t ! i \<noteq> leaf then Inl (Halt EXIT_LEAF_MISMATCH (''leaf at index '' @ decimal i @ '' is not this member's''))
      else Inr (spec_put E i ZERO t))"

definition spec_set :: "external \<Rightarrow> nat \<Rightarrow> bytes \<Rightarrow> tree_view \<Rightarrow> tree_view result" where
  "spec_set E i leaf t =
     (if \<not> felt_valid E leaf then Inl (Panic ''Input is not a valid BN254 field element (must be < prime)'')
      else if \<not> i < tv_next t then Inl (Panic
        (''Can only set at index < next_index: index '' @ decimal i @ '' >= next_index '' @ decimal (tv_next t)))
      else if tv_leaves t ! i \<noteq> ZERO then Inl (Panic ''Can only set at an empty (zeroed) index'')
      else Inr (spec_put E i leaf t))"

section \<open>The header\<close>

lemma upt_four: "[0..<4] = [0, 1, 2, 3 :: nat]"
  by (simp add: upt_rec)

text \<open>Fields read from the header only.\<close>

lemma hdr_append:
  assumes "length d = OFFSET_TREE_DATA"
  shows "hdr_next (d @ n) = hdr_next d" "hdr_root (d @ n) = hdr_root d"
    "hdr_history (d @ n) = hdr_history d" "hdr_cached (d @ n) = hdr_cached d"
  using assms
  by (auto simp: hdr_next_def hdr_root_def hdr_history_def hdr_cached_def header_offsets bytes_simps
      simp del: offset_tree_data)

lemma hdr_take:
  assumes "OFFSET_TREE_DATA \<le> length d"
  shows "hdr_next (take OFFSET_TREE_DATA d) = hdr_next d" "hdr_root (take OFFSET_TREE_DATA d) = hdr_root d"
    "hdr_history (take OFFSET_TREE_DATA d) = hdr_history d" "hdr_cached (take OFFSET_TREE_DATA d) = hdr_cached d"
proof -
  have len: "length (take OFFSET_TREE_DATA d) = OFFSET_TREE_DATA" using assms by simp
  show "hdr_next (take OFFSET_TREE_DATA d) = hdr_next d" "hdr_root (take OFFSET_TREE_DATA d) = hdr_root d"
    "hdr_history (take OFFSET_TREE_DATA d) = hdr_history d" "hdr_cached (take OFFSET_TREE_DATA d) = hdr_cached d"
    using hdr_append [OF len, of "drop OFFSET_TREE_DATA d"] by (simp_all only: append_take_drop_id)
qed

lemma push_root_history_correct:
  assumes "length d = OFFSET_TREE_DATA" and "bytes32 r"
  obtains d1 where "push_root_history d r = Inr d1" and "length d1 = OFFSET_TREE_DATA"
    and "d1 ! 0 = d ! 0" and "hdr_next d1 = hdr_next d" and "hdr_root d1 = r"
    and "hdr_history d1 = hdr_root d # take 3 (hdr_history d)" and "hdr_cached d1 = hdr_cached d"
proof -
  let ?d1 = "splice 9 r (splice 41 (slice 9 32 d) (splice 73 (slice 41 96 d) d))"
  note len = assms [unfolded offset_tree_data]
  have lens: "length (slice 41 96 d) = 96" "length (slice 9 32 d) = 32" using len by (simp_all add: bytes_simps)
  have "push_root_history d r = Inr ?d1"
    using len lens by (simp add: push_root_history_def header_offsets bytes_simps)
  moreover have "length ?d1 = OFFSET_TREE_DATA" using len lens by (simp add: bytes_simps)
  moreover have "?d1 ! 0 = d ! 0" using len lens by (simp add: bytes_simps)
  moreover have "hdr_next ?d1 = hdr_next d" "hdr_root ?d1 = r"
    using len lens by (simp_all add: hdr_next_def hdr_root_def header_offsets bytes_simps)
  moreover have "hdr_history ?d1 = hdr_root d # take 3 (hdr_history d)"
    using len lens by (simp add: hdr_history_def hdr_root_def ROOT_HISTORY_SIZE_def upt_four
        header_offsets bytes_simps)
  moreover have "hdr_cached ?d1 = hdr_cached d"
    using len lens by (simp add: hdr_cached_def header_offsets bytes_simps)
  ultimately show ?thesis by (rule that)
qed

lemma extract_cached_correct:
  assumes "OFFSET_TREE_DATA \<le> length d" shows "extract_cached_nodes d = Inr (hdr_cached d)"
  unfolding extract_cached_nodes_def hdr_cached_def
  by (rule rmap_ok) (use assms in \<open>auto simp: header_offsets read_slice_ok simp del: offset_tree_data\<close>)

text \<open>Writing the next index.\<close>

lemma write_next_index_correct:
  assumes "OFFSET_TREE_DATA \<le> length d"
  obtains d1 where "write_slice OFFSET_NEXT_INDEX (u64_le n) d = Inr d1" and "length d1 = length d"
    and "d1 ! 0 = d ! 0" and "hdr_next d1 = n" and "hdr_root d1 = hdr_root d"
    and "hdr_history d1 = hdr_history d" and "hdr_cached d1 = hdr_cached d"
    and "drop OFFSET_TREE_DATA d1 = drop OFFSET_TREE_DATA d"
proof -
  let ?d1 = "splice 1 (u64_le n) d"
  note len = assms [unfolded offset_tree_data]
  have "write_slice OFFSET_NEXT_INDEX (u64_le n) d = Inr ?d1" "length ?d1 = length d" "?d1 ! 0 = d ! 0"
    "hdr_next ?d1 = n" "hdr_root ?d1 = hdr_root d" "hdr_history ?d1 = hdr_history d"
    "hdr_cached ?d1 = hdr_cached d" "drop OFFSET_TREE_DATA ?d1 = drop OFFSET_TREE_DATA d"
    using len by (simp_all add: hdr_next_def hdr_root_def hdr_history_def hdr_cached_def
        header_offsets bytes_simps)
  then show ?thesis by (rule that)
qed

section \<open>Changing one leaf\<close>

lemma tree_node_append:
  "length d = OFFSET_TREE_DATA \<Longrightarrow> tree_node (d @ n) = node_value n"
  by (simp add: tree_node_def)

lemma update_leaf_correct:
  assumes E: "poseidon_ok E" and hd: "header_ok d" and nd: "nodes_ok E (drop OFFSET_TREE_DATA d)"
    and i: "i < 2 ^ TREE_DEPTH" and h: "node_ok E h"
  obtains d1 where "update_leaf E d i h = Inr d1" and "header_ok d1"
    and "nodes_ok E (drop OFFSET_TREE_DATA d1)" and "hdr_root d1 = tree_node d1 0 0"
    and "hdr_next d1 = hdr_next d" and "hdr_history d1 = hdr_root d # take 3 (hdr_history d)"
    and "\<And>j. j < 2 ^ TREE_DEPTH \<Longrightarrow> tree_leaf d1 j = (if j = i then h else tree_leaf d j)"
proof -
  have len: "OFFSET_TREE_DATA \<le> length d" and c: "hdr_cached d = DEFAULT_HASHES"
    using hd by (auto simp: header_ok_def)
  obtain n where cr: "compute_root_after_update E h i (drop OFFSET_TREE_DATA d) DEFAULT_HASHES
      = Inr (n, node_value n 0 0)" and nok: "nodes_ok E n"
    and val: "\<And>j. j < 2 ^ TREE_DEPTH \<Longrightarrow>
      node_value n TREE_DEPTH j = (if j = i then h else node_value (drop OFFSET_TREE_DATA d) TREE_DEPTH j)"
    using compute_root_correct [OF E nd i h] by metis
  have lt: "length (take OFFSET_TREE_DATA d) = OFFSET_TREE_DATA" using len by simp
  have "in_tree 0 0" by (simp add: in_tree_def)
  then have "bytes32 (node_value n 0 0)" using nok by (simp add: nodes_ok_def node_ok_def)
  then obtain d1 where p: "push_root_history (take OFFSET_TREE_DATA d) (node_value n 0 0) = Inr d1"
    and l1: "length d1 = OFFSET_TREE_DATA" and v: "d1 ! 0 = take OFFSET_TREE_DATA d ! 0"
      "hdr_next d1 = hdr_next d" "hdr_root d1 = node_value n 0 0"
      "hdr_history d1 = hdr_root d # take 3 (hdr_history d)" "hdr_cached d1 = hdr_cached d"
    using push_root_history_correct [OF lt] hdr_take [OF len] by metis
  have "update_leaf E d i h = Inr (d1 @ n)"
    using len by (simp only: update_leaf_def extract_cached_correct [OF len] c rbind.simps check_True
        Let_def cr prod.case p)
  moreover have "header_ok (d1 @ n)"
    using hd l1 v c by (simp add: header_ok_def hdr_append OFFSET_DEPTH_def nth_append)
  moreover have "nodes_ok E (drop OFFSET_TREE_DATA (d1 @ n))" using nok l1 by simp
  moreover have "hdr_root (d1 @ n) = tree_node (d1 @ n) 0 0"
    using l1 v by (simp only: hdr_append tree_node_append)
  moreover have "hdr_next (d1 @ n) = hdr_next d" "hdr_history (d1 @ n) = hdr_root d # take 3 (hdr_history d)"
    using l1 v by (simp_all only: hdr_append)
  moreover have "tree_leaf (d1 @ n) j = (if j = i then h else tree_leaf d j)" if "j < 2 ^ TREE_DEPTH" for j
    using val [OF that] by (simp only: tree_leaf_def tree_node_append [OF l1]) (simp only: tree_node_def)
  ultimately show ?thesis by (rule that)
qed

text \<open>On the view, and with the invariant.\<close>

lemma view_sel [simp]:
  "tv_next (view d) = unat (hdr_next d)" "tv_history (view d) = hdr_history d"
  "length (tv_leaves (view d)) = 2 ^ TREE_DEPTH"
  "i < 2 ^ TREE_DEPTH \<Longrightarrow> tv_leaves (view d) ! i = tree_leaf d i"
  by (simp_all add: view_def)

lemma merkle_node_cong:
  "(\<And>i. i < 2 ^ k * Suc j \<Longrightarrow> f i = g i) \<Longrightarrow> merkle_node E f k j = merkle_node E g k j"
proof (induction k arbitrary: j)
  case 0
  then show ?case by simp
next
  case (Suc k)
  have "merkle_node E f k (2 * j) = merkle_node E g k (2 * j)"
    "merkle_node E f k (2 * j + 1) = merkle_node E g k (2 * j + 1)"
    by (rule Suc.IH, rule Suc.prems, simp add: algebra_simps)+
  then show ?case by simp
qed

lemma spec_root_view: "spec_root E (view d) = merkle_root E (tree_leaf d)"
  unfolding spec_root_def merkle_root_def by (rule merkle_node_cong) simp

lemma update_leaf_view:
  assumes E: "poseidon_ok E" and ok: "tree_ok E d" and i: "i < unat (hdr_next d) \<or> h = ZERO \<or> i = unat (hdr_next d)"
    and lt: "i < 2 ^ TREE_DEPTH" and h: "node_ok E h"
  obtains d1 where "update_leaf E d i h = Inr d1" and "view d1 = spec_put E i h (view d)"
    and "header_ok d1" and "nodes_ok E (drop OFFSET_TREE_DATA d1)" and "hdr_root d1 = tree_node d1 0 0"
    and "hdr_next d1 = hdr_next d"
    and "\<And>j. j < 2 ^ TREE_DEPTH \<Longrightarrow> tree_leaf d1 j = (if j = i then h else tree_leaf d j)"
proof -
  have "header_ok d" "nodes_ok E (drop OFFSET_TREE_DATA d)" using ok by (auto simp: tree_ok_def)
  then obtain d1 where d1: "update_leaf E d i h = Inr d1" "header_ok d1"
    "nodes_ok E (drop OFFSET_TREE_DATA d1)" "hdr_root d1 = tree_node d1 0 0"
    "hdr_next d1 = hdr_next d" and hist: "hdr_history d1 = hdr_root d # take 3 (hdr_history d)"
    and leaf: "\<And>j. j < 2 ^ TREE_DEPTH \<Longrightarrow> tree_leaf d1 j = (if j = i then h else tree_leaf d j)"
    using update_leaf_correct [OF E _ _ lt h] by metis
  have "map (tree_leaf d1) [0..<2 ^ TREE_DEPTH] = (map (tree_leaf d) [0..<2 ^ TREE_DEPTH])[i := h]"
    using lt by (intro nth_equalityI) (auto simp: leaf nth_list_update)
  moreover have "spec_root E (view d) = hdr_root d" using tree_ok_root [OF ok] by (simp add: spec_root_view)
  ultimately have "view d1 = spec_put E i h (view d)"
    using d1 hist by (simp only: spec_put_def) (simp add: view_def)
  then show ?thesis using d1 leaf by (intro that)
qed

section \<open>The operations\<close>

lemma check_header_ok: "header_ok d \<Longrightarrow> check_header d = Inr ()"
  by (auto simp: check_header_def header_ok_def OFFSET_DEPTH_def index_at_def)

lemma read_next_index_ok: "header_ok d \<Longrightarrow> read_next_index d = Inr (hdr_next d)"
  by (simp add: read_next_index_def header_ok_def hdr_next_def OFFSET_NEXT_INDEX_def bytes_simps)

lemma cached_ok: "header_ok d \<Longrightarrow> extract_cached_nodes d = Inr DEFAULT_HASHES"
  by (simp add: header_ok_def extract_cached_correct)

lemma cached_leaf_ok: "index_at DEFAULT_HASHES TREE_DEPTH = Inr ZERO"
  by (simp add: index_at_def DEFAULT_HASHES_leaf) (simp add: TREE_DEPTH_def)

lemma read_leaf_ok:
  "tree_ok E d \<Longrightarrow> read_sparse_node (drop OFFSET_TREE_DATA d) TREE_DEPTH i ZERO = Inr (tree_leaf d i)"
  using node_value_read [of "drop OFFSET_TREE_DATA d" TREE_DEPTH i]
  by (simp add: tree_ok_def nodes_ok_def tree_leaf_def tree_node_def DEFAULT_HASHES_leaf)

lemma as_usize_small: "unat w \<le> 2 ^ TREE_DEPTH \<Longrightarrow> as_usize w = unat w"
  by (simp add: as_usize_def TREE_DEPTH_def)

lemmas tree_ok_parts = check_header_ok read_next_index_ok cached_ok

text \<open>The fresh tree.\<close>

lemma write_levels_correct:
  "list_all bytes32 hs \<Longrightarrow> length data = OFFSET_TREE_DATA \<Longrightarrow> i + length hs \<le> TREE_DEPTH + 1 \<Longrightarrow>
   \<exists>d. write_levels i hs data = Inr d \<and> length d = OFFSET_TREE_DATA \<and> d ! 0 = data ! 0 \<and>
     (\<forall>a n. a + n \<le> OFFSET_CACHED_NODES + i * 32 \<longrightarrow> slice a n d = slice a n data) \<and>
     (\<forall>k < length hs. slice (OFFSET_CACHED_NODES + (i + k) * 32) 32 d = hs ! k)"
proof (induction hs arbitrary: i data)
  case Nil
  then show ?case by simp
next
  case (Cons h hs)
  let ?o = "OFFSET_CACHED_NODES + i * 32"
  let ?s = "splice ?o h data"
  have h: "length h = 32" and o: "?o + length h \<le> length data" "0 < ?o"
    using Cons.prems by (auto simp: header_offsets)
  then have w: "write_slice ?o h data = Inr ?s" "length ?s = OFFSET_TREE_DATA" "?s ! 0 = data ! 0"
    using Cons.prems(2) by (simp_all only: write_slice_ok length_splice) (simp add: nth_splice_before)
  obtain d where d: "write_levels (Suc i) hs ?s = Inr d" "length d = OFFSET_TREE_DATA" "d ! 0 = ?s ! 0"
    and lo: "\<And>a n. a + n \<le> OFFSET_CACHED_NODES + Suc i * 32 \<Longrightarrow> slice a n d = slice a n ?s"
    and hi: "\<And>k. k < length hs \<Longrightarrow> slice (OFFSET_CACHED_NODES + (Suc i + k) * 32) 32 d = hs ! k"
    using Cons.IH [of ?s "Suc i"] Cons.prems w(2) by auto
  have "slice a n d = slice a n data" if "a + n \<le> ?o" for a n
    using lo [of a n] that o by (simp add: slice_splice_before)
  moreover have "slice (OFFSET_CACHED_NODES + (i + k) * 32) 32 d = (h # hs) ! k" if "k < length (h # hs)" for k
  proof (cases k)
    case 0
    then show ?thesis using lo [of ?o 32] o h by (simp add: slice_splice_same)
  next
    case (Suc m)
    then show ?thesis using hi [of m] that by simp
  qed
  ultimately show ?case using d w by auto
qed

lemma create_main_account_data_correct:
  assumes "bytes32 r" and "list_all bytes32 hs" and "length hs = TREE_DEPTH + 1"
  obtains d where "create_main_account_data_with_state n r hs = Inr d" and "length d = OFFSET_TREE_DATA"
    and "unat (d ! 0) = TREE_DEPTH" and "hdr_next d = n" and "hdr_root d = r" and "hdr_cached d = hs"
    and "hdr_history d = replicate ROOT_HISTORY_SIZE ZERO"
proof -
  let ?d0 = "(replicate OFFSET_TREE_DATA (0::u8))[OFFSET_DEPTH := word_of_nat TREE_DEPTH]"
  let ?d2 = "splice OFFSET_ROOT r (splice OFFSET_NEXT_INDEX (u64_le n) ?d0)"
  have l: "length ?d0 = 489" "length ?d2 = OFFSET_TREE_DATA"
    using assms(1) by (simp_all add: header_offsets length_splice)
  obtain d where w: "write_levels 0 hs ?d2 = Inr d" "length d = OFFSET_TREE_DATA" "d ! 0 = ?d2 ! 0"
    and lo: "\<And>a n. a + n \<le> OFFSET_CACHED_NODES \<Longrightarrow> slice a n d = slice a n ?d2"
    and hi: "\<And>k. k < length hs \<Longrightarrow> slice (OFFSET_CACHED_NODES + k * 32) 32 d = hs ! k"
    using write_levels_correct [OF assms(2) l(2), of 0] assms(3) by auto
  have "create_main_account_data_with_state n r hs = Inr d"
    using w(1) l assms(1) by (simp add: create_main_account_data_with_state_def header_offsets bytes_simps)
  moreover have "unat (d ! 0) = TREE_DEPTH"
    using w(3) l assms(1) by (simp add: header_offsets nth_splice_before length_splice)
  moreover have "hdr_next d = n" "hdr_root d = r"
    using assms(1) l by (simp_all add: hdr_next_def hdr_root_def lo header_offsets bytes_simps)
  moreover have "hdr_cached d = hs"
  proof -
    have "hdr_cached d = map (\<lambda>k. hs ! k) [0..<length hs]"
      unfolding hdr_cached_def assms(3) [symmetric] by (rule map_cong) (simp_all add: hi)
    then show ?thesis by (simp only: map_nth)
  qed
  moreover have "hdr_history d = replicate ROOT_HISTORY_SIZE ZERO"
  proof -
    have z: "slice a n ((replicate 489 (0::u8))[0 := x]) = replicate n 0" if "0 < a" "a + n \<le> 489" for a n x
      using that by (simp add: slice_def drop_update_cancel)
    have "slice (OFFSET_ROOT_HISTORY + i * 32) 32 d = ZERO" if "i < 4" for i
      using that l(1) assms(1) z
      by (simp add: lo header_offsets bytes_simps ZERO_def)
    then have "hdr_history d = map (\<lambda>i. ZERO) [0..<ROOT_HISTORY_SIZE]"
      unfolding hdr_history_def ROOT_HISTORY_SIZE_def by (intro map_cong) simp_all
    then show ?thesis by (simp only: map_replicate_const length_upt diff_zero)
  qed
  ultimately show ?thesis using w(2) by (intro that)
qed

lemma create_empty_tree:
  assumes "poseidon_ok E" and "unat n \<le> 2 ^ TREE_DEPTH"
  obtains d where "create_main_account_data_with_state n (DEFAULT_HASHES ! 0) DEFAULT_HASHES = Inr d"
    and "tree_ok E d" and "length d = OFFSET_TREE_DATA" and "hdr_next d = n" and "hdr_root d = DEFAULT_HASHES ! 0"
    and "\<And>i. tree_leaf d i = ZERO" and "hdr_history d = replicate ROOT_HISTORY_SIZE ZERO"
proof -
  have r: "bytes32 (DEFAULT_HASHES ! 0)" using poseidon_default [OF assms(1), of 0] by (simp add: node_ok_def)
  obtain d where c: "create_main_account_data_with_state n (DEFAULT_HASHES ! 0) DEFAULT_HASHES = Inr d"
    and len: "length d = 489" and v: "unat (d ! 0) = TREE_DEPTH"
    "hdr_next d = n" "hdr_root d = DEFAULT_HASHES ! 0" "hdr_cached d = DEFAULT_HASHES"
    "hdr_history d = replicate ROOT_HISTORY_SIZE ZERO"
    using create_main_account_data_correct [OF r DEFAULT_HASHES_bytes32, of n]
    unfolding offset_tree_data by (simp only: length_DEFAULT_HASHES TREE_DEPTH_def) (simp, metis)
  have nv: "tree_node d l i = DEFAULT_HASHES ! l" for l i
    using len by (simp add: tree_node_def node_value_def)
  have "nodes_ok E (drop OFFSET_TREE_DATA d)"
    using len assms(1) default_ladder_step [of E]
    by (auto simp: nodes_ok_def node_value_def in_tree_def poseidon_default hashed_def poseidon_ok_def)
  then have "tree_ok E d"
    using len v assms(2) by (simp add: tree_ok_def header_ok_def nv tree_leaf_def DEFAULT_HASHES_leaf OFFSET_DEPTH_def)
  with c len v nv show ?thesis by (intro that) (simp_all add: tree_leaf_def DEFAULT_HASHES_leaf)
qed

lemma initialize_tree_correct:
  assumes "poseidon_ok E"
  obtains d where "initialize_tree [] = Inr d" and "tree_ok E d" and "length d = OFFSET_TREE_DATA"
    and "hdr_next d = 0" and "hdr_root d = DEFAULT_HASHES ! 0" and "\<And>i. tree_leaf d i = ZERO"
    and "hdr_history d = replicate ROOT_HISTORY_SIZE ZERO"
  by (rule create_empty_tree [OF assms, of 0])
    (simp, rule that, simp_all add: initialize_tree_def create_initialized_main_account_data_def compute_default_hashes_def)

text \<open>Every operation, on every branch, is its specification on the view, and keeps the invariant.\<close>

lemma insert_leaf_cases:
  assumes E: "poseidon_ok E" and ok: "tree_ok E d" and b: "bytes32 leaf"
  shows "map_sum id view (insert_leaf E d leaf) = spec_insert E leaf (view d) \<and>
    (\<forall>d1. insert_leaf E d leaf = Inr d1 \<longrightarrow> tree_ok E d1)"
proof -
  have hd: "header_ok d" and bound: "unat (hdr_next d) \<le> 2 ^ TREE_DEPTH"
    and empty: "\<And>i. unat (hdr_next d) \<le> i \<Longrightarrow> i < 2 ^ TREE_DEPTH \<Longrightarrow> tree_leaf d i = ZERO"
    using ok by (auto simp: tree_ok_def)
  let ?n = "unat (hdr_next d)"
  note unf = insert_leaf_def tree_ok_parts [OF hd] cached_leaf_ok rbind.simps validate_field_element_def
  have full: "hdr_next d < TREE_LEAVES \<longleftrightarrow> ?n \<noteq> 2 ^ TREE_DEPTH"
    using bound by (auto simp: word_less_nat_alt TREE_DEPTH_def)
  consider (bad) "\<not> felt_valid E leaf" | (full) "felt_valid E leaf" "?n = 2 ^ TREE_DEPTH"
    | (ok) "felt_valid E leaf" "?n < 2 ^ TREE_DEPTH" using bound by linarith
  then show ?thesis
  proof cases
    case bad
    then show ?thesis by (simp add: unf spec_insert_def)
  next
    case full
    then show ?thesis by (simp add: unf \<open>hdr_next d < TREE_LEAVES \<longleftrightarrow> _\<close> spec_insert_def)
  next
    case ok
    then have "node_ok E leaf" using b by (simp add: node_ok_def)
    then obtain d1 where u: "update_leaf E d ?n leaf = Inr d1" "view d1 = spec_put E ?n leaf (view d)"
      and d1: "header_ok d1" "nodes_ok E (drop OFFSET_TREE_DATA d1)" "hdr_root d1 = tree_node d1 0 0"
        "hdr_next d1 = hdr_next d"
      and leaf: "\<And>j. j < 2 ^ TREE_DEPTH \<Longrightarrow> tree_leaf d1 j = (if j = ?n then leaf else tree_leaf d j)"
      using update_leaf_view [OF E assms(2) _ ok(2)] by metis
    have "OFFSET_TREE_DATA \<le> length d1" using d1(1) by (simp only: header_ok_def)
    then obtain d2 where w: "write_slice OFFSET_NEXT_INDEX (u64_le (hdr_next d + 1)) d1 = Inr d2"
      and d2: "length d2 = length d1" "d2 ! 0 = d1 ! 0" "hdr_next d2 = hdr_next d + 1" "hdr_root d2 = hdr_root d1"
        "hdr_history d2 = hdr_history d1" "hdr_cached d2 = hdr_cached d1"
        "drop OFFSET_TREE_DATA d2 = drop OFFSET_TREE_DATA d1"
      by (rule write_next_index_correct) blast
    have n: "unat (hdr_next d + 1) = ?n + 1" using ok(2) by (simp add: unat_word_ariths TREE_DEPTH_def)
    have same: "tree_node d2 = tree_node d1" "tree_leaf d2 = tree_leaf d1"
      by (simp_all only: tree_leaf_def [abs_def] tree_node_def d2(7))
    have "insert_leaf E d leaf = Inr d2"
      using ok \<open>hdr_next d < TREE_LEAVES \<longleftrightarrow> _\<close> bound by (simp add: unf as_usize_small u w)
    moreover have "view d2 = (view d1)\<lparr>tv_next := ?n + 1\<rparr>"
      by (simp add: view_def same d2 n)
    moreover have "tree_ok E d2"
      using d1 d2 ok(2) by (auto simp: tree_ok_def header_ok_def OFFSET_DEPTH_def same n leaf empty)
    ultimately show ?thesis using ok u(2) by (simp add: spec_insert_def)
  qed
qed

lemma put_tree_ok:
  assumes E: "poseidon_ok E" and ok: "tree_ok E d" and i: "index < hdr_next d" and h: "node_ok E h"
  shows "map_sum id view (update_leaf E d (as_usize index) h) = Inr (spec_put E (unat index) h (view d)) \<and>
    (\<forall>d1. update_leaf E d (as_usize index) h = Inr d1 \<longrightarrow> tree_ok E d1)"
proof -
  have i: "unat index < unat (hdr_next d)" and bound: "unat (hdr_next d) \<le> 2 ^ TREE_DEPTH"
    using ok i by (simp_all add: tree_ok_def word_less_nat_alt)
  then have lt: "unat index < 2 ^ TREE_DEPTH" by simp
  obtain d1 where u: "update_leaf E d (unat index) h = Inr d1" "view d1 = spec_put E (unat index) h (view d)"
    and d1: "header_ok d1" "nodes_ok E (drop OFFSET_TREE_DATA d1)" "hdr_root d1 = tree_node d1 0 0"
      "hdr_next d1 = hdr_next d"
    and leaf: "\<And>j. j < 2 ^ TREE_DEPTH \<Longrightarrow> tree_leaf d1 j = (if j = unat index then h else tree_leaf d j)"
    using update_leaf_view [OF E ok _ lt h] i by metis
  have "tree_ok E d1" using ok d1 i by (simp add: tree_ok_def leaf)
  then show ?thesis using u lt by (simp add: as_usize_small)
qed

lemma remove_leaf_cases:
  assumes E: "poseidon_ok E" and ok: "tree_ok E d"
  shows "map_sum id view (remove_leaf E d index leaf) = spec_remove E (unat index) leaf (view d) \<and>
    (\<forall>d1. remove_leaf E d index leaf = Inr d1 \<longrightarrow> tree_ok E d1)"
proof -
  have hd: "header_ok d" and bound: "unat (hdr_next d) \<le> 2 ^ TREE_DEPTH" using ok by (auto simp: tree_ok_def)
  note unf = remove_leaf_def tree_ok_parts [OF hd] cached_leaf_ok rbind.simps read_leaf_ok [OF ok, unfolded offset_tree_data]
  show ?thesis
  proof (cases "index < hdr_next d")
    case False
    then show ?thesis by (simp add: unf spec_remove_def word_less_nat_alt)
  next
    case True
    then have "unat index < 2 ^ TREE_DEPTH" using bound by (simp add: word_less_nat_alt)
    with True put_tree_ok [OF E ok True poseidon_ZERO [OF E]] show ?thesis
      by (simp add: unf spec_remove_def as_usize_small) (simp add: word_less_nat_alt)
  qed
qed

lemma set_leaf_cases:
  assumes E: "poseidon_ok E" and ok: "tree_ok E d" and b: "bytes32 leaf"
  shows "map_sum id view (set_leaf E d index leaf) = spec_set E (unat index) leaf (view d) \<and>
    (\<forall>d1. set_leaf E d index leaf = Inr d1 \<longrightarrow> tree_ok E d1)"
proof -
  have hd: "header_ok d" and bound: "unat (hdr_next d) \<le> 2 ^ TREE_DEPTH" using ok by (auto simp: tree_ok_def)
  note unf = set_leaf_def tree_ok_parts [OF hd] cached_leaf_ok rbind.simps read_leaf_ok [OF ok, unfolded offset_tree_data] validate_field_element_def
  show ?thesis
  proof (cases "felt_valid E leaf \<and> index < hdr_next d")
    case False
    then show ?thesis by (auto simp: unf spec_set_def word_less_nat_alt)
  next
    case True
    then have "unat index < 2 ^ TREE_DEPTH" "node_ok E leaf" using bound b by (simp_all add: word_less_nat_alt node_ok_def)
    moreover have "index < hdr_next d" using True by simp
    ultimately show ?thesis
      using True put_tree_ok [OF E ok _ \<open>node_ok E leaf\<close>, of index]
      by (simp add: unf spec_set_def as_usize_small) (simp add: word_less_nat_alt)
  qed
qed

text \<open>The shard never outgrows its bound.\<close>

lemma tree_ok_length: "tree_ok E d \<Longrightarrow> length d \<le> TREE_SHARD_MAX_BYTES"
  using sparse_wf_length [of "drop OFFSET_TREE_DATA d"]
  by (simp add: tree_ok_def nodes_ok_def TREE_SHARD_MAX_BYTES_def)

end
