(* ===== verification/Runtime.thy ===== *)
theory Runtime
  imports ProgramSpec MerkleOps
begin

text \<open>
  How the two programs run together: the call order of \<open>src/cycle_harness.rs\<close> (a call's plan, its
  effects on the shards, then its chained calls), over shards keyed by account and owning program.
  Native transfers run in the host and are skipped there, as in the harness; its log of cycle
  counts is not modelled. \<open>replay\<close> has fuel for the depth of chained calls, and \<open>replay_fuel\<close> shows two
  levels are enough for the deployed pair of programs.
\<close>

section \<open>Sessions\<close>

datatype guest = RegistrationGuest | MerkleGuest

datatype guest_effect = OfRegistration effect | OfMerkle merkle_effect

type_synonym programs = "account_id \<Rightarrow> guest option"
type_synonym shards = "selector \<Rightarrow> bytes option"

definition shard :: "shards \<Rightarrow> selector \<Rightarrow> bytes" where
  "shard s k = (case s k of None \<Rightarrow> [] | Some d \<Rightarrow> d)"

definition map_plan :: "('a \<Rightarrow> 'b) \<Rightarrow> 'a plan \<Rightarrow> 'b plan" where
  "map_plan f p =
     \<lparr>effects = map (\<lambda>e. \<lparr>effect_selector = effect_selector e, effect_data = f (effect_data e)\<rparr>) (effects p),
      chained_calls = chained_calls p\<rparr>"

text \<open>A plan session: decode the instruction (\<open>run_program\<close>), then the guest's \<open>plan\<close>.\<close>

fun run_plan :: "external \<Rightarrow> guest \<Rightarrow> plan_input \<Rightarrow> guest_effect plan result" where
  "run_plan E RegistrationGuest input =
     (case from_slice dec_instruction (instruction_data input) of
        None \<Rightarrow> Inl (Panic ''decode instruction'')
      | Some ix \<Rightarrow> rbind (plan_instruction E input ix) (\<lambda>p. Inr (map_plan OfRegistration p)))"
| "run_plan E MerkleGuest input =
     (case from_slice dec_merkle_instruction (instruction_data input) of
        None \<Rightarrow> Inl (Panic ''decode instruction'')
      | Some ix \<Rightarrow> rbind (merkle_plan input ix) (\<lambda>p. Inr (map_plan OfMerkle p)))"

text \<open>An apply session: the guest's \<open>apply\<close>; an effect of the other program does not decode.\<close>

fun run_apply :: "external \<Rightarrow> guest \<Rightarrow> guest_effect \<Rightarrow> bytes \<Rightarrow> bytes option result" where
  "run_apply E RegistrationGuest (OfRegistration e) pre_data = apply_effect E e pre_data"
| "run_apply E MerkleGuest (OfMerkle e) pre_data = merkle_apply E e pre_data"
| "run_apply E RegistrationGuest (OfMerkle e) pre_data = Inl (Panic ''decode effect'')"
| "run_apply E MerkleGuest (OfRegistration e) pre_data = Inl (Panic ''decode effect'')"

definition apply_step :: "external \<Rightarrow> guest \<Rightarrow> shards \<Rightarrow> guest_effect shard_effect \<Rightarrow> shards result" where
  "apply_step E g s e =
     rbind (run_apply E g (effect_data e) (shard s (effect_selector e))) (\<lambda>post.
     Inr (case post of None \<Rightarrow> s | Some d \<Rightarrow> s(effect_selector e \<mapsto> d)))"

definition call_metas :: "chained_call \<Rightarrow> account_meta list" where
  "call_metas call =
     map (\<lambda>s. \<lparr>account_id = fst s, is_authorized = True, program_account_id = snd s\<rparr>) (shard_selectors call)"

section \<open>One call and its chained calls\<close>

primrec replay ::
  "nat \<Rightarrow> external \<Rightarrow> programs \<Rightarrow> shards \<Rightarrow> account_id \<Rightarrow> account_id option \<Rightarrow> account_meta list \<Rightarrow> bytes \<Rightarrow> shards result" where
  "replay 0 E programs s program_id caller metas data = Inl (Panic ''out of fuel'')"
| "replay (Suc n) E programs s program_id caller metas data =
     (case programs program_id of
        None \<Rightarrow> Inl (Panic ''no such program'')
      | Some g \<Rightarrow>
          rbind (run_plan E g \<lparr>self_account_id = program_id, caller_account_id = caller,
                               accounts = metas, instruction_data = data\<rparr>) (\<lambda>p.
          rbind (rfold (apply_step E g) s (effects p)) (\<lambda>s1.
          rfold (\<lambda>s2 call.
              if callee call = native_program E then Inr s2
              else replay n E programs s2 (callee call) (Some program_id) (call_metas call) (call_data call))
            s1 (chained_calls p))))"

text \<open>A transaction takes effect as a whole or not at all.\<close>

definition transaction ::
  "nat \<Rightarrow> external \<Rightarrow> programs \<Rightarrow> shards \<Rightarrow> account_id \<Rightarrow> account_meta list \<Rightarrow> bytes \<Rightarrow> shards" where
  "transaction n E programs s program_id metas data =
     (case replay n E programs s program_id None metas data of Inl e \<Rightarrow> s | Inr s' \<Rightarrow> s')"

definition deployed :: "account_id \<Rightarrow> account_id \<Rightarrow> programs" where
  "deployed R M = [R \<mapsto> RegistrationGuest, M \<mapsto> MerkleGuest]"

text \<open>The two programs and the native one are different accounts, and neither is the clock program.\<close>

definition separate :: "external \<Rightarrow> account_id \<Rightarrow> account_id \<Rightarrow> bool" where
  "separate E R M \<longleftrightarrow> R \<noteq> M \<and> R \<noteq> native_program E \<and> M \<noteq> native_program E \<and>
     R \<noteq> clock_account_id E \<and> M \<noteq> clock_account_id E"

lemma shard_upd [simp]: "shard (s(k \<mapsto> d)) k' = (if k' = k then d else shard s k')"
  by (simp add: shard_def)

lemma deployed_sel [simp]:
  "separate E R M \<Longrightarrow> deployed R M R = Some RegistrationGuest"
  "deployed R M M = Some MerkleGuest"
  "x \<noteq> R \<Longrightarrow> x \<noteq> M \<Longrightarrow> deployed R M x = None"
  by (simp_all add: deployed_def separate_def)

lemma map_plan_planned [simp]:
  "map_plan f (planned es cs) = planned (map (\<lambda>(s, e). (s, f e)) es) cs"
  by (simp add: map_plan_def split_def)

section \<open>The merkle call\<close>

lemma merkle_data: "merkle_instruction_ok ix \<Longrightarrow>
    from_slice dec_merkle_instruction (enc_merkle_instruction ix) = Some ix"
  by (rule merkle_codec.from_slice_enc)

lemma merkle_data_not_registration:
  assumes "merkle_instruction_ok ix"
  shows "from_slice dec_instruction (enc_merkle_instruction ix) = None"
proof (rule ccontr)
  assume "\<not> ?thesis"
  then obtain r where "from_slice dec_instruction (enc_merkle_instruction ix) = Some r" by auto
  then have "instruction_ok r" "enc_merkle_instruction ix = enc_instruction r"
    by (simp_all add: instruction_codec.from_slice_iff)
  then show False
    using length_enc_instruction [of r] length_enc_merkle [OF assms] by auto
qed

text \<open>The tree shard after a merkle instruction, or why it was refused.\<close>

definition merkle_run :: "external \<Rightarrow> merkle_instruction \<Rightarrow> bytes \<Rightarrow> bytes result" where
  "merkle_run E ix d =
     (case ix of MInitialize \<Rightarrow> initialize_tree d | MInsert leaf \<Rightarrow> insert_leaf E d leaf
      | MRemove i leaf \<Rightarrow> remove_leaf E d i leaf | MSet i leaf \<Rightarrow> set_leaf E d i leaf)"

lemma merkle_apply_run:
  "merkle_apply E (merkle_effect_from ix) d = rbind (merkle_run E ix d) (\<lambda>d1. Inr (Some d1))"
  by (cases ix) (simp_all add: merkle_run_def)

lemma merkle_plan_iff [plan_simps]:
  "merkle_plan input ix = Inr p \<longleftrightarrow>
     (\<exists>m. accounts input = [m] \<and> is_authorized m \<and> program_account_id m = self_account_id input \<and>
        p = planned [(meta_selector m, merkle_effect_from ix)] [])"
  unfolding merkle_plan_def by (auto simp: result_simps plan_builders)

lemma option_case_Inr:
  "(case x of None \<Rightarrow> Inl e | Some a \<Rightarrow> f a) = Inr y \<longleftrightarrow> (\<exists>a. x = Some a \<and> f a = Inr y)"
  by (cases x) auto

lemma run_plan_merkle [plan_simps]:
  "run_plan E MerkleGuest input = Inr p \<longleftrightarrow>
     (\<exists>ix q. merkle_instruction_ok ix \<and> instruction_data input = enc_merkle_instruction ix \<and>
        merkle_plan input ix = Inr q \<and> p = map_plan OfMerkle q)"
  unfolding run_plan.simps option_case_Inr
  by (auto simp: result_simps merkle_codec.from_slice_iff)

lemma run_plan_registration [plan_simps]:
  "run_plan E RegistrationGuest input = Inr p \<longleftrightarrow>
     (\<exists>ix q. instruction_ok ix \<and> instruction_data input = enc_instruction ix \<and>
        plan_instruction E input ix = Inr q \<and> p = map_plan OfRegistration q)"
  unfolding run_plan.simps option_case_Inr
  by (auto simp: result_simps instruction_codec.from_slice_iff)

declare run_plan.simps [simp del]

lemma apply_step_merkle:
  "apply_step E MerkleGuest s \<lparr>effect_selector = k, effect_data = OfMerkle (merkle_effect_from ix)\<rparr> =
     rbind (merkle_run E ix (shard s k)) (\<lambda>d. Inr (s(k \<mapsto> d)))"
  by (simp add: apply_step_def merkle_apply_run rbind_assoc)

lemma replay_merkle:
  "replay (Suc n) E (deployed R M) s M caller metas data = Inr s' \<longleftrightarrow>
     (\<exists>m ix d. metas = [m] \<and> is_authorized m \<and> program_account_id m = M \<and>
        merkle_instruction_ok ix \<and> data = enc_merkle_instruction ix \<and>
        merkle_run E ix (shard s (meta_selector m)) = Inr d \<and> s' = s(meta_selector m \<mapsto> d))"
  (is "?l \<longleftrightarrow> ?r")
proof
  assume ?l
  then show ?r by (fastforce simp: result_simps plan_simps map_plan_def apply_step_merkle)
next
  assume ?r
  then show ?l by (fastforce simp: result_simps plan_simps map_plan_def apply_step_merkle)
qed

section \<open>Transactions of the registration program\<close>

text \<open>
  What a merkle call by the registration program does when the claimed program is \<open>M'\<close>: the tree
  instruction if \<open>M'\<close> is the merkle program, nothing if it is the native one, else a failure.
\<close>

definition tree_called ::
  "external \<Rightarrow> account_id \<Rightarrow> account_id \<Rightarrow> account_id \<Rightarrow> bytes \<Rightarrow> merkle_instruction \<Rightarrow> shards \<Rightarrow> shards \<Rightarrow> bool" where
  "tree_called E R M M' t ix s s' \<longleftrightarrow>
     (M' = native_program E \<and> s' = s) \<or>
     (M' = M \<and> (\<exists>d. merkle_run E ix (shard s (tree_sel E R M t)) = Inr d \<and> s' = s(tree_sel E R M t \<mapsto> d)))"

lemma to_merkle_sel [simp]:
  "callee (to_merkle E R M' t ix) = M'"
  "call_data (to_merkle E R M' t ix) = enc_merkle_instruction ix"
  "call_metas (to_merkle E R M' t ix) =
     [\<lparr>account_id = pda_main E R t, is_authorized = True, program_account_id = M'\<rparr>]"
  by (simp_all add: to_merkle_def call_metas_def tree_sel_def)

lemma call_tree:
  assumes sep: "separate E R M" and ok: "merkle_instruction_ok ix"
  shows "(if callee (to_merkle E R M' t ix) = native_program E then Inr s
      else replay (Suc n) E (deployed R M) s (callee (to_merkle E R M' t ix)) caller
        (call_metas (to_merkle E R M' t ix)) (call_data (to_merkle E R M' t ix))) = Inr s' \<longleftrightarrow>
    tree_called E R M M' t ix s s'"
proof -
  consider "M' = native_program E" | "M' = M" "M' \<noteq> native_program E" | "M' = R" "M' \<noteq> native_program E" "M' \<noteq> M"
    | "M' \<noteq> R" "M' \<noteq> M" "M' \<noteq> native_program E" by blast
  then show ?thesis
  proof cases
    case 1
    then show ?thesis using sep by (auto simp: tree_called_def separate_def)
  next
    case 2
    then show ?thesis
      using ok by (auto simp: replay_merkle tree_called_def meta_selector_def tree_sel_def merkle_codec.enc_inject
          simp del: replay.simps)
  next
    case 3
    then show ?thesis
      using sep merkle_data_not_registration [OF ok] by (auto simp: tree_called_def run_plan.simps)
  next
    case 4
    then show ?thesis by (auto simp: tree_called_def)
  qed
qed

lemma replay_registration:
  assumes "separate E R M" and "instruction_ok ix"
  shows "replay (Suc n) E (deployed R M) s R caller metas (enc_instruction ix) = Inr s' \<longleftrightarrow>
    (\<exists>p s1. plan_instruction E \<lparr>self_account_id = R, caller_account_id = caller, accounts = metas,
        instruction_data = enc_instruction ix\<rparr> ix = Inr p \<and>
      rfold (apply_step E RegistrationGuest) s (effects (map_plan OfRegistration p)) = Inr s1 \<and>
      rfold (\<lambda>s2 call. if callee call = native_program E then Inr s2
          else replay n E (deployed R M) s2 (callee call) (Some R) (call_metas call) (call_data call))
        s1 (chained_calls p) = Inr s')"
  using assms by (auto simp: run_plan.simps instruction_codec.from_slice_enc result_simps map_plan_def)

lemma apply_step_registration [simp]:
  "apply_step E RegistrationGuest s \<lparr>effect_selector = k, effect_data = OfRegistration e\<rparr> =
     rbind (apply_effect E e (shard s k)) (\<lambda>post. Inr (case post of None \<Rightarrow> s | Some d \<Rightarrow> s(k \<mapsto> d)))"
  by (simp add: apply_step_def cong: option.case_cong)

definition counted :: "config_state \<Rightarrow> u64 \<Rightarrow> config_state" where
  "counted c l = c\<lparr>cs_total_registrations := sat_add (cs_total_registrations c) 1,
     cs_current_total_rate_limit := sat_add (cs_current_total_rate_limit c) l\<rparr>"

definition released :: "config_state \<Rightarrow> u64 \<Rightarrow> config_state" where
  "released c l = c\<lparr>cs_current_total_rate_limit := sat_sub (cs_current_total_rate_limit c) l,
     cs_total_registrations := sat_sub (cs_total_registrations c) 1\<rparr>"

definition new_membership :: "bytes \<Rightarrow> u64 \<Rightarrow> u64 \<Rightarrow> u32 \<Rightarrow> u32 \<Rightarrow> membership_state" where
  "new_membership c l now d g =
     \<lparr>ms_rate_limit = l, ms_id_commitment = c,
      ms_grace_period_start_timestamp_ms = sat_add now (secs_to_millis d),
      ms_active_duration_sec = d, ms_grace_period_duration_sec = g\<rparr>"

definition clock_ok :: "external \<Rightarrow> shards \<Rightarrow> u64 \<Rightarrow> bool" where
  "clock_ok E s now \<longleftrightarrow> assert_clock_is E (shard s (clock_sel E)) now = Inr ()"

definition has_config :: "external \<Rightarrow> account_id \<Rightarrow> shards \<Rightarrow> bytes \<Rightarrow> config_state \<Rightarrow> bool" where
  "has_config E R s t c \<longleftrightarrow> config_ok c \<and> shard s (config_sel E R t) = enc_config c"

definition has_member :: "external \<Rightarrow> account_id \<Rightarrow> shards \<Rightarrow> bytes \<Rightarrow> bytes \<Rightarrow> membership_state \<Rightarrow> bool" where
  "has_member E R s t c m \<longleftrightarrow> membership_ok m \<and> shard s (membership_sel E R t c) = enc_membership m"

lemma enc_config_membership:
  "config_ok c \<Longrightarrow> membership_ok m \<Longrightarrow> enc_config c \<noteq> enc_membership m"
  using length_enc_config [of c] length_enc_membership [of m]
  by (auto simp: CONFIG_STATE_SIZE_def MEMBERSHIP_STATE_SIZE_def)

lemma counters_wf [simp]:
  "config_ok (counted c l) = config_ok c" "config_ok (released c l) = config_ok c"
  by (simp_all add: counted_def released_def)

lemma payment_sel [simp]: "callee (payment E a b l p) = native_program E"
  by (simp add: payment_def)

lemma clock_sel_other:
  "separate E R M \<Longrightarrow> clock_sel E \<noteq> config_sel E R t" "separate E R M \<Longrightarrow> clock_sel E \<noteq> membership_sel E R t c"
  by (auto simp: separate_def clock_sel_def config_sel_def membership_sel_def)

lemmas tx_defs = counted_def [symmetric] released_def [symmetric] new_membership_def [symmetric]
lemmas tx_simps = result_simps plan_simps apply_simps map_plan_def tx_defs call_tree clock_ok_def
  has_config_def has_member_def clock_sel_other enc_config_membership

lemma tx_initialize:
  assumes "separate E R M" and "instruction_ok (Initialize m t p a x d g)"
  shows "replay (Suc (Suc n)) E (deployed R M) s R caller metas (enc_instruction (Initialize m t p a x d g)) = Inr s' \<longleftrightarrow>
    (\<exists>config. metas = [config] \<and> meta_selector config = config_sel E R t \<and> 0 < x \<and> 0 < d \<and>
       shard s (config_sel E R t) = [] \<and>
       s' = s(config_sel E R t \<mapsto> enc_config \<lparr>cs_merkle_program_id = m, cs_tree_id = t,
            cs_price_per_unit = p, cs_treasury_account_id = a, cs_total_registrations = 0,
            cs_max_total_rate_limit = x, cs_current_total_rate_limit = 0, cs_active_duration_sec = d,
            cs_grace_period_duration_sec = g\<rparr>))"
  using assms(2) by (subst replay_registration [OF assms])
    (auto simp: tx_simps simp del: replay.simps enc_instruction.simps)

lemma tx_initialize_tree:
  assumes "separate E R M" and "instruction_ok (InitializeMerkleTree t m)"
  shows "replay (Suc (Suc n)) E (deployed R M) s R caller metas (enc_instruction (InitializeMerkleTree t m)) = Inr s' \<longleftrightarrow>
    (\<exists>config tree_main cfg. metas = [config, tree_main] \<and> meta_selector config = config_sel E R t \<and>
       meta_selector tree_main = tree_sel E R m t \<and> has_config E R s t cfg \<and> cs_tree_id cfg = t \<and>
       cs_merkle_program_id cfg = m \<and> tree_called E R M m t MInitialize s s')"
  by (subst replay_registration [OF assms])
    (auto simp: tx_simps call_tree [OF assms(1), simplified] simp del: replay.simps enc_instruction.simps)

lemma membership_leaf_ok: "poseidon_canonical E \<Longrightarrow> bytes32 (membership_leaf E c l)"
  by (simp add: membership_leaf_def poseidon_canonical_def)

lemma merkle_leaf_ix_ok:
  assumes "poseidon_canonical E"
  shows "merkle_instruction_ok (MInsert (membership_leaf E c l))"
    and "merkle_instruction_ok (MRemove i (membership_leaf E c l))"
  using membership_leaf_ok [OF assms] by simp_all

lemma tx_register:
  assumes "separate E R M" and "poseidon_canonical E" and "instruction_ok (Register t c l m now p d g)"
  shows "replay (Suc (Suc n)) E (deployed R M) s R caller metas (enc_instruction (Register t c l m now p d g)) = Inr s' \<longleftrightarrow>
    (\<exists>config tree_main payer treasury clock membership cfg.
       metas = [config, tree_main, payer, treasury, clock, membership] \<and>
       meta_selector config = config_sel E R t \<and> meta_selector tree_main = tree_sel E R m t \<and>
       meta_selector membership = membership_sel E R t c \<and> meta_selector clock = clock_sel E \<and>
       is_authorized payer \<and> felt_valid E c \<and> c \<noteq> ZERO \<and> MIN_RATE_LIMIT \<le> l \<and> l \<le> MAX_RATE_LIMIT \<and>
       felt_valid E (rate_felt l) \<and>
       has_config E R s t cfg \<and> cs_tree_id cfg = t \<and> cs_merkle_program_id cfg = m \<and>
       cs_price_per_unit cfg = p \<and> cs_treasury_account_id cfg = account_id treasury \<and>
       cs_active_duration_sec cfg = d \<and> cs_grace_period_duration_sec cfg = g \<and> can_register cfg l \<and>
       clock_ok E s now \<and> membership_sel E R t c \<noteq> config_sel E R t \<and> shard s (membership_sel E R t c) = [] \<and>
       tree_called E R M m t (MInsert (membership_leaf E c l))
         (s(config_sel E R t \<mapsto> enc_config (counted cfg l),
            membership_sel E R t c \<mapsto> enc_membership (new_membership c l now d g))) s')"
  by (subst replay_registration [OF assms(1,3)], cases "membership_sel E R t c = config_sel E R t")
    (auto simp: tx_simps call_tree [OF assms(1) merkle_leaf_ix_ok(1) [OF assms(2)], simplified]
      clock_sel_other [OF assms(1)] config_codec.enc_inject membership_codec.enc_inject
      cong: conj_cong simp del: replay.simps enc_instruction.simps)

lemma tx_slash:
  assumes "separate E R M" and "poseidon_canonical E" and "instruction_ok (Slash t c secret m i l)"
  shows "replay (Suc (Suc n)) E (deployed R M) s R caller metas (enc_instruction (Slash t c secret m i l)) = Inr s' \<longleftrightarrow>
    (\<exists>config tree_main membership cfg mem.
       metas = [config, tree_main, membership] \<and>
       meta_selector config = config_sel E R t \<and> meta_selector tree_main = tree_sel E R m t \<and>
       meta_selector membership = membership_sel E R t c \<and>
       felt_valid E secret \<and> compress1 E secret = c \<and> felt_valid E c \<and> felt_valid E (rate_felt l) \<and>
       has_config E R s t cfg \<and> cs_tree_id cfg = t \<and> cs_merkle_program_id cfg = m \<and>
       membership_sel E R t c \<noteq> config_sel E R t \<and> has_member E R s t c mem \<and>
       ms_id_commitment mem = c \<and> ms_rate_limit mem = l \<and>
       tree_called E R M m t (MRemove i (membership_leaf E c l))
         (s(config_sel E R t \<mapsto> enc_config (released cfg l), membership_sel E R t c \<mapsto> [])) s')"
  by (subst replay_registration [OF assms(1,3)], cases "membership_sel E R t c = config_sel E R t")
    (auto simp: tx_simps call_tree [OF assms(1) merkle_leaf_ix_ok(2) [OF assms(2)], simplified]
      clock_sel_other [OF assms(1)] config_codec.enc_inject membership_codec.enc_inject
      cong: conj_cong simp del: replay.simps enc_instruction.simps)

lemma tx_extend:
  assumes "separate E R M" and "instruction_ok (Extend t c now p l)"
  shows "replay (Suc (Suc n)) E (deployed R M) s R caller metas (enc_instruction (Extend t c now p l)) = Inr s' \<longleftrightarrow>
    (\<exists>config membership payer treasury clock cfg mem.
       metas = [config, membership, payer, treasury, clock] \<and>
       meta_selector config = config_sel E R t \<and> meta_selector membership = membership_sel E R t c \<and>
       meta_selector clock = clock_sel E \<and> is_authorized payer \<and>
       has_config E R s t cfg \<and> cs_tree_id cfg = t \<and> cs_price_per_unit cfg = p \<and>
       cs_treasury_account_id cfg = account_id treasury \<and> clock_ok E s now \<and>
       has_member E R s t c mem \<and> ms_rate_limit mem = l \<and>
       is_in_grace_period (ms_grace_period_start_timestamp_ms mem)
         (secs_to_millis (ms_grace_period_duration_sec mem)) now \<and>
       s' = s(membership_sel E R t c \<mapsto> enc_membership (renewed mem)))"
  by (subst replay_registration [OF assms])
    (auto simp: tx_simps clock_sel_other [OF assms(1)] config_codec.enc_inject membership_codec.enc_inject
      cong: conj_cong simp del: replay.simps enc_instruction.simps)

lemma tx_erase:
  assumes "separate E R M" and "poseidon_canonical E" and "instruction_ok (Erase t c m i l now)"
  shows "replay (Suc (Suc n)) E (deployed R M) s R caller metas (enc_instruction (Erase t c m i l now)) = Inr s' \<longleftrightarrow>
    (\<exists>config tree_main membership clock cfg mem.
       metas = [config, tree_main, membership, clock] \<and>
       meta_selector config = config_sel E R t \<and> meta_selector tree_main = tree_sel E R m t \<and>
       meta_selector membership = membership_sel E R t c \<and> meta_selector clock = clock_sel E \<and>
       felt_valid E c \<and> felt_valid E (rate_felt l) \<and>
       has_config E R s t cfg \<and> cs_tree_id cfg = t \<and> cs_merkle_program_id cfg = m \<and> clock_ok E s now \<and>
       membership_sel E R t c \<noteq> config_sel E R t \<and> has_member E R s t c mem \<and> ms_rate_limit mem = l \<and>
       is_expired (ms_grace_period_start_timestamp_ms mem)
         (secs_to_millis (ms_grace_period_duration_sec mem)) now \<and>
       tree_called E R M m t (MRemove i (membership_leaf E c l))
         (s(config_sel E R t \<mapsto> enc_config (released cfg l), membership_sel E R t c \<mapsto> [])) s')"
  by (subst replay_registration [OF assms(1,3)], cases "membership_sel E R t c = config_sel E R t")
    (auto simp: tx_simps call_tree [OF assms(1) merkle_leaf_ix_ok(2) [OF assms(2)], simplified]
      clock_sel_other [OF assms(1)] config_codec.enc_inject membership_codec.enc_inject
      cong: conj_cong simp del: replay.simps enc_instruction.simps)

section \<open>Two levels of calls are enough\<close>

lemma rfold_cong:
  "(\<And>s x. x \<in> set xs \<Longrightarrow> f s x = g s x) \<Longrightarrow> rfold f s xs = rfold g s xs"
proof (induction xs arbitrary: s)
  case Nil
  then show ?case by simp
next
  case (Cons x xs)
  have "f s x = g s x" using Cons.prems by simp
  moreover have "rfold f t xs = rfold g t xs" for t using Cons by simp
  ultimately show ?case by (cases "g s x") simp_all
qed

lemma merkle_calls_nothing: "run_plan E MerkleGuest input = Inr p \<Longrightarrow> chained_calls p = []"
  by (auto simp: plan_simps map_plan_def)

lemma plan_calls:
  assumes "plan_instruction E input ix = Inr p" and "poseidon_canonical E" and "call \<in> set (chained_calls p)"
  shows "callee call = native_program E \<or>
    (\<exists>mi. merkle_instruction_ok mi \<and> call_data call = enc_merkle_instruction mi)"
proof -
  have "merkle_instruction_ok MInitialize" by simp
  then show ?thesis
    using assms(1,3) merkle_leaf_ix_ok [OF assms(2)]
    by (cases ix) (auto simp: plan_simps simp del: merkle_instruction_ok.simps enc_merkle_instruction.simps; blast)+
qed

lemma replay_fuel:
  assumes "separate E R M" and "poseidon_canonical E"
  shows "replay (Suc (Suc n)) E (deployed R M) s pid caller metas data =
    replay 2 E (deployed R M) s pid caller metas data"
proof -
  let ?in = "\<lparr>self_account_id = pid, caller_account_id = caller, accounts = metas, instruction_data = data\<rparr>"
  have merkle: "replay (Suc n) E (deployed R M) s M caller metas data =
      replay (Suc k) E (deployed R M) s M caller metas data" for n k s caller metas data
    by (cases "run_plan E MerkleGuest \<lparr>self_account_id = M, caller_account_id = caller, accounts = metas, instruction_data = data\<rparr>")
      (simp_all add: merkle_calls_nothing)
  have child: "replay (Suc n) E (deployed R M) s2 (callee call) (Some pid) (call_metas call) (call_data call) =
      replay 1 E (deployed R M) s2 (callee call) (Some pid) (call_metas call) (call_data call)"
    if "merkle_instruction_ok mi" "call_data call = enc_merkle_instruction mi" for call mi s2
  proof -
    consider "callee call = M" | "callee call = R" "R \<noteq> M" | "callee call \<noteq> R" "callee call \<noteq> M" by blast
    then show ?thesis
    proof cases
      case 1
      then show ?thesis using merkle [of n s2 _ _ _ 0] by (simp del: replay.simps)
    next
      case 2
      then show ?thesis using assms(1) that merkle_data_not_registration by (simp add: run_plan.simps)
    next
      case 3
      then show ?thesis by simp
    qed
  qed
  consider "pid = M" | "pid = R" "R \<noteq> M" | "pid \<noteq> R" "pid \<noteq> M" by blast
  then show ?thesis
  proof cases
    case 1
    then show ?thesis using merkle [of "Suc n" s _ _ _ 1] by (simp add: numeral_2_eq_2 del: replay.simps)
  next
    case 2
    let ?f = "\<lambda>n s2 call. if callee call = native_program E then Inr s2
        else replay n E (deployed R M) s2 (callee call) (Some pid) (call_metas call) (call_data call)"
    have "rfold (?f (Suc n)) s1 (chained_calls p) = rfold (?f 1) s1 (chained_calls p)"
      if "run_plan E RegistrationGuest ?in = Inr p" for p s1
    proof (rule rfold_cong)
      fix s2 call
      assume call: "call \<in> set (chained_calls p)"
      from that obtain ix q where "plan_instruction E ?in ix = Inr q" "p = map_plan OfRegistration q"
        by (auto simp: plan_simps)
      with call have "callee call = native_program E \<or>
          (\<exists>mi. merkle_instruction_ok mi \<and> call_data call = enc_merkle_instruction mi)"
        using plan_calls [OF _ assms(2)] by (auto simp: map_plan_def)
      then show "?f (Suc n) s2 call = ?f 1 s2 call"
        using child [of _ call s2] by (cases "callee call = native_program E") (auto simp del: replay.simps)
    qed
    moreover have "deployed R M pid = Some RegistrationGuest" using 2 assms(1) by simp
    ultimately show ?thesis
      unfolding numeral_2_eq_2 One_nat_def
      by (cases "run_plan E RegistrationGuest ?in") (simp_all cong: rbind_cong)
  next
    case 3
    then show ?thesis by (simp add: numeral_2_eq_2)
  qed
qed

end
