(* ===== verification/Registry.thy ===== *)
theory Registry
  imports Runtime "HOL-Library.Multiset"
begin

text \<open>
  The registry as a state machine: runs of transactions of the registration program, direct calls
  of the merkle program that do not hold the tree account's authorization, and steps of other
  programs, which own other shards. The invariant ties the config's counters, the membership
  shards and the leaves of the tree together.
\<close>

section \<open>Runs\<close>

text \<open>
  The accounts derived for the tree ids \<open>T\<close> and commitments \<open>C\<close> of a run do not collide. (A
  derivation hashes to 32 bytes, so this cannot hold of all ids at once; the repository's tests
  \<open>all_pda_types_are_distinct\<close> and \<open>membership_pdas_differ_by_commitment\<close> state it of theirs.)
\<close>

definition no_collision :: "external \<Rightarrow> account_id \<Rightarrow> bytes set \<Rightarrow> bytes set \<Rightarrow> bool" where
  "no_collision E R T C \<longleftrightarrow>
     inj_on (pda_config E R) T \<and> inj_on (pda_main E R) T \<and>
     (\<forall>t \<in> T. \<forall>t' \<in> T. \<forall>c \<in> C. pda_config E R t \<noteq> pda_membership E R t' c) \<and>
     (\<forall>t \<in> T. \<forall>t' \<in> T. \<forall>c \<in> C. \<forall>c' \<in> C.
        pda_membership E R t c = pda_membership E R t' c' \<longrightarrow> t = t' \<and> c = c')"

fun ids_in :: "bytes set \<Rightarrow> bytes set \<Rightarrow> instruction \<Rightarrow> bool" where
  "ids_in T C (Initialize m t p a x d g) \<longleftrightarrow> t \<in> T"
| "ids_in T C (InitializeMerkleTree t m) \<longleftrightarrow> t \<in> T"
| "ids_in T C (Register t c l m n p d g) \<longleftrightarrow> t \<in> T \<and> c \<in> C"
| "ids_in T C (Slash t c s m i l) \<longleftrightarrow> t \<in> T \<and> c \<in> C"
| "ids_in T C (Extend t c n p l) \<longleftrightarrow> t \<in> T \<and> c \<in> C"
| "ids_in T C (Erase t c m i l n) \<longleftrightarrow> t \<in> T \<and> c \<in> C"

inductive step ::
  "external \<Rightarrow> account_id \<Rightarrow> account_id \<Rightarrow> bytes set \<Rightarrow> bytes set \<Rightarrow> shards \<Rightarrow> shards \<Rightarrow> bool"
  for E R M T C where
    step_registration:
      "instruction_ok ix \<Longrightarrow> ids_in T C ix \<Longrightarrow>
       replay 2 E (deployed R M) s R caller metas (enc_instruction ix) = Inr s' \<Longrightarrow> step E R M T C s s'"
  | step_merkle:
      "replay 2 E (deployed R M) s M caller metas data = Inr s' \<Longrightarrow>
       (\<And>m t. m \<in> set metas \<Longrightarrow> is_authorized m \<Longrightarrow> t \<in> T \<Longrightarrow> account_id m \<noteq> pda_main E R t) \<Longrightarrow>
       step E R M T C s s'"
  | step_foreign:
      "(\<And>k. snd k = R \<or> snd k = M \<Longrightarrow> shard s' k = shard s k) \<Longrightarrow> step E R M T C s s'"

inductive reachable ::
  "external \<Rightarrow> account_id \<Rightarrow> account_id \<Rightarrow> bytes set \<Rightarrow> bytes set \<Rightarrow> shards \<Rightarrow> bool"
  for E R M T C where
    reach_start: "(\<And>k. snd k = R \<or> snd k = M \<Longrightarrow> shard s k = []) \<Longrightarrow> reachable E R M T C s"
  | reach_step: "reachable E R M T C s \<Longrightarrow> step E R M T C s s' \<Longrightarrow> reachable E R M T C s'"

section \<open>The invariant\<close>

definition member_of :: "external \<Rightarrow> account_id \<Rightarrow> shards \<Rightarrow> bytes \<Rightarrow> bytes \<Rightarrow> membership_state" where
  "member_of E R s t c = the (from_slice dec_membership (shard s (membership_sel E R t c)))"

definition rate_of :: "external \<Rightarrow> account_id \<Rightarrow> shards \<Rightarrow> bytes \<Rightarrow> bytes \<Rightarrow> u64" where
  "rate_of E R s t c = ms_rate_limit (member_of E R s t c)"

definition live :: "external \<Rightarrow> account_id \<Rightarrow> bytes set \<Rightarrow> shards \<Rightarrow> bytes \<Rightarrow> bytes set" where
  "live E R C s t = {c \<in> C. shard s (membership_sel E R t c) \<noteq> []}"

text \<open>The leaves of the tree are the leaves of the live memberships, and zeros.\<close>

definition leaves_match ::
  "external \<Rightarrow> account_id \<Rightarrow> bytes set \<Rightarrow> shards \<Rightarrow> bytes \<Rightarrow> bytes list \<Rightarrow> bool" where
  "leaves_match E R C s t leaves \<longleftrightarrow>
     mset leaves = image_mset (\<lambda>c. membership_leaf E c (rate_of E R s t c)) (mset_set (live E R C s t)) +
       replicate_mset (2 ^ TREE_DEPTH - card (live E R C s t)) ZERO"

definition tree_matches ::
  "external \<Rightarrow> account_id \<Rightarrow> account_id \<Rightarrow> bytes set \<Rightarrow> shards \<Rightarrow> bytes \<Rightarrow> bool" where
  "tree_matches E R M C s t \<longleftrightarrow>
     (let d = shard s (tree_sel E R M t) in
      if d = [] then live E R C s t = {}
      else tree_ok E d \<and> card (live E R C s t) \<le> unat (hdr_next d) \<and>
           leaves_match E R C s t (tv_leaves (view d)))"

definition member_good :: "external \<Rightarrow> account_id \<Rightarrow> shards \<Rightarrow> bytes \<Rightarrow> bytes \<Rightarrow> bool" where
  "member_good E R s t c \<longleftrightarrow>
     (\<exists>m. has_member E R s t c m \<and> ms_id_commitment m = c \<and>
        MIN_RATE_LIMIT \<le> ms_rate_limit m \<and> ms_rate_limit m \<le> MAX_RATE_LIMIT)"

definition counts_match ::
  "external \<Rightarrow> account_id \<Rightarrow> bytes set \<Rightarrow> shards \<Rightarrow> bytes \<Rightarrow> config_state \<Rightarrow> bool" where
  "counts_match E R C s t cfg \<longleftrightarrow>
     finite (live E R C s t) \<and> (\<forall>c \<in> live E R C s t. member_good E R s t c) \<and>
     unat (cs_total_registrations cfg) = card (live E R C s t) \<and>
     unat (cs_current_total_rate_limit cfg) = (\<Sum>c \<in> live E R C s t. unat (rate_of E R s t c)) \<and>
     cs_current_total_rate_limit cfg \<le> cs_max_total_rate_limit cfg"

definition registry_ok ::
  "external \<Rightarrow> account_id \<Rightarrow> account_id \<Rightarrow> bytes set \<Rightarrow> shards \<Rightarrow> bytes \<Rightarrow> bool" where
  "registry_ok E R M C s t \<longleftrightarrow>
     (shard s (config_sel E R t) = [] \<and> live E R C s t = {} \<and> shard s (tree_sel E R M t) = []) \<or>
     (\<exists>cfg. has_config E R s t cfg \<and> cs_tree_id cfg = t \<and>
        (cs_merkle_program_id cfg = M \<longrightarrow> counts_match E R C s t cfg \<and> tree_matches E R M C s t))"

section \<open>Frame\<close>

definition same_registry ::
  "external \<Rightarrow> account_id \<Rightarrow> account_id \<Rightarrow> bytes set \<Rightarrow> bytes \<Rightarrow> shards \<Rightarrow> shards \<Rightarrow> bool" where
  "same_registry E R M C t s s' \<longleftrightarrow>
     shard s' (config_sel E R t) = shard s (config_sel E R t) \<and>
     (\<forall>c \<in> C. shard s' (membership_sel E R t c) = shard s (membership_sel E R t c)) \<and>
     shard s' (tree_sel E R M t) = shard s (tree_sel E R M t)"

lemma live_cong:
  "(\<And>c. c \<in> C \<Longrightarrow> shard s' (membership_sel E R t c) = shard s (membership_sel E R t c)) \<Longrightarrow>
     live E R C s' t = live E R C s t"
  by (auto simp: live_def)

lemma rate_of_cong:
  "shard s' (membership_sel E R t c) = shard s (membership_sel E R t c) \<Longrightarrow> rate_of E R s' t c = rate_of E R s t c"
  by (simp add: rate_of_def member_of_def)

lemma registry_frame:
  assumes "same_registry E R M C t s s'" and "registry_ok E R M C s t"
  shows "registry_ok E R M C s' t"
proof -
  have cfg: "shard s' (config_sel E R t) = shard s (config_sel E R t)"
    and tree: "shard s' (tree_sel E R M t) = shard s (tree_sel E R M t)"
    and mem: "\<And>c. c \<in> C \<Longrightarrow> shard s' (membership_sel E R t c) = shard s (membership_sel E R t c)"
    using assms(1) by (auto simp: same_registry_def)
  have live: "live E R C s' t = live E R C s t" by (rule live_cong) (rule mem)
  have sub: "c \<in> live E R C s t \<Longrightarrow> c \<in> C" for c by (simp add: live_def)
  have rate: "c \<in> live E R C s t \<Longrightarrow> rate_of E R s' t c = rate_of E R s t c" for c
    using sub mem by (intro rate_of_cong) blast
  have good: "(\<forall>c \<in> live E R C s t. member_good E R s' t c) = (\<forall>c \<in> live E R C s t. member_good E R s t c)"
    using sub mem by (auto simp: member_good_def has_member_def)
  have "leaves_match E R C s' t ls = leaves_match E R C s t ls" for ls
    unfolding leaves_match_def live
    by (intro arg_cong2 [of _ _ _ _ "(=)"] refl arg_cong2 [of _ _ _ _ "(+)"] image_mset_cong)
      (metis rate elem_mset_set empty_iff infinite_set_mset_mset_set)
  then have "tree_matches E R M C s' t = tree_matches E R M C s t"
    by (simp add: tree_matches_def live tree)
  moreover have "counts_match E R C s' t k = counts_match E R C s t k" for k
    using rate by (simp add: counts_match_def live good)
  ultimately show ?thesis using assms(2) by (simp add: registry_ok_def cfg live tree has_config_def)
qed

section \<open>Selectors of one run\<close>

lemma sel_other [simp]:
  "separate E R M \<Longrightarrow> tree_sel E R M t \<noteq> config_sel E R t'"
  "separate E R M \<Longrightarrow> tree_sel E R M t \<noteq> membership_sel E R t' c"
  "separate E R M \<Longrightarrow> config_sel E R t' \<noteq> tree_sel E R M t"
  "separate E R M \<Longrightarrow> membership_sel E R t' c \<noteq> tree_sel E R M t"
  by (auto simp: separate_def tree_sel_def config_sel_def membership_sel_def)

lemma sel_apart:
  assumes N: "no_collision E R T C" and t: "t \<in> T" "t' \<in> T" and c: "c \<in> C" "c' \<in> C"
  shows "config_sel E R t = config_sel E R t' \<longleftrightarrow> t = t'"
    and "tree_sel E R M t = tree_sel E R M t' \<longleftrightarrow> t = t'"
    and "config_sel E R t \<noteq> membership_sel E R t' c" and "membership_sel E R t' c \<noteq> config_sel E R t"
    and "membership_sel E R t c = membership_sel E R t' c' \<longleftrightarrow> t = t' \<and> c = c'"
proof -
  from N have inj: "inj_on (pda_config E R) T" "inj_on (pda_main E R) T"
    and apart: "\<And>t t' c. t \<in> T \<Longrightarrow> t' \<in> T \<Longrightarrow> c \<in> C \<Longrightarrow> pda_config E R t \<noteq> pda_membership E R t' c"
    and one: "\<And>t t' c c'. t \<in> T \<Longrightarrow> t' \<in> T \<Longrightarrow> c \<in> C \<Longrightarrow> c' \<in> C \<Longrightarrow>
      pda_membership E R t c = pda_membership E R t' c' \<Longrightarrow> t = t' \<and> c = c'"
    unfolding no_collision_def by blast+
  show "config_sel E R t = config_sel E R t' \<longleftrightarrow> t = t'" "tree_sel E R M t = tree_sel E R M t' \<longleftrightarrow> t = t'"
    by (simp_all add: config_sel_def tree_sel_def inj_on_eq_iff [OF inj(1) t] inj_on_eq_iff [OF inj(2) t])
  show "config_sel E R t \<noteq> membership_sel E R t' c" "membership_sel E R t' c \<noteq> config_sel E R t"
    using apart [OF t c(1)] by (auto simp: config_sel_def membership_sel_def)
  show "membership_sel E R t c = membership_sel E R t' c' \<longleftrightarrow> t = t' \<and> c = c'"
    using one [OF t c] by (auto simp: membership_sel_def)
qed

lemma sel_apart_tree:
  assumes "no_collision E R T C" and "t \<in> T" and "t' \<in> T"
  shows "config_sel E R t = config_sel E R t' \<longleftrightarrow> t = t'"
    and "tree_sel E R M t = tree_sel E R M t' \<longleftrightarrow> t = t'"
  using assms by (auto simp: no_collision_def config_sel_def tree_sel_def dest: inj_onD)

text \<open>An instruction of another tree, and a direct merkle call, leave a registry alone.\<close>

fun tree_of :: "instruction \<Rightarrow> bytes" where
  "tree_of (Initialize m t p a x d g) = t"
| "tree_of (InitializeMerkleTree t m) = t"
| "tree_of (Register t c l m n p d g) = t"
| "tree_of (Slash t c s m i l) = t"
| "tree_of (Extend t c n p l) = t"
| "tree_of (Erase t c m i l n) = t"

text \<open>Which shards an instruction writes.\<close>

fun writes :: "external \<Rightarrow> account_id \<Rightarrow> account_id \<Rightarrow> instruction \<Rightarrow> selector set" where
  "writes E R M (Initialize m t p a x d g) = {config_sel E R t}"
| "writes E R M (InitializeMerkleTree t m) = {tree_sel E R M t}"
| "writes E R M (Register t c l m n p d g) = {config_sel E R t, membership_sel E R t c, tree_sel E R M t}"
| "writes E R M (Slash t c s m i l) = {config_sel E R t, membership_sel E R t c, tree_sel E R M t}"
| "writes E R M (Extend t c n p l) = {membership_sel E R t c}"
| "writes E R M (Erase t c m i l n) = {config_sel E R t, membership_sel E R t c, tree_sel E R M t}"

lemma tree_called_writes: "tree_called E R M m t ix s s' \<Longrightarrow> k \<noteq> tree_sel E R M t \<Longrightarrow> shard s' k = shard s k"
  by (auto simp: tree_called_def)

lemma registration_writes:
  assumes "separate E R M" and "poseidon_canonical E" and "instruction_ok ix"
    and "replay (Suc (Suc n)) E (deployed R M) s R caller metas (enc_instruction ix) = Inr s'" and "k \<notin> writes E R M ix"
  shows "shard s' k = shard s k"
proof (cases ix)
  case (Initialize m t p a x d g)
  with assms tx_initialize [OF assms(1)] show ?thesis by (auto simp del: replay.simps enc_instruction.simps)
next
  case (InitializeMerkleTree t m)
  with assms tx_initialize_tree [OF assms(1)] show ?thesis
    by (auto dest: tree_called_writes [where k = k] simp del: replay.simps enc_instruction.simps)
next
  case (Register t c l m now p d g)
  with assms tx_register [OF assms(1,2)] show ?thesis
    by (auto dest: tree_called_writes [where k = k] simp del: replay.simps enc_instruction.simps)
next
  case (Slash t c sec m i l)
  with assms tx_slash [OF assms(1,2)] show ?thesis
    by (auto dest: tree_called_writes [where k = k] simp del: replay.simps enc_instruction.simps)
next
  case (Extend t c now p l)
  with assms tx_extend [OF assms(1)] show ?thesis by (auto simp del: replay.simps enc_instruction.simps)
next
  case (Erase t c m i l now)
  with assms tx_erase [OF assms(1,2)] show ?thesis
    by (auto dest: tree_called_writes [where k = k] simp del: replay.simps enc_instruction.simps)
qed

lemma other_tree_writes:
  assumes "separate E R M" and "no_collision E R T C" and "ids_in T C ix" and "t \<in> T" and "tree_of ix \<noteq> t"
  shows "config_sel E R t \<notin> writes E R M ix" and "tree_sel E R M t \<notin> writes E R M ix"
    and "c \<in> C \<Longrightarrow> membership_sel E R t c \<notin> writes E R M ix"
  using assms
  by (cases ix; auto dest: sel_apart_tree [THEN iffD1, rotated 3] simp: sel_apart sel_apart_tree)+

section \<open>The instructions keep the invariant\<close>

lemma has_config_unique: "has_config E R s t c \<Longrightarrow> has_config E R s t c' \<Longrightarrow> c = c'"
  by (metis has_config_def config_codec.enc_inject)

lemma member_of_has: "has_member E R s t c m \<Longrightarrow> member_of E R s t c = m"
  by (simp add: member_of_def has_member_def membership_codec.from_slice_enc)

lemma rate_of_has: "has_member E R s t c m \<Longrightarrow> rate_of E R s t c = ms_rate_limit m"
  by (simp add: rate_of_def member_of_has)

lemma has_member_unique: "has_member E R s t c m \<Longrightarrow> has_member E R s t c m' \<Longrightarrow> m = m'"
  by (metis has_member_def membership_codec.enc_inject)

lemma member_good_has:
  "has_member E R s t c m \<Longrightarrow> member_good E R s t c \<longleftrightarrow>
     ms_id_commitment m = c \<and> MIN_RATE_LIMIT \<le> ms_rate_limit m \<and> ms_rate_limit m \<le> MAX_RATE_LIMIT"
  by (metis has_member_unique member_good_def)

lemma registry_okE:
  assumes "registry_ok E R M C s t" and "has_config E R s t cfg" and "cs_merkle_program_id cfg = M"
  shows "cs_tree_id cfg = t" and "counts_match E R C s t cfg" and "tree_matches E R M C s t"
  using assms has_config_unique [OF assms(2)] by (auto simp: registry_ok_def has_config_def)

text \<open>A registry whose config names another merkle program is only required to keep its config.\<close>

lemma registry_ok_foreign:
  "has_config E R s t cfg \<Longrightarrow> cs_tree_id cfg = t \<Longrightarrow> cs_merkle_program_id cfg \<noteq> M \<Longrightarrow> registry_ok E R M C s t"
  by (auto simp: registry_ok_def)

lemma MAX_RATE_600: "l \<le> MAX_RATE_LIMIT \<Longrightarrow> unat l \<le> 600"
  by (simp add: MAX_RATE_LIMIT_def word_le_nat_alt)

lemma live_rate_bound:
  assumes "counts_match E R C s t cfg" and "card (live E R C s t) \<le> 2 ^ TREE_DEPTH"
  shows "unat (cs_current_total_rate_limit cfg) \<le> 307200"
proof -
  have "unat (rate_of E R s t c) \<le> 600" if "c \<in> live E R C s t" for c
    using assms(1) that MAX_RATE_600 by (auto simp: counts_match_def member_good_def rate_of_has)
  then have "(\<Sum>c \<in> live E R C s t. unat (rate_of E R s t c)) \<le> card (live E R C s t) * 600"
    using sum_bounded_above [of "live E R C s t" "\<lambda>c. unat (rate_of E R s t c)" 600] by simp
  also have "\<dots> \<le> 2 ^ TREE_DEPTH * 600" using assms(2) by (rule mult_le_mono1)
  finally show ?thesis using assms(1) by (simp add: counts_match_def TREE_DEPTH_def)
qed

text \<open>Adding a member: the shards of the others are as before.\<close>

lemma live_insert:
  assumes "c \<in> C" and "shard s' (membership_sel E R t c) \<noteq> []"
    and "\<And>c'. c' \<in> C \<Longrightarrow> c' \<noteq> c \<Longrightarrow> shard s' (membership_sel E R t c') = shard s (membership_sel E R t c')"
  shows "live E R C s' t = insert c (live E R C s t)"
  using assms by (auto simp: live_def) metis

lemma live_remove:
  assumes "shard s' (membership_sel E R t c) = []"
    and "\<And>c'. c' \<in> C \<Longrightarrow> c' \<noteq> c \<Longrightarrow> shard s' (membership_sel E R t c') = shard s (membership_sel E R t c')"
  shows "live E R C s' t = live E R C s t - {c}"
  using assms by (auto simp: live_def) metis+

lemma member_good_cong:
  "shard s' (membership_sel E R t c) = shard s (membership_sel E R t c) \<Longrightarrow> member_good E R s' t c = member_good E R s t c"
  by (simp add: member_good_def has_member_def)

lemma rates_cong:
  assumes "\<And>c'. c' \<in> L \<Longrightarrow> shard s' (membership_sel E R t c') = shard s (membership_sel E R t c')"
  shows "(\<Sum>c' \<in> L. unat (rate_of E R s' t c')) = (\<Sum>c' \<in> L. unat (rate_of E R s t c'))"
    and "image_mset (\<lambda>c. membership_leaf E c (rate_of E R s' t c)) (mset_set L) =
      image_mset (\<lambda>c. membership_leaf E c (rate_of E R s t c)) (mset_set L)"
proof -
  have r: "rate_of E R s' t c = rate_of E R s t c" if "c \<in> L" for c
    using assms [OF that] by (rule rate_of_cong)
  then show "(\<Sum>c' \<in> L. unat (rate_of E R s' t c')) = (\<Sum>c' \<in> L. unat (rate_of E R s t c'))" by simp
  show "image_mset (\<lambda>c. membership_leaf E c (rate_of E R s' t c)) (mset_set L) =
      image_mset (\<lambda>c. membership_leaf E c (rate_of E R s t c)) (mset_set L)"
    by (intro image_mset_cong) (metis r elem_mset_set empty_iff infinite_set_mset_mset_set)
qed

lemma counts_insert:
  assumes old: "counts_match E R C s t cfg" and full: "card (live E R C s t) < 2 ^ TREE_DEPTH"
    and c: "c \<in> C" "shard s (membership_sel E R t c) = []" "has_member E R s' t c m" "ms_id_commitment m = c"
    and l: "MIN_RATE_LIMIT \<le> ms_rate_limit m" "ms_rate_limit m \<le> MAX_RATE_LIMIT" "can_register cfg (ms_rate_limit m)"
    and other: "\<And>c'. c' \<in> C \<Longrightarrow> c' \<noteq> c \<Longrightarrow> shard s' (membership_sel E R t c') = shard s (membership_sel E R t c')"
  shows "counts_match E R C s' t (counted cfg (ms_rate_limit m))"
proof -
  let ?L = "live E R C s t"
  have fin: "finite ?L" and out: "c \<notin> ?L" and sub: "?L \<subseteq> C" using old c by (auto simp: counts_match_def live_def)
  have "shard s' (membership_sel E R t c) \<noteq> []" using c(3) by (simp add: has_member_def)
  then have L: "live E R C s' t = insert c ?L" using live_insert c(1) other by blast
  have same: "shard s' (membership_sel E R t c') = shard s (membership_sel E R t c')" if "c' \<in> ?L" for c'
    using other that sub out by blast
  have good_same: "member_good E R s' t c' = member_good E R s t c'" if "c' \<in> ?L" for c'
    using same [OF that] by (rule member_good_cong)
  have good_new: "member_good E R s' t c" using c l by (auto simp: member_good_def)
  have cur: "unat (cs_current_total_rate_limit cfg) \<le> 307200" using live_rate_bound [OF old] full by simp
  have l600: "unat (ms_rate_limit m) \<le> 600" using l(2) by (rule MAX_RATE_600)
  have cur': "unat (sat_add (cs_current_total_rate_limit cfg) (ms_rate_limit m)) =
      unat (cs_current_total_rate_limit cfg) + unat (ms_rate_limit m)"
    using cur l600 by (intro unat_sat_add_exact) simp
  have tot: "unat (sat_add (cs_total_registrations cfg) 1) = card ?L + 1"
    using old full by (subst unat_sat_add_exact) (simp_all add: counts_match_def TREE_DEPTH_def)
  have sum: "(\<Sum>c' \<in> insert c ?L. unat (rate_of E R s' t c')) =
      unat (ms_rate_limit m) + (\<Sum>c' \<in> ?L. unat (rate_of E R s t c'))"
    using fin out rates_cong(1) [of ?L s' E R t s, OF same] rate_of_has [OF c(3)] by simp
  have "\<forall>c' \<in> insert c ?L. member_good E R s' t c'"
    using old good_same good_new by (auto simp: counts_match_def)
  moreover have "cs_current_total_rate_limit (counted cfg (ms_rate_limit m)) \<le> cs_max_total_rate_limit (counted cfg (ms_rate_limit m))"
    using l(3) by (simp add: counted_def can_register_def)
  ultimately show ?thesis
    using old fin out by (simp add: counts_match_def L cur' tot sum counted_def)
qed

lemma counts_remove:
  assumes old: "counts_match E R C s t cfg" and c: "c \<in> C" "has_member E R s t c m"
    and gone: "shard s' (membership_sel E R t c) = []"
    and other: "\<And>c'. c' \<in> C \<Longrightarrow> c' \<noteq> c \<Longrightarrow> shard s' (membership_sel E R t c') = shard s (membership_sel E R t c')"
  shows "counts_match E R C s' t (released cfg (ms_rate_limit m))"
proof -
  let ?L = "live E R C s t"
  have fin: "finite ?L" and c_in: "c \<in> ?L" and sub: "?L \<subseteq> C"
    using old c by (auto simp: counts_match_def live_def has_member_def)
  have L: "live E R C s' t = ?L - {c}" using live_remove [OF gone] other by blast
  have same: "shard s' (membership_sel E R t c') = shard s (membership_sel E R t c')" if "c' \<in> ?L - {c}" for c'
    using other that sub by blast
  have good_same: "member_good E R s' t c' = member_good E R s t c'" if "c' \<in> ?L - {c}" for c'
    using same [OF that] by (rule member_good_cong)
  have "(\<Sum>c' \<in> ?L. unat (rate_of E R s t c')) =
      unat (ms_rate_limit m) + (\<Sum>c' \<in> ?L - {c}. unat (rate_of E R s' t c'))"
    using fin c_in rates_cong(1) [of "?L - {c}" s' E R t s, OF same] rate_of_has [OF c(2)]
    by (simp add: sum.remove)
  moreover have "\<forall>c' \<in> ?L - {c}. member_good E R s' t c'"
    using old good_same by (auto simp: counts_match_def)
  moreover have "sat_sub (cs_current_total_rate_limit cfg) (ms_rate_limit m) \<le> cs_max_total_rate_limit cfg"
    using old by (auto simp: counts_match_def word_le_nat_alt unat_sat_sub)
  ultimately show ?thesis
    using old fin c_in by (simp add: counts_match_def L unat_sat_sub released_def card_Diff_singleton)
qed

text \<open>The tree side: one leaf more, one leaf less.\<close>

lemma no_tree_no_leaf:
  "insert_leaf E [] leaf \<noteq> Inr d" "remove_leaf E [] i leaf \<noteq> Inr d"
  by (simp_all add: insert_leaf_def remove_leaf_def check_header_def)

lemma tree_ok_not_Nil: "tree_ok E d \<Longrightarrow> d \<noteq> []"
  by (auto simp: tree_ok_def header_ok_def)

lemma insert_leaf_view:
  assumes "poseidon_ok E" and "tree_ok E d" and "bytes32 leaf" and "insert_leaf E d leaf = Inr d1"
  shows "tree_ok E d1" and "unat (hdr_next d) < 2 ^ TREE_DEPTH" and "unat (hdr_next d1) = unat (hdr_next d) + 1"
    and "tv_leaves (view d1) = (tv_leaves (view d))[unat (hdr_next d) := leaf]"
proof -
  note cases = insert_leaf_cases [OF assms(1-3)]
  show "tree_ok E d1" using cases assms(4) by blast
  have v: "Inr (view d1) = spec_insert E leaf (view d)" using cases assms(4) by simp
  then have ne: "unat (hdr_next d) \<noteq> 2 ^ TREE_DEPTH" and
    v1: "view d1 = (spec_put E (unat (hdr_next d)) leaf (view d))\<lparr>tv_next := unat (hdr_next d) + 1\<rparr>"
    by (auto simp: spec_insert_def split: if_splits)
  show "unat (hdr_next d) < 2 ^ TREE_DEPTH" using ne assms(2) by (simp add: tree_ok_def)
  show "unat (hdr_next d1) = unat (hdr_next d) + 1" using v1 view_sel(1) [of d1] by simp
  show "tv_leaves (view d1) = (tv_leaves (view d))[unat (hdr_next d) := leaf]"
    using v1 by (simp add: spec_put_def)
qed

lemma remove_leaf_view:
  assumes "poseidon_ok E" and "tree_ok E d" and "remove_leaf E d i leaf = Inr d1"
  shows "tree_ok E d1" and "unat i < unat (hdr_next d)" and "hdr_next d1 = hdr_next d"
    and "tv_leaves (view d) ! unat i = leaf"
    and "tv_leaves (view d1) = (tv_leaves (view d))[unat i := ZERO]"
proof -
  note cases = remove_leaf_cases [OF assms(1,2), of i leaf]
  show "tree_ok E d1" using cases assms(3) by blast
  have v: "Inr (view d1) = spec_remove E (unat i) leaf (view d)" using cases assms(3) by simp
  then show lt: "unat i < unat (hdr_next d)" and "tv_leaves (view d) ! unat i = leaf"
    by (auto simp: spec_remove_def split: if_splits)
  have v1: "view d1 = spec_put E (unat i) ZERO (view d)" using v by (auto simp: spec_remove_def split: if_splits)
  then show "tv_leaves (view d1) = (tv_leaves (view d))[unat i := ZERO]" by (simp add: spec_put_def)
  have "unat (hdr_next d1) = unat (hdr_next d)" using v1 view_sel(1) [of d1] by (simp add: spec_put_def)
  then show "hdr_next d1 = hdr_next d" by (simp add: word_unat_eq_iff)
qed

lemma tree_insert:
  assumes E: "poseidon_ok E" and old: "tree_matches E R M C s t"
    and fin: "finite (live E R C s t)" and out: "c \<notin> live E R C s t"
    and ins: "insert_leaf E (shard s (tree_sel E R M t)) (membership_leaf E c l) = Inr d1"
    and new: "shard s' (tree_sel E R M t) = d1" "live E R C s' t = insert c (live E R C s t)" "rate_of E R s' t c = l"
    and same: "\<And>c'. c' \<in> live E R C s t \<Longrightarrow> shard s' (membership_sel E R t c') = shard s (membership_sel E R t c')"
  shows "tree_matches E R M C s' t" and "card (live E R C s t) < 2 ^ TREE_DEPTH"
proof -
  let ?d = "shard s (tree_sel E R M t)" and ?L = "live E R C s t" and ?leaf = "membership_leaf E c l"
  have "?d \<noteq> []" using ins no_tree_no_leaf(1) by metis
  then have ok: "tree_ok E ?d" and card: "card ?L \<le> unat (hdr_next ?d)"
    and ls: "leaves_match E R C s t (tv_leaves (view ?d))"
    using old by (auto simp: tree_matches_def Let_def)
  have b: "bytes32 ?leaf" using E membership_leaf_ok by (simp add: poseidon_ok_def)
  note v = insert_leaf_view [OF E ok b ins]
  show lt: "card ?L < 2 ^ TREE_DEPTH" using card v(2) by simp
  have zero: "tv_leaves (view ?d) ! unat (hdr_next ?d) = ZERO" using ok v(2) by (simp add: tree_ok_def)
  have rep: "replicate_mset (2 ^ TREE_DEPTH - card ?L) ZERO - {#ZERO#} = replicate_mset (2 ^ TREE_DEPTH - Suc (card ?L)) ZERO"
  proof -
    obtain k where "2 ^ TREE_DEPTH - card ?L = Suc k" using lt by (metis Suc_diff_Suc)
    then show ?thesis by (simp add: diff_Suc)
  qed
  have rep2: "ZERO \<in># replicate_mset (2 ^ TREE_DEPTH - card ?L) ZERO" using lt by (simp add: in_replicate_mset)
  have "mset (tv_leaves (view d1)) = add_mset ?leaf (mset (tv_leaves (view ?d)) - {#ZERO#})"
    using v(2) zero by (simp add: v(4) mset_update)
  also have "\<dots> = add_mset ?leaf (image_mset (\<lambda>c. membership_leaf E c (rate_of E R s t c)) (mset_set ?L) +
      replicate_mset (2 ^ TREE_DEPTH - Suc (card ?L)) ZERO)"
    using ls rep rep2 by (simp add: leaves_match_def multiset_diff_union_assoc)
  finally have "leaves_match E R C s' t (tv_leaves (view d1))"
    using fin out new(3) rates_cong(2) [of ?L s' E R t s, OF same] by (simp add: leaves_match_def new(2))
  then show "tree_matches E R M C s' t"
    using fin out card v tree_ok_not_Nil [OF v(1)] by (simp add: tree_matches_def new(1,2) Let_def)
qed

lemma tree_remove:
  assumes E: "poseidon_ok E" and old: "tree_matches E R M C s t"
    and fin: "finite (live E R C s t)" and c: "c \<in> live E R C s t"
    and del: "remove_leaf E (shard s (tree_sel E R M t)) i (membership_leaf E c (rate_of E R s t c)) = Inr d1"
    and new: "shard s' (tree_sel E R M t) = d1" "live E R C s' t = live E R C s t - {c}"
    and same: "\<And>c'. c' \<in> live E R C s t - {c} \<Longrightarrow> shard s' (membership_sel E R t c') = shard s (membership_sel E R t c')"
  shows "tree_matches E R M C s' t"
proof -
  let ?d = "shard s (tree_sel E R M t)" and ?L = "live E R C s t"
    and ?leaf = "\<lambda>c. membership_leaf E c (rate_of E R s t c)"
  have "?d \<noteq> []" using del no_tree_no_leaf(2) by metis
  then have ok: "tree_ok E ?d" and card: "card ?L \<le> unat (hdr_next ?d)"
    and ls: "leaves_match E R C s t (tv_leaves (view ?d))"
    using old by (auto simp: tree_matches_def Let_def)
  note v = remove_leaf_view [OF E ok del]
  have bound: "unat (hdr_next ?d) \<le> 2 ^ TREE_DEPTH" using ok by (simp add: tree_ok_def)
  have pos: "0 < card ?L" using fin c card_gt_0_iff by blast
  have split: "mset_set ?L = add_mset c (mset_set (?L - {c}))"
    using fin c by (metis mset_set.remove)
  have rep: "2 ^ TREE_DEPTH - card (?L - {c}) = Suc (2 ^ TREE_DEPTH - card ?L)"
    using fin c pos card bound by (simp add: card_Diff_singleton)
  have "mset (tv_leaves (view d1)) = add_mset ZERO (mset (tv_leaves (view ?d)) - {#?leaf c#})"
    using v(2,4) bound by (simp add: v(5) mset_update)
  also have "\<dots> = image_mset ?leaf (mset_set (?L - {c})) + replicate_mset (2 ^ TREE_DEPTH - card (?L - {c})) ZERO"
    using ls by (simp add: leaves_match_def split rep)
  finally have "leaves_match E R C s' t (tv_leaves (view d1))"
    using rates_cong(2) [of "?L - {c}" s' E R t s, OF same] by (simp add: leaves_match_def new(2))
  moreover have "card (?L - {c}) \<le> unat (hdr_next d1)" using card v(3) fin by (auto simp: card_Diff_singleton_if)
  ultimately show ?thesis
    using v(1) tree_ok_not_Nil [OF v(1)] by (simp add: tree_matches_def new Let_def)
qed

section \<open>Every step keeps the invariant\<close>

lemma tree_called_cases:
  assumes "tree_called E R M m t ix s s'" and "m = M" and "separate E R M"
  obtains d where "merkle_run E ix (shard s (tree_sel E R M t)) = Inr d" and "s' = s(tree_sel E R M t \<mapsto> d)"
  using assms by (auto simp: tree_called_def separate_def)

lemma keep_register:
  assumes sep: "separate E R M" and E: "poseidon_ok E" and nc: "no_collision E R T C" and t: "t \<in> T" and c: "c \<in> C"
    and ok: "registry_ok E R M C s t" and cfg: "has_config E R s t cfg" "cs_tree_id cfg = t"
    and l: "MIN_RATE_LIMIT \<le> l" "l \<le> MAX_RATE_LIMIT" "can_register cfg l" and b: "bytes32 c"
    and free: "shard s (membership_sel E R t c) = []"
    and call: "tree_called E R M (cs_merkle_program_id cfg) t (MInsert (membership_leaf E c l))
         (s(config_sel E R t \<mapsto> enc_config (counted cfg l),
            membership_sel E R t c \<mapsto> enc_membership (new_membership c l now d g))) s'"
  shows "registry_ok E R M C s' t"
proof -
  let ?m = "new_membership c l now d g"
  note apart = sel_apart [OF nc t t c c]
  have keep: "shard s' k = shard (s(config_sel E R t \<mapsto> enc_config (counted cfg l),
      membership_sel E R t c \<mapsto> enc_membership ?m)) k" if "k \<noteq> tree_sel E R M t" for k
    using tree_called_writes [OF call that] .
  have cfg': "has_config E R s' t (counted cfg l)"
    using cfg(1) sep apart by (simp add: has_config_def keep)
  have mem': "has_member E R s' t c ?m"
    using b sep by (simp add: has_member_def membership_ok_def keep new_membership_def)
  have same: "shard s' (membership_sel E R t c') = shard s (membership_sel E R t c')" if "c' \<in> C" "c' \<noteq> c" for c'
    using that sep by (simp add: keep sel_apart [OF nc t t that(1) c])
  have ids: "cs_tree_id (counted cfg l) = t" "cs_merkle_program_id (counted cfg l) = cs_merkle_program_id cfg"
    using cfg(2) by (simp_all add: counted_def)
  show ?thesis
  proof (cases "cs_merkle_program_id cfg = M")
    case False
    then show ?thesis using registry_ok_foreign [OF cfg' ids(1)] ids(2) by simp
  next
    case True
    note old = registry_okE [OF ok cfg(1) True]
    have out: "c \<notin> live E R C s t" using free by (simp add: live_def)
    have fin: "finite (live E R C s t)" using old(2) by (simp add: counts_match_def)
    from call True sep obtain d1
      where "insert_leaf E (shard s (tree_sel E R M t)) (membership_leaf E c l) = Inr d1" "shard s' (tree_sel E R M t) = d1"
      by (auto elim!: tree_called_cases simp: merkle_run_def)
    moreover have "live E R C s' t = insert c (live E R C s t)"
      using mem' c same by (intro live_insert) (auto simp: has_member_def)
    moreover have "rate_of E R s' t c = l" using rate_of_has [OF mem'] by (simp add: new_membership_def)
    ultimately have "tree_matches E R M C s' t" "card (live E R C s t) < 2 ^ TREE_DEPTH"
      using tree_insert [OF E old(3) fin out, of l d1 s'] same out by (auto simp: live_def)
    moreover have "counts_match E R C s' t (counted cfg l)"
      using counts_insert [OF old(2) \<open>card _ < _\<close> c free mem'] l same by (simp add: new_membership_def)
    ultimately show ?thesis using cfg' ids by (auto simp: registry_ok_def)
  qed
qed

lemma keep_remove:
  assumes sep: "separate E R M" and E: "poseidon_ok E" and nc: "no_collision E R T C" and t: "t \<in> T" and c: "c \<in> C"
    and ok: "registry_ok E R M C s t" and cfg: "has_config E R s t cfg" "cs_tree_id cfg = t"
    and mem: "has_member E R s t c m" "ms_rate_limit m = l"
    and call: "tree_called E R M (cs_merkle_program_id cfg) t (MRemove i (membership_leaf E c l))
         (s(config_sel E R t \<mapsto> enc_config (released cfg l), membership_sel E R t c \<mapsto> [])) s'"
  shows "registry_ok E R M C s' t"
proof -
  note apart = sel_apart [OF nc t t c c]
  have keep: "shard s' k = shard (s(config_sel E R t \<mapsto> enc_config (released cfg l),
      membership_sel E R t c \<mapsto> [])) k" if "k \<noteq> tree_sel E R M t" for k
    using tree_called_writes [OF call that] .
  have cfg': "has_config E R s' t (released cfg l)"
    using cfg(1) sep apart by (simp add: has_config_def keep)
  have gone: "shard s' (membership_sel E R t c) = []" using sep by (simp add: keep)
  have same: "shard s' (membership_sel E R t c') = shard s (membership_sel E R t c')" if "c' \<in> C" "c' \<noteq> c" for c'
    using that sep by (simp add: keep sel_apart [OF nc t t that(1) c])
  have ids: "cs_tree_id (released cfg l) = t" "cs_merkle_program_id (released cfg l) = cs_merkle_program_id cfg"
    using cfg(2) by (simp_all add: released_def)
  show ?thesis
  proof (cases "cs_merkle_program_id cfg = M")
    case False
    then show ?thesis using registry_ok_foreign [OF cfg' ids(1)] ids(2) by simp
  next
    case True
    note old = registry_okE [OF ok cfg(1) True]
    have c_in: "c \<in> live E R C s t" using mem(1) c by (simp add: live_def has_member_def)
    have fin: "finite (live E R C s t)" using old(2) by (simp add: counts_match_def)
    have rate: "rate_of E R s t c = l" using rate_of_has [OF mem(1)] mem(2) by simp
    from call True sep obtain d1
      where "remove_leaf E (shard s (tree_sel E R M t)) i (membership_leaf E c l) = Inr d1" "shard s' (tree_sel E R M t) = d1"
      by (auto elim!: tree_called_cases simp: merkle_run_def)
    moreover have "live E R C s' t = live E R C s t - {c}" using gone same by (rule live_remove)
    ultimately have "tree_matches E R M C s' t"
      using tree_remove [OF E old(3) fin c_in, of i d1 s'] same rate by (auto simp: live_def)
    moreover have "counts_match E R C s' t (released cfg l)"
      using counts_remove [OF old(2) c mem(1) gone] same mem(2) by simp
    ultimately show ?thesis using cfg' ids by (auto simp: registry_ok_def)
  qed
qed

lemma keep_extend:
  assumes sep: "separate E R M" and nc: "no_collision E R T C" and t: "t \<in> T" and c: "c \<in> C"
    and ok: "registry_ok E R M C s t" and cfg: "has_config E R s t cfg" "cs_tree_id cfg = t"
    and mem: "has_member E R s t c m"
  shows "registry_ok E R M C (s(membership_sel E R t c \<mapsto> enc_membership (renewed m))) t"
proof -
  let ?s = "s(membership_sel E R t c \<mapsto> enc_membership (renewed m))"
  note apart = sel_apart [OF nc t t c c]
  have cfg': "has_config E R ?s t cfg" using cfg(1) apart by (simp add: has_config_def)
  have mem': "has_member E R ?s t c (renewed m)" using mem by (simp add: has_member_def)
  have same: "shard ?s (membership_sel E R t c') = shard s (membership_sel E R t c')" if "c' \<in> C" "c' \<noteq> c" for c'
    using that by (simp add: sel_apart [OF nc t t that(1) c])
  have live: "live E R C ?s t = live E R C s t"
    using mem same mem' by (auto simp: live_def has_member_def)
  have rate: "rate_of E R ?s t c' = rate_of E R s t c'" if "c' \<in> C" for c'
  proof (cases "c' = c")
    case True
    then show ?thesis using rate_of_has [OF mem] rate_of_has [OF mem'] by simp
  next
    case False
    then show ?thesis using rate_of_cong same [OF that] by blast
  qed
  have good: "member_good E R ?s t c' = member_good E R s t c'" if "c' \<in> C" for c'
  proof (cases "c' = c")
    case True
    then show ?thesis using member_good_has [OF mem] member_good_has [OF mem'] by simp
  next
    case False
    then show ?thesis using same [OF that] member_good_cong by blast
  qed
  have sub: "c' \<in> live E R C s t \<Longrightarrow> c' \<in> C" for c' by (simp add: live_def)
  have "counts_match E R C s t k \<Longrightarrow> counts_match E R C ?s t k" for k
    using rate good sub by (simp add: counts_match_def live)
  moreover have "leaves_match E R C ?s t ls = leaves_match E R C s t ls" for ls
    unfolding leaves_match_def live
    by (intro arg_cong2 [of _ _ _ _ "(=)"] refl arg_cong2 [of _ _ _ _ "(+)"] image_mset_cong)
      (metis rate sub elem_mset_set empty_iff infinite_set_mset_mset_set)
  then have "tree_matches E R M C s t \<Longrightarrow> tree_matches E R M C ?s t"
    using sep by (simp add: tree_matches_def Let_def live)
  ultimately show ?thesis
    using registry_okE [OF ok cfg(1)] cfg' cfg(2) by (auto simp: registry_ok_def)
qed

lemma keep_initialize:
  assumes sep: "separate E R M" and nc: "no_collision E R T C" and t: "t \<in> T"
    and ok: "registry_ok E R M C s t" and free: "shard s (config_sel E R t) = []"
    and cfg: "config_ok cfg" "cs_tree_id cfg = t" "cs_total_registrations cfg = 0" "cs_current_total_rate_limit cfg = 0"
  shows "registry_ok E R M C (s(config_sel E R t \<mapsto> enc_config cfg)) t"
proof -
  let ?s = "s(config_sel E R t \<mapsto> enc_config cfg)"
  have old: "live E R C s t = {}" "shard s (tree_sel E R M t) = []"
    using ok free by (auto simp: registry_ok_def has_config_def)
  have "shard ?s (membership_sel E R t c) = shard s (membership_sel E R t c)" if "c \<in> C" for c
    using sel_apart(4) [OF nc t t that that] by simp
  then have live: "live E R C ?s t = {}" using old(1) live_cong by metis
  have "counts_match E R C ?s t cfg" using cfg by (simp add: counts_match_def live)
  moreover have "tree_matches E R M C ?s t" using old(2) sep by (simp add: tree_matches_def live)
  moreover have "has_config E R ?s t cfg" using cfg(1) by (simp add: has_config_def)
  ultimately show ?thesis using cfg(2) by (auto simp: registry_ok_def)
qed

lemma keep_initialize_tree:
  assumes sep: "separate E R M" and E: "poseidon_ok E"
    and ok: "registry_ok E R M C s t" and cfg: "has_config E R s t cfg" "cs_tree_id cfg = t"
    and call: "tree_called E R M (cs_merkle_program_id cfg) t MInitialize s s'"
  shows "registry_ok E R M C s' t"
proof -
  have keep: "shard s' k = shard s k" if "k \<noteq> tree_sel E R M t" for k
    using tree_called_writes [OF call that] .
  have cfg': "has_config E R s' t cfg" using cfg(1) sep by (simp add: has_config_def keep)
  show ?thesis
  proof (cases "cs_merkle_program_id cfg = M")
    case False
    with cfg' cfg(2) show ?thesis by (rule registry_ok_foreign)
  next
    case True
    note old = registry_okE [OF ok cfg(1) True]
    from call True sep obtain d where i: "initialize_tree (shard s (tree_sel E R M t)) = Inr d"
      and d: "shard s' (tree_sel E R M t) = d"
      by (auto elim!: tree_called_cases simp: merkle_run_def)
    have nil: "shard s (tree_sel E R M t) = []"
      using i by (auto simp: initialize_tree_def check_def split: if_splits)
    have live: "live E R C s' t = live E R C s t" using sep keep by (intro live_cong) simp
    have none: "live E R C s t = {}" using old(3) nil by (simp add: tree_matches_def)
    have ok': "tree_ok E d" "\<And>j. tree_leaf d j = ZERO"
      using initialize_tree_correct [OF E] i nil by (metis Inr_inject)+
    have "tree_leaf d = (\<lambda>_. ZERO)" using ok'(2) by (rule ext)
    then have "tv_leaves (view d) = replicate (2 ^ TREE_DEPTH) ZERO"
      by (simp add: view_def map_replicate_const)
    then have "leaves_match E R C s' t (tv_leaves (view d))"
      by (simp add: leaves_match_def live none)
    then have "tree_matches E R M C s' t"
      using ok'(1) tree_ok_not_Nil [OF ok'(1)] by (simp add: tree_matches_def d live none)
    moreover have "counts_match E R C s' t cfg" using old(2) by (simp add: counts_match_def live none)
    ultimately show ?thesis using cfg' cfg(2) by (auto simp: registry_ok_def)
  qed
qed

lemma keep_registration:
  assumes sep: "separate E R M" and E: "poseidon_ok E" and nc: "no_collision E R T C" and t: "t \<in> T"
    and ix: "instruction_ok ix" "ids_in T C ix"
    and run: "replay 2 E (deployed R M) s R caller metas (enc_instruction ix) = Inr s'"
    and ok: "registry_ok E R M C s t"
  shows "registry_ok E R M C s' t"
proof (cases "tree_of ix = t")
  case False
  have pc: "poseidon_canonical E" using E by (simp add: poseidon_ok_def)
  note run2 = run [unfolded numeral_2_eq_2]
  have "same_registry E R M C t s s'"
    using other_tree_writes [OF sep nc ix(2) t False] registration_writes [OF sep pc ix(1) run2]
    by (simp add: same_registry_def)
  then show ?thesis using ok by (rule registry_frame)
next
  case True
  have pc: "poseidon_canonical E" using E by (simp add: poseidon_ok_def)
  note run2 = run [unfolded numeral_2_eq_2]
  note del = replay.simps enc_instruction.simps
  show ?thesis
  proof (cases ix)
    case (Initialize m t' p a x d g)
    then show ?thesis
      using run2 ix True ok tx_initialize [OF sep, of m t' p a x d g] keep_initialize [OF sep nc t ok]
      by (auto simp: config_ok_def simp del: replay.simps enc_instruction.simps)
  next
    case (InitializeMerkleTree t' m)
    then show ?thesis
      using run2 ix True tx_initialize_tree [OF sep, of t' m] keep_initialize_tree [OF sep E ok]
      by (auto simp del: replay.simps enc_instruction.simps)
  next
    case (Register t' c l m now p d g)
    then show ?thesis
      using run2 ix True tx_register [OF sep pc, of t' c l m now p d g] keep_register [OF sep E nc t _ ok]
      by (auto simp del: replay.simps enc_instruction.simps)
  next
    case (Slash t' c sec m i l)
    then show ?thesis
      using run2 ix True tx_slash [OF sep pc, of t' c sec m i l] keep_remove [OF sep E nc t _ ok]
      by (auto simp del: replay.simps enc_instruction.simps)
  next
    case (Extend t' c now p l)
    then show ?thesis
      using run2 ix True tx_extend [OF sep, of t' c now p l] keep_extend [OF sep nc t _ ok]
      by (auto simp del: replay.simps enc_instruction.simps)
  next
    case (Erase t' c m i l now)
    then show ?thesis
      using run2 ix True tx_erase [OF sep pc, of t' c m i l now] keep_remove [OF sep E nc t _ ok]
      by (auto simp del: replay.simps enc_instruction.simps)
  qed
qed

inductive_cases stepE: "step E R M T C s s'"

lemma keep_step:
  assumes "separate E R M" and "poseidon_ok E" and "no_collision E R T C" and "t \<in> T"
    and "step E R M T C s s'" and "registry_ok E R M C s t"
  shows "registry_ok E R M C s' t"
  using assms(5)
proof cases
  case (step_registration ix caller metas)
  then show ?thesis using keep_registration [OF assms(1-4) _ _ _ assms(6)] by blast
next
  case (step_merkle caller metas data)
  then obtain m d where m: "metas = [m]" "is_authorized m" "s' = s(meta_selector m \<mapsto> d)" "program_account_id m = M"
    unfolding numeral_2_eq_2 replay_merkle by blast
  then have "account_id m \<noteq> pda_main E R t" using step_merkle(2) assms(4) by simp
  then have "same_registry E R M C t s s'"
    using m assms(1)
    by (auto simp: same_registry_def meta_selector_def tree_sel_def config_sel_def membership_sel_def separate_def)
  then show ?thesis using assms(6) by (rule registry_frame)
next
  case step_foreign
  then have "same_registry E R M C t s s'"
    by (simp add: same_registry_def config_sel_def membership_sel_def tree_sel_def)
  then show ?thesis using assms(6) by (rule registry_frame)
qed

lemma reachable_ok:
  assumes "separate E R M" and "poseidon_ok E" and "no_collision E R T C" and "t \<in> T" and "reachable E R M T C s"
  shows "registry_ok E R M C s t"
  using assms(5)
proof induction
  case (reach_start s)
  then show ?case by (simp add: registry_ok_def live_def config_sel_def membership_sel_def tree_sel_def)
next
  case (reach_step s s')
  then show ?case using keep_step [OF assms(1-4)] by blast
qed

end
