(* ===== verification/Instances.thy ===== *)
theory Instances
  imports MerkleOps
begin

text \<open>
  A concrete instance of the code outside the repository, on which the witnesses evaluate: a
  stand-in for the two-to-one hash that agrees with the pinned table of empty-subtree hashes, and
  simple functions for the rest. It shows the hypotheses over \<open>external\<close> can hold together.
\<close>

definition toy_valid :: "bytes \<Rightarrow> bool" where
  "toy_valid b \<longleftrightarrow> length b = 32 \<and> b ! 31 < 48"

definition toy_mix :: "bytes \<Rightarrow> bytes \<Rightarrow> bytes" where
  "toy_mix a b = map (\<lambda>i. if i = 31 then 1 else (a @ b) ! i + 3 * (a @ b) ! (i + 32) + 7) [0..<32]"

definition toy_pad :: "bytes \<Rightarrow> bytes" where
  "toy_pad b = take 64 b @ replicate (64 - length b) 0"

definition toy_sha :: "bytes \<Rightarrow> bytes" where
  "toy_sha b = (let d = b @ replicate 96 0 in map (\<lambda>i. d ! i + 3 * d ! (i + 32) + 9 * d ! (i + 64)) [0..<32])"

definition toy_ladder :: "(bytes \<times> bytes) list" where
  "toy_ladder = zip (tl DEFAULT_HASHES) DEFAULT_HASHES"

definition toy_compress2 :: "bytes \<Rightarrow> bytes \<Rightarrow> bytes" where
  "toy_compress2 a b =
     (case if a = b then map_of toy_ladder a else None of
        Some h \<Rightarrow> h | None \<Rightarrow> map (\<lambda>i. if i = 31 then 1 else toy_pad (a @ b) ! i + 3 * toy_pad (a @ b) ! (i + 32) + 7) [0..<32])"

definition toy :: external where
  "toy = \<lparr>felt_valid = toy_valid,
          compress1 = (\<lambda>a. toy_mix (toy_pad a) []),
          compress2 = toy_compress2,
          sha256 = toy_sha,
          for_public_pda = (\<lambda>p s. toy_sha (ascii ''/LEE/v0.2/AccountId/PDA/'' @ replicate 8 0 @ p @ s)),
          clock_account_id = toy_sha (BUILTIN_PROGRAM_NAME_PREFIX @ ascii ''clock''),
          clock_timestamp = (\<lambda>b. if length b = 16 then Some (u64_of (slice 8 8 b)) else None),
          native_program = replicate 32 9,
          native_transfer = u128_le\<rparr>"

lemma toy_canonical: "poseidon_canonical toy"
proof -
  have "list_all toy_valid DEFAULT_HASHES" by (simp add: DEFAULT_HASHES_def toy_valid_def)
  moreover have "h \<in> set DEFAULT_HASHES" if "map_of toy_ladder a = Some h" for a h
    using that by (auto simp: toy_ladder_def dest!: map_of_SomeD set_zip_rightD)
  ultimately have "toy_valid h" if "map_of toy_ladder a = Some h" for a h
    using that by (auto simp: list_all_iff)
  moreover have "toy_valid (toy_mix a b)" for a b by (simp add: toy_mix_def toy_valid_def)
  ultimately show ?thesis
    by (auto simp: poseidon_canonical_def toy_def toy_compress2_def toy_valid_def toy_mix_def split: option.splits)
qed

lemma toy_ladder_ok: "default_ladder toy"
proof -
  have "toy_valid ZERO" by (simp add: toy_valid_def ZERO_def)
  moreover have "list_all (\<lambda>l. DEFAULT_HASHES ! l = toy_compress2 (DEFAULT_HASHES ! Suc l) (DEFAULT_HASHES ! Suc l)) [0..<9]"
    by (simp add: toy_compress2_def toy_ladder_def DEFAULT_HASHES_def upt_rec)
  ultimately show ?thesis by (simp add: default_ladder_def toy_def TREE_DEPTH_def)
qed

lemma toy_poseidon: "poseidon_ok toy"
  by (simp add: poseidon_ok_def toy_canonical toy_ladder_ok)

definition fresh_tree :: bytes where
  "fresh_tree = (case initialize_tree [] of Inr d \<Rightarrow> d | Inl e \<Rightarrow> [])"

lemma fresh_tree_ok: "poseidon_ok E \<Longrightarrow> tree_ok E fresh_tree"
  by (metis fresh_tree_def initialize_tree_correct sum.case(2))

lemma fresh_tree_view:
  assumes "poseidon_ok E"
  shows "hdr_next fresh_tree = 0" and "tree_leaf fresh_tree i = ZERO" and "length fresh_tree = OFFSET_TREE_DATA"
  using initialize_tree_correct [OF assms] by (metis fresh_tree_def sum.case(2))+

definition leaf_a :: bytes where "leaf_a = 1 # replicate 31 0"

lemma leaf_a_ok [simp]: "length leaf_a = 32" "felt_valid toy leaf_a"
  by (simp_all add: leaf_a_def toy_def toy_valid_def)

end
