(* ===== verification/Scenario.thy ===== *)
theory Scenario
  imports Registry Instances
begin

text \<open>
  A registry on the concrete externals of \<open>Instances\<close>: a config, a tree, and one registered member,
  reached by transactions of the model. The witnesses of the properties about runs use it.
\<close>

section \<open>Accounts\<close>

definition demo_R :: bytes where "demo_R = replicate 32 1"
definition demo_M :: bytes where "demo_M = replicate 32 2"
definition demo_T :: bytes where "demo_T = replicate 32 3"
definition demo_treasury :: bytes where "demo_treasury = replicate 32 4"
definition demo_secret :: bytes where "demo_secret = replicate 32 7"
definition demo_C :: bytes where "demo_C = replicate 31 14 @ [1]"
definition demo_payer :: bytes where "demo_payer = replicate 32 6"

lemmas demo_ids = demo_R_def demo_M_def demo_T_def demo_treasury_def demo_secret_def demo_C_def demo_payer_def

lemma demo_bytes32 [simp]:
  "length demo_R = 32" "length demo_M = 32" "length demo_T = 32" "length demo_treasury = 32"
  "length demo_C = 32" "length demo_secret = 32" "length demo_payer = 32"
  by (simp_all add: demo_ids)

lemma toy_clock_account:
  "clock_account_id toy = toy_sha (BUILTIN_PROGRAM_NAME_PREFIX @ ascii ''clock'')"
  by (simp add: toy_def)

lemma demo_separate: "separate toy demo_R demo_M"
proof -
  have "toy_sha (BUILTIN_PROGRAM_NAME_PREFIX @ ascii ''clock'') ! 0 = 88" by code_simp
  then have "clock_account_id toy \<noteq> demo_R" "clock_account_id toy \<noteq> demo_M"
    by (auto simp: toy_clock_account demo_ids)
  then show ?thesis by (auto simp: separate_def demo_ids toy_def)
qed

lemma demo_apart: "pda_config toy demo_R demo_T \<noteq> pda_membership toy demo_R demo_T demo_C"
proof -
  have "pda_config toy demo_R demo_T ! 0 = 254" "pda_membership toy demo_R demo_T demo_C ! 0 = 198" by code_simp+
  then show ?thesis by auto
qed

lemma demo_no_collision: "no_collision toy demo_R {demo_T} {demo_C}"
  using demo_apart by (simp add: no_collision_def)

lemma demo_sels [simp]:
  "config_sel toy demo_R demo_T \<noteq> membership_sel toy demo_R demo_T demo_C"
  "membership_sel toy demo_R demo_T demo_C \<noteq> config_sel toy demo_R demo_T"
  using demo_apart by (auto simp: config_sel_def membership_sel_def)

lemma demo_secret_ok: "compress1 toy demo_secret = demo_C" "felt_valid toy demo_secret"
  by code_simp+

section \<open>States\<close>

definition demo_now :: u64 where "demo_now = 1000000"

definition demo_clock :: bytes where "demo_clock = replicate 8 0 @ u64_le demo_now"

definition demo_cfg :: config_state where
  "demo_cfg = \<lparr>cs_merkle_program_id = demo_M, cs_tree_id = demo_T, cs_price_per_unit = 10,
     cs_treasury_account_id = demo_treasury, cs_total_registrations = 0, cs_max_total_rate_limit = 1000,
     cs_current_total_rate_limit = 0, cs_active_duration_sec = 100, cs_grace_period_duration_sec = 50\<rparr>"

definition demo_member :: membership_state where
  "demo_member = new_membership demo_C 200 demo_now 100 50"

definition demo_leaf :: bytes where "demo_leaf = membership_leaf toy demo_C 200"

definition demo_tree :: bytes where
  "demo_tree = (case insert_leaf toy fresh_tree demo_leaf of Inr d \<Rightarrow> d | Inl e \<Rightarrow> [])"

definition demo_empty :: shards where "demo_empty = [clock_sel toy \<mapsto> demo_clock]"

definition demo_configured :: shards where
  "demo_configured = demo_empty(config_sel toy demo_R demo_T \<mapsto> enc_config demo_cfg)"

definition demo_ready :: shards where
  "demo_ready = demo_configured(tree_sel toy demo_R demo_M demo_T \<mapsto> fresh_tree)"

definition demo_registered :: shards where
  "demo_registered = demo_ready(config_sel toy demo_R demo_T \<mapsto> enc_config (counted demo_cfg 200),
     membership_sel toy demo_R demo_T demo_C \<mapsto> enc_membership demo_member,
     tree_sel toy demo_R demo_M demo_T \<mapsto> demo_tree)"

definition meta_for :: "bool \<Rightarrow> selector \<Rightarrow> account_meta" where
  "meta_for auth k = \<lparr>account_id = fst k, is_authorized = auth, program_account_id = snd k\<rparr>"

lemma meta_for_sel [simp]:
  "meta_selector (meta_for a k) = k" "is_authorized (meta_for a k) = a"
  "account_id (meta_for a k) = fst k" "program_account_id (meta_for a k) = snd k"
  by (simp_all add: meta_for_def meta_selector_def)

lemma demo_clock_ok:
  "clock_ok toy demo_empty demo_now" "clock_timestamp toy demo_clock = Some demo_now"
proof -
  show "clock_timestamp toy demo_clock = Some demo_now"
    by (simp add: toy_def demo_clock_def slice_def)
  then show "clock_ok toy demo_empty demo_now"
    by (simp add: clock_ok_def clock_iff demo_empty_def demo_now_def)
qed

lemma demo_cfg_ok [simp]: "config_ok demo_cfg" "membership_ok demo_member"
  by (simp_all add: demo_cfg_def demo_member_def new_membership_def config_ok_def membership_ok_def)

lemma demo_sep_sels [simp]:
  "tree_sel toy demo_R demo_M t \<noteq> config_sel toy demo_R t'" "tree_sel toy demo_R demo_M t \<noteq> membership_sel toy demo_R t' c"
  "config_sel toy demo_R t' \<noteq> tree_sel toy demo_R demo_M t" "membership_sel toy demo_R t' c \<noteq> tree_sel toy demo_R demo_M t"
  "clock_sel toy \<noteq> config_sel toy demo_R t'" "clock_sel toy \<noteq> membership_sel toy demo_R t' c"
  "clock_sel toy \<noteq> tree_sel toy demo_R demo_M t"
  using sel_other [OF demo_separate] clock_sel_other [OF demo_separate] demo_separate
  by (auto simp: separate_def clock_sel_def tree_sel_def)

lemma demo_leaf_ok: "node_ok toy demo_leaf"
  using poseidon_compress2 [OF toy_poseidon] by (simp add: demo_leaf_def membership_leaf_def)

lemma demo_insert: "insert_leaf toy fresh_tree demo_leaf = Inr demo_tree"
proof -
  have l: "bytes32 demo_leaf" "felt_valid toy demo_leaf" using demo_leaf_ok by (simp_all add: node_ok_def)
  have "map_sum id view (insert_leaf toy fresh_tree demo_leaf) = spec_insert toy demo_leaf (view fresh_tree)"
    using insert_leaf_cases [OF toy_poseidon fresh_tree_ok [OF toy_poseidon] l(1)] by blast
  moreover have "tv_next (view fresh_tree) = 0" using fresh_tree_view(1) [OF toy_poseidon] by simp
  ultimately have "\<exists>v. map_sum id view (insert_leaf toy fresh_tree demo_leaf) = Inr v"
    using l(2) by (simp add: spec_insert_def)
  then show ?thesis by (cases "insert_leaf toy fresh_tree demo_leaf") (simp_all add: demo_tree_def)
qed

lemma demo_tree_ok: "tree_ok toy demo_tree"
  using insert_leaf_view(1) [OF toy_poseidon fresh_tree_ok [OF toy_poseidon] _ demo_insert] demo_leaf_ok
  by (simp add: node_ok_def)

section \<open>Transactions\<close>

definition demo_register :: instruction where
  "demo_register = Register demo_T demo_C 200 demo_M demo_now 10 100 50"

definition demo_register_metas :: "account_meta list" where
  "demo_register_metas =
     [meta_for False (config_sel toy demo_R demo_T), meta_for False (tree_sel toy demo_R demo_M demo_T),
      meta_for True (native_sel toy demo_payer), meta_for False (native_sel toy demo_treasury),
      meta_for False (clock_sel toy), meta_for False (membership_sel toy demo_R demo_T demo_C)]"

lemma demo_instructions_ok [simp]:
  "instruction_ok (Initialize demo_M demo_T 10 demo_treasury 1000 100 50)"
  "instruction_ok (InitializeMerkleTree demo_T demo_M)" "instruction_ok demo_register"
  by (simp_all add: demo_register_def)

lemma demo_has_config:
  "has_config toy demo_R demo_configured demo_T demo_cfg" "has_config toy demo_R demo_ready demo_T demo_cfg"
  "has_config toy demo_R demo_registered demo_T (counted demo_cfg 200)"
  by (simp_all add: has_config_def demo_configured_def demo_ready_def demo_registered_def)

lemma demo_has_member: "has_member toy demo_R demo_registered demo_T demo_C demo_member"
  by (simp add: has_member_def demo_registered_def)

lemma demo_shards [simp]:
  "shard demo_empty (config_sel toy demo_R demo_T) = []"
  "shard demo_configured (tree_sel toy demo_R demo_M demo_T) = []"
  "shard demo_ready (tree_sel toy demo_R demo_M demo_T) = fresh_tree"
  "shard demo_ready (membership_sel toy demo_R demo_T demo_C) = []"
  "shard demo_ready (clock_sel toy) = demo_clock"
  "shard demo_registered (tree_sel toy demo_R demo_M demo_T) = demo_tree"
  "shard demo_registered (clock_sel toy) = demo_clock"
  by (simp_all add: demo_empty_def demo_configured_def demo_ready_def demo_registered_def)
    (simp_all add: shard_def demo_sep_sels [symmetric])

lemma demo_initialized:
  "replay 2 toy (deployed demo_R demo_M) demo_empty demo_R None [meta_for False (config_sel toy demo_R demo_T)]
     (enc_instruction (Initialize demo_M demo_T 10 demo_treasury 1000 100 50)) = Inr demo_configured"
  unfolding numeral_2_eq_2 by (subst tx_initialize [OF demo_separate])
    (simp_all add: demo_configured_def demo_cfg_def)

lemma demo_tree_initialized:
  "replay 2 toy (deployed demo_R demo_M) demo_configured demo_R None
     [meta_for False (config_sel toy demo_R demo_T), meta_for False (tree_sel toy demo_R demo_M demo_T)]
     (enc_instruction (InitializeMerkleTree demo_T demo_M)) = Inr demo_ready"
proof -
  obtain d where "initialize_tree [] = Inr d" using initialize_tree_correct [OF toy_poseidon] by blast
  then have "merkle_run toy MInitialize [] = Inr fresh_tree" by (simp add: merkle_run_def fresh_tree_def)
  then have "tree_called toy demo_R demo_M demo_M demo_T MInitialize demo_configured demo_ready"
    by (simp add: tree_called_def demo_ready_def)
  moreover have "cs_tree_id demo_cfg = demo_T" "cs_merkle_program_id demo_cfg = demo_M" by (simp_all add: demo_cfg_def)
  ultimately show ?thesis
    unfolding numeral_2_eq_2 using demo_has_config(1) by (subst tx_initialize_tree [OF demo_separate]) auto
qed

lemma demo_felt [simp]: "felt_valid toy demo_C" "demo_C \<noteq> ZERO" "felt_valid toy (rate_felt l)"
proof -
  have "last demo_C = 1" "last ZERO = 0" by (simp_all add: demo_C_def ZERO_def)
  then show "demo_C \<noteq> ZERO" by auto
qed (simp_all add: toy_def toy_valid_def demo_C_def rate_felt_def nth_append)

lemma demo_register_effect:
  "replay 2 toy (deployed demo_R demo_M) demo_ready demo_R None demo_register_metas
     (enc_instruction demo_register) = Inr demo_registered"
proof -
  let ?s1 = "demo_ready(config_sel toy demo_R demo_T \<mapsto> enc_config (counted demo_cfg 200),
     membership_sel toy demo_R demo_T demo_C \<mapsto> enc_membership demo_member)"
  have call: "tree_called toy demo_R demo_M demo_M demo_T (MInsert (membership_leaf toy demo_C 200)) ?s1 demo_registered"
    using demo_insert by (simp add: tree_called_def merkle_run_def demo_registered_def demo_leaf_def)
  have cfg: "cs_tree_id demo_cfg = demo_T" "cs_merkle_program_id demo_cfg = demo_M" "cs_price_per_unit demo_cfg = 10"
    "cs_treasury_account_id demo_cfg = demo_treasury" "cs_active_duration_sec demo_cfg = 100"
    "cs_grace_period_duration_sec demo_cfg = 50" by (simp_all add: demo_cfg_def)
  have cap: "can_register demo_cfg 200" "MIN_RATE_LIMIT \<le> 200" "200 \<le> MAX_RATE_LIMIT"
    by (simp_all add: can_register_def demo_cfg_def sat_add_def MIN_RATE_LIMIT_def MAX_RATE_LIMIT_def)
  have clk: "clock_ok toy demo_ready demo_now" using demo_clock_ok(1) by (simp add: clock_ok_def demo_empty_def)
  have "fst (native_sel toy demo_treasury) = demo_treasury" by (simp add: native_sel_def)
  then show ?thesis
    unfolding numeral_2_eq_2 demo_register_def
    by (subst tx_register [OF demo_separate toy_canonical])
      (use call cfg cap clk demo_has_config(2) in
        \<open>auto simp: demo_register_metas_def demo_member_def demo_instructions_ok(3) [unfolded demo_register_def]\<close>)
qed

lemma demo_reachable:
  "reachable toy demo_R demo_M {demo_T} {demo_C} demo_empty"
  "reachable toy demo_R demo_M {demo_T} {demo_C} demo_registered"
proof -
  let ?r = "reachable toy demo_R demo_M {demo_T} {demo_C}"
  have "snd k = demo_R \<or> snd k = demo_M \<Longrightarrow> shard demo_empty k = []" for k
    using demo_separate by (auto simp: demo_empty_def shard_def separate_def clock_sel_def)
  then show a: "?r demo_empty" by (rule reach_start)
  have b: "?r demo_configured"
    by (rule reach_step [OF a step_registration [OF _ _ demo_initialized]]) simp_all
  have c: "?r demo_ready"
    by (rule reach_step [OF b step_registration [OF _ _ demo_tree_initialized]]) simp_all
  show "?r demo_registered"
    by (rule reach_step [OF c step_registration [OF _ _ demo_register_effect]]) (simp_all, simp add: demo_register_def)
qed

section \<open>Later transactions\<close>

text \<open>The clock moved to the grace period, and past it.\<close>

definition demo_at :: "u64 \<Rightarrow> shards" where
  "demo_at now = demo_registered(clock_sel toy \<mapsto> replicate 8 0 @ u64_le now)"

lemma demo_at_clock: "0 < now \<Longrightarrow> clock_ok toy (demo_at now) now"
  by (simp add: clock_ok_def clock_iff demo_at_def) (simp add: toy_def slice_def)

lemma demo_at_shards [simp]:
  "shard (demo_at now) (tree_sel toy demo_R demo_M demo_T) = demo_tree"
  "has_config toy demo_R (demo_at now) demo_T (counted demo_cfg 200)"
  "has_member toy demo_R (demo_at now) demo_T demo_C demo_member"
  using demo_has_config(3) demo_has_member
  by (auto simp: demo_at_def has_config_def has_member_def demo_sep_sels [symmetric])

definition demo_config_metas :: "account_meta list" where
  "demo_config_metas =
     [meta_for False (config_sel toy demo_R demo_T), meta_for False (tree_sel toy demo_R demo_M demo_T),
      meta_for False (membership_sel toy demo_R demo_T demo_C)]"

definition demo_extend_metas :: "account_meta list" where
  "demo_extend_metas =
     [meta_for False (config_sel toy demo_R demo_T), meta_for False (membership_sel toy demo_R demo_T demo_C),
      meta_for True (native_sel toy demo_payer), meta_for False (native_sel toy demo_treasury),
      meta_for False (clock_sel toy)]"

lemma demo_remove: "\<exists>d. remove_leaf toy demo_tree 0 demo_leaf = Inr d"
proof -
  have l: "bytes32 demo_leaf" using demo_leaf_ok by (simp add: node_ok_def)
  note v = insert_leaf_view [OF toy_poseidon fresh_tree_ok [OF toy_poseidon] l demo_insert]
  have n: "unat (hdr_next fresh_tree) = 0" using fresh_tree_view(1) [OF toy_poseidon] by simp
  have "tv_leaves (view demo_tree) ! 0 = demo_leaf"
    unfolding v(4) n by (rule nth_list_update_eq) simp
  then have "\<exists>v. map_sum id view (remove_leaf toy demo_tree 0 demo_leaf) = Inr v"
    using remove_leaf_cases [OF toy_poseidon v(1), of 0 demo_leaf] v(3) by (simp add: spec_remove_def)
  then show ?thesis by (cases "remove_leaf toy demo_tree 0 demo_leaf") auto
qed

lemma demo_cfg_sel [simp]:
  "cs_tree_id (counted demo_cfg l) = demo_T" "cs_merkle_program_id (counted demo_cfg l) = demo_M"
  "cs_price_per_unit (counted demo_cfg l) = 10" "cs_treasury_account_id (counted demo_cfg l) = demo_treasury"
  by (simp_all add: counted_def demo_cfg_def)

lemma demo_member_sel [simp]:
  "ms_rate_limit demo_member = 200" "ms_id_commitment demo_member = demo_C"
  "ms_grace_period_start_timestamp_ms demo_member = 1100000" "ms_grace_period_duration_sec demo_member = 50"
  "ms_active_duration_sec demo_member = 100"
  by (simp_all add: demo_member_def new_membership_def demo_now_def sat_add_def secs_to_millis_def MILLIS_PER_SECOND_def)

lemma demo_extended:
  "replay 2 toy (deployed demo_R demo_M) (demo_at 1120000) demo_R None demo_extend_metas
     (enc_instruction (Extend demo_T demo_C 1120000 10 200)) =
   Inr ((demo_at 1120000)(membership_sel toy demo_R demo_T demo_C \<mapsto> enc_membership (renewed demo_member)))"
proof -
  have "is_in_grace_period 1100000 (secs_to_millis 50) 1120000"
    by (simp add: is_in_grace_period_def sat_add_def secs_to_millis_def MILLIS_PER_SECOND_def)
  moreover have "fst (native_sel toy demo_treasury) = demo_treasury" by (simp add: native_sel_def)
  ultimately show ?thesis
    unfolding numeral_2_eq_2
    by (subst tx_extend [OF demo_separate]) (auto simp: demo_extend_metas_def demo_at_clock
      intro!: exI [of _ "counted demo_cfg 200"] exI [of _ demo_member])
qed

definition demo_after_removal :: "shards \<Rightarrow> shards" where
  "demo_after_removal s =
     s(config_sel toy demo_R demo_T \<mapsto> enc_config (released (counted demo_cfg 200) 200),
       membership_sel toy demo_R demo_T demo_C \<mapsto> [],
       tree_sel toy demo_R demo_M demo_T \<mapsto> (case remove_leaf toy demo_tree 0 demo_leaf of Inr d \<Rightarrow> d | Inl e \<Rightarrow> []))"

lemma demo_removal_call:
  "tree_called toy demo_R demo_M demo_M demo_T (MRemove 0 (membership_leaf toy demo_C 200))
     ((demo_at now)(config_sel toy demo_R demo_T \<mapsto> enc_config (released (counted demo_cfg 200) 200),
        membership_sel toy demo_R demo_T demo_C \<mapsto> [])) (demo_after_removal (demo_at now))"
  using demo_remove by (auto simp: tree_called_def merkle_run_def demo_after_removal_def demo_leaf_def)

lemma demo_slashed:
  "replay 2 toy (deployed demo_R demo_M) (demo_at 1) demo_R None demo_config_metas
     (enc_instruction (Slash demo_T demo_C demo_secret demo_M 0 200)) = Inr (demo_after_removal (demo_at 1))"
  unfolding numeral_2_eq_2
  by (subst tx_slash [OF demo_separate toy_canonical])
    (use demo_removal_call [of 1] in \<open>auto simp: demo_config_metas_def demo_secret_ok
      intro!: exI [of _ "counted demo_cfg 200"] exI [of _ demo_member]\<close>)

lemma demo_erased:
  "replay 2 toy (deployed demo_R demo_M) (demo_at 1200000) demo_R None (demo_config_metas @ [meta_for False (clock_sel toy)])
     (enc_instruction (Erase demo_T demo_C demo_M 0 200 1200000)) = Inr (demo_after_removal (demo_at 1200000))"
proof -
  have "is_expired 1100000 (secs_to_millis 50) 1200000"
    by (simp add: is_expired_def sat_add_def secs_to_millis_def MILLIS_PER_SECOND_def)
  then show ?thesis
    unfolding numeral_2_eq_2
    by (subst tx_erase [OF demo_separate toy_canonical])
      (use demo_removal_call [of 1200000] in \<open>auto simp: demo_config_metas_def demo_at_clock
        intro!: exI [of _ "counted demo_cfg 200"] exI [of _ demo_member]\<close>)
qed

end
