(* ===== verification/RegistryProperties.thy ===== *)
theory RegistryProperties
  imports Scenario
begin

text \<open>
  The properties of the registry over runs: what holds of the counters, the memberships and the tree
  after any sequence of transactions, and why a membership can end.
\<close>

section \<open>The counters and the tree\<close>

text \<open>
  C1. In every state a run reaches, the counters of a config on the merkle program are exact: the
  members of its tree are finitely many and each is well formed under its own commitment with a rate
  limit in range, the registration count is their number, and the current rate total is the sum of
  their rate limits and within the capacity. No wrap-around of the two counters can have happened.
\<close>

theorem counters_are_exact:
  assumes "separate E R M" and "poseidon_ok E" and "no_collision E R T C" and "t \<in> T"
    and "reachable E R M T C s" and "has_config E R s t cfg" and "cs_merkle_program_id cfg = M"
  shows "finite (live E R C s t) \<and> (\<forall>c \<in> live E R C s t. member_good E R s t c) \<and>
    unat (cs_total_registrations cfg) = card (live E R C s t) \<and>
    unat (cs_current_total_rate_limit cfg) = (\<Sum>c \<in> live E R C s t. unat (rate_of E R s t c)) \<and>
    cs_current_total_rate_limit cfg \<le> cs_max_total_rate_limit cfg"
  using registry_okE(2) [OF reachable_ok [OF assms(1-5)] assms(6,7)] by (simp add: counts_match_def)

theorem counters_are_exact_witness:
  "unat (cs_total_registrations (counted demo_cfg 200)) = card (live toy demo_R {demo_C} demo_registered demo_T)"
  using counters_are_exact [OF demo_separate toy_poseidon demo_no_collision _ demo_reachable(2) demo_has_config(3)]
  by simp

text \<open>
  C2. In every state a run reaches, the tree shard of such a config, once created, is a well formed tree
  whose leaves are, as a multiset, the leaves of the live memberships and zeros, and whose root is the
  Merkle root of those leaves, recomputed from them alone. Every member is thus in the tree, once, and
  no leaf of a removed member is left.
\<close>

theorem tree_is_the_membership_set:
  assumes "separate E R M" and "poseidon_ok E" and "no_collision E R T C" and "t \<in> T"
    and "reachable E R M T C s" and "has_config E R s t cfg" and "cs_merkle_program_id cfg = M"
    and "shard s (tree_sel E R M t) \<noteq> []"
  defines "v \<equiv> view (shard s (tree_sel E R M t))"
  shows "tree_ok E (shard s (tree_sel E R M t)) \<and> hdr_root (shard s (tree_sel E R M t)) = spec_root E v \<and>
    mset (tv_leaves v) =
      image_mset (\<lambda>c. membership_leaf E c (rate_of E R s t c)) (mset_set (live E R C s t)) +
      replicate_mset (2 ^ TREE_DEPTH - card (live E R C s t)) ZERO"
proof -
  have m: "tree_matches E R M C s t" by (rule registry_okE(3) [OF reachable_ok [OF assms(1-5)] assms(6,7)])
  then have t: "tree_ok E (shard s (tree_sel E R M t))" using assms(8) by (simp add: tree_matches_def Let_def)
  show ?thesis
    using m t assms(8) tree_ok_root [OF t] by (simp add: tree_matches_def Let_def leaves_match_def v_def spec_root_view)
qed

theorem tree_is_the_membership_set_witness:
  "mset (tv_leaves (view demo_tree)) =
     image_mset (\<lambda>c. membership_leaf toy c (rate_of toy demo_R demo_registered demo_T c))
       (mset_set (live toy demo_R {demo_C} demo_registered demo_T)) +
     replicate_mset (2 ^ TREE_DEPTH - card (live toy demo_R {demo_C} demo_registered demo_T)) ZERO"
  using tree_is_the_membership_set [OF demo_separate toy_poseidon demo_no_collision _ demo_reachable(2) demo_has_config(3)]
    tree_ok_not_Nil [OF demo_tree_ok] by simp

section \<open>What a step may change\<close>

text \<open>The tree a transaction names, and the membership it concerns.\<close>

fun concerns :: "bytes \<Rightarrow> bytes \<Rightarrow> instruction \<Rightarrow> bool" where
  "concerns t c (Register t' c' l m n p d g) \<longleftrightarrow> t' = t \<and> c' = c"
| "concerns t c (Slash t' c' s m i l) \<longleftrightarrow> t' = t \<and> c' = c"
| "concerns t c (Extend t' c' n p l) \<longleftrightarrow> t' = t \<and> c' = c"
| "concerns t c (Erase t' c' m i l n) \<longleftrightarrow> t' = t \<and> c' = c"
| "concerns t c _ \<longleftrightarrow> False"

lemma concerns_writes:
  assumes "separate E R M" and "no_collision E R T C" and "ids_in T C ix" and "t \<in> T" and "c \<in> C" and "\<not> concerns t c ix"
  shows "membership_sel E R t c \<notin> writes E R M ix"
proof (cases ix)
  case (Initialize m t' p a x d g)
  then show ?thesis using assms sel_apart(4) [OF assms(2) _ assms(4) assms(5,5)] by auto
qed (use assms in \<open>auto simp: sel_apart dest: sel_apart(5) [OF assms(2), THEN iffD1, rotated 4]\<close>)

lemma membership_changed_by:
  assumes sep: "separate E R M" and pc: "poseidon_canonical E" and nc: "no_collision E R T C"
    and t: "t \<in> T" "c \<in> C" and step: "step E R M T C s s'"
    and new: "shard s' (membership_sel E R t c) \<noteq> shard s (membership_sel E R t c)"
  obtains ix caller metas where "instruction_ok ix" and "concerns t c ix"
    and "replay (Suc (Suc 0)) E (deployed R M) s R caller metas (enc_instruction ix) = Inr s'"
  using step
proof cases
  case (step_registration ix caller metas)
  note run = step_registration(3) [unfolded numeral_2_eq_2]
  have "concerns t c ix"
    using new registration_writes [OF sep pc step_registration(1) run]
      concerns_writes [OF sep nc step_registration(2) t] by blast
  then show ?thesis using that step_registration(1) run by blast
next
  case (step_merkle caller metas data)
  then obtain m d where m: "s' = s(meta_selector m \<mapsto> d)" "program_account_id m = M"
    unfolding numeral_2_eq_2 replay_merkle by blast
  then show ?thesis using new sep by (auto simp: meta_selector_def membership_sel_def separate_def split: if_splits)
next
  case step_foreign
  then show ?thesis using new by (simp add: membership_sel_def)
qed

text \<open>
  C10. A membership ends only for cause. If a step of a run empties the shard of an existing membership,
  it is a \<open>Slash\<close> of it that carries a secret hashing to its commitment, or an \<open>Erase\<close> of it at a
  claimed time that the clock supports and at which its grace period is over. No other transaction,
  no direct call of the merkle program and no other program can remove a member.
\<close>

theorem membership_ends_for_cause:
  assumes "separate E R M" and "poseidon_canonical E" and "no_collision E R T C" and "t \<in> T" and "c \<in> C"
    and "step E R M T C s s'" and "has_member E R s t c mem" and "shard s' (membership_sel E R t c) = []"
  shows "(\<exists>secret m i l caller metas.
       replay 2 E (deployed R M) s R caller metas (enc_instruction (Slash t c secret m i l)) = Inr s' \<and>
       compress1 E secret = c) \<or>
    (\<exists>m i l now caller metas.
       replay 2 E (deployed R M) s R caller metas (enc_instruction (Erase t c m i l now)) = Inr s' \<and>
       clock_ok E s now \<and>
       is_expired (ms_grace_period_start_timestamp_ms mem) (secs_to_millis (ms_grace_period_duration_sec mem)) now)"
proof -
  have "shard s' (membership_sel E R t c) \<noteq> shard s (membership_sel E R t c)"
    using assms(7,8) by (simp add: has_member_def)
  then obtain ix caller metas where ix: "instruction_ok ix" "concerns t c ix"
    and run: "replay (Suc (Suc 0)) E (deployed R M) s R caller metas (enc_instruction ix) = Inr s'"
    using membership_changed_by [OF assms(1-6)] by blast
  have tree: "tree_called E R M m t x s1 s' \<Longrightarrow> shard s' (membership_sel E R t c) = shard s1 (membership_sel E R t c)" for m x s1
    using tree_called_writes sel_other(4) [OF assms(1)] by metis
  show ?thesis
  proof (cases ix)
    case (Register t' c' l m now p d g)
    then show ?thesis
      using run ix assms(7) tx_register [OF assms(1,2), of t' c' l m now p d g]
      by (auto simp: has_member_def simp del: replay.simps enc_instruction.simps)
  next
    case (Slash t' c' secret m i l)
    then have r: "replay (Suc (Suc 0)) E (deployed R M) s R caller metas (enc_instruction (Slash t c secret m i l)) = Inr s'"
      and ok: "instruction_ok (Slash t c secret m i l)"
      using run ix by (simp_all del: replay.simps enc_instruction.simps)
    then have "compress1 E secret = c" using tx_slash [OF assms(1,2) ok, THEN iffD1, OF r] by blast
    then show ?thesis unfolding numeral_2_eq_2 using r by blast
  next
    case (Extend t' c' now p l)
    then show ?thesis
      using run ix assms(8) tx_extend [OF assms(1), of t' c' now p l]
      by (auto simp: has_member_def simp del: replay.simps enc_instruction.simps)
  next
    case (Erase t' c' m i l now)
    then have r: "replay (Suc (Suc 0)) E (deployed R M) s R caller metas (enc_instruction (Erase t c m i l now)) = Inr s'"
      and ok: "instruction_ok (Erase t c m i l now)"
      using run ix by (simp_all del: replay.simps enc_instruction.simps)
    obtain mem' where "clock_ok E s now" "has_member E R s t c mem'"
      "is_expired (ms_grace_period_start_timestamp_ms mem') (secs_to_millis (ms_grace_period_duration_sec mem')) now"
      using tx_erase [OF assms(1,2) ok, THEN iffD1, OF r] by blast
    then show ?thesis unfolding numeral_2_eq_2 using r has_member_unique [OF assms(7)] by blast
  qed (use ix in simp_all)
qed

theorem membership_ends_for_cause_witness:
  "\<exists>s'. step toy demo_R demo_M {demo_T} {demo_C} (demo_at 1) s' \<and>
     shard s' (membership_sel toy demo_R demo_T demo_C) = [] \<and>
     (\<exists>secret m i l caller metas.
        replay 2 toy (deployed demo_R demo_M) (demo_at 1) demo_R caller metas
          (enc_instruction (Slash demo_T demo_C secret m i l)) = Inr s')"
proof -
  let ?s' = "demo_after_removal (demo_at 1)"
  have step: "step toy demo_R demo_M {demo_T} {demo_C} (demo_at 1) ?s'"
    by (rule step_registration [OF _ _ demo_slashed]) simp_all
  have empty: "shard ?s' (membership_sel toy demo_R demo_T demo_C) = []"
    by (simp add: demo_after_removal_def)
  have "\<not> is_expired 1100000 (secs_to_millis 50) now" if "clock_ok toy (demo_at 1) now" for now
  proof -
    have "clock_timestamp toy (shard (demo_at 1) (clock_sel toy)) = Some 1"
      by (simp add: demo_at_def) (simp add: toy_def slice_def)
    then have "now \<le> 1" using that by (simp add: clock_ok_def clock_iff)
    then show ?thesis
      by (auto simp: is_expired_def sat_add_def secs_to_millis_def MILLIS_PER_SECOND_def word_le_nat_alt)
  qed
  then show ?thesis
    using membership_ends_for_cause [OF demo_separate toy_canonical demo_no_collision _ _ step demo_at_shards(3) empty]
      step empty unfolding demo_member_sel by blast
qed

text \<open>The terms of a config: everything but its two counters.\<close>

definition same_terms :: "config_state \<Rightarrow> config_state \<Rightarrow> bool" where
  "same_terms c c' \<longleftrightarrow>
     c'\<lparr>cs_total_registrations := cs_total_registrations c,
        cs_current_total_rate_limit := cs_current_total_rate_limit c\<rparr> = c"

lemma same_terms_counters [simp]: "same_terms c c" "same_terms c (counted c l)" "same_terms c (released c l)"
  by (simp_all add: same_terms_def counted_def released_def)

lemma same_terms_trans: "same_terms a b \<Longrightarrow> same_terms b c \<Longrightarrow> same_terms a c"
  by (cases a; cases b; cases c) (auto simp: same_terms_def)

lemma has_config_keep:
  "shard s' (config_sel E R t) = shard s (config_sel E R t) \<Longrightarrow> has_config E R s t cfg \<Longrightarrow> has_config E R s' t cfg"
  by (simp add: has_config_def)

text \<open>The config an accepted instruction of a registry leaves.\<close>

fun config_after :: "instruction \<Rightarrow> config_state \<Rightarrow> config_state" where
  "config_after (Register t c l m n p d g) cfg = counted cfg l"
| "config_after (Slash t c s m i l) cfg = released cfg l"
| "config_after (Erase t c m i l n) cfg = released cfg l"
| "config_after _ cfg = cfg"

lemma config_after_ok [simp]: "config_ok (config_after ix cfg) = config_ok cfg" "same_terms cfg (config_after ix cfg)"
  by (cases ix; simp)+

lemma config_step_own:
  assumes sep: "separate E R M" and pc: "poseidon_canonical E" and ok: "instruction_ok ix" and cfg: "has_config E R s (tree_of ix) cfg"
    and apart: "\<And>c. concerns (tree_of ix) c ix \<Longrightarrow> membership_sel E R (tree_of ix) c \<noteq> config_sel E R (tree_of ix)"
    and run: "replay (Suc (Suc 0)) E (deployed R M) s R caller metas (enc_instruction ix) = Inr s'"
  shows "has_config E R s' (tree_of ix) (config_after ix cfg)"
proof -
  have tree: "tree_called E R M m t x s1 s' \<Longrightarrow> shard s' (config_sel E R t) = shard s1 (config_sel E R t)" for m t x s1
    using tree_called_writes sel_other(3) [OF sep] by metis
  have eq: "has_config E R s (tree_of ix) c \<Longrightarrow> c = cfg" for c using has_config_unique cfg by blast
  have ck: "config_ok cfg" and ne: "shard s (config_sel E R (tree_of ix)) \<noteq> []" using cfg by (simp_all add: has_config_def)
  have via: "?thesis" if "shard s' (config_sel E R (tree_of ix)) = enc_config (config_after ix cfg)"
    using that ck by (simp add: has_config_def)
  show ?thesis
  proof (cases ix)
    case (Initialize m t' p a x d g)
    then show ?thesis
      using run ok ne tx_initialize [OF sep, of m t' p a x d g] by (auto simp del: replay.simps enc_instruction.simps)
  next
    case (InitializeMerkleTree t' m)
    then have "tree_called E R M m t' MInitialize s s'"
      using run ok tx_initialize_tree [OF sep, of t' m] by (auto simp del: replay.simps enc_instruction.simps)
    from tree [OF this] show ?thesis using cfg InitializeMerkleTree by (intro via) (simp add: has_config_def)
  next
    case (Register t' c l m now p d g)
    then obtain c' where c': "has_config E R s t' c'" and call: "tree_called E R M m t' (MInsert (membership_leaf E c l))
         (s(config_sel E R t' \<mapsto> enc_config (counted c' l),
            membership_sel E R t' c \<mapsto> enc_membership (new_membership c l now d g))) s'"
      using run ok tx_register [OF sep pc, of t' c l m now p d g] by (auto simp del: replay.simps enc_instruction.simps)
    have "c' = cfg" using eq c' Register by simp
    then show ?thesis using tree [OF call] apart [of c] Register by (intro via) auto
  next
    case (Slash t' c sec m i l)
    then obtain c' where c': "has_config E R s t' c'" and call: "tree_called E R M m t' (MRemove i (membership_leaf E c l))
         (s(config_sel E R t' \<mapsto> enc_config (released c' l), membership_sel E R t' c \<mapsto> [])) s'"
      using run ok tx_slash [OF sep pc, of t' c sec m i l] by (auto simp del: replay.simps enc_instruction.simps)
    have "c' = cfg" using eq c' Slash by simp
    then show ?thesis using tree [OF call] apart [of c] Slash by (intro via) auto
  next
    case (Extend t' c now p l)
    then obtain b where "s' = s(membership_sel E R t' c \<mapsto> b)"
      using run ok tx_extend [OF sep, of t' c now p l] by (auto simp del: replay.simps enc_instruction.simps)
    then show ?thesis using apart [of c] Extend cfg by (intro via) (auto simp: has_config_def)
  next
    case (Erase t' c m i l now)
    then obtain c' where c': "has_config E R s t' c'" and call: "tree_called E R M m t' (MRemove i (membership_leaf E c l))
         (s(config_sel E R t' \<mapsto> enc_config (released c' l), membership_sel E R t' c \<mapsto> [])) s'"
      using run ok tx_erase [OF sep pc, of t' c m i l now] by (auto simp del: replay.simps enc_instruction.simps)
    have "c' = cfg" using eq c' Erase by simp
    then show ?thesis using tree [OF call] apart [of c] Erase by (intro via) auto
  qed
qed

text \<open>The same for any tree of a run, and for any step of it.\<close>

lemma config_step:
  assumes sep: "separate E R M" and pc: "poseidon_canonical E" and nc: "no_collision E R T C" and t: "t \<in> T"
    and ix: "instruction_ok ix" "ids_in T C ix" and cfg: "has_config E R s t cfg"
    and run: "replay (Suc (Suc 0)) E (deployed R M) s R caller metas (enc_instruction ix) = Inr s'"
  shows "has_config E R s' t (if tree_of ix = t then config_after ix cfg else cfg)"
proof (cases "tree_of ix = t")
  case True
  have "concerns t c ix \<Longrightarrow> c \<in> C" for c using ix(2) by (cases ix) auto
  then have "concerns t c ix \<Longrightarrow> membership_sel E R t c \<noteq> config_sel E R t" for c
    using sel_apart(4) [OF nc t t] by blast
  then show ?thesis using config_step_own [OF sep pc ix(1) _ _ run] cfg True by simp
next
  case False
  have "shard s' (config_sel E R t) = shard s (config_sel E R t)"
    by (rule registration_writes [OF sep pc ix(1) run other_tree_writes(1) [OF sep nc ix(2) t False]])
  then show ?thesis using has_config_keep cfg False by simp
qed

lemma terms_step:
  assumes sep: "separate E R M" and pc: "poseidon_canonical E" and nc: "no_collision E R T C" and t: "t \<in> T"
    and step: "step E R M T C s s'" and cfg: "has_config E R s t cfg"
  shows "\<exists>cfg'. has_config E R s' t cfg' \<and> same_terms cfg cfg'"
  using step
proof cases
  case (step_registration ix caller metas)
  from config_step [OF sep pc nc t step_registration(1,2) cfg step_registration(3) [unfolded numeral_2_eq_2]]
  show ?thesis using same_terms_counters(1) config_after_ok(2) by (cases "tree_of ix = t") fastforce+
next
  case (step_merkle caller metas data)
  then obtain m d where m: "s' = s(meta_selector m \<mapsto> d)" "program_account_id m = M"
    unfolding numeral_2_eq_2 replay_merkle by blast
  then have "shard s' (config_sel E R t) = shard s (config_sel E R t)"
    using sep by (auto simp: meta_selector_def config_sel_def separate_def)
  then show ?thesis using has_config_keep cfg same_terms_counters(1) by blast
next
  case step_foreign
  then have "shard s' (config_sel E R t) = shard s (config_sel E R t)" by (simp add: config_sel_def)
  then show ?thesis using has_config_keep cfg same_terms_counters(1) by blast
qed

text \<open>
  C17. The terms of a registry never change. Once a tree has a config, every later state of a run has a
  config for it with the same merkle program, tree id, price, treasury, capacity, and active and grace
  durations: only the two counters move. In particular a config cannot be initialized again.
\<close>

theorem config_terms_are_fixed:
  assumes "separate E R M" and "poseidon_canonical E" and "no_collision E R T C" and "t \<in> T"
    and "rtranclp (step E R M T C) s s'" and "has_config E R s t cfg"
  shows "\<exists>cfg'. has_config E R s' t cfg' \<and> same_terms cfg cfg'"
  using assms(5)
proof (induction rule: rtranclp_induct)
  case base
  then show ?case using assms(6) same_terms_counters(1) by blast
next
  case (step s1 s2)
  then show ?case using terms_step [OF assms(1-4) step(2)] same_terms_trans by blast
qed

theorem config_terms_are_fixed_witness:
  "\<exists>cfg'. has_config toy demo_R demo_registered demo_T cfg' \<and> same_terms demo_cfg cfg'"
proof -
  have "step toy demo_R demo_M {demo_T} {demo_C} demo_ready demo_registered"
    by (rule step_registration [OF _ _ demo_register_effect]) (simp_all, simp add: demo_register_def)
  then show ?thesis
    using config_terms_are_fixed [OF demo_separate toy_canonical demo_no_collision _ r_into_rtranclp _, OF _ _ demo_has_config(2)]
    by simp
qed

end
