(* ===== verification/MerkleClient.thy ===== *)
theory MerkleClient
  imports MerkleOps Pda
begin

text \<open>
  The host's reads of the tree, \<open>src/merkle_tree/client.rs\<close>: the header, a node's hash, the scan for
  a leaf, and inclusion proofs. An account read is a function of the chain, \<open>chain\<close>, from a shard
  selector to its bytes (empty when never written). On a shard satisfying the guest's invariant
  each read is the value of the abstract view.
\<close>

unbundle bit_operations_syntax

section \<open>Parsed tree state\<close>

record parsed_tree_main =
  ptm_depth :: u8
  ptm_next_index :: u64
  ptm_root :: bytes
  ptm_root_history :: "bytes list"

definition read32 :: "bytes \<Rightarrow> nat \<Rightarrow> bytes result" where
  "read32 data at = read_slice at 32 data"

definition check_tree_shard :: "bytes \<Rightarrow> unit result" where
  "check_tree_shard data =
     rbind (check (OFFSET_TREE_DATA \<le> length data) (Panic ''Is the tree initialized?'')) (\<lambda>_.
     rbind (index_at data OFFSET_DEPTH) (\<lambda>d.
     check (unat d = TREE_DEPTH) (Panic ''this host is built for depth 9'')))"

definition ParsedTreeMain_from_bytes :: "bytes \<Rightarrow> parsed_tree_main result" where
  "ParsedTreeMain_from_bytes data =
     rbind (check_tree_shard data) (\<lambda>_.
     rbind (rmap (\<lambda>i. read32 data (OFFSET_ROOT_HISTORY + i * 32)) [0..<ROOT_HISTORY_SIZE]) (\<lambda>history.
     rbind (index_at data OFFSET_DEPTH) (\<lambda>d.
     rbind (read_slice OFFSET_NEXT_INDEX 8 data) (\<lambda>n.
     rbind (read32 data OFFSET_ROOT) (\<lambda>root.
     Inr \<lparr>ptm_depth = d, ptm_next_index = u64_of n, ptm_root = root, ptm_root_history = history\<rparr>)))))"

definition cached_defaults :: "bytes \<Rightarrow> bytes list result" where
  "cached_defaults shard =
     rbind (check_tree_shard shard) (\<lambda>_.
     rmap (\<lambda>level. read32 shard (OFFSET_CACHED_NODES + level * 32)) [0..<TREE_DEPTH + 1])"

definition node_hash :: "bytes \<Rightarrow> nat \<Rightarrow> nat \<Rightarrow> bytes result" where
  "node_hash shard level index =
     rbind (check (level \<le> TREE_DEPTH) (Panic ''level is below the leaves'')) (\<lambda>_.
     rbind (check (index < 2 ^ level) (Panic ''level has no such node'')) (\<lambda>_.
     rbind (cached_defaults shard) (\<lambda>defaults.
     rbind (index_at defaults level) (\<lambda>d.
     read_sparse_node (drop OFFSET_TREE_DATA shard) level index d))))"

text \<open>\<open>(0..next_index).rev().find(..)\<close>.\<close>

primrec scan_leaves :: "bytes \<Rightarrow> bytes \<Rightarrow> bytes \<Rightarrow> nat \<Rightarrow> nat option result" where
  "scan_leaves nodes d leaf 0 = Inr None"
| "scan_leaves nodes d leaf (Suc i) =
     rbind (read_sparse_node nodes TREE_DEPTH i d) (\<lambda>h.
     if h = leaf then Inr (Some i) else scan_leaves nodes d leaf i)"

definition find_leaf_index :: "bytes \<Rightarrow> bytes \<Rightarrow> nat option result" where
  "find_leaf_index shard leaf =
     rbind (ParsedTreeMain_from_bytes shard) (\<lambda>header.
     let next_index = min (ptm_next_index header) TREE_LEAVES in
     rbind (cached_defaults shard) (\<lambda>defaults.
     rbind (index_at defaults TREE_DEPTH) (\<lambda>d.
     scan_leaves (drop OFFSET_TREE_DATA shard) d leaf (unat next_index))))"

record merkle_proof =
  mp_leaf :: bytes
  mp_path_elements :: "bytes list"
  mp_path_indices :: "u8 list"
  mp_root :: bytes
  mp_leaf_index :: nat

text \<open>The loop of \<open>merkle_proof\<close>, from \<open>level\<close> down to 1.\<close>

primrec proof_path :: "bytes \<Rightarrow> nat \<Rightarrow> nat \<Rightarrow> (bytes list \<times> u8 list) result" where
  "proof_path shard 0 index = Inr ([], [])"
| "proof_path shard (Suc l) index =
     rbind (node_hash shard (Suc l) (index XOR 1)) (\<lambda>sibling.
     rbind (proof_path shard l (index div 2)) (\<lambda>(es, is).
     Inr (sibling # es, word_of_nat (index mod 2) # is)))"

definition merkle_proof_of :: "bytes \<Rightarrow> nat \<Rightarrow> merkle_proof result" where
  "merkle_proof_of shard leaf_index =
     rbind (check (leaf_index < unat TREE_LEAVES) (Panic ''leaf is past the last leaf'')) (\<lambda>_.
     rbind (ParsedTreeMain_from_bytes shard) (\<lambda>header.
     rbind (node_hash shard TREE_DEPTH leaf_index) (\<lambda>leaf.
     rbind (proof_path shard TREE_DEPTH leaf_index) (\<lambda>(es, is).
     Inr \<lparr>mp_leaf = leaf, mp_path_elements = es, mp_path_indices = is, mp_root = ptm_root header,
          mp_leaf_index = leaf_index\<rparr>))))"

section \<open>Tree state reading\<close>

record program_ids =
  pi_registration :: account_id
  pi_merkle :: account_id

definition tree_main_account :: "external \<Rightarrow> program_ids \<Rightarrow> bytes \<Rightarrow> account_id result" where
  "tree_main_account E programs tree_id = derive_main_account E (pi_registration programs) tree_id"

definition tree_shard_selector :: "external \<Rightarrow> program_ids \<Rightarrow> bytes \<Rightarrow> selector result" where
  "tree_shard_selector E programs tree_id =
     rbind (tree_main_account E programs tree_id) (\<lambda>a. Inr (a, pi_merkle programs))"

definition fetch_tree_shard :: "external \<Rightarrow> (selector \<Rightarrow> bytes) \<Rightarrow> program_ids \<Rightarrow> bytes \<Rightarrow> bytes result" where
  "fetch_tree_shard E chain programs tree_id =
     rbind (tree_shard_selector E programs tree_id) (\<lambda>k. Inr (chain k))"

definition fetch_next_index :: "external \<Rightarrow> (selector \<Rightarrow> bytes) \<Rightarrow> program_ids \<Rightarrow> bytes \<Rightarrow> u64 result" where
  "fetch_next_index E chain programs tree_id =
     rbind (fetch_tree_shard E chain programs tree_id) (\<lambda>d.
     rbind (ParsedTreeMain_from_bytes d) (\<lambda>p. Inr (ptm_next_index p)))"

definition fetch_root :: "external \<Rightarrow> (selector \<Rightarrow> bytes) \<Rightarrow> program_ids \<Rightarrow> bytes \<Rightarrow> bytes result" where
  "fetch_root E chain programs tree_id =
     rbind (fetch_tree_shard E chain programs tree_id) (\<lambda>d.
     rbind (ParsedTreeMain_from_bytes d) (\<lambda>p. Inr (ptm_root p)))"

definition fetch_root_history ::
  "external \<Rightarrow> (selector \<Rightarrow> bytes) \<Rightarrow> program_ids \<Rightarrow> bytes \<Rightarrow> bytes list result" where
  "fetch_root_history E chain programs tree_id =
     rbind (fetch_tree_shard E chain programs tree_id) (\<lambda>d.
     rbind (ParsedTreeMain_from_bytes d) (\<lambda>p.
     Inr (ptm_root p # filter (\<lambda>entry. entry \<noteq> replicate 32 0) (ptm_root_history p))))"

definition fetch_cached_defaults ::
  "external \<Rightarrow> (selector \<Rightarrow> bytes) \<Rightarrow> program_ids \<Rightarrow> bytes \<Rightarrow> bytes list result" where
  "fetch_cached_defaults E chain programs tree_id =
     rbind (fetch_tree_shard E chain programs tree_id) cached_defaults"

definition fetch_node_hash ::
  "external \<Rightarrow> (selector \<Rightarrow> bytes) \<Rightarrow> program_ids \<Rightarrow> bytes \<Rightarrow> u8 \<Rightarrow> u64 \<Rightarrow> bytes result" where
  "fetch_node_hash E chain programs tree_id level node_index =
     rbind (fetch_tree_shard E chain programs tree_id) (\<lambda>d. node_hash d (unat level) (unat node_index))"

definition get_merkle_proof ::
  "external \<Rightarrow> (selector \<Rightarrow> bytes) \<Rightarrow> program_ids \<Rightarrow> bytes \<Rightarrow> nat \<Rightarrow> merkle_proof result" where
  "get_merkle_proof E chain programs tree_id leaf_index =
     rbind (fetch_tree_shard E chain programs tree_id) (\<lambda>d. merkle_proof_of d leaf_index)"

text \<open>
  \<open>wait_for_leaf\<close>: one element of the list per attempt, the bytes the attempt reads; the sleep
  between attempts is not modelled.
\<close>

fun wait_for_leaf :: "bytes list \<Rightarrow> bytes \<Rightarrow> nat option \<Rightarrow> nat option result" where
  "wait_for_leaf [] expected_leaf newer_than = Inr None"
| "wait_for_leaf (shard # later) expected_leaf newer_than =
     (if OFFSET_TREE_DATA \<le> length shard then
        rbind (find_leaf_index shard expected_leaf) (\<lambda>found.
        case found of
          None \<Rightarrow> wait_for_leaf later expected_leaf newer_than
        | Some index \<Rightarrow>
            if (case newer_than of None \<Rightarrow> True | Some old \<Rightarrow> old < index) then Inr (Some index)
            else wait_for_leaf later expected_leaf newer_than)
      else wait_for_leaf later expected_leaf newer_than)"

section \<open>On a consistent shard\<close>

lemma check_tree_shard_ok: "header_ok d \<Longrightarrow> check_tree_shard d = Inr ()"
  by (auto simp: check_tree_shard_def header_ok_def OFFSET_DEPTH_def index_at_def)

lemma cached_defaults_ok:
  assumes "header_ok d" shows "cached_defaults d = Inr DEFAULT_HASHES"
proof -
  have "rmap (\<lambda>level. read32 d (OFFSET_CACHED_NODES + level * 32)) [0..<TREE_DEPTH + 1] = extract_cached_nodes d"
    by (simp only: extract_cached_nodes_def read32_def)
  also have "\<dots> = Inr DEFAULT_HASHES" using assms by (rule cached_ok)
  finally show ?thesis
    by (simp only: cached_defaults_def check_tree_shard_ok [OF assms] rbind.simps)
qed

lemma parsed_ok:
  assumes "header_ok d"
  shows "ParsedTreeMain_from_bytes d =
    Inr \<lparr>ptm_depth = d ! 0, ptm_next_index = hdr_next d, ptm_root = hdr_root d, ptm_root_history = hdr_history d\<rparr>"
proof -
  have len: "489 \<le> length d" using assms by (simp add: header_ok_def)
  have "rmap (\<lambda>i. read32 d (OFFSET_ROOT_HISTORY + i * 32)) [0..<ROOT_HISTORY_SIZE] = Inr (hdr_history d)"
    unfolding hdr_history_def
    by (rule rmap_ok) (use len in \<open>auto simp: read32_def header_offsets read_slice_ok\<close>)
  moreover have "index_at d OFFSET_DEPTH = Inr (d ! 0)"
    using len by (auto simp: index_at_def OFFSET_DEPTH_def)
  moreover have "read_slice OFFSET_NEXT_INDEX 8 d = Inr (slice OFFSET_NEXT_INDEX 8 d)"
    "read32 d OFFSET_ROOT = Inr (slice OFFSET_ROOT 32 d)"
    using len by (simp_all add: read32_def header_offsets read_slice_ok)
  ultimately show ?thesis
    by (simp only: ParsedTreeMain_from_bytes_def check_tree_shard_ok [OF assms] rbind.simps hdr_next_def hdr_root_def)
qed

lemma node_hash_ok:
  assumes "tree_ok E d" and "in_tree l i"
  shows "node_hash d l i = Inr (tree_node d l i)"
proof -
  have "header_ok d" "sparse_wf (drop OFFSET_TREE_DATA d)" using assms(1) by (auto simp: tree_ok_def nodes_ok_def)
  moreover have "index_at DEFAULT_HASHES l = Inr (DEFAULT_HASHES ! l)"
    using assms(2) by (simp add: in_tree_def TREE_DEPTH_def)
  moreover have "l \<le> TREE_DEPTH" "i < 2 ^ l" using assms(2) by (auto simp: in_tree_def)
  ultimately show ?thesis
    by (simp only: node_hash_def cached_defaults_ok rbind.simps check_True node_value_read tree_node_def)
qed

lemma scan_leaves_ok:
  assumes "tree_ok E d"
  shows "scan_leaves (drop OFFSET_TREE_DATA d) ZERO leaf n =
    Inr (if \<exists>i < n. tree_leaf d i = leaf then Some (GREATEST i. i < n \<and> tree_leaf d i = leaf) else None)"
proof (induction n)
  case 0
  then show ?case by simp
next
  case (Suc n)
  show ?case
  proof (cases "tree_leaf d n = leaf")
    case True
    have "(GREATEST i. i < Suc n \<and> tree_leaf d i = leaf) = n"
      using True by (intro Greatest_equality) auto
    then show ?thesis using True by (auto simp: read_leaf_ok [OF assms, unfolded offset_tree_data] simp flip: One_nat_def)
  next
    case False
    then have "i < Suc n \<and> tree_leaf d i = leaf \<longleftrightarrow> i < n \<and> tree_leaf d i = leaf" for i
      by (auto simp: less_Suc_eq)
    with False Suc show ?thesis by (simp add: read_leaf_ok [OF assms, unfolded offset_tree_data])
  qed
qed

text \<open>The scan returns the newest index holding the leaf, and \<open>None\<close> only when there is none.\<close>

lemma find_leaf_index_ok:
  assumes "tree_ok E d"
  shows "find_leaf_index d leaf =
    Inr (if \<exists>i < unat (hdr_next d). tree_leaf d i = leaf
         then Some (GREATEST i. i < unat (hdr_next d) \<and> tree_leaf d i = leaf) else None)"
proof -
  have hd: "header_ok d" and "unat (hdr_next d) \<le> 512" using assms by (auto simp: tree_ok_def TREE_DEPTH_def)
  then have "min (hdr_next d) TREE_LEAVES = hdr_next d" by (simp add: min_def word_le_nat_alt)
  then show ?thesis
    using scan_leaves_ok [OF assms, of leaf "unat (hdr_next d)"]
    by (simp only: find_leaf_index_def parsed_ok [OF hd] cached_defaults_ok [OF hd] rbind.simps
        cached_leaf_ok Let_def parsed_tree_main.select_convs)
qed

section \<open>Inclusion proofs verify\<close>

text \<open>Folding a leaf up through a path; index 0 means the node is the left child.\<close>

fun fold_path :: "('h \<Rightarrow> 'h \<Rightarrow> 'h) \<Rightarrow> 'h \<Rightarrow> 'h list \<Rightarrow> u8 list \<Rightarrow> 'h" where
  "fold_path H node (e # es) (i # is) = fold_path H (if i = 0 then H node e else H e node) es is"
| "fold_path H node es is = node"

lemma proof_path_folds:
  assumes ok: "tree_ok E d"
  shows "in_tree l i \<Longrightarrow> \<exists>es is. proof_path d l i = Inr (es, is) \<and> length es = l \<and> length is = l \<and>
    list_all (node_ok E) es \<and> fold_path (compress2 E) (tree_node d l i) es is = tree_node d 0 0"
proof (induction l arbitrary: i)
  case 0
  then show ?case by (simp add: in_tree_def)
next
  case (Suc l)
  have up: "in_tree l (i div 2)" and sib: "in_tree (Suc l) (i XOR 1)"
    using Suc.prems in_tree_parent in_tree_sibling by blast+
  from Suc.IH [OF up] obtain es "is" where r: "proof_path d l (i div 2) = Inr (es, is)" "length es = l" "length is = l"
    "list_all (node_ok E) es" "fold_path (compress2 E) (tree_node d l (i div 2)) es is = tree_node d 0 0"
    by blast
  have "l < TREE_DEPTH" using Suc.prems by (simp add: in_tree_def)
  then have h: "tree_node d l (i div 2) =
      compress2 E (tree_node d (Suc l) (2 * (i div 2))) (tree_node d (Suc l) (2 * (i div 2) + 1))"
    using ok up by (simp add: tree_ok_def nodes_ok_def hashed_def tree_node_def)
  have "(if (word_of_nat (i mod 2) :: u8) = 0 then compress2 E (tree_node d (Suc l) i) (tree_node d (Suc l) (i XOR 1))
      else compress2 E (tree_node d (Suc l) (i XOR 1)) (tree_node d (Suc l) i)) = tree_node d l (i div 2)"
    using sibling_cases [of i] by (cases "i mod 2 = 0") (auto simp: h)
  moreover have "node_ok E (tree_node d (Suc l) (i XOR 1))"
    using ok sib by (simp add: tree_ok_def nodes_ok_def tree_node_def)
  ultimately show ?case
    using r by (intro exI [of _ "tree_node d (Suc l) (i XOR 1) # es"] exI [of _ "word_of_nat (i mod 2) # is"])
      (simp only: proof_path.simps node_hash_ok [OF ok sib] rbind.simps prod.case fold_path.simps
        list.pred_inject list.size simp_thms add_Suc_right add_0_right)
qed

lemma merkle_proof_folds:
  assumes ok: "tree_ok E d" and i: "i < 2 ^ TREE_DEPTH"
  obtains p where "merkle_proof_of d i = Inr p" and "mp_leaf p = tree_leaf d i" and "mp_root p = hdr_root d"
    and "length (mp_path_elements p) = TREE_DEPTH" and "length (mp_path_indices p) = TREE_DEPTH"
    and "list_all (node_ok E) (mp_path_elements p)"
    and "fold_path (compress2 E) (mp_leaf p) (mp_path_elements p) (mp_path_indices p) = mp_root p"
proof -
  have t: "in_tree TREE_DEPTH i" using i by (simp add: in_tree_leaf)
  obtain es "is" where r: "proof_path d TREE_DEPTH i = Inr (es, is)" "length es = TREE_DEPTH" "length is = TREE_DEPTH"
    "list_all (node_ok E) es" "fold_path (compress2 E) (tree_node d TREE_DEPTH i) es is = tree_node d 0 0"
    using proof_path_folds [OF ok t] by blast
  have hd: "header_ok d" and root: "hdr_root d = tree_node d 0 0" using ok by (auto simp: tree_ok_def)
  have "i < unat TREE_LEAVES" using i by (simp add: TREE_DEPTH_def)
  then have "merkle_proof_of d i = Inr \<lparr>mp_leaf = tree_leaf d i, mp_path_elements = es, mp_path_indices = is,
      mp_root = hdr_root d, mp_leaf_index = i\<rparr>"
    by (simp only: merkle_proof_of_def check_True rbind.simps parsed_ok [OF hd] node_hash_ok [OF ok t] r(1)
        prod.case parsed_tree_main.select_convs tree_leaf_def)
  then show ?thesis by (rule that) (use r root in \<open>simp_all add: tree_leaf_def\<close>)
qed

end
