(* ===== verification/ProofCircuit.thy ===== *)
theory ProofCircuit
  imports MerkleClient Registration
begin

text \<open>
  The host's field elements (\<open>src/fr_bytes.rs\<close>), the leaf it computes (\<open>src/rln/client.rs\<close>), and the
  bridge from the tree's depth to the circuit's (\<open>src/proof_circuit.rs\<close>, the conversions at the end
  of \<open>src/merkle_tree/client.rs\<close>). The field and its Poseidon are zerokit's, a parameter here
  (\<open>host_field\<close>); \<open>same_poseidon\<close> states that it and the guest's Poseidon crate are one function,
  which the two sides of the system rely on.
\<close>

section \<open>The field library\<close>

text \<open>
  \<^item> \<open>fr_deserialize b\<close>: \<open>Fr::deserialize_compressed(b).ok()\<close>;
  \<^item> \<open>fr_serialize x\<close>: the bytes \<open>serialize_compressed\<close> writes;
  \<^item> \<open>fr_hash_pair x y\<close>: \<open>Hasher::<PoseidonHash>::hash_pair(x, y)\<close>;
  \<^item> \<open>fr_from n\<close>: \<open>Fr::from(n)\<close> for a \<open>u64\<close>.
\<close>

record 'f host_field =
  fr_deserialize :: "bytes \<Rightarrow> 'f option"
  fr_serialize :: "'f \<Rightarrow> bytes"
  fr_hash_pair :: "'f \<Rightarrow> 'f \<Rightarrow> 'f"
  fr_from :: "u64 \<Rightarrow> 'f"

definition fr_to_bytes_le :: "'f host_field \<Rightarrow> 'f \<Rightarrow> bytes result" where
  "fr_to_bytes_le F fr =
     rbind (check (length (fr_serialize F fr) = 32) (Panic ''Fr canonical form is exactly 32 bytes'')) (\<lambda>_.
     Inr (fr_serialize F fr))"

definition bytes_le_to_fr :: "'f host_field \<Rightarrow> bytes \<Rightarrow> 'f option" where
  "bytes_le_to_fr F b = fr_deserialize F b"

definition expect_fr :: "'f host_field \<Rightarrow> string \<Rightarrow> bytes \<Rightarrow> 'f result" where
  "expect_fr F msg b = (case bytes_le_to_fr F b of None \<Rightarrow> Inl (Panic msg) | Some x \<Rightarrow> Inr x)"

definition rate_commitment_from_fr :: "'f host_field \<Rightarrow> 'f \<Rightarrow> u64 \<Rightarrow> bytes result" where
  "rate_commitment_from_fr F id_commitment_fr rate_limit =
     fr_to_bytes_le F (fr_hash_pair F id_commitment_fr (fr_from F rate_limit))"

definition registration_leaf :: "'f host_field \<Rightarrow> bytes \<Rightarrow> u64 \<Rightarrow> bytes result" where
  "registration_leaf F id_commitment rate_limit =
     rbind (expect_fr F ''id_commitment is not a valid BN254 field element'' id_commitment) (\<lambda>x.
     rate_commitment_from_fr F x rate_limit)"

definition same_poseidon :: "external \<Rightarrow> 'f host_field \<Rightarrow> bool" where
  "same_poseidon E F \<longleftrightarrow>
     (\<forall>b. (fr_deserialize F b \<noteq> None) = (length b = 32 \<and> felt_valid E b)) \<and>
     (\<forall>b x. fr_deserialize F b = Some x \<longrightarrow> fr_serialize F x = b) \<and>
     (\<forall>a b x y. fr_deserialize F a = Some x \<longrightarrow> fr_deserialize F b = Some y \<longrightarrow>
        fr_deserialize F (compress2 E a b) = Some (fr_hash_pair F x y)) \<and>
     (\<forall>n. fr_deserialize F (rate_felt n) = Some (fr_from F n))"

section \<open>The circuit's depth\<close>

definition CIRCUIT_DEPTH :: nat where "CIRCUIT_DEPTH = 10"

lemma tree_fits_circuit: "TREE_DEPTH \<le> CIRCUIT_DEPTH"
  by (simp add: TREE_DEPTH_def CIRCUIT_DEPTH_def)

primrec ladder_to :: "'f host_field \<Rightarrow> nat \<Rightarrow> 'f list" where
  "ladder_to F 0 = [fr_from F 0]"
| "ladder_to F (Suc h) =
     (let ladder = ladder_to F h; below = ladder ! h in ladder @ [fr_hash_pair F below below])"

definition zero_ladder :: "'f host_field \<Rightarrow> 'f list" where
  "zero_ladder F = ladder_to F CIRCUIT_DEPTH"

definition pad_path :: "'f host_field \<Rightarrow> 'f list \<Rightarrow> u8 list \<Rightarrow> ('f list \<times> u8 list) result" where
  "pad_path F elements indices =
     rfold (\<lambda>(es, is) height. rbind (index_at (zero_ladder F) height) (\<lambda>z. Inr (es @ [z], is @ [0])))
       (elements, indices) [length elements..<CIRCUIT_DEPTH]"

definition fold_root :: "'f host_field \<Rightarrow> 'f \<Rightarrow> 'f result" where
  "fold_root F root =
     rfold (\<lambda>r height. rbind (index_at (zero_ladder F) height) (\<lambda>z. Inr (fr_hash_pair F r z)))
       root [TREE_DEPTH..<CIRCUIT_DEPTH]"

definition proof_to_fr :: "'f host_field \<Rightarrow> merkle_proof \<Rightarrow> (('f list \<times> u8 list) \<times> 'f) result" where
  "proof_to_fr F p =
     rbind (rmap (expect_fr F ''Invalid path element'') (mp_path_elements p)) (\<lambda>es.
     rbind (expect_fr F ''Invalid root'' (mp_root p)) (\<lambda>root.
     Inr ((es, mp_path_indices p), root)))"

definition proof_to_circuit :: "'f host_field \<Rightarrow> merkle_proof \<Rightarrow> (('f list \<times> u8 list) \<times> 'f) result" where
  "proof_to_circuit F p =
     rbind (rmap (expect_fr F ''Invalid path element'') (mp_path_elements p)) (\<lambda>es.
     rbind (pad_path F es (mp_path_indices p)) (\<lambda>path.
     rbind (expect_fr F ''Invalid root'' (mp_root p)) (\<lambda>r.
     rbind (fold_root F r) (\<lambda>root.
     Inr (path, root)))))"

section \<open>Padding and folding agree\<close>

lemma length_ladder [simp]: "length (ladder_to F n) = Suc n"
  by (induction n) (simp_all add: Let_def)

lemma ladder_nth: "h \<le> n \<Longrightarrow> ladder_to F n ! h = ladder_to F h ! h"
proof (induction n)
  case 0
  then show ?case by simp
next
  case (Suc n)
  show ?case
  proof (cases "h = Suc n")
    case False
    with Suc show ?thesis by (simp add: Let_def nth_append)
  qed simp
qed

text \<open>The ladder is the tower of empty subtrees.\<close>

lemma zero_ladder_step:
  "h < CIRCUIT_DEPTH \<Longrightarrow> zero_ladder F ! Suc h = fr_hash_pair F (zero_ladder F ! h) (zero_ladder F ! h)"
  using ladder_nth [of h CIRCUIT_DEPTH F] ladder_nth [of "Suc h" CIRCUIT_DEPTH F]
  by (simp add: zero_ladder_def Let_def nth_append)

lemma fold_path_append:
  "length es = length is \<Longrightarrow> fold_path H node (es @ es') (is @ is') = fold_path H (fold_path H node es is) es' is'"
proof (induction es arbitrary: node "is")
  case Nil
  then show ?case by simp
next
  case (Cons e es)
  then show ?case by (cases "is") simp_all
qed

lemma pad_step:
  assumes "h \<le> CIRCUIT_DEPTH"
  shows "rfold (\<lambda>(es, is) height. rbind (index_at (zero_ladder F) height) (\<lambda>z. Inr (es @ [z], is @ [0])))
      (es, is) [h..<CIRCUIT_DEPTH] =
    Inr (es @ map (\<lambda>k. zero_ladder F ! k) [h..<CIRCUIT_DEPTH], is @ replicate (CIRCUIT_DEPTH - h) 0)"
  using assms
proof (induction "CIRCUIT_DEPTH - h" arbitrary: h es "is")
  case 0
  then show ?case by simp
next
  case (Suc k)
  then have h: "h < CIRCUIT_DEPTH" and k: "k = CIRCUIT_DEPTH - Suc h" by auto
  have "index_at (zero_ladder F) h = Inr (zero_ladder F ! h)" using h by (simp add: zero_ladder_def)
  moreover have "CIRCUIT_DEPTH - h = Suc (CIRCUIT_DEPTH - Suc h)" using h by simp
  ultimately show ?case
    using Suc.hyps(1) [OF k] h by (simp add: upt_conv_Cons)
qed

lemma pad_path_eq:
  "length es \<le> CIRCUIT_DEPTH \<Longrightarrow> pad_path F es is =
     Inr (es @ map (\<lambda>k. zero_ladder F ! k) [length es..<CIRCUIT_DEPTH], is @ replicate (CIRCUIT_DEPTH - length es) 0)"
  unfolding pad_path_def by (rule pad_step)

lemma fold_root_eq: "fold_root F r = Inr (fr_hash_pair F r (zero_ladder F ! TREE_DEPTH))"
proof -
  have "[TREE_DEPTH..<CIRCUIT_DEPTH] = [TREE_DEPTH]" by (simp add: TREE_DEPTH_def CIRCUIT_DEPTH_def)
  moreover have "index_at (zero_ladder F) TREE_DEPTH = Inr (zero_ladder F ! TREE_DEPTH)"
    by (simp add: zero_ladder_def CIRCUIT_DEPTH_def TREE_DEPTH_def)
  ultimately show ?thesis by (simp add: fold_root_def)
qed

lemma padded_fold:
  assumes "length es = TREE_DEPTH" and "length is = TREE_DEPTH"
  obtains es' is' where "pad_path F es is = Inr (es', is')" and "length es' = CIRCUIT_DEPTH" and "length is' = CIRCUIT_DEPTH"
    and "fold_root F (fold_path (fr_hash_pair F) leaf es is) = Inr (fold_path (fr_hash_pair F) leaf es' is')"
proof -
  let ?z = "zero_ladder F ! TREE_DEPTH"
  have "pad_path F es is = Inr (es @ [?z], is @ [0])"
    using pad_path_eq [of es F "is"] assms by (simp add: TREE_DEPTH_def CIRCUIT_DEPTH_def)
  moreover have "fold_path (fr_hash_pair F) leaf (es @ [?z]) (is @ [0]) = fr_hash_pair F (fold_path (fr_hash_pair F) leaf es is) ?z"
    using assms by (simp add: fold_path_append)
  ultimately show ?thesis
    by (intro that [of "es @ [?z]" "is @ [0]"]) (simp_all add: assms fold_root_eq, simp_all add: TREE_DEPTH_def CIRCUIT_DEPTH_def)
qed

section \<open>The host and the guest compute the same values\<close>

lemma same_poseidon_node:
  assumes "same_poseidon E F" and "node_ok E b"
  obtains x where "fr_deserialize F b = Some x" and "fr_serialize F x = b"
proof -
  have "fr_deserialize F b \<noteq> None" using assms by (simp add: same_poseidon_def node_ok_def)
  then obtain x where x: "fr_deserialize F b = Some x" by auto
  moreover have "fr_serialize F x = b" using assms(1) x by (simp add: same_poseidon_def)
  ultimately show ?thesis by (rule that)
qed

lemma registration_leaf_eq:
  assumes "same_poseidon E F" and "poseidon_canonical E" and "bytes32 c" and "felt_valid E c"
  shows "registration_leaf F c l = Inr (membership_leaf E c l)"
proof -
  obtain x where x: "fr_deserialize F c = Some x"
    using same_poseidon_node [OF assms(1), of c] assms(3,4) by (auto simp: node_ok_def)
  have "fr_deserialize F (rate_felt l) = Some (fr_from F l)" using assms(1) by (simp add: same_poseidon_def)
  then have "fr_deserialize F (membership_leaf E c l) = Some (fr_hash_pair F x (fr_from F l))"
    using assms(1) x by (simp add: same_poseidon_def membership_leaf_def)
  then have "fr_serialize F (fr_hash_pair F x (fr_from F l)) = membership_leaf E c l"
    using assms(1) by (simp add: same_poseidon_def)
  then show ?thesis
    using assms(2) x by (simp add: registration_leaf_def expect_fr_def bytes_le_to_fr_def rate_commitment_from_fr_def
        fr_to_bytes_le_def membership_leaf_def poseidon_canonical_def)
qed

lemma expect_fr_map:
  assumes "same_poseidon E F" and "list_all (node_ok E) es"
  shows "rmap (expect_fr F msg) es = Inr (map (\<lambda>b. the (fr_deserialize F b)) es)"
proof (rule rmap_ok)
  fix b assume "b \<in> set es"
  with assms(2) have "node_ok E b" by (simp add: list_all_iff)
  then show "expect_fr F msg b = Inr (the (fr_deserialize F b))"
    using same_poseidon_node [OF assms(1)] by (metis bytes_le_to_fr_def expect_fr_def option.sel option.simps(5))
qed

lemma fold_path_hom:
  assumes "same_poseidon E F" and "poseidon_canonical E"
  shows "fr_deserialize F b = Some x \<Longrightarrow> list_all (node_ok E) es \<Longrightarrow>
    fr_deserialize F (fold_path (compress2 E) b es is) =
      Some (fold_path (fr_hash_pair F) x (map (\<lambda>b. the (fr_deserialize F b)) es) is)"
proof (induction es arbitrary: b x "is")
  case Nil
  then show ?case by (cases "is") simp_all
next
  case (Cons e es)
  obtain y where y: "fr_deserialize F e = Some y"
    using same_poseidon_node [OF assms(1), of e] Cons.prems(2) by auto
  have "fr_deserialize F (compress2 E b e) = Some (fr_hash_pair F x y)"
    "fr_deserialize F (compress2 E e b) = Some (fr_hash_pair F y x)"
    using assms(1) Cons.prems(1) y by (simp_all add: same_poseidon_def)
  then show ?case using Cons y by (cases "is") simp_all
qed

text \<open>What the prover is handed for a leaf of a consistent tree verifies, at the circuit's depth.\<close>

lemma circuit_proof_folds:
  assumes E: "poseidon_ok E" and F: "same_poseidon E F" and ok: "tree_ok E d" and i: "i < 2 ^ TREE_DEPTH"
  obtains p x es js root where "merkle_proof_of d i = Inr p" and "proof_to_circuit F p = Inr ((es, js), root)"
    and "fr_deserialize F (tree_leaf d i) = Some x" and "length es = CIRCUIT_DEPTH" and "length js = CIRCUIT_DEPTH"
    and "fold_path (fr_hash_pair F) x es js = root"
proof -
  have pc: "poseidon_canonical E" using E by (simp add: poseidon_ok_def)
  obtain p where p: "merkle_proof_of d i = Inr p" "mp_leaf p = tree_leaf d i" "mp_root p = hdr_root d"
    and len: "length (mp_path_elements p) = TREE_DEPTH" "length (mp_path_indices p) = TREE_DEPTH"
    and good: "list_all (node_ok E) (mp_path_elements p)"
    and fold: "fold_path (compress2 E) (mp_leaf p) (mp_path_elements p) (mp_path_indices p) = mp_root p"
    by (rule merkle_proof_folds [OF ok i]) blast
  have "node_ok E (tree_leaf d i)"
    using ok i by (simp add: tree_ok_def nodes_ok_def tree_leaf_def tree_node_def in_tree_leaf)
  then obtain x where x: "fr_deserialize F (tree_leaf d i) = Some x" using same_poseidon_node [OF F] by metis
  let ?es = "map (\<lambda>b. the (fr_deserialize F b)) (mp_path_elements p)"
  obtain es' is' where pad: "pad_path F ?es (mp_path_indices p) = Inr (es', is')"
    and len': "length es' = CIRCUIT_DEPTH" "length is' = CIRCUIT_DEPTH"
    and f: "fold_root F (fold_path (fr_hash_pair F) x ?es (mp_path_indices p)) =
      Inr (fold_path (fr_hash_pair F) x es' is')"
    using padded_fold [of ?es "mp_path_indices p" F x] len by auto
  have "fr_deserialize F (mp_root p) = Some (fold_path (fr_hash_pair F) x ?es (mp_path_indices p))"
    using fold_path_hom [OF F pc, of "mp_leaf p" x "mp_path_elements p" "mp_path_indices p"] x p(2) good fold by simp
  then have "proof_to_circuit F p = Inr ((es', is'), fold_path (fr_hash_pair F) x es' is')"
    using f pad by (simp add: proof_to_circuit_def expect_fr_map [OF F good] expect_fr_def [of F "''Invalid root''"] bytes_le_to_fr_def)
  with p(1) show ?thesis using x len' by (rule that) simp
qed

text \<open>The path indices of a proof are bits, padded or not.\<close>

lemma proof_path_bits: "proof_path shard l i = Inr (es, js) \<Longrightarrow> set js \<subseteq> {0, 1}"
proof (induction l arbitrary: i es js)
  case (Suc l)
  then obtain sib es' js' where "proof_path shard l (i div 2) = Inr (es', js')" "js = word_of_nat (i mod 2) # js'"
    by (auto simp: result_simps split: prod.splits)
  moreover have "i mod 2 = 0 \<or> i mod 2 = 1" by auto
  ultimately show ?case using Suc.IH by auto
qed simp

lemma pad_path_bits:
  assumes "pad_path F es js = Inr (es', js')" and "set js \<subseteq> {0, 1}"
  shows "set js' \<subseteq> {0, 1}"
proof -
  have "set (snd (es', js')) \<subseteq> {0, 1}"
    by (rule rfold_invariant [where P = "\<lambda>path. set (snd path) \<subseteq> {0, 1}", OF assms(1) [unfolded pad_path_def]])
      (use assms(2) in \<open>auto simp: result_simps split: prod.splits\<close>)
  then show ?thesis by simp
qed

lemma circuit_path_bits:
  assumes "merkle_proof_of d i = Inr p" and "proof_to_circuit F p = Inr ((es, js), root)"
  shows "set js \<subseteq> {0, 1}"
proof -
  obtain es' where "proof_path d TREE_DEPTH i = Inr (es', mp_path_indices p)"
    using assms(1) by (auto simp: merkle_proof_of_def result_simps split: prod.splits)
  note bits = proof_path_bits [OF this]
  obtain es'' where "pad_path F es'' (mp_path_indices p) = Inr (es, js)"
    using assms(2) by (auto simp: proof_to_circuit_def result_simps)
  from pad_path_bits [OF this bits] show ?thesis .
qed

end
