(* ===== verification/HostLibs.thy ===== *)
theory HostLibs
  imports Prelude
begin

text \<open>
  The libraries the host tools parse and print text with, which are not in the repository, as one
  record of functions over a type \<open>'j\<close> of JSON values, and the laws of them that a property may
  assume. Text is ASCII: \<open>trim\<close> is \<open>str::trim\<close> on it.

  \<^item> \<open>hex_encode\<close>, \<open>hex_decode\<close>: the \<open>hex\<close> crate (\<open>None\<close> for an error);
  \<^item> \<open>base58_encode\<close>: \<open>bs58::encode(..).into_string()\<close>;
  \<^item> \<open>parse_base58_id\<close>: \<open>AccountId\<close>'s \<open>FromStr\<close>;
  \<^item> \<open>json_parse\<close>, \<open>json_print\<close>: \<open>serde_json::from_str\<close> and \<open>to_string\<close>;
  \<^item> \<open>json_object\<close>, \<open>json_string\<close>: the \<open>json!\<close> macro on an object and on a string;
  \<^item> \<open>json_get\<close>: \<open>Value::get\<close> with a string key; \<open>json_null\<close>: what indexing gives for a missing key;
  \<^item> \<open>json_as_str\<close>, \<open>json_as_object\<close>, \<open>json_as_array\<close>, \<open>json_as_u64\<close>: \<open>Value\<close>'s accessors.
\<close>

record 'j host_libs =
  hex_encode :: "bytes \<Rightarrow> string"
  hex_decode :: "string \<Rightarrow> bytes option"
  base58_encode :: "bytes \<Rightarrow> string"
  parse_base58_id :: "string \<Rightarrow> bytes option"
  json_parse :: "string \<Rightarrow> 'j option"
  json_print :: "'j \<Rightarrow> string"
  json_object :: "(string \<times> 'j) list \<Rightarrow> 'j"
  json_string :: "string \<Rightarrow> 'j"
  json_get :: "'j \<Rightarrow> string \<Rightarrow> 'j option"
  json_null :: 'j
  json_as_str :: "'j \<Rightarrow> string option"
  json_as_object :: "'j \<Rightarrow> (string \<Rightarrow> 'j option) option"
  json_as_array :: "'j \<Rightarrow> 'j list option"
  json_as_u64 :: "'j \<Rightarrow> u64 option"

type_synonym environment = "string \<Rightarrow> string option"

section \<open>Characters\<close>

definition is_space :: "char \<Rightarrow> bool" where
  "is_space c \<longleftrightarrow> (let n = (of_char c :: nat) in n = 32 \<or> (9 \<le> n \<and> n \<le> 13))"

definition trim :: "string \<Rightarrow> string" where
  "trim s = rev (dropWhile is_space (rev (dropWhile is_space s)))"

lemma dropWhile_none: "\<forall>c \<in> set s. \<not> P c \<Longrightarrow> dropWhile P s = s"
  by (cases s) simp_all

lemma trim_id: "\<forall>c \<in> set s. \<not> is_space c \<Longrightarrow> trim s = s"
  by (simp add: trim_def dropWhile_none)

definition hex_digits :: string where "hex_digits = ''0123456789abcdef''"

lemma hex_digits_not_space: "set s \<subseteq> set hex_digits \<Longrightarrow> trim s = s"
  by (rule trim_id) (auto simp: hex_digits_def is_space_def)

section \<open>Laws\<close>

text \<open>Hexadecimal: lower-case digits, two to a byte, and decoding inverts encoding.\<close>

definition hex_ok :: "'j host_libs \<Rightarrow> bool" where
  "hex_ok H \<longleftrightarrow>
     (\<forall>b. hex_decode H (hex_encode H b) = Some b) \<and>
     (\<forall>b. set (hex_encode H b) \<subseteq> set hex_digits) \<and>
     (\<forall>b. length (hex_encode H b) = 2 * length b)"

text \<open>JSON: printing an object of string fields and parsing it gives its fields back.\<close>

definition json_ok :: "'j host_libs \<Rightarrow> bool" where
  "json_ok H \<longleftrightarrow>
     (\<forall>fs k. distinct (map fst fs) \<longrightarrow>
       (\<exists>j. json_parse H (json_print H (json_object H (map (\<lambda>(k, s). (k, json_string H s)) fs))) = Some j \<and>
          map_option (json_as_str H) (json_get H j k) = map_option Some (map_of fs k)))"

end
