(* ===== verification/ProgramIds.thy ===== *)
theory ProgramIds
  imports HostLibs MerkleClient
begin

text \<open>
  Where the deployed programs live, \<open>src/rln/program_ids.rs\<close>: the per-tree record of the two program
  ids and the environment variables that override it field by field. The record file is its text,
  \<open>None\<close> when it cannot be read.
\<close>

definition REGISTRATION_PROGRAM_ID_ENV :: string where
  "REGISTRATION_PROGRAM_ID_ENV = ''LEZ_RLN_REGISTRATION_PROGRAM_ID''"

definition MERKLE_PROGRAM_ID_ENV :: string where
  "MERKLE_PROGRAM_ID_ENV = ''LEZ_RLN_MERKLE_PROGRAM_ID''"

definition REGISTRATION_KEY :: string where "REGISTRATION_KEY = ''registration_program_id''"

definition MERKLE_KEY :: string where "MERKLE_KEY = ''merkle_program_id''"

record known_program_ids =
  ki_registration :: "account_id option"
  ki_merkle :: "account_id option"

definition complete_ids :: "known_program_ids \<Rightarrow> program_ids option" where
  "complete_ids known =
     (case ki_registration known of
        None \<Rightarrow> None
      | Some r \<Rightarrow> (case ki_merkle known of
            None \<Rightarrow> None
          | Some m \<Rightarrow> Some \<lparr>pi_registration = r, pi_merkle = m\<rparr>))"

definition hex_id :: "'j host_libs \<Rightarrow> account_id \<Rightarrow> string" where
  "hex_id H a = hex_encode H a"

definition parse_hex_id :: "'j host_libs \<Rightarrow> string \<Rightarrow> string \<Rightarrow> string + account_id" where
  "parse_hex_id H raw what =
     (case hex_decode H (trim raw) of
        None \<Rightarrow> Inl (what @ '' is not hex'')
      | Some bytes \<Rightarrow> if length bytes = 32 then Inr bytes else Inl (what @ '' must be 32 bytes''))"

definition encode_record :: "'j host_libs \<Rightarrow> program_ids \<Rightarrow> string" where
  "encode_record H ids =
     json_print H (json_object H
       [(REGISTRATION_KEY, json_string H (hex_id H (pi_registration ids))),
        (MERKLE_KEY, json_string H (hex_id H (pi_merkle ids)))])"

definition record_field :: "'j host_libs \<Rightarrow> 'j \<Rightarrow> string \<Rightarrow> string + account_id" where
  "record_field H v key =
     (case (case json_get H v key of None \<Rightarrow> None | Some j \<Rightarrow> json_as_str H j) of
        None \<Rightarrow> Inl (''missing string field '' @ key)
      | Some raw \<Rightarrow> parse_hex_id H raw key)"

definition decode_record :: "'j host_libs \<Rightarrow> string \<Rightarrow> string + program_ids" where
  "decode_record H json =
     (case json_parse H json of
        None \<Rightarrow> Inl ''not JSON''
      | Some v \<Rightarrow>
          rbind (record_field H v REGISTRATION_KEY) (\<lambda>r.
          rbind (record_field H v MERKLE_KEY) (\<lambda>m.
          Inr \<lparr>pi_registration = r, pi_merkle = m\<rparr>)))"

definition env_id :: "'j host_libs \<Rightarrow> environment \<Rightarrow> string \<Rightarrow> string + account_id option" where
  "env_id H env var =
     (case env var of
        None \<Rightarrow> Inr None
      | Some raw \<Rightarrow> rbind (parse_hex_id H raw var) (\<lambda>a. Inr (Some a)))"

definition or_else :: "'a option \<Rightarrow> 'a option \<Rightarrow> 'a option" where
  "or_else a b = (case a of None \<Rightarrow> b | Some x \<Rightarrow> Some x)"

definition read_record :: "'j host_libs \<Rightarrow> string option \<Rightarrow> string + program_ids option" where
  "read_record H file =
     (case file of None \<Rightarrow> Inr None | Some json \<Rightarrow> rbind (decode_record H json) (\<lambda>ids. Inr (Some ids)))"

definition known_program_ids_of ::
  "'j host_libs \<Rightarrow> environment \<Rightarrow> string option \<Rightarrow> string + known_program_ids" where
  "known_program_ids_of H env file =
     rbind (read_record H file) (\<lambda>recorded.
     rbind (env_id H env REGISTRATION_PROGRAM_ID_ENV) (\<lambda>r.
     rbind (env_id H env MERKLE_PROGRAM_ID_ENV) (\<lambda>m.
     Inr \<lparr>ki_registration = or_else r (map_option pi_registration recorded),
          ki_merkle = or_else m (map_option pi_merkle recorded)\<rparr>)))"

definition program_ids_or_exit :: "'j host_libs \<Rightarrow> environment \<Rightarrow> string option \<Rightarrow> program_ids result" where
  "program_ids_or_exit H env file =
     (case known_program_ids_of H env file of
        Inl e \<Rightarrow> Inl (Exit 2)
      | Inr known \<Rightarrow> (case complete_ids known of None \<Rightarrow> Inl (Exit 2) | Some ids \<Rightarrow> Inr ids))"

section \<open>Round trip and precedence\<close>

lemma parse_hex_id_encode: "hex_ok H \<Longrightarrow> bytes32 a \<Longrightarrow> parse_hex_id H (hex_id H a) what = Inr a"
  by (simp add: parse_hex_id_def hex_id_def hex_ok_def hex_digits_not_space)

lemma decode_encode_record:
  assumes H: "hex_ok H" "json_ok H" and ids: "bytes32 (pi_registration ids)" "bytes32 (pi_merkle ids)"
  shows "decode_record H (encode_record H ids) = Inr ids"
proof -
  let ?fs = "[(REGISTRATION_KEY, hex_id H (pi_registration ids)), (MERKLE_KEY, hex_id H (pi_merkle ids))]"
  have ne: "REGISTRATION_KEY \<noteq> MERKLE_KEY" by (simp add: REGISTRATION_KEY_def MERKLE_KEY_def)
  have parsed: "\<exists>j. json_parse H (encode_record H ids) = Some j \<and>
      map_option (json_as_str H) (json_get H j k) = map_option Some (map_of ?fs k)" for k
    using H(2) ne unfolding json_ok_def encode_record_def by (elim allE [of _ ?fs]) simp
  then obtain j where j: "json_parse H (encode_record H ids) = Some j" by blast
  have get: "map_option (json_as_str H) (json_get H j k) = map_option Some (map_of ?fs k)" for k
    using parsed [of k] j by auto
  have "record_field H j REGISTRATION_KEY = Inr (pi_registration ids)"
    using get [of REGISTRATION_KEY] parse_hex_id_encode [OF H(1) ids(1)] by (auto simp: record_field_def)
  moreover have "record_field H j MERKLE_KEY = Inr (pi_merkle ids)"
    using get [of MERKLE_KEY] parse_hex_id_encode [OF H(1) ids(2)] ne by (auto simp: record_field_def)
  ultimately show ?thesis by (simp add: decode_record_def j)
qed

text \<open>An environment variable that is set decides its id alone; the record fills in the rest.\<close>

lemma known_ids_env:
  assumes "hex_ok H" and "json_ok H" and "bytes32 (pi_registration ids)" and "bytes32 (pi_merkle ids)"
    and "env REGISTRATION_PROGRAM_ID_ENV = map_option (hex_id H) r" and "env MERKLE_PROGRAM_ID_ENV = map_option (hex_id H) m"
    and "\<forall>a. r = Some a \<or> m = Some a \<longrightarrow> bytes32 a"
  shows "program_ids_or_exit H env (Some (encode_record H ids)) =
    Inr \<lparr>pi_registration = (case r of None \<Rightarrow> pi_registration ids | Some a \<Rightarrow> a),
         pi_merkle = (case m of None \<Rightarrow> pi_merkle ids | Some a \<Rightarrow> a)\<rparr>"
  using assms decode_encode_record [OF assms(1-4)] parse_hex_id_encode [OF assms(1)]
  by (auto simp: program_ids_or_exit_def known_program_ids_of_def read_record_def env_id_def or_else_def
      complete_ids_def split: option.splits)

end
