(* ===== verification/RlnClient.thy ===== *)
theory RlnClient
  imports ProofCircuit Program ProgramIds
begin

text \<open>
  The host client of the registration program, \<open>src/rln/client.rs\<close>: its reads, its fee sizing, and
  the transactions it builds. The chain is a function from shard selectors to bytes, an account's
  native balance and the environment variables are functions, and the wallet, the network and the
  loader are parameters where their answer matters. A request is what a send hands to the network.
\<close>

section \<open>Parsing numbers\<close>

text \<open>\<open>str::parse\<close> for an unsigned integer of \<open>w\<close> bits: digits, with an optional plus sign.\<close>

definition digit_value :: "char \<Rightarrow> nat option" where
  "digit_value c =
     (let n = (of_char c :: nat) in if 48 \<le> n \<and> n \<le> 57 then Some (n - 48) else None)"

fun parse_digits :: "nat \<Rightarrow> string \<Rightarrow> nat option" where
  "parse_digits acc [] = Some acc"
| "parse_digits acc (c # cs) =
     (case digit_value c of None \<Rightarrow> None | Some d \<Rightarrow> parse_digits (10 * acc + d) cs)"

definition parse_uint :: "nat \<Rightarrow> string \<Rightarrow> nat option" where
  "parse_uint w s =
     (let digits = (case s of c # cs \<Rightarrow> if c = CHR ''+'' then cs else s | [] \<Rightarrow> []) in
      if digits = [] then None
      else case parse_digits 0 digits of None \<Rightarrow> None | Some n \<Rightarrow> if n < 2 ^ w then Some n else None)"

section \<open>Settings\<close>

definition PRICE_PER_UNIT :: u128 where "PRICE_PER_UNIT = 10000"
definition MAX_TOTAL_RATE_LIMIT :: u64 where "MAX_TOTAL_RATE_LIMIT = 1000000"
definition DEFAULT_ACTIVE_DURATION_SECS :: u32 where "DEFAULT_ACTIVE_DURATION_SECS = 30 * 24 * 60 * 60"
definition DEFAULT_GRACE_PERIOD_DURATION_SECS :: u32 where "DEFAULT_GRACE_PERIOD_DURATION_SECS = 7 * 24 * 60 * 60"

definition read_duration :: "environment \<Rightarrow> string \<Rightarrow> u32 \<Rightarrow> u32 result" where
  "read_duration env name default_secs =
     (case env name of
        None \<Rightarrow> Inr default_secs
      | Some raw \<Rightarrow> (case parse_uint 32 raw of
            None \<Rightarrow> Inl (Panic (name @ '' must be a u32 number of seconds''))
          | Some n \<Rightarrow> Inr (word_of_nat n)))"

definition membership_durations :: "environment \<Rightarrow> (u32 \<times> u32) result" where
  "membership_durations env =
     rbind (read_duration env ''LEZ_RLN_ACTIVE_DURATION_SECS'' DEFAULT_ACTIVE_DURATION_SECS) (\<lambda>a.
     rbind (read_duration env ''LEZ_RLN_GRACE_PERIOD_DURATION_SECS'' DEFAULT_GRACE_PERIOD_DURATION_SECS) (\<lambda>g.
     Inr (a, g)))"

definition wait_account_attempts :: "environment \<Rightarrow> nat" where
  "wait_account_attempts env =
     (case env ''LEZ_RLN_ACCOUNT_WAIT_ATTEMPTS'' of
        None \<Rightarrow> 360
      | Some v \<Rightarrow> (case parse_uint 32 v of None \<Rightarrow> 360 | Some n \<Rightarrow> n))"

definition MAX_GAS_EXEC :: u64 where "MAX_GAS_EXEC = 10000000"

definition declared_gas_limit :: "environment \<Rightarrow> u64 result" where
  "declared_gas_limit env =
     (let limit = (case env ''LEZ_RLN_GAS_LIMIT'' of
            None \<Rightarrow> MAX_GAS_EXEC
          | Some raw \<Rightarrow> (case parse_uint 64 raw of None \<Rightarrow> MAX_GAS_EXEC | Some n \<Rightarrow> word_of_nat n))
      in rbind (check (limit \<le> MAX_GAS_EXEC) (Panic ''LEZ_RLN_GAS_LIMIT exceeds MAX_GAS_EXEC'')) (\<lambda>_.
         Inr limit))"

section \<open>Selectors and reads\<close>

definition clock_selector :: "external \<Rightarrow> selector" where
  "clock_selector E = (CLOCK_50_ACCOUNT_ID_BYTES, clock_account_id E)"

definition config_selector :: "external \<Rightarrow> program_ids \<Rightarrow> bytes \<Rightarrow> selector result" where
  "config_selector E programs tree_id =
     rbind (derive_config_account E (pi_registration programs) tree_id) (\<lambda>a. Inr (a, pi_registration programs))"

definition membership_selector :: "external \<Rightarrow> program_ids \<Rightarrow> bytes \<Rightarrow> bytes \<Rightarrow> selector result" where
  "membership_selector E programs tree_id id_commitment =
     rbind (derive_membership_account E (pi_registration programs) tree_id id_commitment) (\<lambda>a.
     Inr (a, pi_registration programs))"

definition native_balance_selector :: "external \<Rightarrow> account_id \<Rightarrow> selector" where
  "native_balance_selector E a = (a, native_program E)"

definition is_initialized :: "external \<Rightarrow> (selector \<Rightarrow> bytes) \<Rightarrow> program_ids \<Rightarrow> bytes \<Rightarrow> bool result" where
  "is_initialized E chain programs tree_id =
     rbind (config_selector E programs tree_id) (\<lambda>k. Inr (chain k \<noteq> []))"

definition read_config :: "external \<Rightarrow> (selector \<Rightarrow> bytes) \<Rightarrow> program_ids \<Rightarrow> bytes \<Rightarrow> config_state result" where
  "read_config E chain programs tree_id =
     rbind (config_selector E programs tree_id) (\<lambda>k.
     let data = chain k in
     rbind (check (data \<noteq> []) (Panic ''the registry is not initialized'')) (\<lambda>_.
     rbind (check (length data = CONFIG_STATE_SIZE) (Panic ''config shard has another size'')) (\<lambda>_.
     case from_slice dec_config data of
       None \<Rightarrow> Inl (Panic ''config shard decodes as ConfigState'') | Some c \<Rightarrow> Inr c)))"

definition read_membership ::
  "external \<Rightarrow> (selector \<Rightarrow> bytes) \<Rightarrow> program_ids \<Rightarrow> bytes \<Rightarrow> bytes \<Rightarrow> membership_state option result" where
  "read_membership E chain programs tree_id id_commitment =
     rbind (membership_selector E programs tree_id id_commitment) (\<lambda>k.
     let data = chain k in
     if data = [] then Inr None
     else rbind (check (length data = MEMBERSHIP_STATE_SIZE) (Panic ''membership shard has another size'')) (\<lambda>_.
       case from_slice dec_membership data of
         None \<Rightarrow> Inl (Panic ''membership shard decodes as MembershipState'') | Some m \<Rightarrow> Inr (Some m)))"

definition read_clock_ms :: "external \<Rightarrow> (selector \<Rightarrow> bytes) \<Rightarrow> u64 result" where
  "read_clock_ms E chain =
     (let timestamp = (case clock_timestamp E (chain (clock_selector E)) of None \<Rightarrow> 0 | Some ts \<Rightarrow> ts) in
      rbind (check (timestamp > 0) (Panic ''CLOCK_50 has not been written yet'')) (\<lambda>_. Inr timestamp))"

definition locate_membership_leaf ::
  "external \<Rightarrow> 'f host_field \<Rightarrow> (selector \<Rightarrow> bytes) \<Rightarrow> program_ids \<Rightarrow> bytes \<Rightarrow> membership_state \<Rightarrow> nat result" where
  "locate_membership_leaf E F chain programs tree_id membership =
     rbind (registration_leaf F (ms_id_commitment membership) (ms_rate_limit membership)) (\<lambda>leaf.
     rbind (fetch_tree_shard E chain programs tree_id) (\<lambda>d.
     rbind (find_leaf_index d leaf) (\<lambda>found.
     case found of
       None \<Rightarrow> Inl (Panic ''the membership exists but no leaf in the tree holds it'')
     | Some i \<Rightarrow> Inr i)))"

definition check_merkle_claim :: "config_state \<Rightarrow> program_ids \<Rightarrow> unit result" where
  "check_merkle_claim config programs =
     check (cs_merkle_program_id config = pi_merkle programs)
       (Panic ''the config's merkle program is not the recorded one'')"

section \<open>Fees\<close>

definition ASSUMED_DATA_BYTES :: u128 where "ASSUMED_DATA_BYTES = 100000"
definition BASE_FEE_HEADROOM :: u128 where "BASE_FEE_HEADROOM = 2"
definition DECLARED_MAX_FEE :: u128 where "DECLARED_MAX_FEE = (10000000 + ASSUMED_DATA_BYTES) * 64"

datatype reserve_basis = Quote u64 | Fallback

text \<open>The fields of the sequencer's \<open>FeeStateQuote\<close> that are read.\<close>

record fee_quote =
  fq_height :: u64
  fq_exec_ceiling :: u64
  fq_stor_ceiling :: u64

definition fee_reserve_from :: "fee_quote \<Rightarrow> u64 \<Rightarrow> u128" where
  "fee_reserve_from quote gas_limit =
     sat_mul
       (sat_add (sat_mul (ucast gas_limit) (ucast (fq_exec_ceiling quote)))
                (sat_mul ASSUMED_DATA_BYTES (ucast (fq_stor_ceiling quote))))
       BASE_FEE_HEADROOM"

definition fee_reserve :: "fee_quote option \<Rightarrow> u64 \<Rightarrow> u128 \<times> reserve_basis" where
  "fee_reserve quote gas_limit =
     (case quote of
        Some q \<Rightarrow> (fee_reserve_from q gas_limit, Quote (fq_height q))
      | None \<Rightarrow> (DECLARED_MAX_FEE, Fallback))"

definition quoted_fee_reserve :: "environment \<Rightarrow> fee_quote option \<Rightarrow> (u128 \<times> reserve_basis) result" where
  "quoted_fee_reserve env quote =
     rbind (declared_gas_limit env) (\<lambda>limit. Inr (fee_reserve quote limit))"

definition assert_can_afford ::
  "environment \<Rightarrow> fee_quote option \<Rightarrow> (account_id \<Rightarrow> u128) \<Rightarrow> account_id \<Rightarrow> u128 \<Rightarrow> u128 result" where
  "assert_can_afford env quote balances payer price =
     rbind (quoted_fee_reserve env quote) (\<lambda>(reserve, basis).
     let required = sat_add price reserve in
     rbind (check (required \<le> balances payer) (Panic ''payer holds less than price and fee reserve'')) (\<lambda>_.
     Inr reserve))"

section \<open>Requests\<close>

record request =
  rq_program :: account_id
  rq_selectors :: "selector list"
  rq_instruction :: instruction
  rq_signer :: account_id
  rq_max_fee :: u128

text \<open>
  What the requests are built from: the chain, the balances, the fee quote (\<open>None\<close> when
  \<open>getFeeState\<close> fails) and the environment.
\<close>

record world =
  w_chain :: "selector \<Rightarrow> bytes"
  w_balances :: "account_id \<Rightarrow> u128"
  w_quote :: "fee_quote option"
  w_env :: environment

definition register_request ::
  "external \<Rightarrow> 'f host_field \<Rightarrow> world \<Rightarrow> program_ids \<Rightarrow> bytes \<Rightarrow> bytes \<Rightarrow> account_id \<Rightarrow> u64 \<Rightarrow>
     (request \<times> bytes \<times> nat option) result" where
  "register_request E F w programs tree_id id_commitment payer_id rate_limit =
     rbind (registration_leaf F id_commitment rate_limit) (\<lambda>leaf.
     rbind (read_config E (w_chain w) programs tree_id) (\<lambda>config.
     rbind (check_merkle_claim config programs) (\<lambda>_.
     rbind (read_clock_ms E (w_chain w)) (\<lambda>now_ms.
     rbind (fetch_tree_shard E (w_chain w) programs tree_id) (\<lambda>d.
     rbind (find_leaf_index d leaf) (\<lambda>already_at.
     rbind (config_selector E programs tree_id) (\<lambda>k1.
     rbind (tree_shard_selector E programs tree_id) (\<lambda>k2.
     rbind (membership_selector E programs tree_id id_commitment) (\<lambda>k6.
     rbind (assert_can_afford (w_env w) (w_quote w) (w_balances w) payer_id
              (sat_mul (cs_price_per_unit config) (ucast rate_limit))) (\<lambda>max_fee.
     Inr (\<lparr>rq_program = pi_registration programs,
            rq_selectors = [k1, k2, native_balance_selector E payer_id,
              native_balance_selector E (cs_treasury_account_id config), clock_selector E, k6],
            rq_instruction = Register tree_id id_commitment rate_limit (cs_merkle_program_id config) now_ms
              (cs_price_per_unit config) (cs_active_duration_sec config) (cs_grace_period_duration_sec config),
            rq_signer = payer_id, rq_max_fee = max_fee\<rparr>,
          leaf, already_at)))))))))))"

text \<open>
  The wait after a registration: an attempt is the tree shard it reads, whether the transaction is
  in a block, and the shard read again after that.
\<close>

definition landed :: "bytes \<Rightarrow> nat option \<Rightarrow> bytes \<Rightarrow> nat option result" where
  "landed leaf already_at shard =
     rbind (find_leaf_index shard leaf) (\<lambda>found.
     Inr (case found of
        None \<Rightarrow> None
      | Some index \<Rightarrow> if (case already_at of None \<Rightarrow> True | Some old \<Rightarrow> old < index) then Some index else None))"

fun await_registration :: "(bytes \<times> bool \<times> bytes) list \<Rightarrow> bytes \<Rightarrow> nat option \<Rightarrow> nat option result" where
  "await_registration [] leaf already_at = Inr None"
| "await_registration ((shard, included, again) # later) leaf already_at =
     rbind (landed leaf already_at shard) (\<lambda>found.
     case found of
       Some index \<Rightarrow> Inr (Some index)
     | None \<Rightarrow> if included then landed leaf already_at again
               else await_registration later leaf already_at)"

definition extend_request ::
  "external \<Rightarrow> 'f host_field \<Rightarrow> world \<Rightarrow> program_ids \<Rightarrow> bytes \<Rightarrow> bytes \<Rightarrow> account_id \<Rightarrow> request result" where
  "extend_request E F w programs tree_id id_commitment payer_id =
     rbind (expect_fr F ''id_commitment is not a valid BN254 field element'' id_commitment) (\<lambda>_.
     rbind (read_config E (w_chain w) programs tree_id) (\<lambda>config.
     rbind (read_membership E (w_chain w) programs tree_id id_commitment) (\<lambda>found.
     case found of
       None \<Rightarrow> Inl (Panic ''extend: no membership for this id_commitment'')
     | Some membership \<Rightarrow>
         rbind (read_clock_ms E (w_chain w)) (\<lambda>now_ms.
         rbind (config_selector E programs tree_id) (\<lambda>k1.
         rbind (membership_selector E programs tree_id id_commitment) (\<lambda>k2.
         rbind (assert_can_afford (w_env w) (w_quote w) (w_balances w) payer_id
                  (sat_mul (cs_price_per_unit config) (ucast (ms_rate_limit membership)))) (\<lambda>max_fee.
         Inr \<lparr>rq_program = pi_registration programs,
              rq_selectors = [k1, k2, native_balance_selector E payer_id,
                native_balance_selector E (cs_treasury_account_id config), clock_selector E],
              rq_instruction = Extend tree_id id_commitment now_ms (cs_price_per_unit config) (ms_rate_limit membership),
              rq_signer = payer_id, rq_max_fee = max_fee\<rparr>)))))))"

definition erase_request ::
  "external \<Rightarrow> 'f host_field \<Rightarrow> world \<Rightarrow> program_ids \<Rightarrow> bytes \<Rightarrow> bytes \<Rightarrow> account_id \<Rightarrow> request result" where
  "erase_request E F w programs tree_id id_commitment fee_payer_id =
     rbind (expect_fr F ''id_commitment is not a valid BN254 field element'' id_commitment) (\<lambda>_.
     rbind (read_config E (w_chain w) programs tree_id) (\<lambda>config.
     rbind (check_merkle_claim config programs) (\<lambda>_.
     rbind (read_membership E (w_chain w) programs tree_id id_commitment) (\<lambda>found.
     case found of
       None \<Rightarrow> Inl (Panic ''erase: no membership for this id_commitment'')
     | Some membership \<Rightarrow>
         rbind (locate_membership_leaf E F (w_chain w) programs tree_id membership) (\<lambda>leaf_index.
         rbind (read_clock_ms E (w_chain w)) (\<lambda>now_ms.
         rbind (config_selector E programs tree_id) (\<lambda>k1.
         rbind (tree_shard_selector E programs tree_id) (\<lambda>k2.
         rbind (membership_selector E programs tree_id id_commitment) (\<lambda>k3.
         rbind (quoted_fee_reserve (w_env w) (w_quote w)) (\<lambda>(max_fee, _).
         Inr \<lparr>rq_program = pi_registration programs,
              rq_selectors = [k1, k2, k3, clock_selector E],
              rq_instruction = Erase tree_id id_commitment (cs_merkle_program_id config)
                (word_of_nat leaf_index) (ms_rate_limit membership) now_ms,
              rq_signer = fee_payer_id, rq_max_fee = max_fee\<rparr>))))))))))"

definition slash_request ::
  "external \<Rightarrow> 'f host_field \<Rightarrow> world \<Rightarrow> program_ids \<Rightarrow> bytes \<Rightarrow> bytes \<Rightarrow> bytes \<Rightarrow> account_id \<Rightarrow> request result" where
  "slash_request E F w programs tree_id identity_secret id_commitment fee_payer_id =
     rbind (expect_fr F ''identity_secret is not a valid BN254 field element'' identity_secret) (\<lambda>_.
     rbind (read_config E (w_chain w) programs tree_id) (\<lambda>config.
     rbind (check_merkle_claim config programs) (\<lambda>_.
     rbind (read_membership E (w_chain w) programs tree_id id_commitment) (\<lambda>found.
     case found of
       None \<Rightarrow> Inl (Panic ''slash: no membership for this id_commitment'')
     | Some membership \<Rightarrow>
         rbind (locate_membership_leaf E F (w_chain w) programs tree_id membership) (\<lambda>leaf_index.
         rbind (config_selector E programs tree_id) (\<lambda>k1.
         rbind (tree_shard_selector E programs tree_id) (\<lambda>k2.
         rbind (membership_selector E programs tree_id id_commitment) (\<lambda>k3.
         rbind (quoted_fee_reserve (w_env w) (w_quote w)) (\<lambda>(max_fee, _).
         Inr \<lparr>rq_program = pi_registration programs,
              rq_selectors = [k1, k2, k3],
              rq_instruction = Slash tree_id id_commitment identity_secret (cs_merkle_program_id config)
                (word_of_nat leaf_index) (ms_rate_limit membership),
              rq_signer = fee_payer_id, rq_max_fee = max_fee\<rparr>)))))))))"

section \<open>Signing\<close>

text \<open>
  \<open>send_metered_tx\<close>: which accounts give a nonce and a signature, the signer once even when it is
  also the fee payer.
\<close>

definition nonce_accounts :: "account_id \<Rightarrow> account_id \<Rightarrow> account_id list" where
  "nonce_accounts payer signer = (if payer = signer then [signer] else [signer, payer])"

record metered_tx =
  mt_program :: account_id
  mt_selectors :: "selector list"
  mt_nonces :: "account_id list"
  mt_data :: bytes
  mt_fee_payer :: account_id
  mt_gas_limit :: u64
  mt_max_fee :: u128

definition send_metered_tx :: "environment \<Rightarrow> account_id option \<Rightarrow> (account_id \<Rightarrow> bool) \<Rightarrow> request \<Rightarrow> metered_tx result" where
  "send_metered_tx env fee_payer in_wallet rq =
     (case fee_payer of
        None \<Rightarrow> Inl (Panic ''needs a funded payer: set LEZ_RLN_PAYER'')
      | Some payer \<Rightarrow>
          rbind (check (in_wallet (rq_signer rq)) (Panic ''signer not in wallet'')) (\<lambda>_.
          rbind (check (payer = rq_signer rq \<or> in_wallet payer) (Panic ''payer not in wallet'')) (\<lambda>_.
          rbind (declared_gas_limit env) (\<lambda>limit.
          Inr \<lparr>mt_program = rq_program rq, mt_selectors = rq_selectors rq,
               mt_nonces = nonce_accounts payer (rq_signer rq),
               mt_data = enc_instruction (rq_instruction rq),
               mt_fee_payer = payer, mt_gas_limit = limit, mt_max_fee = rq_max_fee rq\<rparr>))))"

end
