(* ===== verification/EndToEnd.thy ===== *)
theory EndToEnd
  imports RlnClient Registry
begin

text \<open>
  The host client against the guests: a request the client builds from the chain is one the
  programs accept, and leaves the shards the client expects. \<open>metas_of\<close> is the account metadata of
  a transaction signed by the request's signer alone.
\<close>

definition metas_of :: "request \<Rightarrow> account_meta list" where
  "metas_of rq = map (\<lambda>k. \<lparr>account_id = fst k, is_authorized = (fst k = rq_signer rq), program_account_id = snd k\<rparr>)
     (rq_selectors rq)"

definition run_request :: "external \<Rightarrow> account_id \<Rightarrow> account_id \<Rightarrow> shards \<Rightarrow> request \<Rightarrow> shards result" where
  "run_request E R M s rq =
     replay 2 E (deployed R M) s (rq_program rq) None (metas_of rq) (enc_instruction (rq_instruction rq))"

section \<open>What the client reads\<close>

lemma selector_forms [simp]:
  "config_selector E \<lparr>pi_registration = R, pi_merkle = M\<rparr> t = Inr (config_sel E R t)"
  "membership_selector E \<lparr>pi_registration = R, pi_merkle = M\<rparr> t c = Inr (membership_sel E R t c)"
  "tree_shard_selector E \<lparr>pi_registration = R, pi_merkle = M\<rparr> t = Inr (tree_sel E R M t)"
  "clock_selector E = clock_sel E"
  by (simp_all add: config_selector_def membership_selector_def tree_shard_selector_def tree_main_account_def
      clock_selector_def config_sel_def membership_sel_def tree_sel_def clock_sel_def)

lemma read_config_iff:
  "read_config E (shard s) \<lparr>pi_registration = R, pi_merkle = M\<rparr> t = Inr c \<longleftrightarrow> has_config E R s t c"
proof -
  have "has_config E R s t c \<Longrightarrow> length (shard s (config_sel E R t)) = CONFIG_STATE_SIZE"
    by (simp add: has_config_def length_enc_config)
  moreover have "has_config E R s t c \<Longrightarrow> shard s (config_sel E R t) \<noteq> []" by (simp add: has_config_def)
  ultimately show ?thesis
    using config_codec.from_slice_iff [of "shard s (config_sel E R t)" c]
    by (auto simp: read_config_def has_config_def result_simps Let_def split: option.splits)
qed

lemma read_membership_iff:
  "read_membership E (shard s) \<lparr>pi_registration = R, pi_merkle = M\<rparr> t c = Inr (Some m) \<longleftrightarrow> has_member E R s t c m"
proof -
  have "has_member E R s t c m \<Longrightarrow> length (shard s (membership_sel E R t c)) = MEMBERSHIP_STATE_SIZE"
    by (simp add: has_member_def length_enc_membership)
  moreover have "has_member E R s t c m \<Longrightarrow> shard s (membership_sel E R t c) \<noteq> []" by (simp add: has_member_def)
  ultimately show ?thesis
    using membership_codec.from_slice_iff [of "shard s (membership_sel E R t c)" m]
    by (auto simp: read_membership_def has_member_def result_simps Let_def split: option.splits)
qed

lemma read_clock_ok:
  assumes "read_clock_ms E (shard s) = Inr now" shows "clock_ok E s now"
  using assms
  by (auto simp: read_clock_ms_def clock_ok_def clock_iff result_simps Let_def split: option.splits)

lemma same_poseidon_rate: "same_poseidon E F \<Longrightarrow> felt_valid E (rate_felt l)"
  by (metis option.distinct(1) same_poseidon_def)

lemma expect_fr_valid: "same_poseidon E F \<Longrightarrow> expect_fr F msg b = Inr x \<Longrightarrow> bytes32 b \<and> felt_valid E b"
  by (auto simp: expect_fr_def bytes_le_to_fr_def same_poseidon_def split: option.splits)

lemma registration_leaf_valid:
  assumes "same_poseidon E F" and "poseidon_canonical E" and "registration_leaf F c l = Inr leaf"
  shows "bytes32 c" and "felt_valid E c" and "leaf = membership_leaf E c l"
proof -
  show "bytes32 c" "felt_valid E c"
    using assms(3) expect_fr_valid [OF assms(1)] by (auto simp: registration_leaf_def result_simps)
  then show "leaf = membership_leaf E c l" using registration_leaf_eq [OF assms(1,2)] assms(3) by simp
qed

text \<open>A found index holds the leaf and is below the next index.\<close>

lemma find_leaf_index_some:
  assumes "tree_ok E d" and "find_leaf_index d leaf = Inr (Some i)"
  shows "i < unat (hdr_next d)" and "tree_leaf d i = leaf"
proof -
  let ?P = "\<lambda>i. i < unat (hdr_next d) \<and> tree_leaf d i = leaf"
  have ex: "\<exists>i. ?P i" and i: "i = (GREATEST i. ?P i)"
    using find_leaf_index_ok [OF assms(1), of leaf] assms(2) by (auto split: if_splits)
  have "?P (GREATEST i. ?P i)"
    using ex by (elim exE) (rule GreatestI_nat [of ?P _ "unat (hdr_next d)"]; simp)
  then show "i < unat (hdr_next d)" "tree_leaf d i = leaf" using i by blast+
qed

text \<open>After an insert, the scan finds the new leaf, newest first.\<close>

lemma find_inserted:
  assumes "poseidon_ok E" and "tree_ok E d" and "bytes32 leaf" and "insert_leaf E d leaf = Inr d1"
  shows "find_leaf_index d1 leaf = Inr (Some (unat (hdr_next d)))"
proof -
  note v = insert_leaf_view [OF assms]
  let ?n = "unat (hdr_next d)"
  have len: "length (tv_leaves (view d1)) = 2 ^ TREE_DEPTH" "length (tv_leaves (view d)) = 2 ^ TREE_DEPTH"
    by simp_all
  have leaf: "tree_leaf d1 ?n = leaf" using v(2,4) view_sel(4) [of ?n d1] len by simp
  have "(GREATEST i. i < unat (hdr_next d1) \<and> tree_leaf d1 i = leaf) = ?n"
    using leaf v(3) by (intro Greatest_equality) auto
  then show ?thesis using leaf v(3) find_leaf_index_ok [OF v(1), of leaf] by auto
qed

section \<open>Registering\<close>

lemma insert_succeeds:
  assumes "poseidon_ok E" and "tree_ok E d" and "node_ok E leaf" and "unat (hdr_next d) < 2 ^ TREE_DEPTH"
  obtains d1 where "insert_leaf E d leaf = Inr d1"
proof -
  have "map_sum id view (insert_leaf E d leaf) = spec_insert E leaf (view d)"
    using insert_leaf_cases [OF assms(1,2)] assms(3) by (simp add: node_ok_def)
  then have "\<exists>v. map_sum id view (insert_leaf E d leaf) = Inr v"
    using assms(3,4) by (simp add: spec_insert_def node_ok_def)
  then show ?thesis using that by (cases "insert_leaf E d leaf") auto
qed

lemma remove_succeeds:
  assumes "poseidon_ok E" and "tree_ok E d" and "unat i < unat (hdr_next d)" and "tree_leaf d (unat i) = leaf"
  obtains d1 where "remove_leaf E d i leaf = Inr d1"
proof -
  have "unat i < 2 ^ TREE_DEPTH" using assms(2,3) by (simp add: tree_ok_def)
  then have "\<exists>v. map_sum id view (remove_leaf E d i leaf) = Inr v"
    using remove_leaf_cases [OF assms(1,2), of i leaf] assms(3,4) by (simp add: spec_remove_def)
  then show ?thesis using that by (cases "remove_leaf E d i leaf") auto
qed

text \<open>
  A request repeats what the client read: its content in terms of the config and the clock then. Whether
  it runs is a matter of the state it meets, which need not be the one it was built from.
\<close>

lemma register_content:
  assumes E: "poseidon_ok E" and F: "same_poseidon E F" and w: "w_chain w = shard s" and cfg: "has_config E R s t cfg"
    and rq: "register_request E F w \<lparr>pi_registration = R, pi_merkle = M\<rparr> t c payer l = Inr (rq, leaf, before)"
  obtains now where "read_clock_ms E (shard s) = Inr now" and "cs_merkle_program_id cfg = M"
    and "find_leaf_index (shard s (tree_sel E R M t)) leaf = Inr before"
    and "bytes32 c" and "felt_valid E c" and "leaf = membership_leaf E c l"
    and "rq_program rq = R" and "rq_signer rq = payer"
    and "rq_selectors rq = [config_sel E R t, tree_sel E R M t, native_balance_selector E payer,
         native_balance_selector E (cs_treasury_account_id cfg), clock_sel E, membership_sel E R t c]"
    and "rq_instruction rq = Register t c l M now (cs_price_per_unit cfg)
         (cs_active_duration_sec cfg) (cs_grace_period_duration_sec cfg)"
proof -
  let ?P = "\<lparr>pi_registration = R, pi_merkle = M\<rparr>" and ?d = "shard s (tree_sel E R M t)"
  from rq obtain config now where r: "registration_leaf F c l = Inr leaf" "read_config E (shard s) ?P t = Inr config"
    "check_merkle_claim config ?P = Inr ()" "read_clock_ms E (shard s) = Inr now" "find_leaf_index ?d leaf = Inr before"
    and q: "rq_program rq = R" "rq_signer rq = payer"
      "rq_selectors rq = [config_sel E R t, tree_sel E R M t, native_balance_selector E payer,
         native_balance_selector E (cs_treasury_account_id config), clock_sel E, membership_sel E R t c]"
      "rq_instruction rq = Register t c l (cs_merkle_program_id config) now (cs_price_per_unit config)
         (cs_active_duration_sec config) (cs_grace_period_duration_sec config)"
    by (auto simp: register_request_def fetch_tree_shard_def w result_simps)
  have config: "config = cfg" using r(2) cfg has_config_unique by (simp add: read_config_iff)
  have M: "cs_merkle_program_id cfg = M" using r(3) by (simp add: check_merkle_claim_def result_simps config)
  have "poseidon_canonical E" using E by (simp add: poseidon_ok_def)
  note v = registration_leaf_valid [OF F this r(1)]
  show ?thesis using that [OF r(4) M r(5) v q(1,2) q(3,4) [unfolded config M]] .
qed

text \<open>The run of a register request whose claims are the config's terms.\<close>

lemma register_runs:
  assumes sep: "separate E R M" and E: "poseidon_ok E" and F: "same_poseidon E F" and ids: "bytes32 t" "bytes32 M"
    and v: "bytes32 c" "felt_valid E c"
    and q: "rq_program rq = R" "rq_signer rq = payer"
      "rq_selectors rq = [config_sel E R t, tree_sel E R M t, native_balance_selector E payer,
         native_balance_selector E (cs_treasury_account_id cfg), clock_sel E, membership_sel E R t c]"
      "rq_instruction rq = Register t c l M now (cs_price_per_unit cfg)
         (cs_active_duration_sec cfg) (cs_grace_period_duration_sec cfg)"
    and cfg: "has_config E R s t cfg" "cs_tree_id cfg = t" "can_register cfg l" "cs_merkle_program_id cfg = M"
    and clock: "clock_ok E s now"
    and l: "MIN_RATE_LIMIT \<le> l" "l \<le> MAX_RATE_LIMIT" and c: "c \<noteq> ZERO"
    and free: "shard s (membership_sel E R t c) = []"
    and tree: "tree_ok E (shard s (tree_sel E R M t))" "unat (hdr_next (shard s (tree_sel E R M t))) < 2 ^ TREE_DEPTH"
  defines "m \<equiv> new_membership c l now (cs_active_duration_sec cfg) (cs_grace_period_duration_sec cfg)"
  obtains d1 where "insert_leaf E (shard s (tree_sel E R M t)) (membership_leaf E c l) = Inr d1"
    and "run_request E R M s rq = Inr (s(config_sel E R t \<mapsto> enc_config (counted cfg l),
      membership_sel E R t c \<mapsto> enc_membership m, tree_sel E R M t \<mapsto> d1))"
    and "membership_sel E R t c \<noteq> config_sel E R t" and "membership_ok m"
proof -
  let ?d = "shard s (tree_sel E R M t)"
  have pc: "poseidon_canonical E" using E by (simp add: poseidon_ok_def)
  have node: "node_ok E (membership_leaf E c l)" using E by (simp add: membership_leaf_def poseidon_compress2)
  obtain d1 where ins: "insert_leaf E ?d (membership_leaf E c l) = Inr d1" using insert_succeeds [OF E tree(1) node tree(2)] .
  have ne: "membership_sel E R t c \<noteq> config_sel E R t" using free cfg(1) by (auto simp: has_config_def)
  let ?s1 = "s(config_sel E R t \<mapsto> enc_config (counted cfg l), membership_sel E R t c \<mapsto> enc_membership m)"
  let ?s' = "?s1(tree_sel E R M t \<mapsto> d1)"
  have call: "tree_called E R M M t (MInsert (membership_leaf E c l)) ?s1 ?s'"
    using ins sep by (auto simp: tree_called_def merkle_run_def)
  have "run_request E R M s rq = Inr ?s'"
    unfolding run_request_def numeral_2_eq_2 q
    by (subst tx_register [OF sep pc])
      (use cfg ids v l c call [unfolded m_def] free ne clock same_poseidon_rate [OF F] in
        \<open>auto simp: metas_of_def q meta_selector_def native_balance_selector_def m_def\<close>)
  then show ?thesis using that ins ne v(1) by (simp add: m_def membership_ok_def new_membership_def)
qed

text \<open>What such a run leaves: the member, the count, and the leaf where the client's wait finds it.\<close>

lemma register_leaves:
  assumes sep: "separate E R M" and E: "poseidon_ok E" and cfg: "has_config E R s t cfg"
    and tree: "tree_ok E (shard s (tree_sel E R M t))"
    and ins: "insert_leaf E (shard s (tree_sel E R M t)) (membership_leaf E c l) = Inr d1"
    and ne: "membership_sel E R t c \<noteq> config_sel E R t" and m: "membership_ok m"
    and before: "\<And>old. before = Some old \<Longrightarrow> old < unat (hdr_next (shard s (tree_sel E R M t)))"
  defines "s' \<equiv> s(config_sel E R t \<mapsto> enc_config (counted cfg l), membership_sel E R t c \<mapsto> enc_membership m, tree_sel E R M t \<mapsto> d1)"
  shows "has_member E R s' t c m" and "has_config E R s' t (counted cfg l)"
    and "landed (membership_leaf E c l) before (shard s' (tree_sel E R M t)) = Inr (Some (unat (hdr_next (shard s (tree_sel E R M t)))))"
proof -
  show "has_member E R s' t c m" using m sep by (simp add: has_member_def s'_def)
  show "has_config E R s' t (counted cfg l)" using cfg ne sep by (auto simp: has_config_def s'_def)
  have "bytes32 (membership_leaf E c l)" using E by (simp add: poseidon_ok_def membership_leaf_ok)
  then show "landed (membership_leaf E c l) before (shard s' (tree_sel E R M t)) = Inr (Some (unat (hdr_next (shard s (tree_sel E R M t)))))"
    using find_inserted [OF E tree _ ins] before by (auto simp: landed_def s'_def split: option.splits)
qed

lemma register_accepted:
  assumes sep: "separate E R M" and E: "poseidon_ok E" and F: "same_poseidon E F"
    and w: "w_chain w = shard s" and ids: "bytes32 t" "bytes32 M"
    and rq: "register_request E F w \<lparr>pi_registration = R, pi_merkle = M\<rparr> t c payer l = Inr (rq, leaf, before)"
    and cfg: "has_config E R s t cfg" "cs_tree_id cfg = t" "can_register cfg l"
    and l: "MIN_RATE_LIMIT \<le> l" "l \<le> MAX_RATE_LIMIT" and c: "c \<noteq> ZERO"
    and free: "shard s (membership_sel E R t c) = []"
    and tree: "tree_ok E (shard s (tree_sel E R M t))" "unat (hdr_next (shard s (tree_sel E R M t))) < 2 ^ TREE_DEPTH"
  obtains s' now where "run_request E R M s rq = Inr s'"
    and "has_member E R s' t c (new_membership c l now (cs_active_duration_sec cfg) (cs_grace_period_duration_sec cfg))"
    and "has_config E R s' t (counted cfg l)"
    and "landed leaf before (shard s' (tree_sel E R M t)) = Inr (Some (unat (hdr_next (shard s (tree_sel E R M t)))))"
proof (rule register_content [OF E F w cfg(1) rq])
  fix now
  assume clock: "read_clock_ms E (shard s) = Inr now" and M: "cs_merkle_program_id cfg = M"
    and at: "find_leaf_index (shard s (tree_sel E R M t)) leaf = Inr before"
    and v: "bytes32 c" "felt_valid E c" "leaf = membership_leaf E c l"
    and q: "rq_program rq = R" "rq_signer rq = payer"
      "rq_selectors rq = [config_sel E R t, tree_sel E R M t, native_balance_selector E payer,
         native_balance_selector E (cs_treasury_account_id cfg), clock_sel E, membership_sel E R t c]"
      "rq_instruction rq = Register t c l M now (cs_price_per_unit cfg)
         (cs_active_duration_sec cfg) (cs_grace_period_duration_sec cfg)"
  obtain d1 where r: "insert_leaf E (shard s (tree_sel E R M t)) (membership_leaf E c l) = Inr d1"
    "run_request E R M s rq = Inr (s(config_sel E R t \<mapsto> enc_config (counted cfg l), membership_sel E R t c \<mapsto>
      enc_membership (new_membership c l now (cs_active_duration_sec cfg) (cs_grace_period_duration_sec cfg)), tree_sel E R M t \<mapsto> d1))"
    "membership_sel E R t c \<noteq> config_sel E R t"
    "membership_ok (new_membership c l now (cs_active_duration_sec cfg) (cs_grace_period_duration_sec cfg))"
    by (rule register_runs [OF sep E F ids v(1,2) q cfg M read_clock_ok [OF clock] l c free tree])
  have "old < unat (hdr_next (shard s (tree_sel E R M t)))" if "before = Some old" for old
    using find_leaf_index_some(1) [OF tree(1)] at that by simp
  note x = register_leaves [OF sep E cfg(1) tree(1) r(1,3,4) this]
  show ?thesis by (rule that [OF r(2) x(1,2) x(3) [folded v(3)]])
qed

section \<open>Erasing, slashing, extending\<close>

text \<open>The leaf of a member is at an index of the tree.\<close>

definition leaf_at :: "external \<Rightarrow> account_id \<Rightarrow> account_id \<Rightarrow> shards \<Rightarrow> bytes \<Rightarrow> bytes \<Rightarrow> u64 \<Rightarrow> nat \<Rightarrow> bool" where
  "leaf_at E R M s t c l i \<longleftrightarrow>
     i < unat (hdr_next (shard s (tree_sel E R M t))) \<and> tree_leaf (shard s (tree_sel E R M t)) i = membership_leaf E c l"

lemma located_leaf:
  assumes F: "same_poseidon E F" and E: "poseidon_ok E" and tree: "tree_ok E (shard s (tree_sel E R M t))"
    and loc: "locate_membership_leaf E F (shard s) \<lparr>pi_registration = R, pi_merkle = M\<rparr> t m = Inr i"
  shows "leaf_at E R M s t (ms_id_commitment m) (ms_rate_limit m) i" and "felt_valid E (ms_id_commitment m)"
proof -
  have pc: "poseidon_canonical E" using E by (simp add: poseidon_ok_def)
  from loc obtain leaf where r: "registration_leaf F (ms_id_commitment m) (ms_rate_limit m) = Inr leaf"
    "find_leaf_index (shard s (tree_sel E R M t)) leaf = Inr (Some i)"
    by (auto simp: locate_membership_leaf_def fetch_tree_shard_def result_simps split: option.splits)
  note v = registration_leaf_valid [OF F pc r(1)]
  show "leaf_at E R M s t (ms_id_commitment m) (ms_rate_limit m) i"
    using find_leaf_index_some [OF tree r(2)] v(3) by (simp add: leaf_at_def)
  show "felt_valid E (ms_id_commitment m)" by (rule v(2))
qed

lemma leaf_at_index:
  "tree_ok E (shard s (tree_sel E R M t)) \<Longrightarrow> leaf_at E R M s t c l i \<Longrightarrow> i < 2 ^ TREE_DEPTH \<and> unat (word_of_nat i :: u64) = i"
  by (simp add: leaf_at_def tree_ok_def TREE_DEPTH_def unat_of_nat)

lemma leaf_at_removable:
  assumes "poseidon_ok E" and "tree_ok E (shard s (tree_sel E R M t))" and "leaf_at E R M s t c l i"
  obtains d1 where "remove_leaf E (shard s (tree_sel E R M t)) (word_of_nat i) (membership_leaf E c l) = Inr d1"
  using remove_succeeds [OF assms(1,2), of "word_of_nat i" "membership_leaf E c l"] leaf_at_index [OF assms(2,3)] assms(3)
  by (auto simp: leaf_at_def)

lemma removed_member:
  fixes l :: u64
  assumes sep: "separate E R M" and cfg: "has_config E R s t cfg" and ne: "membership_sel E R t c \<noteq> config_sel E R t"
    and E: "poseidon_ok E" and tree: "tree_ok E (shard s (tree_sel E R M t))"
    and at: "leaf_at E R M s t c l i"
    and del: "remove_leaf E (shard s (tree_sel E R M t)) (word_of_nat i) (membership_leaf E c l) = Inr d1"
  defines "s' \<equiv> s(config_sel E R t \<mapsto> enc_config (released cfg l), membership_sel E R t c \<mapsto> [], tree_sel E R M t \<mapsto> d1)"
  shows "shard s' (membership_sel E R t c) = []" and "has_config E R s' t (released cfg l)"
    and "tree_leaf (shard s' (tree_sel E R M t)) i = ZERO"
proof -
  show "shard s' (membership_sel E R t c) = []" using sep by (simp add: s'_def)
  show "has_config E R s' t (released cfg l)" using cfg ne sep by (auto simp: has_config_def s'_def)
  note i = leaf_at_index [OF tree at]
  have "tv_leaves (view d1) ! i = ZERO" using remove_leaf_view(5) [OF E tree del] i by simp
  then show "tree_leaf (shard s' (tree_sel E R M t)) i = ZERO" using i by (simp add: s'_def)
qed

text \<open>What a removal leaves: no membership, its share of the counters given back, its leaf zeroed.\<close>

definition removed_from :: "external \<Rightarrow> account_id \<Rightarrow> account_id \<Rightarrow> bytes \<Rightarrow> bytes \<Rightarrow> config_state \<Rightarrow> u64 \<Rightarrow> shards \<Rightarrow> shards \<Rightarrow> bool" where
  "removed_from E R M t c cfg l s s' \<longleftrightarrow>
     shard s' (membership_sel E R t c) = [] \<and> has_config E R s' t (released cfg l) \<and>
     (\<exists>i. tree_leaf (shard s (tree_sel E R M t)) i = membership_leaf E c l \<and>
        tree_leaf (shard s' (tree_sel E R M t)) i = ZERO)"

lemma erase_content:
  assumes E: "poseidon_ok E" and F: "same_poseidon E F" and w: "w_chain w = shard s"
    and rq: "erase_request E F w \<lparr>pi_registration = R, pi_merkle = M\<rparr> t c payer = Inr rq"
    and cfg: "has_config E R s t cfg" and mem: "has_member E R s t c m" "ms_id_commitment m = c"
    and tree: "tree_ok E (shard s (tree_sel E R M t))"
  obtains i now where "read_clock_ms E (shard s) = Inr now" and "cs_merkle_program_id cfg = M" and "bytes32 c" and "felt_valid E c"
    and "leaf_at E R M s t c (ms_rate_limit m) i" and "rq_program rq = R"
    and "rq_selectors rq = [config_sel E R t, tree_sel E R M t, membership_sel E R t c, clock_sel E]"
    and "rq_instruction rq = Erase t c M (word_of_nat i) (ms_rate_limit m) now"
proof -
  let ?P = "\<lparr>pi_registration = R, pi_merkle = M\<rparr>"
  from rq obtain config x membership i now where r: "expect_fr F ''id_commitment is not a valid BN254 field element'' c = Inr x"
    "read_config E (shard s) ?P t = Inr config"
    "check_merkle_claim config ?P = Inr ()" "read_membership E (shard s) ?P t c = Inr (Some membership)"
    "locate_membership_leaf E F (shard s) ?P t membership = Inr i" "read_clock_ms E (shard s) = Inr now"
    and q: "rq_program rq = R"
      "rq_selectors rq = [config_sel E R t, tree_sel E R M t, membership_sel E R t c, clock_sel E]"
      "rq_instruction rq = Erase t c (cs_merkle_program_id config) (word_of_nat i) (ms_rate_limit membership) now"
    by (auto simp: erase_request_def w result_simps split: option.splits)
  have config: "config = cfg" using r(2) cfg has_config_unique by (simp add: read_config_iff)
  have M: "cs_merkle_program_id cfg = M" using r(3) by (simp add: check_merkle_claim_def result_simps config)
  have m: "membership = m" using r(4) mem(1) has_member_unique by (simp add: read_membership_iff)
  have "bytes32 c" using expect_fr_valid [OF F r(1)] by simp
  then show ?thesis
    using that [OF r(6) M _ _ _ q(1,2) q(3) [unfolded config M m]] located_leaf [OF F E tree r(5) [unfolded m]] mem(2) by simp
qed

lemma erase_runs:
  assumes sep: "separate E R M" and E: "poseidon_ok E" and F: "same_poseidon E F" and ids: "bytes32 t" "bytes32 M"
    and v: "bytes32 c" "felt_valid E c"
    and q: "rq_program rq = R"
      "rq_selectors rq = [config_sel E R t, tree_sel E R M t, membership_sel E R t c, clock_sel E]"
      "rq_instruction rq = Erase t c M (word_of_nat i) (ms_rate_limit m) now"
    and cfg: "has_config E R s t cfg" "cs_tree_id cfg = t" "cs_merkle_program_id cfg = M"
    and mem: "has_member E R s t c m" "ms_id_commitment m = c"
    and clock: "clock_ok E s now"
    and expired: "is_expired (ms_grace_period_start_timestamp_ms m) (secs_to_millis (ms_grace_period_duration_sec m)) now"
    and tree: "tree_ok E (shard s (tree_sel E R M t))" and at: "leaf_at E R M s t c (ms_rate_limit m) i"
  obtains s' where "run_request E R M s rq = Inr s'" and "removed_from E R M t c cfg (ms_rate_limit m) s s'"
proof -
  have pc: "poseidon_canonical E" using E by (simp add: poseidon_ok_def)
  have ne: "membership_sel E R t c \<noteq> config_sel E R t"
    using mem(1) cfg(1) enc_config_membership by (auto simp: has_config_def has_member_def)
  obtain d1 where del: "remove_leaf E (shard s (tree_sel E R M t)) (word_of_nat i) (membership_leaf E c (ms_rate_limit m)) = Inr d1"
    by (rule leaf_at_removable [OF E tree at])
  let ?s1 = "s(config_sel E R t \<mapsto> enc_config (released cfg (ms_rate_limit m)), membership_sel E R t c \<mapsto> [])"
  let ?s' = "?s1(tree_sel E R M t \<mapsto> d1)"
  have call: "tree_called E R M M t (MRemove (word_of_nat i) (membership_leaf E c (ms_rate_limit m))) ?s1 ?s'"
    using del sep by (auto simp: tree_called_def merkle_run_def)
  have "run_request E R M s rq = Inr ?s'"
    unfolding run_request_def numeral_2_eq_2 q
    by (subst tx_erase [OF sep pc])
      (use cfg ids v mem call ne expired clock same_poseidon_rate [OF F] in
        \<open>auto simp: metas_of_def q meta_selector_def\<close>)
  moreover have "removed_from E R M t c cfg (ms_rate_limit m) s ?s'"
    using removed_member [OF sep cfg(1) ne E tree at del] at by (auto simp: removed_from_def leaf_at_def)
  ultimately show ?thesis by (rule that)
qed

lemma slash_content:
  assumes E: "poseidon_ok E" and F: "same_poseidon E F" and w: "w_chain w = shard s"
    and rq: "slash_request E F w \<lparr>pi_registration = R, pi_merkle = M\<rparr> t secret c payer = Inr rq"
    and cfg: "has_config E R s t cfg" and mem: "has_member E R s t c m" "ms_id_commitment m = c"
    and tree: "tree_ok E (shard s (tree_sel E R M t))"
  obtains i where "cs_merkle_program_id cfg = M" and "bytes32 secret" and "felt_valid E secret" and "felt_valid E c"
    and "leaf_at E R M s t c (ms_rate_limit m) i" and "rq_program rq = R"
    and "rq_selectors rq = [config_sel E R t, tree_sel E R M t, membership_sel E R t c]"
    and "rq_instruction rq = Slash t c secret M (word_of_nat i) (ms_rate_limit m)"
proof -
  let ?P = "\<lparr>pi_registration = R, pi_merkle = M\<rparr>"
  from rq obtain config x membership i where r: "expect_fr F ''identity_secret is not a valid BN254 field element'' secret = Inr x"
    "read_config E (shard s) ?P t = Inr config"
    "check_merkle_claim config ?P = Inr ()" "read_membership E (shard s) ?P t c = Inr (Some membership)"
    "locate_membership_leaf E F (shard s) ?P t membership = Inr i"
    and q: "rq_program rq = R"
      "rq_selectors rq = [config_sel E R t, tree_sel E R M t, membership_sel E R t c]"
      "rq_instruction rq = Slash t c secret (cs_merkle_program_id config) (word_of_nat i) (ms_rate_limit membership)"
    by (auto simp: slash_request_def w result_simps split: option.splits)
  have config: "config = cfg" using r(2) cfg has_config_unique by (simp add: read_config_iff)
  have M: "cs_merkle_program_id cfg = M" using r(3) by (simp add: check_merkle_claim_def result_simps config)
  have m: "membership = m" using r(4) mem(1) has_member_unique by (simp add: read_membership_iff)
  have v: "bytes32 secret" "felt_valid E secret" using expect_fr_valid [OF F r(1)] by simp_all
  show ?thesis
    using that [OF M v _ _ q(1,2) q(3) [unfolded config M m]] located_leaf [OF F E tree r(5) [unfolded m]] mem(2) by simp
qed

lemma slash_runs:
  assumes sep: "separate E R M" and E: "poseidon_ok E" and F: "same_poseidon E F" and ids: "bytes32 t" "bytes32 M" "bytes32 c"
    and v: "bytes32 secret" "felt_valid E secret" "felt_valid E c" and secret: "compress1 E secret = c"
    and q: "rq_program rq = R" "rq_selectors rq = [config_sel E R t, tree_sel E R M t, membership_sel E R t c]"
      "rq_instruction rq = Slash t c secret M (word_of_nat i) (ms_rate_limit m)"
    and cfg: "has_config E R s t cfg" "cs_tree_id cfg = t" "cs_merkle_program_id cfg = M"
    and mem: "has_member E R s t c m" "ms_id_commitment m = c"
    and tree: "tree_ok E (shard s (tree_sel E R M t))" and at: "leaf_at E R M s t c (ms_rate_limit m) i"
  obtains s' where "run_request E R M s rq = Inr s'" and "removed_from E R M t c cfg (ms_rate_limit m) s s'"
proof -
  have pc: "poseidon_canonical E" using E by (simp add: poseidon_ok_def)
  have ne: "membership_sel E R t c \<noteq> config_sel E R t"
    using mem(1) cfg(1) enc_config_membership by (auto simp: has_config_def has_member_def)
  obtain d1 where del: "remove_leaf E (shard s (tree_sel E R M t)) (word_of_nat i) (membership_leaf E c (ms_rate_limit m)) = Inr d1"
    by (rule leaf_at_removable [OF E tree at])
  let ?s1 = "s(config_sel E R t \<mapsto> enc_config (released cfg (ms_rate_limit m)), membership_sel E R t c \<mapsto> [])"
  let ?s' = "?s1(tree_sel E R M t \<mapsto> d1)"
  have call: "tree_called E R M M t (MRemove (word_of_nat i) (membership_leaf E c (ms_rate_limit m))) ?s1 ?s'"
    using del sep by (auto simp: tree_called_def merkle_run_def)
  have "run_request E R M s rq = Inr ?s'"
    unfolding run_request_def numeral_2_eq_2 q
    by (subst tx_slash [OF sep pc])
      (use cfg ids v mem call ne secret same_poseidon_rate [OF F] in \<open>auto simp: metas_of_def q meta_selector_def\<close>)
  moreover have "removed_from E R M t c cfg (ms_rate_limit m) s ?s'"
    using removed_member [OF sep cfg(1) ne E tree at del] at by (auto simp: removed_from_def leaf_at_def)
  ultimately show ?thesis by (rule that)
qed

lemma extend_content:
  assumes F: "same_poseidon E F" and w: "w_chain w = shard s"
    and rq: "extend_request E F w \<lparr>pi_registration = R, pi_merkle = M\<rparr> t c payer = Inr rq"
    and cfg: "has_config E R s t cfg" and mem: "has_member E R s t c m"
  obtains now where "read_clock_ms E (shard s) = Inr now" and "bytes32 c" and "rq_program rq = R" and "rq_signer rq = payer"
    and "rq_selectors rq = [config_sel E R t, membership_sel E R t c, native_balance_selector E payer,
         native_balance_selector E (cs_treasury_account_id cfg), clock_sel E]"
    and "rq_instruction rq = Extend t c now (cs_price_per_unit cfg) (ms_rate_limit m)"
proof -
  let ?P = "\<lparr>pi_registration = R, pi_merkle = M\<rparr>"
  from rq obtain config x membership now where r: "expect_fr F ''id_commitment is not a valid BN254 field element'' c = Inr x"
    "read_config E (shard s) ?P t = Inr config" "read_membership E (shard s) ?P t c = Inr (Some membership)"
    "read_clock_ms E (shard s) = Inr now"
    and q: "rq_program rq = R" "rq_signer rq = payer"
      "rq_selectors rq = [config_sel E R t, membership_sel E R t c, native_balance_selector E payer,
         native_balance_selector E (cs_treasury_account_id config), clock_sel E]"
      "rq_instruction rq = Extend t c now (cs_price_per_unit config) (ms_rate_limit membership)"
    by (auto simp: extend_request_def w result_simps split: option.splits)
  have config: "config = cfg" using r(2) cfg has_config_unique by (simp add: read_config_iff)
  have m: "membership = m" using r(3) mem has_member_unique by (simp add: read_membership_iff)
  have v: "bytes32 c" using expect_fr_valid [OF F r(1)] by simp
  show ?thesis using that [OF r(4) v q(1,2) q(3,4) [unfolded config m]] .
qed

lemma extend_runs:
  assumes sep: "separate E R M" and ids: "bytes32 t" "bytes32 c"
    and q: "rq_program rq = R" "rq_signer rq = payer"
      "rq_selectors rq = [config_sel E R t, membership_sel E R t c, native_balance_selector E payer,
         native_balance_selector E (cs_treasury_account_id cfg), clock_sel E]"
      "rq_instruction rq = Extend t c now (cs_price_per_unit cfg) (ms_rate_limit m)"
    and cfg: "has_config E R s t cfg" "cs_tree_id cfg = t" and mem: "has_member E R s t c m" and clock: "clock_ok E s now"
    and grace: "is_in_grace_period (ms_grace_period_start_timestamp_ms m) (secs_to_millis (ms_grace_period_duration_sec m)) now"
  obtains s' where "run_request E R M s rq = Inr s'" and "has_member E R s' t c (renewed m)"
proof -
  let ?s' = "s(membership_sel E R t c \<mapsto> enc_membership (renewed m))"
  have "run_request E R M s rq = Inr ?s'"
    unfolding run_request_def numeral_2_eq_2 q
    by (subst tx_extend [OF sep])
      (use cfg ids mem grace clock in \<open>auto simp: metas_of_def q meta_selector_def native_balance_selector_def\<close>)
  moreover have "has_member E R ?s' t c (renewed m)" using mem by (simp add: has_member_def)
  ultimately show ?thesis by (rule that)
qed

text \<open>At the clock the client read, a fact about every written time is one about the claimed time.\<close>

lemma read_clock_time:
  "read_clock_ms E (shard s) = Inr now \<Longrightarrow> clock_timestamp E (shard s (clock_sel E)) = Some now"
  by (auto simp: read_clock_ms_def result_simps Let_def split: option.splits)

section \<open>Requests in a state of a run\<close>

lemma found_tree_not_Nil: "find_leaf_index d leaf = Inr r \<Longrightarrow> d \<noteq> []"
  by (auto simp: find_leaf_index_def ParsedTreeMain_from_bytes_def check_tree_shard_def result_simps offset_tree_data)

lemma reached_registry:
  assumes "separate E R M" and "poseidon_ok E" and "no_collision E R T C" and "t \<in> T" and "reachable E R M T C s"
    and "has_config E R s t cfg" and "cs_merkle_program_id cfg = M"
  shows "cs_tree_id cfg = t"
    and "shard s (tree_sel E R M t) \<noteq> [] \<Longrightarrow> tree_ok E (shard s (tree_sel E R M t))"
    and "c \<in> C \<Longrightarrow> has_member E R s t c m \<Longrightarrow> ms_id_commitment m = c"
proof -
  note ok = registry_okE [OF reachable_ok [OF assms(1-5)] assms(6,7)]
  show "cs_tree_id cfg = t" by (rule ok(1))
  show "shard s (tree_sel E R M t) \<noteq> [] \<Longrightarrow> tree_ok E (shard s (tree_sel E R M t))"
    using ok(3) by (simp add: tree_matches_def Let_def)
  assume c: "c \<in> C" and m: "has_member E R s t c m"
  then have "c \<in> live E R C s t" by (auto simp: live_def has_member_def)
  then show "ms_id_commitment m = c" using ok(2) member_good_has [OF m] by (auto simp: counts_match_def)
qed

lemma request_merkle:
  assumes "has_config E R s t cfg" and "read_config E (shard s) \<lparr>pi_registration = R, pi_merkle = M\<rparr> t = Inr config"
    and "check_merkle_claim config \<lparr>pi_registration = R, pi_merkle = M\<rparr> = Inr u"
  shows "cs_merkle_program_id cfg = M"
  using assms has_config_unique by (fastforce simp: read_config_iff check_merkle_claim_def result_simps)

lemma located_tree:
  "locate_membership_leaf E F (shard s) \<lparr>pi_registration = R, pi_merkle = M\<rparr> t m = Inr i \<Longrightarrow> shard s (tree_sel E R M t) \<noteq> []"
  using found_tree_not_Nil
  by (fastforce simp: locate_membership_leaf_def fetch_tree_shard_def result_simps split: option.splits)

text \<open>The registry a request was built from: its config names the merkle program, and its tree is consistent.\<close>

lemma register_request_registry:
  assumes "register_request E F w \<lparr>pi_registration = R, pi_merkle = M\<rparr> t c payer l = Inr (rq, leaf, before)"
    and "w_chain w = shard s" and "has_config E R s t cfg"
  shows "cs_merkle_program_id cfg = M" and "shard s (tree_sel E R M t) \<noteq> []"
proof -
  have "\<exists>config u. read_config E (shard s) \<lparr>pi_registration = R, pi_merkle = M\<rparr> t = Inr config \<and>
      check_merkle_claim config \<lparr>pi_registration = R, pi_merkle = M\<rparr> = Inr u" and
    found: "find_leaf_index (shard s (tree_sel E R M t)) leaf = Inr before"
    using assms(1,2) by (auto simp: register_request_def fetch_tree_shard_def result_simps)
  then show "cs_merkle_program_id cfg = M" using request_merkle [OF assms(3)] by blast
  show "shard s (tree_sel E R M t) \<noteq> []" by (rule found_tree_not_Nil [OF found])
qed

lemma erase_request_registry:
  assumes "erase_request E F w \<lparr>pi_registration = R, pi_merkle = M\<rparr> t c payer = Inr rq"
    and "w_chain w = shard s" and "has_config E R s t cfg"
  shows "cs_merkle_program_id cfg = M" and "shard s (tree_sel E R M t) \<noteq> []"
proof -
  from assms(1,2) obtain config u mem i where "read_config E (shard s) \<lparr>pi_registration = R, pi_merkle = M\<rparr> t = Inr config"
    and "check_merkle_claim config \<lparr>pi_registration = R, pi_merkle = M\<rparr> = Inr u"
    and "locate_membership_leaf E F (shard s) \<lparr>pi_registration = R, pi_merkle = M\<rparr> t mem = Inr i"
    by (auto simp: erase_request_def result_simps split: option.splits)
  then show "cs_merkle_program_id cfg = M" "shard s (tree_sel E R M t) \<noteq> []"
    using request_merkle [OF assms(3)] located_tree by blast+
qed

lemma slash_request_registry:
  assumes "slash_request E F w \<lparr>pi_registration = R, pi_merkle = M\<rparr> t secret c payer = Inr rq"
    and "w_chain w = shard s" and "has_config E R s t cfg"
  shows "cs_merkle_program_id cfg = M" and "shard s (tree_sel E R M t) \<noteq> []"
proof -
  from assms(1,2) obtain config u mem i where "read_config E (shard s) \<lparr>pi_registration = R, pi_merkle = M\<rparr> t = Inr config"
    and "check_merkle_claim config \<lparr>pi_registration = R, pi_merkle = M\<rparr> = Inr u"
    and "locate_membership_leaf E F (shard s) \<lparr>pi_registration = R, pi_merkle = M\<rparr> t mem = Inr i"
    by (auto simp: slash_request_def result_simps split: option.splits)
  then show "cs_merkle_program_id cfg = M" "shard s (tree_sel E R M t) \<noteq> []"
    using request_merkle [OF assms(3)] located_tree by blast+
qed

end
