(* ===== verification/TreeProperties.thy ===== *)
theory TreeProperties
  imports Instances ProofCircuit Runtime
begin

text \<open>
  The properties of the tree program and of the proofs the host builds from its shard, each with a
  witness on the instance of \<open>Instances\<close>.
\<close>

section \<open>Library\<close>

text \<open>A tree instruction that succeeds on a consistent shard keeps it consistent and pushes the old root.\<close>

lemma spec_history:
  "spec_insert E leaf v = Inr v1 \<Longrightarrow> tv_history v1 = spec_root E v # take 3 (tv_history v)"
  "spec_remove E i leaf v = Inr v1 \<Longrightarrow> tv_history v1 = spec_root E v # take 3 (tv_history v)"
  "spec_set E i leaf v = Inr v1 \<Longrightarrow> tv_history v1 = spec_root E v # take 3 (tv_history v)"
  by (auto simp: spec_insert_def spec_remove_def spec_set_def spec_put_def split: if_splits)

lemma merkle_run_history:
  assumes E: "poseidon_ok E" and ok: "tree_ok E d" and ix: "merkle_instruction_ok ix" and run: "merkle_run E ix d = Inr d1"
  shows "tree_ok E d1" and "hdr_history d1 = hdr_root d # take 3 (hdr_history d)"
proof -
  have root: "hdr_root d = spec_root E (view d)" using tree_ok_root [OF ok] by (simp add: spec_root_view)
  have "tree_ok E d1 \<and> tv_history (view d1) = spec_root E (view d) # take 3 (tv_history (view d))"
  proof (cases ix)
    case MInitialize
    then show ?thesis using run ok by (auto simp: merkle_run_def initialize_tree_def check_def tree_ok_def header_ok_def split: if_splits)
  next
    case (MInsert leaf)
    then have r: "insert_leaf E d leaf = Inr d1" and "bytes32 leaf" using run ix by (simp_all add: merkle_run_def)
    with insert_leaf_cases [OF E ok, of leaf] show ?thesis
      by (metis id_apply map_sum.simps(2) spec_history(1))
  next
    case (MRemove i leaf)
    then have r: "remove_leaf E d i leaf = Inr d1" using run by (simp add: merkle_run_def)
    with remove_leaf_cases [OF E ok, of i leaf] show ?thesis
      by (metis id_apply map_sum.simps(2) spec_history(2))
  next
    case (MSet i leaf)
    then have r: "set_leaf E d i leaf = Inr d1" and "bytes32 leaf" using run ix by (simp_all add: merkle_run_def)
    with set_leaf_cases [OF E ok, of leaf i] show ?thesis
      by (metis id_apply map_sum.simps(2) spec_history(3))
  qed
  then show "tree_ok E d1" "hdr_history d1 = hdr_root d # take 3 (hdr_history d)" by (simp_all add: root)
qed

text \<open>After \<open>k\<close> operations, a root is \<open>k\<close> places down.\<close>

definition roots_of :: "bytes \<Rightarrow> bytes list" where
  "roots_of d = hdr_root d # hdr_history d"

lemma length_history [simp]: "length (hdr_history d) = 4"
  by (simp add: hdr_history_def ROOT_HISTORY_SIZE_def)

lemma run_roots:
  assumes E: "poseidon_ok E"
  shows "tree_ok E d \<Longrightarrow> list_all merkle_instruction_ok ixs \<Longrightarrow> rfold (\<lambda>d ix. merkle_run E ix d) d ixs = Inr d' \<Longrightarrow>
    tree_ok E d' \<and> (\<forall>k. k + length ixs < 5 \<longrightarrow> roots_of d' ! (k + length ixs) = roots_of d ! k)"
proof (induction ixs arbitrary: d)
  case Nil
  then show ?case by simp
next
  case (Cons ix ixs)
  from Cons.prems obtain d1 where r: "merkle_run E ix d = Inr d1" "rfold (\<lambda>d ix. merkle_run E ix d) d1 ixs = Inr d'"
    by (auto simp: result_simps)
  have ix: "merkle_instruction_ok ix" "list_all merkle_instruction_ok ixs" using Cons.prems(2) by simp_all
  note h = merkle_run_history [OF E Cons.prems(1) ix(1) r(1)]
  note IH = Cons.IH [OF h(1) ix(2) r(2)]
  have one: "roots_of d1 ! Suc k = roots_of d ! k" if "Suc k < 5" for k
    using that by (cases k) (simp_all add: roots_of_def h(2))
  have "roots_of d' ! (k + length (ix # ixs)) = roots_of d ! k" if "k + length (ix # ixs) < 5" for k
    using IH [THEN conjunct2, rule_format, of "Suc k"] one [of k] that by simp
  then show ?case using IH by blast
qed

text \<open>What the host accepts: the root, and the history without its unwritten entries.\<close>

lemma fetch_root_history_ok:
  assumes "tree_ok E (chain (tree_sel E R M t))"
  shows "fetch_root_history E chain \<lparr>pi_registration = R, pi_merkle = M\<rparr> t =
    Inr (hdr_root (chain (tree_sel E R M t)) # filter (\<lambda>r. r \<noteq> ZERO) (hdr_history (chain (tree_sel E R M t))))"
proof -
  have "header_ok (chain (tree_sel E R M t))" using assms by (simp add: tree_ok_def)
  then show ?thesis
    by (simp add: fetch_root_history_def fetch_tree_shard_def tree_shard_selector_def tree_main_account_def
        parsed_ok ZERO_def flip: tree_sel_def)
qed

lemma root_still_accepted:
  assumes E: "poseidon_ok E" and d: "tree_ok E d" and ixs: "list_all merkle_instruction_ok ixs" "length ixs \<le> 4"
    and run: "rfold (\<lambda>d ix. merkle_run E ix d) d ixs = Inr d'" and nz: "hdr_root d \<noteq> ZERO"
    and chain: "chain (tree_sel E R M t) = d'"
  obtains roots where "fetch_root_history E chain \<lparr>pi_registration = R, pi_merkle = M\<rparr> t = Inr roots" and "hdr_root d \<in> set roots"
proof -
  note r = run_roots [OF E d ixs(1) run]
  have "roots_of d' ! length ixs = hdr_root d" using r ixs(2) by (auto simp: roots_of_def dest: spec [of _ 0])
  then have "hdr_root d \<in> set (roots_of d')" using ixs(2) by (metis Suc_eq_plus1 le_imp_less_Suc length_Cons length_history nth_mem roots_of_def)
  then show ?thesis
    using fetch_root_history_ok [of E chain R M t] r nz chain by (intro that) (auto simp: roots_of_def)
qed

text \<open>Removing the leaf just inserted gives the leaves and the root back.\<close>

lemma remove_inserted:
  assumes E: "poseidon_ok E" and ok: "tree_ok E d" and b: "bytes32 leaf" and ins: "insert_leaf E d leaf = Inr d1"
  obtains d2 where "remove_leaf E d1 (hdr_next d) leaf = Inr d2" and "tv_leaves (view d2) = tv_leaves (view d)"
    and "hdr_root d2 = hdr_root d" and "unat (hdr_next d2) = unat (hdr_next d) + 1"
proof -
  let ?n = "unat (hdr_next d)"
  note cases = insert_leaf_cases [OF E ok b]
  have ok1: "tree_ok E d1" using cases ins by blast
  have v1: "Inr (view d1) = spec_insert E leaf (view d)" using cases ins by simp
  have v: "view d1 = (spec_put E ?n leaf (view d))\<lparr>tv_next := ?n + 1\<rparr>" and lt: "?n < 2 ^ TREE_DEPTH"
    using v1 ok by (auto simp: spec_insert_def tree_ok_def split: if_splits)
  have at: "tv_leaves (view d1) ! ?n = leaf" using v lt by (simp add: spec_put_def)
  have "map_sum id view (remove_leaf E d1 (hdr_next d) leaf) = Inr (spec_put E ?n ZERO (view d1))"
    using remove_leaf_cases [OF E ok1, of "hdr_next d" leaf] at by (simp add: spec_remove_def v)
  then obtain d2 where d2: "remove_leaf E d1 (hdr_next d) leaf = Inr d2" and v2: "view d2 = spec_put E ?n ZERO (view d1)"
    by (cases "remove_leaf E d1 (hdr_next d) leaf") auto
  have ok2: "tree_ok E d2" using remove_leaf_cases [OF E ok1] d2 by blast
  have zero: "tv_leaves (view d) ! ?n = ZERO" using ok lt by (simp add: tree_ok_def)
  have leaves: "tv_leaves (view d2) = tv_leaves (view d)"
    using zero by (simp add: v2 v spec_put_def) (metis list_update_id)
  have "hdr_root d2 = spec_root E (view d2)" "hdr_root d = spec_root E (view d)"
    using tree_ok_root [OF ok2] tree_ok_root [OF ok] by (simp_all add: spec_root_view)
  then have "hdr_root d2 = hdr_root d" by (simp add: spec_root_def leaves)
  moreover have "tv_next (view d2) = ?n + 1" by (simp add: v2 v spec_put_def)
  ultimately show ?thesis using that d2 leaves by simp
qed

section \<open>Properties\<close>

lemmas toy_tree = fresh_tree_ok [OF toy_poseidon]

text \<open>
  Initializing: on an empty shard the program writes a consistent tree whose next index is 0,
  whose 512 leaves are empty and whose root is the empty tree's; on any other shard it fails.
\<close>

theorem tree_initialize_refines:
  assumes "poseidon_ok E"
  shows "(\<exists>d. initialize_tree [] = Inr d \<and> tree_ok E d \<and> hdr_root d = DEFAULT_HASHES ! 0 \<and>
      view d = \<lparr>tv_next = 0, tv_leaves = replicate (2 ^ TREE_DEPTH) ZERO, tv_history = replicate 4 ZERO\<rparr>) \<and>
    (\<forall>d. d \<noteq> [] \<longrightarrow> initialize_tree d = Inl (Panic ''tree already initialized''))"
proof -
  obtain d where d: "initialize_tree [] = Inr d" "tree_ok E d" "hdr_next d = 0" "hdr_root d = DEFAULT_HASHES ! 0"
    "\<And>i. tree_leaf d i = ZERO" "hdr_history d = replicate ROOT_HISTORY_SIZE ZERO"
    using initialize_tree_correct [OF assms] by metis
  have "tree_leaf d = (\<lambda>i. ZERO)" using d(5) by (rule ext)
  then have "view d = \<lparr>tv_next = 0, tv_leaves = replicate (2 ^ TREE_DEPTH) ZERO, tv_history = replicate 4 ZERO\<rparr>"
    using d(3,6) by (simp add: view_def map_replicate_const ROOT_HISTORY_SIZE_def)
  then show ?thesis using d by (auto simp: initialize_tree_def)
qed

theorem tree_initialize_refines_witness:
  "\<exists>d. initialize_tree [] = Inr d \<and> tree_ok toy d \<and> hdr_root d = DEFAULT_HASHES ! 0"
  using tree_initialize_refines [OF toy_poseidon] by blast

text \<open>
  Inserting refines the specification on every branch: on a consistent shard the outcome seen
  through the view is that of \<open>spec_insert\<close> (a non-canonical leaf panics, a full tree exits with
  \<open>EXIT_TREE_FULL\<close>, else the leaf goes to the next index and the old root into the history), and a
  successful insert leaves the shard consistent.
\<close>

theorem tree_insert_refines:
  assumes "poseidon_ok E" and "tree_ok E d" and "bytes32 leaf"
  shows "map_sum id view (insert_leaf E d leaf) = spec_insert E leaf (view d) \<and>
    (\<forall>d1. insert_leaf E d leaf = Inr d1 \<longrightarrow> tree_ok E d1)"
  using assms by (rule insert_leaf_cases)

theorem tree_insert_refines_witness:
  "map_sum id view (insert_leaf toy fresh_tree leaf_a) = spec_insert toy leaf_a (view fresh_tree)"
  using tree_insert_refines [OF toy_poseidon toy_tree, of leaf_a] by simp

text \<open>
  Removing refines the specification on every branch: an index past the next one, or a leaf other
  than the named one, exits with \<open>EXIT_LEAF_MISMATCH\<close>; else the leaf is zeroed and the root recomputed,
  with the next index unchanged, and the shard stays consistent.
\<close>

theorem tree_remove_refines:
  assumes "poseidon_ok E" and "tree_ok E d"
  shows "map_sum id view (remove_leaf E d index leaf) = spec_remove E (unat index) leaf (view d) \<and>
    (\<forall>d1. remove_leaf E d index leaf = Inr d1 \<longrightarrow> tree_ok E d1)"
  using assms by (rule remove_leaf_cases)

theorem tree_remove_refines_witness:
  "map_sum id view (remove_leaf toy fresh_tree 7 leaf_a) = spec_remove toy 7 leaf_a (view fresh_tree)"
  using tree_remove_refines [OF toy_poseidon toy_tree, of 7 leaf_a] by simp

text \<open>
  Setting refines the specification on every branch: it takes only a canonical leaf, an index
  below the next one and an emptied slot, and keeps the shard consistent.
\<close>

theorem tree_set_refines:
  assumes "poseidon_ok E" and "tree_ok E d" and "bytes32 leaf"
  shows "map_sum id view (set_leaf E d index leaf) = spec_set E (unat index) leaf (view d) \<and>
    (\<forall>d1. set_leaf E d index leaf = Inr d1 \<longrightarrow> tree_ok E d1)"
  using assms by (rule set_leaf_cases)

theorem tree_set_refines_witness:
  "map_sum id view (set_leaf toy fresh_tree 7 leaf_a) = spec_set toy 7 leaf_a (view fresh_tree)"
  using tree_set_refines [OF toy_poseidon toy_tree, of leaf_a 7] by simp

text \<open>
  A consistent tree shard never outgrows \<open>TREE_SHARD_MAX_BYTES\<close>, which is under the chain's cap on a
  shard.
\<close>

theorem tree_shard_fits:
  assumes "tree_ok E d"
  shows "length d \<le> TREE_SHARD_MAX_BYTES \<and> TREE_SHARD_MAX_BYTES \<le> SHARD_MAX_BYTES"
  using tree_ok_length [OF assms]
  by (simp add: TREE_SHARD_MAX_BYTES_def SHARD_MAX_BYTES_def TREE_NODES_def SPARSE_ENTRY_LEN_def TREE_DEPTH_def push_bit_eq_mult)

theorem tree_shard_fits_witness: "length fresh_tree \<le> TREE_SHARD_MAX_BYTES"
  using tree_shard_fits [OF toy_tree] by blast

text \<open>
  Removing the leaf just inserted, by the index the insert took, succeeds and gives back the
  leaves and the root from before the insert; the next index stays advanced.
\<close>

theorem insert_then_remove:
  assumes "poseidon_ok E" and "tree_ok E d" and "bytes32 leaf" and "insert_leaf E d leaf = Inr d1"
  shows "\<exists>d2. remove_leaf E d1 (hdr_next d) leaf = Inr d2 \<and> tv_leaves (view d2) = tv_leaves (view d) \<and>
    hdr_root d2 = hdr_root d \<and> unat (hdr_next d2) = unat (hdr_next d) + 1"
  by (rule remove_inserted [OF assms]) blast

lemma insert_a: "\<exists>d1. insert_leaf toy fresh_tree leaf_a = Inr d1"
proof -
  have "map_sum id view (insert_leaf toy fresh_tree leaf_a) = spec_insert toy leaf_a (view fresh_tree)"
    using insert_leaf_cases [OF toy_poseidon toy_tree, of leaf_a] by simp
  then have "\<exists>v. map_sum id view (insert_leaf toy fresh_tree leaf_a) = Inr v"
    using fresh_tree_view(1) [OF toy_poseidon] by (simp add: spec_insert_def)
  then show ?thesis by (cases "insert_leaf toy fresh_tree leaf_a") auto
qed

theorem insert_then_remove_witness:
  "\<exists>d1 d2. insert_leaf toy fresh_tree leaf_a = Inr d1 \<and> remove_leaf toy d1 (hdr_next fresh_tree) leaf_a = Inr d2 \<and>
     hdr_root d2 = hdr_root fresh_tree"
  using insert_a insert_then_remove [OF toy_poseidon toy_tree leaf_a_ok(1)] by blast

text \<open>
  C25. A root stays acceptable across four later operations: after at most four successful tree
  instructions of any kind, the root a prover used is still among those the host's
  \<open>fetch_root_history\<close> returns (the current root and the four before it).
\<close>

theorem root_acceptable_for_four_operations:
  assumes "poseidon_ok E" and "tree_ok E d" and "list_all merkle_instruction_ok ixs" and "length ixs \<le> 4"
    and "rfold (\<lambda>d ix. merkle_run E ix d) d ixs = Inr d'" and "hdr_root d \<noteq> ZERO" and "chain (tree_sel E R M t) = d'"
  shows "\<exists>roots. fetch_root_history E chain \<lparr>pi_registration = R, pi_merkle = M\<rparr> t = Inr roots \<and> hdr_root d \<in> set roots"
  using root_still_accepted [of E d ixs d' chain R M t] assms by blast

theorem root_acceptable_for_four_operations_witness:
  "\<exists>d1 roots. insert_leaf toy fresh_tree leaf_a = Inr d1 \<and>
     fetch_root_history toy (\<lambda>_. d1) \<lparr>pi_registration = [], pi_merkle = []\<rparr> [] = Inr roots \<and> hdr_root fresh_tree \<in> set roots"
proof -
  obtain d1 where d1: "insert_leaf toy fresh_tree leaf_a = Inr d1" using insert_a by blast
  obtain d where "initialize_tree [] = Inr d" "hdr_root d = DEFAULT_HASHES ! 0"
    using initialize_tree_correct [OF toy_poseidon] by metis
  moreover have "hd (DEFAULT_HASHES ! 0) = 71" "hd ZERO = 0" by (simp_all add: DEFAULT_HASHES_def ZERO_def)
  ultimately have "hdr_root fresh_tree \<noteq> ZERO" by (auto simp: fresh_tree_def)
  moreover have "rfold (\<lambda>d ix. merkle_run toy ix d) fresh_tree [MInsert leaf_a] = Inr d1"
    using d1 by (simp add: merkle_run_def)
  ultimately show ?thesis
    using root_acceptable_for_four_operations [OF toy_poseidon toy_tree, of "[MInsert leaf_a]" d1 "\<lambda>_. d1" "[]" "[]" "[]"] d1
    by auto
qed

text \<open>
  Searching for a leaf returns the newest index below the next one that holds it, and nothing
  exactly when no such index does.
\<close>

theorem find_leaf_newest:
  assumes "tree_ok E d"
  shows "find_leaf_index d leaf = Inr (Some i) \<longleftrightarrow>
      i < unat (hdr_next d) \<and> tree_leaf d i = leaf \<and> (\<forall>j < unat (hdr_next d). tree_leaf d j = leaf \<longrightarrow> j \<le> i)"
    (is "?l \<longleftrightarrow> ?r")
proof
  let ?P = "\<lambda>i. i < unat (hdr_next d) \<and> tree_leaf d i = leaf"
  assume ?l
  then have ex: "\<exists>i. ?P i" and i: "i = (GREATEST i. ?P i)"
    using find_leaf_index_ok [OF assms, of leaf] by (auto split: if_splits)
  have "?P (GREATEST i. ?P i)"
    using ex by (elim exE) (rule GreatestI_nat [of ?P _ "unat (hdr_next d)"]; simp)
  moreover have "j \<le> (GREATEST i. ?P i)" if "?P j" for j
    using that by (rule Greatest_le_nat [of ?P j "unat (hdr_next d)"]) simp
  ultimately show ?r unfolding i by blast
next
  assume r: ?r
  then have "(GREATEST i. i < unat (hdr_next d) \<and> tree_leaf d i = leaf) = i"
    by (intro Greatest_equality) auto
  then show ?l using r find_leaf_index_ok [OF assms, of leaf] by auto
qed

theorem find_leaf_newest_witness:
  "find_leaf_index fresh_tree leaf_a \<noteq> Inr (Some 0)"
  using find_leaf_newest [OF toy_tree, of leaf_a 0] fresh_tree_view(1) [OF toy_poseidon] by simp

text \<open>
  An inclusion proof verifies: for every leaf index, the proof the host builds from a consistent
  shard names the stored leaf and root, has a path of \<open>TREE_DEPTH\<close> elements, and folding the leaf
  through the path gives the root.
\<close>

theorem merkle_proof_verifies:
  assumes "tree_ok E d" and "i < 2 ^ TREE_DEPTH"
  shows "\<exists>p. merkle_proof_of d i = Inr p \<and> mp_leaf p = tree_leaf d i \<and> mp_root p = hdr_root d \<and>
    length (mp_path_elements p) = TREE_DEPTH \<and> length (mp_path_indices p) = TREE_DEPTH \<and>
    fold_path (compress2 E) (mp_leaf p) (mp_path_elements p) (mp_path_indices p) = mp_root p"
  by (rule merkle_proof_folds [OF assms]) blast

theorem merkle_proof_verifies_witness:
  "\<exists>p. merkle_proof_of fresh_tree 5 = Inr p \<and> mp_leaf p = tree_leaf fresh_tree 5 \<and>
     fold_path (compress2 toy) (mp_leaf p) (mp_path_elements p) (mp_path_indices p) = mp_root p"
  using merkle_proof_verifies [OF toy_tree, of 5] by (auto simp: TREE_DEPTH_def)

text \<open>A host field on the same instance: elements are their bytes.\<close>

definition toy_field :: "bytes host_field" where
  "toy_field = \<lparr>fr_deserialize = (\<lambda>b. if toy_valid b then Some b else None), fr_serialize = (\<lambda>b. b),
     fr_hash_pair = toy_compress2, fr_from = rate_felt\<rparr>"

lemma toy_same_poseidon: "same_poseidon toy toy_field"
proof -
  have "toy_valid (toy_compress2 a b)" for a b
    using poseidon_compress2 [OF toy_poseidon, of a b] by (simp add: node_ok_def toy_def)
  moreover have "toy_valid (rate_felt n)" for n by (simp add: toy_valid_def rate_felt_def nth_append)
  moreover have "toy_valid b \<Longrightarrow> length b = 32" for b by (simp add: toy_valid_def)
  ultimately show ?thesis by (auto simp: same_poseidon_def toy_field_def toy_def split: if_splits)
qed

text \<open>
  C24. What the prover is handed verifies at the circuit's depth: for every leaf of a consistent tree
  the host's proof converts to a path of \<open>CIRCUIT_DEPTH\<close> elements whose fold from the leaf is the root
  given with it, although the tree is one level shallower than the circuit.
\<close>

theorem circuit_proof_verifies:
  assumes "poseidon_ok E" and "same_poseidon E F" and "tree_ok E d" and "i < 2 ^ TREE_DEPTH"
  shows "\<exists>p x es js root. merkle_proof_of d i = Inr p \<and> proof_to_circuit F p = Inr ((es, js), root) \<and>
    fr_deserialize F (tree_leaf d i) = Some x \<and> length es = CIRCUIT_DEPTH \<and> length js = CIRCUIT_DEPTH \<and>
    fold_path (fr_hash_pair F) x es js = root"
  by (rule circuit_proof_folds [OF assms]) blast

theorem circuit_proof_verifies_witness:
  "\<exists>p x es js root. merkle_proof_of fresh_tree 5 = Inr p \<and> proof_to_circuit toy_field p = Inr ((es, js), root) \<and>
     length es = CIRCUIT_DEPTH \<and> fold_path toy_compress2 x es js = root"
  using circuit_proof_verifies [OF toy_poseidon toy_same_poseidon toy_tree, of 5]
  by (auto simp: TREE_DEPTH_def toy_field_def)

text \<open>
  The client and the guest compute the same leaf: the leaf the host derives for a commitment and a
  rate limit is the one the guest's \<open>compute_registration_leaf\<close> gives the tree.
\<close>

theorem host_guest_leaf:
  assumes "same_poseidon E F" and "poseidon_canonical E" and "bytes32 c" and "felt_valid E c"
  shows "\<exists>leaf. registration_leaf F c l = Inr leaf \<and> compute_registration_leaf E c l = Inr leaf"
proof -
  have "fr_deserialize F (rate_felt l) = Some (fr_from F l)" using assms(1) by (simp add: same_poseidon_def)
  then have "felt_valid E (rate_felt l)" using assms(1) by (metis option.distinct(1) same_poseidon_def)
  then show ?thesis
    using registration_leaf_eq [OF assms] assms(4) by (auto simp: registration_leaf_iff)
qed

theorem host_guest_leaf_witness:
  "\<exists>leaf. registration_leaf toy_field leaf_a 200 = Inr leaf \<and> compute_registration_leaf toy leaf_a 200 = Inr leaf"
  using host_guest_leaf [OF toy_same_poseidon toy_canonical leaf_a_ok] .

end
