(* ===== verification/Setup.thy ===== *)
theory Setup
  imports RlnClient
begin

text \<open>
  Deploying the programs and initializing a registry, the setup half of \<open>src/rln/client.rs\<close>. The
  host's state is what the chain holds, the wallet's next unused account and the record file; a
  panic ends the run. The program loader, the binary formats and the network are parameters
  (\<open>loader\<close>, \<open>network\<close>); printing and sleeping are left out.
\<close>

section \<open>Reading the environment\<close>

definition parse_account_id :: "'j host_libs \<Rightarrow> string \<Rightarrow> string + account_id" where
  "parse_account_id H raw0 =
     (let raw = trim raw0;
          hex = (if length raw = 64
                 then (case hex_decode H raw of None \<Rightarrow> None | Some b \<Rightarrow> if length b = 32 then Some b else None)
                 else None)
      in case hex of
           Some b \<Rightarrow> Inr b
         | None \<Rightarrow> (case parse_base58_id H raw of None \<Rightarrow> Inl ''neither 64-hex nor base58'' | Some a \<Rightarrow> Inr a))"

definition fee_payer :: "'j host_libs \<Rightarrow> environment \<Rightarrow> account_id option result" where
  "fee_payer H env =
     (case env ''LEZ_RLN_PAYER'' of
        None \<Rightarrow> Inr None
      | Some raw \<Rightarrow> (case parse_account_id H raw of
            Inl e \<Rightarrow> Inl (Panic (''LEZ_RLN_PAYER is '' @ e)) | Inr a \<Rightarrow> Inr (Some a)))"

definition resolve_payer :: "'j host_libs \<Rightarrow> environment \<Rightarrow> account_id result" where
  "resolve_payer H env =
     rbind (fee_payer H env) (\<lambda>payer. case payer of None \<Rightarrow> Inl (Exit 2) | Some a \<Rightarrow> Inr a)"

definition tree_id_from_env :: "'j host_libs \<Rightarrow> environment \<Rightarrow> bytes result" where
  "tree_id_from_env H env =
     (case env ''LEZ_RLN_TREE_ID_HEX'' of
        None \<Rightarrow> Inl (Exit 2)
      | Some hex \<Rightarrow> (case hex_decode H hex of
            None \<Rightarrow> Inl (Exit 2)
          | Some b \<Rightarrow> if length b = 32 then Inr b else Inl (Exit 2)))"

section \<open>The loader\<close>

text \<open>
  \<^item> \<open>decode_binary\<close>: \<open>ProgramBinary::decode\<close>, the user and the kernel ELF;
  \<^item> \<open>program_image\<close>: the id of \<open>Program::new(..)\<close>;
  \<^item> \<open>header_image\<close>: the \<open>image_id\<close> of \<open>ProgramHeader::from_bytes\<close>;
  \<^item> the protocol's kernel ELF, its limits and the loader's account.
\<close>

type_synonym image_id = "u32 list"

record loader =
  decode_binary :: "bytes \<Rightarrow> (bytes \<times> bytes) option"
  program_image :: "bytes \<Rightarrow> image_id option"
  header_image :: "bytes \<Rightarrow> image_id option"
  default_kernel :: bytes
  max_segment_data_len :: nat
  max_program_segments :: nat
  loader_account :: account_id

definition div_ceil :: "nat \<Rightarrow> nat \<Rightarrow> nat" where
  "div_ceil a b = (if a mod b = 0 then a div b else a div b + 1)"

definition deploy_segment_count :: "loader \<Rightarrow> bytes \<Rightarrow> string + nat" where
  "deploy_segment_count L bytecode =
     (case decode_binary L bytecode of
        None \<Rightarrow> Inl ''not a risc0 program binary''
      | Some (user_elf, kernel_elf) \<Rightarrow>
          if kernel_elf \<noteq> default_kernel L then Inl ''its kernel ELF is not risc0_zkos_v1compat::V1COMPAT_ELF, the only kernel the program loader accepts''
          else let segments = div_ceil (length user_elf) (max_segment_data_len L) in
            if segments = 0 \<or> segments > max_program_segments L then Inl ''too many segments'' else Inr segments)"

definition header_deployed :: "loader \<Rightarrow> bytes \<Rightarrow> image_id \<Rightarrow> string + bool" where
  "header_deployed L loader_shard image_id =
     (if loader_shard = [] then Inr False
      else case header_image L loader_shard of
             Some h \<Rightarrow> if h = image_id then Inr True else Inl ''holds a header for another image''
           | None \<Rightarrow> Inl ''holds something other than a program header'')"

section \<open>Deploying\<close>

record host_state =
  hs_chain :: "selector \<Rightarrow> bytes"
  hs_next_key :: nat
  hs_record :: "string option"

text \<open>The wallet's key chain gives account \<open>keys n\<close> as its \<open>n\<close>-th new account.\<close>

type_synonym key_chain = "nat \<Rightarrow> account_id"

definition create_account :: "key_chain \<Rightarrow> host_state \<Rightarrow> account_id \<times> host_state" where
  "create_account keys h = (keys (hs_next_key h), h\<lparr>hs_next_key := hs_next_key h + 1\<rparr>)"

definition FRESH_ACCOUNT_ATTEMPTS :: nat where "FRESH_ACCOUNT_ATTEMPTS = 64"

primrec fresh_loader_from :: "nat \<Rightarrow> loader \<Rightarrow> key_chain \<Rightarrow> host_state \<Rightarrow> (account_id \<times> host_state) result" where
  "fresh_loader_from 0 L keys h = Inl (Panic ''the next wallet accounts all hold loader data'')"
| "fresh_loader_from (Suc n) L keys h =
     (let (account, h1) = create_account keys h in
      if hs_chain h1 (account, loader_account L) = [] then Inr (account, h1) else fresh_loader_from n L keys h1)"

definition fresh_loader_account :: "loader \<Rightarrow> key_chain \<Rightarrow> host_state \<Rightarrow> (account_id \<times> host_state) result" where
  "fresh_loader_account = fresh_loader_from FRESH_ACCOUNT_ATTEMPTS"

primrec fresh_segments ::
  "nat \<Rightarrow> loader \<Rightarrow> key_chain \<Rightarrow> host_state \<Rightarrow> (account_id list \<times> host_state) result" where
  "fresh_segments 0 L keys h = Inr ([], h)"
| "fresh_segments (Suc n) L keys h =
     rbind (fresh_loader_account L keys h) (\<lambda>(a, h1).
     rbind (fresh_segments n L keys h1) (\<lambda>(as, h2). Inr (a # as, h2)))"

definition program_deployed_at :: "loader \<Rightarrow> host_state \<Rightarrow> account_id \<Rightarrow> image_id \<Rightarrow> string + bool" where
  "program_deployed_at L h header image_id = header_deployed L (hs_chain h (header, loader_account L)) image_id"

text \<open>
  \<open>nw_deploy header segments bytecode payer chain\<close>: the chain after \<open>ProgramLoader::deploy\<close>, \<open>None\<close> when
  it fails. \<open>nw_send tx wait_on chain\<close>: what a sent transaction answers, the observations of the wait after
  it on \<open>wait_on\<close> (the shard it reads, whether the transaction is in a block, the shard read again) and
  the chain then.
\<close>

record init_tx =
  it_program :: account_id
  it_selectors :: "selector list"
  it_data :: bytes
  it_payer :: "account_id option"

record network =
  nw_deploy :: "account_id \<Rightarrow> account_id list \<Rightarrow> bytes \<Rightarrow> account_id \<Rightarrow> (selector \<Rightarrow> bytes) \<Rightarrow> (selector \<Rightarrow> bytes) option"
  nw_send :: "init_tx \<Rightarrow> selector \<Rightarrow> (selector \<Rightarrow> bytes) \<Rightarrow> ((bytes \<times> bool \<times> bytes) list \<times> (selector \<Rightarrow> bytes)) option"

definition deploy_program ::
  "'j host_libs \<Rightarrow> loader \<Rightarrow> network \<Rightarrow> environment \<Rightarrow> key_chain \<Rightarrow> image_id \<Rightarrow> bytes \<Rightarrow> host_state \<Rightarrow>
     (account_id \<times> host_state) result" where
  "deploy_program H L N env keys image_id bytecode h =
     (case program_image L bytecode of
        None \<Rightarrow> Inl (Panic ''Failed to parse binary'')
      | Some loaded \<Rightarrow>
          rbind (check (loaded = image_id) (Panic ''changed since it was loaded'')) (\<lambda>_.
          case deploy_segment_count L bytecode of
            Inl e \<Rightarrow> Inl (Panic (''refusing: '' @ e))
          | Inr segment_count \<Rightarrow>
              rbind (fee_payer H env) (\<lambda>found.
              case found of
                None \<Rightarrow> Inl (Panic ''deploying needs a funded payer'')
              | Some payer \<Rightarrow>
                  rbind (fresh_loader_account L keys h) (\<lambda>(header, h1).
                  rbind (fresh_segments segment_count L keys h1) (\<lambda>(segments, h2).
                  case nw_deploy N header segments bytecode payer (hs_chain h2) of
                    None \<Rightarrow> Inl (Panic ''deploy failed'')
                  | Some chain \<Rightarrow>
                      let h3 = h2\<lparr>hs_chain := chain\<rparr> in
                      (case program_deployed_at L h3 header image_id of
                         Inl e \<Rightarrow> Inl (Panic e)
                       | Inr False \<Rightarrow> Inl (Panic ''deploy finalized but the header is empty'')
                       | Inr True \<Rightarrow> Inr (header, h3)))))))"

definition ensure_program ::
  "'j host_libs \<Rightarrow> loader \<Rightarrow> network \<Rightarrow> environment \<Rightarrow> key_chain \<Rightarrow> account_id option \<Rightarrow> image_id \<Rightarrow> bytes \<Rightarrow>
     host_state \<Rightarrow> (account_id \<times> host_state) result" where
  "ensure_program H L N env keys known image_id bytecode h =
     (case known of
        None \<Rightarrow> deploy_program H L N env keys image_id bytecode h
      | Some header \<Rightarrow>
          (case program_deployed_at L h header image_id of
             Inl e \<Rightarrow> Inl (Panic e)
           | Inr False \<Rightarrow> Inl (Panic ''the recorded program id holds no header'')
           | Inr True \<Rightarrow> Inr (header, h)))"

section \<open>Confirming a transaction\<close>

fun confirm_effect :: "(bytes \<Rightarrow> bool) \<Rightarrow> (bytes \<times> bool \<times> bytes) list \<Rightarrow> unit result" where
  "confirm_effect has_landed [] = Inl (Panic ''accepted but neither in a block nor has any effect'')"
| "confirm_effect has_landed ((shard, included, again) # later) =
     (if has_landed shard then Inr ()
      else if included then
        if has_landed again then Inr () else Inl (Panic ''is in a block but had no effect'')
      else confirm_effect has_landed later)"

text \<open>No signers; the wait makes at most \<open>wait_account_attempts\<close> attempts.\<close>

definition send_init_tx ::
  "'j host_libs \<Rightarrow> network \<Rightarrow> environment \<Rightarrow> program_ids \<Rightarrow> selector list \<Rightarrow> instruction \<Rightarrow> selector \<Rightarrow>
     host_state \<Rightarrow> host_state result" where
  "send_init_tx H N env programs selectors instruction wait_on h =
     rbind (fee_payer H env) (\<lambda>payer.
     case nw_send N \<lparr>it_program = pi_registration programs, it_selectors = selectors,
                     it_data = enc_instruction instruction, it_payer = payer\<rparr> wait_on (hs_chain h) of
       None \<Rightarrow> Inl (Panic ''Failed to send'')
     | Some (observed, chain) \<Rightarrow>
         rbind (confirm_effect (\<lambda>shard. shard \<noteq> []) (take (wait_account_attempts env) observed)) (\<lambda>_.
         Inr (h\<lparr>hs_chain := chain\<rparr>)))"

section \<open>Setting up a registry\<close>

definition initialize_instruction :: "program_ids \<Rightarrow> bytes \<Rightarrow> account_id \<Rightarrow> u32 \<Rightarrow> u32 \<Rightarrow> instruction" where
  "initialize_instruction programs tree_id treasury active grace =
     Initialize (pi_merkle programs) tree_id PRICE_PER_UNIT treasury MAX_TOTAL_RATE_LIMIT active grace"

definition initialize_registry ::
  "external \<Rightarrow> 'j host_libs \<Rightarrow> network \<Rightarrow> environment \<Rightarrow> key_chain \<Rightarrow> program_ids \<Rightarrow> bytes \<Rightarrow> host_state \<Rightarrow> host_state result" where
  "initialize_registry E H N env keys programs tree_id h =
     (let (treasury, h1) = create_account keys h in
      rbind (membership_durations env) (\<lambda>(active, grace).
      rbind (config_selector E programs tree_id) (\<lambda>config.
      rbind (tree_shard_selector E programs tree_id) (\<lambda>tree_main.
      rbind (send_init_tx H N env programs [config]
               (initialize_instruction programs tree_id treasury active grace) config h1) (\<lambda>h2.
      send_init_tx H N env programs [config, tree_main]
        (InitializeMerkleTree tree_id (pi_merkle programs)) tree_main h2)))))"

definition run_setup ::
  "external \<Rightarrow> 'j host_libs \<Rightarrow> loader \<Rightarrow> network \<Rightarrow> environment \<Rightarrow> key_chain \<Rightarrow>
     image_id \<times> bytes \<Rightarrow> image_id \<times> bytes \<Rightarrow> bytes \<Rightarrow> host_state \<Rightarrow> (program_ids \<times> host_state) result" where
  "run_setup E H L N env keys registration merkle tree_id h =
     (case known_program_ids_of H env (hs_record h) of
        Inl e \<Rightarrow> Inl (Panic e)
      | Inr known \<Rightarrow>
          rbind (ensure_program H L N env keys (ki_merkle known) (fst merkle) (snd merkle) h) (\<lambda>(m, h1).
          rbind (ensure_program H L N env keys (ki_registration known) (fst registration) (snd registration) h1) (\<lambda>(r, h2).
          let programs = \<lparr>pi_registration = r, pi_merkle = m\<rparr>;
              h3 = h2\<lparr>hs_record := Some (encode_record H programs)\<rparr> in
          rbind (is_initialized E (hs_chain h3) programs tree_id) (\<lambda>done_before.
          if done_before then Inr (programs, h3)
          else rbind (initialize_registry E H N env keys programs tree_id h3) (\<lambda>h4. Inr (programs, h4))))))"

section \<open>Deploys touch fresh accounts only\<close>

lemma fresh_loader_from_ok:
  "fresh_loader_from n L keys h = Inr (a, h1) \<Longrightarrow>
     (\<exists>k. hs_next_key h \<le> k \<and> k < hs_next_key h + n \<and> a = keys k \<and> h1 = h\<lparr>hs_next_key := Suc k\<rparr>) \<and>
     hs_chain h (a, loader_account L) = []"
proof (induction n arbitrary: h)
  case 0
  then show ?case by simp
next
  case (Suc n)
  show ?case
  proof (cases "hs_chain h (keys (hs_next_key h), loader_account L) = []")
    case True
    with Suc.prems show ?thesis by (auto simp: create_account_def)
  next
    case False
    then have "fresh_loader_from n L keys (h\<lparr>hs_next_key := hs_next_key h + 1\<rparr>) = Inr (a, h1)"
      using Suc.prems by (simp add: create_account_def)
    from Suc.IH [OF this] show ?thesis by (auto intro!: exI [of _ "hs_next_key h1 - 1"])
  qed
qed

lemma fresh_loader_account_ok:
  assumes "fresh_loader_account L keys h = Inr (a, h1)"
  obtains k where "hs_next_key h \<le> k" and "a = keys k" and "h1 = h\<lparr>hs_next_key := Suc k\<rparr>"
    and "hs_chain h (a, loader_account L) = []"
  using fresh_loader_from_ok [of FRESH_ACCOUNT_ATTEMPTS L keys h a h1] assms
  by (auto simp: fresh_loader_account_def)

lemma fresh_segments_ok:
  "fresh_segments n L keys h = Inr (as, h1) \<Longrightarrow>
     \<exists>ks. as = map keys ks \<and> length ks = n \<and> sorted_wrt (<) ks \<and> (\<forall>k \<in> set ks. hs_next_key h \<le> k) \<and>
       (\<forall>a \<in> set as. hs_chain h (a, loader_account L) = []) \<and> hs_chain h1 = hs_chain h"
proof (induction n arbitrary: h as)
  case 0
  then show ?case by simp
next
  case (Suc n)
  from Suc.prems obtain a h2 as' where a: "fresh_loader_account L keys h = Inr (a, h2)"
    and as': "fresh_segments n L keys h2 = Inr (as', h1)" and "as = a # as'"
    by (auto simp: result_simps)
  obtain k where k: "hs_next_key h \<le> k" "a = keys k" "h2 = h\<lparr>hs_next_key := Suc k\<rparr>"
    "hs_chain h (a, loader_account L) = []"
    using a by (rule fresh_loader_account_ok)
  obtain ks where ks: "as' = map keys ks" "length ks = n" "sorted_wrt (<) ks" "\<forall>j \<in> set ks. Suc k \<le> j"
    "\<forall>a \<in> set as'. hs_chain h (a, loader_account L) = []" "hs_chain h1 = hs_chain h"
    using Suc.IH [OF as'] k(3) by auto
  show ?case
    by (rule exI [of _ "k # ks"]) (use k ks \<open>as = a # as'\<close> in auto)
qed

lemma case_Inr:
  "(case x of None \<Rightarrow> Inl e | Some a \<Rightarrow> f a) = Inr y \<longleftrightarrow> (\<exists>a. x = Some a \<and> f a = Inr y)"
  "(case z of Inl d \<Rightarrow> Inl (h d) | Inr b \<Rightarrow> g b) = Inr y \<longleftrightarrow> (\<exists>b. z = Inr b \<and> g b = Inr y)"
  "(case t of True \<Rightarrow> r | False \<Rightarrow> Inl e) = Inr y \<longleftrightarrow> t \<and> r = Inr y"
  by (auto split: option.splits sum.splits bool.splits)

text \<open>What a successful deploy used: distinct accounts, none written before, and the header verified after.\<close>

lemma deploy_program_fresh:
  assumes "inj keys" and "deploy_program H L N env keys image_id bytecode h = Inr (header, h')"
  obtains segments payer chain where "nw_deploy N header segments bytecode payer (hs_chain h) = Some chain"
    and "distinct (header # segments)" and "\<forall>a \<in> set (header # segments). hs_chain h (a, loader_account L) = []"
    and "length segments \<le> max_program_segments L" and "segments \<noteq> []"
    and "header_image L (chain (header, loader_account L)) = Some image_id" and "hs_chain h' = chain"
proof -
  from assms(2) obtain n payer h1 segments h2 chain where
    n: "deploy_segment_count L bytecode = Inr n"
    and a: "fresh_loader_account L keys h = Inr (header, h1)"
    and s: "fresh_segments n L keys h1 = Inr (segments, h2)"
    and d: "nw_deploy N header segments bytecode payer (hs_chain h2) = Some chain"
    and v: "program_deployed_at L (h2\<lparr>hs_chain := chain\<rparr>) header image_id = Inr True" and h': "h' = h2\<lparr>hs_chain := chain\<rparr>"
    by (auto simp: deploy_program_def result_simps case_Inr Let_def)
  obtain k where k: "header = keys k" "h1 = h\<lparr>hs_next_key := Suc k\<rparr>" "hs_chain h (header, loader_account L) = []"
    using a by (rule fresh_loader_account_ok)
  obtain ks where ks: "segments = map keys ks" "length ks = n" "sorted_wrt (<) ks" "\<forall>j \<in> set ks. Suc k \<le> j"
    "\<forall>a \<in> set segments. hs_chain h (a, loader_account L) = []" "hs_chain h2 = hs_chain h"
    using fresh_segments_ok [OF s] k(2) by auto
  have "distinct (k # ks)" using ks(3,4) by (auto simp: strict_sorted_iff)
  then have "distinct (header # segments)"
    using assms(1) k(1) ks(1) by (auto simp: distinct_map inj_eq intro: inj_on_subset)
  moreover have "segments \<noteq> []" "length segments \<le> max_program_segments L"
    using n ks(1,2) by (auto simp: deploy_segment_count_def Let_def split: option.splits prod.splits if_splits)
  moreover have "header_image L (chain (header, loader_account L)) = Some image_id"
    using v by (auto simp: program_deployed_at_def header_deployed_def split: if_splits option.splits)
  ultimately show ?thesis using d k(3) ks(5,6) h' by (intro that) auto
qed

end
