(* ===== verification/CheckMembership.thy ===== *)
theory CheckMembership
  imports HostLibs Runtime
begin

text \<open>
  \<open>check-membership\<close>, \<open>tools/check-membership/src/main.rs\<close>: the tool that reads a membership off the
  sequencer without a wallet. Its arguments, its derivation of the account, its reading of a
  \<open>getAccount\<close> reply and its verdict are modelled; \<open>curl\<close> is the function \<open>fetch\<close> from the sequencer,
  the method and the parameter to the reply's text (\<open>None\<close> when it fails), a deployment file is its
  text, and a failure (\<open>Inl\<close>, exit code 2) is its message. What it prints is not modelled.
\<close>

section \<open>Hexadecimal arguments\<close>

definition hex_value :: "char \<Rightarrow> nat option" where
  "hex_value c =
     (let n = (of_char c :: nat) in
      if 48 \<le> n \<and> n \<le> 57 then Some (n - 48)
      else if 97 \<le> n \<and> n \<le> 102 then Some (n - 87)
      else if 65 \<le> n \<and> n \<le> 70 then Some (n - 55) else None)"

definition strip_0x :: "string \<Rightarrow> string" where
  "strip_0x s = (case s of a # b # r \<Rightarrow> if [a, b] = ''0x'' then r else s | _ \<Rightarrow> s)"

fun hex_pairs :: "string \<Rightarrow> bytes" where
  "hex_pairs (a # b # r) = word_of_nat (16 * the (hex_value a) + the (hex_value b)) # hex_pairs r"
| "hex_pairs s = []"

definition parse_hex32 :: "string \<Rightarrow> string \<Rightarrow> string + bytes" where
  "parse_hex32 s0 what =
     (let s = strip_0x s0 in
      if length s \<noteq> 64 \<or> \<not> list_all (\<lambda>c. hex_value c \<noteq> None) s then Inl (what @ '' must be 64 hex chars'')
      else Inr (hex_pairs s))"

section \<open>Derivation\<close>

definition PDA_PREFIX :: bytes where
  "PDA_PREFIX = ascii ''/LEE/v0.2/AccountId/PDA/'' @ replicate 8 0"

text \<open>The seed rules are those of \<open>rln-layouts\<close>; the PDA hash is replicated.\<close>

definition tool_membership_account :: "external \<Rightarrow> bytes \<Rightarrow> bytes \<Rightarrow> bytes \<Rightarrow> bytes result" where
  "tool_membership_account E program_id tree_id commitment =
     rbind (label_seed ''membership'') (\<lambda>l.
     rbind (combine_seeds E [l, tree_id, commitment]) (\<lambda>seed.
     rbind (write_slice 0 PDA_PREFIX (replicate 96 0)) (\<lambda>b1.
     rbind (write_slice 32 program_id b1) (\<lambda>b2.
     rbind (write_slice 64 seed b2) (\<lambda>b3.
     Inr (sha256 E b3))))))"

section \<open>Reading the sequencer\<close>

definition json_index :: "'j host_libs \<Rightarrow> 'j \<Rightarrow> string \<Rightarrow> 'j" where
  "json_index H v k = (case json_get H v k of None \<Rightarrow> json_null H | Some j \<Rightarrow> j)"

type_synonym fetch = "string \<Rightarrow> string \<Rightarrow> string \<Rightarrow> string option"

definition rpc :: "'j host_libs \<Rightarrow> ('j \<Rightarrow> bool) \<Rightarrow> fetch \<Rightarrow> string \<Rightarrow> string \<Rightarrow> string \<Rightarrow> string + 'j" where
  "rpc H is_null fetch sequencer method param =
     (case fetch sequencer method param of
        None \<Rightarrow> Inl ''curl error''
      | Some out \<Rightarrow> (case json_parse H out of
            None \<Rightarrow> Inl ''sequencer returned malformed JSON-RPC''
          | Some doc \<Rightarrow>
              if (case json_get H doc ''error'' of None \<Rightarrow> False | Some e \<Rightarrow> \<not> is_null e) then Inl ''sequencer error''
              else (case json_get H doc ''result'' of None \<Rightarrow> Inl ''JSON-RPC reply has no result'' | Some r \<Rightarrow> Inr r)))"

definition byte_value :: "'j host_libs \<Rightarrow> 'j \<Rightarrow> string + u8" where
  "byte_value H v =
     (case json_as_u64 H v of
        Some b \<Rightarrow> if b < 256 then Inr (ucast b) else Inl ''getAccount shard holds a non-byte value''
      | None \<Rightarrow> Inl ''getAccount shard holds a non-byte value'')"

definition shard_bytes :: "'j host_libs \<Rightarrow> 'j \<Rightarrow> bytes \<Rightarrow> string + bytes option" where
  "shard_bytes H account shard_id =
     (case json_as_object H (json_index H (json_index H account ''data'') ''shards'') of
        None \<Rightarrow> Inl ''getAccount reply has no data.shards map''
      | Some shards \<Rightarrow> (case shards (base58_encode H shard_id) of
            None \<Rightarrow> Inr None
          | Some v \<Rightarrow> (case json_as_array H v of
                None \<Rightarrow> Inl ''getAccount shard is not a byte array''
              | Some vs \<Rightarrow> rbind (rmap (byte_value H) vs) (\<lambda>data.
                  Inr (if data = [] then None else Some data)))))"

definition get_account_shard ::
  "'j host_libs \<Rightarrow> ('j \<Rightarrow> bool) \<Rightarrow> fetch \<Rightarrow> string \<Rightarrow> bytes \<Rightarrow> bytes \<Rightarrow> string + bytes option" where
  "get_account_shard H is_null fetch sequencer account shard_id =
     rbind (rpc H is_null fetch sequencer ''getAccount'' (base58_encode H account)) (\<lambda>v. shard_bytes H v shard_id)"

definition clock_timestamp_ms :: "external \<Rightarrow> 'j host_libs \<Rightarrow> ('j \<Rightarrow> bool) \<Rightarrow> fetch \<Rightarrow> string \<Rightarrow> string + u64" where
  "clock_timestamp_ms E H is_null fetch sequencer =
     rbind (get_account_shard H is_null fetch sequencer CLOCK_50_ACCOUNT_ID_BYTES (clock_program_account_id E)) (\<lambda>found.
     case found of
       None \<Rightarrow> Inl ''clock account is absent''
     | Some data \<Rightarrow> if length data < 16 then Inl ''clock account too short'' else Inr (u64_of (slice 8 8 data)))"

definition lifecycle :: "membership_state \<Rightarrow> u64 \<Rightarrow> string" where
  "lifecycle state now_ms =
     (let start_ms = ms_grace_period_start_timestamp_ms state;
          grace_ms = secs_to_millis (ms_grace_period_duration_sec state) in
      if is_expired start_ms grace_ms now_ms then ''expired''
      else if is_in_grace_period start_ms grace_ms now_ms then ''grace_period'' else ''active'')"

section \<open>The run\<close>

record cm_args =
  ca_commitment :: "string option"
  ca_tree_id :: "string option"
  ca_program_id :: "string option"
  ca_sequencer :: string
  ca_json :: bool

datatype verdict = Usage | Unregistered bool | Registered bool membership_state string u64

definition string_field :: "'j host_libs \<Rightarrow> 'j \<Rightarrow> string \<Rightarrow> string + string" where
  "string_field H doc k =
     (case (case json_get H doc k of None \<Rightarrow> None | Some v \<Rightarrow> json_as_str H v) of
        None \<Rightarrow> Inl (''missing string field '' @ k) | Some s \<Rightarrow> Inr s)"

definition load_deployment :: "'j host_libs \<Rightarrow> (string \<Rightarrow> string option) \<Rightarrow> string \<Rightarrow> cm_args \<Rightarrow> string + cm_args" where
  "load_deployment H files path a =
     (case files path of
        None \<Rightarrow> Inl ''cannot read deployment''
      | Some contents \<Rightarrow> (case json_parse H contents of
            None \<Rightarrow> Inl ''deployment is not valid JSON''
          | Some doc \<Rightarrow>
              rbind (string_field H doc ''tree_id'') (\<lambda>t.
              rbind (string_field H doc ''registration_program_id'') (\<lambda>p.
              rbind (string_field H doc ''sequencer'') (\<lambda>s.
              Inr (a\<lparr>ca_tree_id := Some t, ca_program_id := Some p, ca_sequencer := s\<rparr>))))))"

fun parse_args :: "'j host_libs \<Rightarrow> (string \<Rightarrow> string option) \<Rightarrow> string list \<Rightarrow> cm_args \<Rightarrow> string + cm_args" where
  "parse_args H files [] a = Inr a"
| "parse_args H files [x] a =
     (if x = ''--json'' then Inr (a\<lparr>ca_json := True\<rparr>)
      else if x \<in> {''--commitment'', ''-c'', ''--tree-id'', ''--program-id'', ''--sequencer'', ''--deployment''}
      then Inl (x @ '' needs a value'') else Inl (''unknown argument: '' @ x))"
| "parse_args H files (x # v # xs) a =
     (if x = ''--json'' then parse_args H files (v # xs) (a\<lparr>ca_json := True\<rparr>)
      else if x = ''--commitment'' \<or> x = ''-c'' then parse_args H files xs (a\<lparr>ca_commitment := Some v\<rparr>)
      else if x = ''--tree-id'' then parse_args H files xs (a\<lparr>ca_tree_id := Some v\<rparr>)
      else if x = ''--program-id'' then parse_args H files xs (a\<lparr>ca_program_id := Some v\<rparr>)
      else if x = ''--sequencer'' then parse_args H files xs (a\<lparr>ca_sequencer := v\<rparr>)
      else if x = ''--deployment''
      then (case load_deployment H files v a of Inl e \<Rightarrow> Inl e | Inr a1 \<Rightarrow> parse_args H files xs a1)
      else Inl (''unknown argument: '' @ x))"

definition required_hex :: "string option \<Rightarrow> string \<Rightarrow> string + bytes" where
  "required_hex s what = (case s of None \<Rightarrow> Inl (what @ '' is required'') | Some h \<Rightarrow> parse_hex32 h what)"

definition lift_failure :: "'a result \<Rightarrow> string + 'a" where
  "lift_failure r = (case r of Inl e \<Rightarrow> Inl ''panic'' | Inr x \<Rightarrow> Inr x)"

definition check_account ::
  "external \<Rightarrow> 'j host_libs \<Rightarrow> ('j \<Rightarrow> bool) \<Rightarrow> fetch \<Rightarrow> bool \<Rightarrow> string \<Rightarrow> bytes \<Rightarrow> bytes \<Rightarrow> bytes \<Rightarrow> string + verdict" where
  "check_account E H is_null fetch json sequencer program_id tree_id commitment =
     rbind (lift_failure (tool_membership_account E program_id tree_id commitment)) (\<lambda>membership_id.
     rbind (get_account_shard H is_null fetch sequencer membership_id program_id) (\<lambda>found.
     case found of
       None \<Rightarrow> Inr (Unregistered json)
     | Some data \<Rightarrow>
         if length data < MEMBERSHIP_STATE_SIZE then Inl ''membership account is present but too short to decode''
         else (case from_slice dec_membership (take MEMBERSHIP_STATE_SIZE data) of
             None \<Rightarrow> Inl ''failed to decode membership account''
           | Some state \<Rightarrow>
               rbind (clock_timestamp_ms E H is_null fetch sequencer) (\<lambda>now_ms.
               Inr (Registered json state (lifecycle state now_ms) now_ms)))))"

definition check_membership ::
  "external \<Rightarrow> 'j host_libs \<Rightarrow> ('j \<Rightarrow> bool) \<Rightarrow> (string \<Rightarrow> string option) \<Rightarrow> fetch \<Rightarrow> environment \<Rightarrow> string list \<Rightarrow> string + verdict" where
  "check_membership E H is_null files fetch env args =
     (if \<exists>a \<in> set args. a = ''-h'' \<or> a = ''--help'' then Inr Usage
      else
        rbind (parse_args H files args
          \<lparr>ca_commitment = None, ca_tree_id = env ''LEZ_RLN_TREE_ID_HEX'',
           ca_program_id = env ''LEZ_RLN_REGISTRATION_PROGRAM_ID'',
           ca_sequencer = ''https://testnet.lez.logos.co/'', ca_json = False\<rparr>) (\<lambda>a.
        rbind (required_hex (ca_commitment a) ''commitment'') (\<lambda>commitment.
        rbind (required_hex (ca_tree_id a) ''tree-id'') (\<lambda>tree_id.
        rbind (required_hex (ca_program_id a) ''program-id'') (\<lambda>program_id.
        check_account E H is_null fetch (ca_json a) (ca_sequencer a) program_id tree_id commitment)))))"

definition exit_code :: "string + verdict \<Rightarrow> nat" where
  "exit_code r =
     (case r of Inl e \<Rightarrow> 2 | Inr Usage \<Rightarrow> 0 | Inr (Unregistered j) \<Rightarrow> 1 | Inr (Registered j m s n) \<Rightarrow> 0)"

section \<open>The verdict is the chain's\<close>

text \<open>
  What the replicated derivation relies on, and what the repository's tests pin
  (\<open>derives_known_membership_account\<close>, \<open>clock_shard_key_is_the_builtin_clock_program_id\<close>): the PDA hash,
  the clock program's id, and the clock's layout.
\<close>

definition tool_agrees :: "external \<Rightarrow> bool" where
  "tool_agrees E \<longleftrightarrow>
     (\<forall>b. bytes32 (sha256 E b)) \<and>
     (\<forall>p x. bytes32 p \<longrightarrow> bytes32 x \<longrightarrow> for_public_pda E p x = sha256 E (PDA_PREFIX @ p @ x)) \<and>
     clock_account_id E = clock_program_account_id E \<and>
     (\<forall>d ts. clock_timestamp E d = Some ts \<longrightarrow> 16 \<le> length d \<and> ts = u64_of (slice 8 8 d))"

text \<open>A sequencer that answers \<open>getAccount\<close> from the shards \<open>s\<close>.\<close>

definition answers :: "'j host_libs \<Rightarrow> fetch \<Rightarrow> shards \<Rightarrow> bool" where
  "answers H fetch s \<longleftrightarrow>
     (\<forall>sequencer a. \<exists>out doc v shards.
        fetch sequencer ''getAccount'' (base58_encode H a) = Some out \<and> json_parse H out = Some doc \<and>
        json_get H doc ''error'' = None \<and> json_get H doc ''result'' = Some v \<and>
        json_as_object H (json_index H (json_index H v ''data'') ''shards'') = Some shards \<and>
        (\<forall>p. case shards (base58_encode H p) of
               None \<Rightarrow> shard s (a, p) = []
             | Some j \<Rightarrow> \<exists>js. json_as_array H j = Some js \<and>
                 map (json_as_u64 H) js = map (\<lambda>b. Some (ucast b)) (shard s (a, p))))"

lemma PDA_PREFIX_length [simp]: "length PDA_PREFIX = 32"
  by (simp add: PDA_PREFIX_def)

lemma tool_membership_account_eq:
  assumes "tool_agrees E" and "bytes32 p"
  shows "tool_membership_account E p t c = Inr (pda_membership E p t c)"
proof -
  have "bytes32 (seed_membership E t c)" using assms(1) by (simp add: tool_agrees_def seed_membership_def)
  then have "write_slice 64 (seed_membership E t c) (splice 32 p (splice 0 PDA_PREFIX (replicate 96 0))) =
      Inr (PDA_PREFIX @ p @ seed_membership E t c)"
    "pda_membership E p t c = sha256 E (PDA_PREFIX @ p @ seed_membership E t c)"
    using assms by (simp_all add: write_slice_def splice_def tool_agrees_def pda_membership_def)
  moreover have "rbind (label_seed ''membership'') (\<lambda>l. combine_seeds E [l, t, c]) = Inr (seed_membership E t c)"
    by (rule seed_forms(3) [unfolded membership_seed_def])
  ultimately show ?thesis
    using assms(2) by (auto simp: tool_membership_account_def label_seed_ok write_slice_ok length_splice)
qed

lemma byte_values:
  "map (json_as_u64 H) js = map (\<lambda>b. Some (ucast b)) bs \<Longrightarrow> rmap (byte_value H) js = Inr bs"
proof (induction js arbitrary: bs)
  case Nil
  then show ?case by simp
next
  case (Cons j js)
  then obtain b bs' where bs: "bs = b # bs'" and j: "json_as_u64 H j = Some (ucast b)"
    and js: "map (json_as_u64 H) js = map (\<lambda>b. Some (ucast b)) bs'" by (cases bs) auto
  have lt: "unat b < 256" using unsigned_less [of b, where 'a = nat] by simp
  have "unat (ucast b :: u64) = unat b"
    using lt by (intro trans [OF unsigned_ucast_eq] take_bit_nat_eq_self) simp
  then have "(ucast b :: u64) < 256" "(ucast (ucast b :: u64) :: u8) = b"
    using lt by (simp_all add: word_less_nat_alt ucast_up_ucast_id is_up)
  then show ?case using Cons.IH [OF js] by (simp add: byte_value_def j bs)
qed

lemma get_account_shard_eq:
  assumes "answers H fetch s"
  shows "get_account_shard H is_null fetch sequencer a p = Inr (if shard s (a, p) = [] then None else Some (shard s (a, p)))"
proof -
  from assms obtain out doc v shards where r: "fetch sequencer ''getAccount'' (base58_encode H a) = Some out"
    "json_parse H out = Some doc" "json_get H doc ''error'' = None" "json_get H doc ''result'' = Some v"
    "json_as_object H (json_index H (json_index H v ''data'') ''shards'') = Some shards"
    and sh: "case shards (base58_encode H p) of None \<Rightarrow> shard s (a, p) = []
      | Some j \<Rightarrow> \<exists>js. json_as_array H j = Some js \<and> map (json_as_u64 H) js = map (\<lambda>b. Some (ucast b)) (shard s (a, p))"
    unfolding answers_def by blast
  have "rpc H is_null fetch sequencer ''getAccount'' (base58_encode H a) = Inr v"
    using r by (simp add: rpc_def)
  then show ?thesis
    using sh r(5) by (auto simp: get_account_shard_def shard_bytes_def byte_values split: option.splits)
qed

lemma clock_timestamp_ms_eq:
  assumes "answers H fetch s" and "tool_agrees E" and "clock_timestamp E (shard s (clock_sel E)) = Some now"
  shows "clock_timestamp_ms E H is_null fetch sequencer = Inr now"
proof -
  have k: "clock_sel E = (CLOCK_50_ACCOUNT_ID_BYTES, clock_program_account_id E)"
    using assms(2) by (simp add: clock_sel_def tool_agrees_def)
  have "16 \<le> length (shard s (clock_sel E))" "now = u64_of (slice 8 8 (shard s (clock_sel E)))"
    using assms(2,3) by (auto simp: tool_agrees_def)
  then show ?thesis
    using get_account_shard_eq [OF assms(1), of is_null sequencer CLOCK_50_ACCOUNT_ID_BYTES "clock_program_account_id E"]
    by (auto simp: clock_timestamp_ms_def k)
qed

lemma check_account_unregistered:
  assumes "answers H fetch s" and "tool_agrees E" and "bytes32 R"
    and "shard s (membership_sel E R t c) = []"
  shows "check_account E H is_null fetch json sequencer R t c = Inr (Unregistered json)"
  using assms tool_membership_account_eq [OF assms(2,3)] get_account_shard_eq [OF assms(1)]
  by (simp add: check_account_def lift_failure_def membership_sel_def)

lemma check_account_registered:
  assumes "answers H fetch s" and "tool_agrees E" and "bytes32 R"
    and "has_member E R s t c m" and "clock_timestamp E (shard s (clock_sel E)) = Some now"
  shows "check_account E H is_null fetch json sequencer R t c = Inr (Registered json m (lifecycle m now) now)"
proof -
  have m: "membership_ok m" and sh: "shard s (pda_membership E R t c, R) = enc_membership m"
    using assms(4) by (simp_all add: has_member_def membership_sel_def)
  then show ?thesis
    using tool_membership_account_eq [OF assms(2,3)] get_account_shard_eq [OF assms(1)]
      clock_timestamp_ms_eq [OF assms(1,2,5)] length_enc_membership [OF m] membership_codec.from_slice_enc [OF m]
    by (simp add: check_account_def lift_failure_def)
qed

text \<open>The lifecycle the tool reports is the one the guest decides by.\<close>

lemma lifecycle_guest:
  assumes "membership_ok m"
  shows "lifecycle m now = ''grace_period'' \<longleftrightarrow>
      (\<exists>d. apply_extend_membership now (ms_rate_limit m) (enc_membership m) = Inr d)"
    and "lifecycle m now = ''expired'' \<longleftrightarrow>
      (\<exists>d. apply_erase_membership now (ms_rate_limit m) (enc_membership m) = Inr d)"
    and "lifecycle m now = ''active'' \<longleftrightarrow> now < ms_grace_period_start_timestamp_ms m"
  using assms
  by (auto simp: lifecycle_def apply_simps membership_codec.enc_inject Let_def expired_iff not_le
      is_in_grace_period_def)

end
