(* ===== verification/HostScenario.thy ===== *)
theory HostScenario
  imports EndToEnd Scenario TreeProperties Setup CheckMembership
begin

text \<open>
  The host on the registry of \<open>Scenario\<close>: a world whose chain is one of its states, and text libraries
  on a small type of JSON values. The witnesses of the properties about the host use it.
\<close>

section \<open>Reachable states\<close>

lemma demo_reach_ready: "reachable toy demo_R demo_M {demo_T} {demo_C} demo_ready"
proof -
  have b: "reachable toy demo_R demo_M {demo_T} {demo_C} demo_configured"
    by (rule reach_step [OF demo_reachable(1) step_registration [OF _ _ demo_initialized]]) simp_all
  show ?thesis by (rule reach_step [OF b step_registration [OF _ _ demo_tree_initialized]]) simp_all
qed

lemma demo_reach_at: "reachable toy demo_R demo_M {demo_T} {demo_C} (demo_at now)"
proof (rule reach_step [OF demo_reachable(2) step_foreign])
  show "snd k = demo_R \<or> snd k = demo_M \<Longrightarrow> shard (demo_at now) k = shard demo_registered k" for k
    using demo_separate by (auto simp: demo_at_def clock_sel_def separate_def)
qed

lemma demo_clock_at: "clock_timestamp toy (shard (demo_at now) (clock_sel toy)) = Some now"
  by (simp add: demo_at_def) (simp add: toy_def slice_def)

section \<open>The client's world\<close>

definition demo_world :: "shards \<Rightarrow> world" where
  "demo_world s = \<lparr>w_chain = shard s, w_balances = (\<lambda>_. 10 ^ 12), w_quote = None, w_env = (\<lambda>_. None)\<rparr>"

definition demo_programs :: program_ids where
  "demo_programs = \<lparr>pi_registration = demo_R, pi_merkle = demo_M\<rparr>"

lemma demo_world_chain [simp]: "w_chain (demo_world s) = shard s"
  by (simp add: demo_world_def)

lemma demo_afford:
  "assert_can_afford (w_env (demo_world s)) (w_quote (demo_world s)) (w_balances (demo_world s)) a 2000 = Inr DECLARED_MAX_FEE"
  by (simp add: demo_world_def assert_can_afford_def quoted_fee_reserve_def declared_gas_limit_def fee_reserve_def
      sat_add_def DECLARED_MAX_FEE_def ASSUMED_DATA_BYTES_def)

lemma demo_quoted:
  "quoted_fee_reserve (w_env (demo_world s)) (w_quote (demo_world s)) = Inr (DECLARED_MAX_FEE, Fallback)"
  by (simp add: demo_world_def quoted_fee_reserve_def declared_gas_limit_def fee_reserve_def)

lemma demo_registration_leaf: "registration_leaf toy_field demo_C 200 = Inr demo_leaf"
  using registration_leaf_eq [OF toy_same_poseidon toy_canonical] by (simp add: demo_leaf_def)

lemma demo_expect: "felt_valid toy b \<Longrightarrow> length b = 32 \<Longrightarrow> expect_fr toy_field msg b = Inr b"
  by (simp add: expect_fr_def bytes_le_to_fr_def toy_field_def toy_def)

lemma demo_price: "sat_mul (10 :: u128) 200 = 2000"
  by (simp add: sat_mul_def)

lemma demo_register_request_in:
  assumes "has_config toy demo_R s demo_T demo_cfg" and "shard s (clock_sel toy) = demo_clock"
    and "shard s (tree_sel toy demo_R demo_M demo_T) = fresh_tree"
  obtains rq where "register_request toy toy_field (demo_world s) demo_programs demo_T demo_C demo_payer 200 =
    Inr (rq, demo_leaf, None)"
proof -
  have "read_config toy (shard s) demo_programs demo_T = Inr demo_cfg"
    using assms(1) by (simp add: demo_programs_def read_config_iff)
  moreover have "check_merkle_claim demo_cfg demo_programs = Inr ()"
    by (simp add: check_merkle_claim_def demo_cfg_def demo_programs_def)
  moreover have "read_clock_ms toy (shard s) = Inr demo_now"
    using demo_clock_ok(2) assms(2) by (simp add: read_clock_ms_def clock_selector_def clock_sel_def demo_now_def Let_def)
  moreover have "find_leaf_index fresh_tree demo_leaf = Inr None"
    using find_leaf_index_ok [OF fresh_tree_ok [OF toy_poseidon], of demo_leaf] fresh_tree_view(1) [OF toy_poseidon] by simp
  ultimately show ?thesis
    using that assms(3)
    by (auto simp: register_request_def demo_registration_leaf fetch_tree_shard_def demo_programs_def
        demo_cfg_def demo_price demo_afford)
qed

lemma demo_register_request:
  obtains rq where "register_request toy toy_field (demo_world demo_ready) demo_programs demo_T demo_C demo_payer 200 =
    Inr (rq, demo_leaf, None)"
  by (rule demo_register_request_in [OF demo_has_config(2) demo_shards(5,3)])

text \<open>The requests about the registered member, at a time of the clock.\<close>

lemma demo_reads:
  "read_config toy (shard (demo_at now)) demo_programs demo_T = Inr (counted demo_cfg 200)"
  "check_merkle_claim (counted demo_cfg 200) demo_programs = Inr ()"
  "read_membership toy (shard (demo_at now)) demo_programs demo_T demo_C = Inr (Some demo_member)"
  using demo_at_shards(2,3)
  by (simp_all add: demo_programs_def read_config_iff read_membership_iff check_merkle_claim_def)

lemma demo_read_clock: "0 < now \<Longrightarrow> read_clock_ms toy (shard (demo_at now)) = Inr now"
  by (simp add: read_clock_ms_def Let_def demo_at_def clock_selector_def clock_sel_def [symmetric])
    (simp add: toy_def slice_def)

lemma demo_located: "locate_membership_leaf toy toy_field (shard (demo_at now)) demo_programs demo_T demo_member = Inr 0"
proof -
  have "find_leaf_index demo_tree demo_leaf = Inr (Some 0)"
    using find_inserted [OF toy_poseidon fresh_tree_ok [OF toy_poseidon] _ demo_insert] demo_leaf_ok
      fresh_tree_view(1) [OF toy_poseidon] by (simp add: node_ok_def)
  then show ?thesis
    by (simp add: locate_membership_leaf_def demo_registration_leaf fetch_tree_shard_def demo_programs_def)
qed

lemma demo_erase_request:
  assumes "0 < now"
  obtains rq where "erase_request toy toy_field (demo_world (demo_at now)) demo_programs demo_T demo_C demo_payer = Inr rq"
  using that demo_reads demo_read_clock [OF assms] demo_located
  by (auto simp: erase_request_def demo_expect demo_quoted demo_programs_def)

lemma demo_slash_request:
  obtains rq where "slash_request toy toy_field (demo_world (demo_at now)) demo_programs demo_T demo_secret demo_C demo_payer = Inr rq"
  using that demo_reads demo_located demo_secret_ok
  by (auto simp: slash_request_def demo_expect demo_quoted demo_programs_def)

lemma demo_extend_request:
  assumes "0 < now"
  obtains rq where "extend_request toy toy_field (demo_world (demo_at now)) demo_programs demo_T demo_C demo_payer = Inr rq"
  using that demo_reads demo_read_clock [OF assms]
  by (auto simp: extend_request_def demo_expect demo_programs_def demo_price demo_afford)

section \<open>Text libraries\<close>

text \<open>Hexadecimal, as the \<open>hex\<close> crate writes and reads it.\<close>

definition toy_hex_encode :: "bytes \<Rightarrow> string" where
  "toy_hex_encode b = concat (map (\<lambda>x. [hex_digits ! (unat x div 16), hex_digits ! (unat x mod 16)]) b)"

fun toy_hex_decode :: "string \<Rightarrow> bytes option" where
  "toy_hex_decode [] = Some []"
| "toy_hex_decode [a] = None"
| "toy_hex_decode (a # b # r) =
     (case (hex_value a, hex_value b, toy_hex_decode r) of
        (Some x, Some y, Some bs) \<Rightarrow> Some (word_of_nat (16 * x + y) # bs) | _ \<Rightarrow> None)"

text \<open>Strings in a row: each one's length in unary before it.\<close>

definition pack_strings :: "string list \<Rightarrow> string" where
  "pack_strings ss = concat (map (\<lambda>s. replicate (length s) CHR ''1'' @ CHR ''0'' # s) ss)"

primrec unpack_strings :: "nat \<Rightarrow> string \<Rightarrow> string list" where
  "unpack_strings 0 s = []"
| "unpack_strings (Suc n) s =
     (if s = [] then []
      else let k = length (takeWhile ((=) CHR ''1'') s) in take k (drop (Suc k) s) # unpack_strings n (drop (Suc (2 * k)) s))"

fun flatten_pairs :: "(string \<times> string) list \<Rightarrow> string list" where
  "flatten_pairs [] = []"
| "flatten_pairs ((k, v) # r) = k # v # flatten_pairs r"

fun pair_up :: "string list \<Rightarrow> (string \<times> string) list" where
  "pair_up (k # v # r) = (k, v) # pair_up r"
| "pair_up _ = []"

text \<open>An account's name, and the JSON values a test needs.\<close>

definition toy_name :: "bytes \<Rightarrow> string" where "toy_name b = map (\<lambda>x. char_of (unat x)) b"
definition toy_unname :: "string \<Rightarrow> bytes" where "toy_unname s = map (\<lambda>c. word_of_nat (of_char c)) s"

datatype toy_json = TNull | TString string | TObject "(string \<times> string) list" | TAccount bytes | TBytes bytes | TByte u8

definition toy_libs :: "shards \<Rightarrow> toy_json host_libs" where
  "toy_libs s = \<lparr>hex_encode = toy_hex_encode, hex_decode = toy_hex_decode, base58_encode = toy_name,
     parse_base58_id = (\<lambda>_. None),
     json_parse = (\<lambda>t. case t of [] \<Rightarrow> None
       | c # r \<Rightarrow> Some (if c = CHR ''A'' then TAccount (toy_unname r) else TObject (pair_up (unpack_strings (length r) r)))),
     json_print = (\<lambda>j. case j of TObject fs \<Rightarrow> CHR ''O'' # pack_strings (flatten_pairs fs) | _ \<Rightarrow> []),
     json_object = (\<lambda>fs. TObject (map (\<lambda>(k, j). (k, case j of TString v \<Rightarrow> v | _ \<Rightarrow> [])) fs)),
     json_string = TString,
     json_get = (\<lambda>j k. case j of TObject fs \<Rightarrow> map_option TString (map_of fs k)
       | TAccount a \<Rightarrow> if k = ''error'' then None else Some (TAccount a) | _ \<Rightarrow> None),
     json_null = TNull,
     json_as_str = (\<lambda>j. case j of TString v \<Rightarrow> Some v | _ \<Rightarrow> None),
     json_as_object = (\<lambda>j. case j of
         TAccount a \<Rightarrow> Some (\<lambda>p. if shard s (a, toy_unname p) = [] then None else Some (TBytes (shard s (a, toy_unname p))))
       | _ \<Rightarrow> None),
     json_as_array = (\<lambda>j. case j of TBytes b \<Rightarrow> Some (map TByte b) | _ \<Rightarrow> None),
     json_as_u64 = (\<lambda>j. case j of TByte b \<Rightarrow> Some (ucast b) | _ \<Rightarrow> None)\<rparr>"

definition toy_fetch :: fetch where
  "toy_fetch sequencer method param = Some (CHR ''A'' # param)"

lemma toy_unname [simp]: "toy_unname (toy_name b) = b"
proof -
  have "word_of_nat (of_char (char_of (unat x) :: char)) = x" for x :: u8
    using unsigned_less [of x, where 'a = nat] by simp
  then show ?thesis by (simp add: toy_unname_def toy_name_def comp_def)
qed

lemma toy_answers: "answers (toy_libs s) toy_fetch s"
  by (auto simp: answers_def toy_libs_def toy_fetch_def json_index_def comp_def)

lemma hex_value_digit: "n < 16 \<Longrightarrow> hex_value (hex_digits ! n) = Some n"
proof -
  have "list_all (\<lambda>n. hex_value (hex_digits ! n) = Some n) [0..<16]" by code_simp
  then show "n < 16 \<Longrightarrow> ?thesis" by (simp add: list_all_iff)
qed

lemma toy_hex: "hex_ok (toy_libs s)"
proof -
  have lt: "unat x div 16 < 16" "unat x mod 16 < 16" for x :: u8
    using unsigned_less [of x, where 'a = nat] by auto
  have "toy_hex_decode (toy_hex_encode b) = Some b" for b
    by (induction b) (simp_all add: toy_hex_encode_def hex_value_digit lt)
  moreover have "set (toy_hex_encode b) \<subseteq> set hex_digits" for b
  proof -
    have "hex_digits ! n \<in> set hex_digits" if "n < 16" for n
      using that by (intro nth_mem) (simp add: hex_digits_def)
    then show ?thesis using lt by (auto simp: toy_hex_encode_def)
  qed
  moreover have "length (toy_hex_encode b) = 2 * length b" for b
    by (induction b) (simp_all add: toy_hex_encode_def)
  ultimately show ?thesis by (simp add: hex_ok_def toy_libs_def)
qed

lemma unpack_pack: "length ss \<le> n \<Longrightarrow> unpack_strings n (pack_strings ss) = ss"
proof (induction ss arbitrary: n)
  case Nil
  then show ?case by (cases n) (simp_all add: pack_strings_def)
next
  case (Cons x ss)
  then obtain m where n: "n = Suc m" and m: "length ss \<le> m" by (cases n) auto
  have e: "pack_strings (x # ss) = replicate (length x) CHR ''1'' @ CHR ''0'' # x @ pack_strings ss"
    by (simp add: pack_strings_def)
  have "takeWhile ((=) CHR ''1'') (pack_strings (x # ss)) = replicate (length x) CHR ''1''"
    unfolding e by (subst takeWhile_append2) (auto simp: takeWhile_append2)
  then show ?case using Cons.IH [OF m] by (simp add: n Let_def e)
qed

lemma length_pack: "length ss \<le> length (pack_strings ss)"
  by (induction ss) (simp_all add: pack_strings_def)

lemma toy_json: "json_ok (toy_libs s)"
proof -
  have "pair_up (flatten_pairs fs) = fs" for fs by (induction fs rule: flatten_pairs.induct) simp_all
  moreover have "(\<lambda>(k, j). (k, case j of TString v \<Rightarrow> v | _ \<Rightarrow> [])) \<circ> (\<lambda>(k :: string, s). (k, TString s)) = id" by auto
  moreover have "(\<lambda>j. case j of TString v \<Rightarrow> Some v | _ \<Rightarrow> None) \<circ> TString = Some" by auto
  ultimately show ?thesis
    by (simp add: json_ok_def toy_libs_def unpack_pack [OF length_pack] option.map_comp)
qed

end
