(* ===== verification/Wallet.thy ===== *)
theory Wallet
  imports Setup
begin

text \<open>
  What the host keeps beside the chain, and the two calls of \<open>src/rln/client.rs\<close> that use all of it: the
  files under the home directory (\<open>src/rln/program_ids.rs\<close>, the payment account), the guest binaries, a
  new RLN identity, and a registration from its request to the end of its wait. Files are a map from
  paths to contents; a directory is there when a file is written, and \<open>can_write\<close> says which writes succeed.
  Opening the wallet is not modelled.
\<close>

section \<open>Files\<close>

type_synonym files = "string \<Rightarrow> string option"

definition DATA_DIR :: string where "DATA_DIR = ''.logos-lez-rln''"

text \<open>\<open>Path::join\<close> with a relative second path.\<close>

definition path_join :: "string \<Rightarrow> string \<Rightarrow> string" where
  "path_join a b = (if a = [] then b else if last a = CHR ''/'' then a @ b else a @ ''/'' @ b)"

definition home_dir :: "environment \<Rightarrow> string" where
  "home_dir env = (case env ''HOME'' of None \<Rightarrow> ''.'' | Some home \<Rightarrow> home)"

definition record_path :: "'j host_libs \<Rightarrow> environment \<Rightarrow> bytes \<Rightarrow> string" where
  "record_path H env tree_id =
     path_join (path_join (home_dir env) DATA_DIR) (''programs_'' @ hex_encode H tree_id @ ''.json'')"

definition account_file_path :: "'j host_libs \<Rightarrow> environment \<Rightarrow> bytes \<Rightarrow> string \<Rightarrow> string" where
  "account_file_path H env tree_id prefix =
     path_join (path_join (home_dir env) DATA_DIR) (prefix @ ''_'' @ hex_encode H tree_id @ ''.txt'')"

definition write_file :: "(string \<Rightarrow> bool) \<Rightarrow> string \<Rightarrow> string \<Rightarrow> string \<Rightarrow> files \<Rightarrow> files result" where
  "write_file can_write msg path content files =
     rbind (check (can_write path) (Panic msg)) (\<lambda>_. Inr (files(path \<mapsto> content)))"

definition save_payment_account ::
  "'j host_libs \<Rightarrow> environment \<Rightarrow> (string \<Rightarrow> bool) \<Rightarrow> bytes \<Rightarrow> account_id \<Rightarrow> files \<Rightarrow> files result" where
  "save_payment_account H env can_write tree_id account =
     write_file can_write ''Failed to save payment_account ID'' (account_file_path H env tree_id ''payment_account'') (base58_encode H account)"

definition load_payment_account :: "'j host_libs \<Rightarrow> environment \<Rightarrow> bytes \<Rightarrow> files \<Rightarrow> account_id option" where
  "load_payment_account H env tree_id files =
     (case files (account_file_path H env tree_id ''payment_account'') of
        None \<Rightarrow> None | Some s \<Rightarrow> parse_base58_id H (trim s))"

definition save_program_ids ::
  "'j host_libs \<Rightarrow> environment \<Rightarrow> (string \<Rightarrow> bool) \<Rightarrow> bytes \<Rightarrow> program_ids \<Rightarrow> files \<Rightarrow> files result" where
  "save_program_ids H env can_write tree_id ids =
     write_file can_write ''Failed to write'' (record_path H env tree_id) (encode_record H ids)"

definition known_program_ids_in :: "'j host_libs \<Rightarrow> environment \<Rightarrow> bytes \<Rightarrow> files \<Rightarrow> string + known_program_ids" where
  "known_program_ids_in H env tree_id files = known_program_ids_of H env (files (record_path H env tree_id))"

section \<open>The guest binaries\<close>

definition REGISTRATION_BINARY :: string where
  "REGISTRATION_BINARY = ''methods/guest/target/riscv32im-risc0-zkvm-elf/docker/rln_registration.bin''"

definition MERKLE_TREE_BINARY :: string where
  "MERKLE_TREE_BINARY = ''methods/guest/target/riscv32im-risc0-zkvm-elf/docker/incremental_merkle_tree.bin''"

definition load_program :: "loader \<Rightarrow> (string \<Rightarrow> bytes option) \<Rightarrow> string \<Rightarrow> (image_id \<times> bytes) result" where
  "load_program L binaries path =
     (case binaries path of
        None \<Rightarrow> Inl (Panic ''Failed to read program binary'')
      | Some b \<Rightarrow> (case program_image L b of None \<Rightarrow> Inl (Panic ''Failed to parse program'') | Some i \<Rightarrow> Inr (i, b)))"

definition load_programs ::
  "loader \<Rightarrow> (string \<Rightarrow> bytes option) \<Rightarrow> ((image_id \<times> bytes) \<times> image_id \<times> bytes) result" where
  "load_programs L binaries =
     rbind (load_program L binaries REGISTRATION_BINARY) (\<lambda>r.
     rbind (load_program L binaries MERKLE_TREE_BINARY) (\<lambda>m. Inr (r, m)))"

section \<open>Identities\<close>

text \<open>
  \<open>generate seed\<close> is zerokit's \<open>IdentityKeys::generate_seeded\<close>: the secret and the commitment.
  \<open>signing_key\<close> is the wallet's key of an account. The state is the wallet's next
  account; storing the wallet succeeds.
\<close>

record 'f rln_identity =
  identity_secret :: 'f
  id_commitment_fr :: 'f
  id_commitment_bytes :: bytes
  leaf_bytes :: bytes
  id_secret_hash_hex :: string

definition create_identity ::
  "'j host_libs \<Rightarrow> 'f host_field \<Rightarrow> (bytes \<Rightarrow> 'f \<times> 'f) \<Rightarrow> key_chain \<Rightarrow> (account_id \<Rightarrow> bytes option) \<Rightarrow> u64 \<Rightarrow> nat \<Rightarrow>
     ('f rln_identity \<times> nat) result" where
  "create_identity H F generate keys signing_key user_message_limit next =
     (case signing_key (keys next) of
        None \<Rightarrow> Inl (Panic ''Account should be self-owned public'')
      | Some seed \<Rightarrow>
          let (secret, commitment) = generate seed in
          rbind (fr_to_bytes_le F secret) (\<lambda>s.
          rbind (fr_to_bytes_le F commitment) (\<lambda>c.
          rbind (rate_commitment_from_fr F commitment user_message_limit) (\<lambda>leaf.
          Inr (\<lparr>identity_secret = secret, id_commitment_fr = commitment, id_commitment_bytes = c,
                leaf_bytes = leaf, id_secret_hash_hex = hex_encode H s\<rparr>, Suc next)))))"

section \<open>A registration\<close>

text \<open>
  \<open>submit tx w\<close>: \<open>None\<close> when the sequencer refuses the transaction, else what the wait after it observes,
  attempt by attempt, and the world then.
\<close>

type_synonym submit = "metered_tx \<Rightarrow> world \<Rightarrow> ((bytes \<times> bool \<times> bytes) list \<times> world) option"

definition register_identity ::
  "external \<Rightarrow> 'f host_field \<Rightarrow> 'j host_libs \<Rightarrow> submit \<Rightarrow> (account_id \<Rightarrow> bool) \<Rightarrow> program_ids \<Rightarrow> bytes \<Rightarrow>
     bytes \<Rightarrow> account_id \<Rightarrow> u64 \<Rightarrow> world \<Rightarrow> (nat option \<times> world) result" where
  "register_identity E F H submit in_wallet programs tree_id id_commitment payer_id rate_limit w =
     rbind (register_request E F w programs tree_id id_commitment payer_id rate_limit) (\<lambda>(rq, leaf, already_at).
     rbind (fee_payer H (w_env w)) (\<lambda>payer.
     rbind (send_metered_tx (w_env w) payer in_wallet rq) (\<lambda>tx.
     case submit tx w of
       None \<Rightarrow> Inl (Panic ''Failed to register identity'')
     | Some (observed, w1) \<Rightarrow>
         rbind (await_registration (take (wait_account_attempts (w_env w)) observed) leaf already_at) (\<lambda>index.
         Inr (index, w1)))))"

section \<open>Properties\<close>

text \<open>What is saved is found again.\<close>

lemma known_after_save:
  assumes "hex_ok H" and "json_ok H" and "bytes32 (pi_registration ids)" and "bytes32 (pi_merkle ids)"
    and "env REGISTRATION_PROGRAM_ID_ENV = None" and "env MERKLE_PROGRAM_ID_ENV = None"
    and "save_program_ids H env can_write t ids files = Inr files'"
  shows "known_program_ids_in H env t files' = Inr \<lparr>ki_registration = Some (pi_registration ids), ki_merkle = Some (pi_merkle ids)\<rparr>"
  using assms decode_encode_record [OF assms(1-4)]
  by (auto simp: save_program_ids_def write_file_def result_simps known_program_ids_in_def known_program_ids_of_def
      read_record_def env_id_def or_else_def)

lemma payment_account_round_trip:
  assumes "parse_base58_id H (trim (base58_encode H a)) = Some a"
    and "save_payment_account H env can_write t a files = Inr files'"
  shows "load_payment_account H env t files' = Some a"
  using assms by (auto simp: save_payment_account_def load_payment_account_def write_file_def result_simps)

text \<open>
  zerokit's identity: the commitment is the one-input Poseidon hash of the secret, and both serialize
  canonically. The secret printed for a member is then the one its slashing needs.
\<close>

definition keys_hash :: "external \<Rightarrow> 'f host_field \<Rightarrow> (bytes \<Rightarrow> 'f \<times> 'f) \<Rightarrow> bool" where
  "keys_hash E F generate \<longleftrightarrow>
     (\<forall>seed. let (secret, commitment) = generate seed in
        fr_deserialize F (fr_serialize F secret) = Some secret \<and>
        fr_deserialize F (fr_serialize F commitment) = Some commitment \<and>
        fr_serialize F commitment = compress1 E (fr_serialize F secret))"

lemma identity_slashable:
  assumes "same_poseidon E F" and "poseidon_canonical E" and "hex_ok H" and "keys_hash E F generate"
    and "create_identity H F generate keys signing_key l next = Inr (identity, next')"
  obtains secret where "hex_decode H (id_secret_hash_hex identity) = Some secret" and "bytes32 secret" and "felt_valid E secret"
    and "compress1 E secret = id_commitment_bytes identity" and "next' = Suc next"
    and "leaf_bytes identity = membership_leaf E (id_commitment_bytes identity) l"
proof -
  from assms(5) obtain seed secret commitment where g: "generate seed = (secret, commitment)"
    and r: "fr_to_bytes_le F secret = Inr (fr_serialize F secret)" "fr_to_bytes_le F commitment = Inr (fr_serialize F commitment)"
    and i: "id_secret_hash_hex identity = hex_encode H (fr_serialize F secret)"
      "id_commitment_bytes identity = fr_serialize F commitment" "next' = Suc next"
    and leaf: "rate_commitment_from_fr F commitment l = Inr (leaf_bytes identity)"
    by (auto simp: create_identity_def fr_to_bytes_le_def result_simps split: option.splits prod.splits)
  have k: "fr_deserialize F (fr_serialize F secret) = Some secret" "fr_deserialize F (fr_serialize F commitment) = Some commitment"
    "fr_serialize F commitment = compress1 E (fr_serialize F secret)"
    using assms(4) g by (auto simp: keys_hash_def Let_def dest!: spec [of _ seed])
  have v: "bytes32 b \<and> felt_valid E b" if "fr_deserialize F b = Some x" for b x
    using assms(1) that by (metis option.distinct(1) same_poseidon_def)
  have "registration_leaf F (fr_serialize F commitment) l = Inr (leaf_bytes identity)"
    using leaf k(2) by (simp add: registration_leaf_def expect_fr_def bytes_le_to_fr_def)
  then have "leaf_bytes identity = membership_leaf E (id_commitment_bytes identity) l"
    using registration_leaf_eq [OF assms(1,2)] v [OF k(2)] i(2) by simp
  then show ?thesis
    using that [of "fr_serialize F secret"] assms(3) i k v [OF k(1)] by (simp add: hex_ok_def)
qed

end
