(* ===== verification/Cli.thy ===== *)
theory Cli
  imports Wallet
begin

text \<open>
  What the command-line binaries (\<open>src/bin\<close>) share: the text they print and read, their argument loops,
  and the binaries that read or move a balance (\<open>account_balance\<close>, \<open>fund_account\<close>). A run is the lines it
  prints itself, in order, and how it ends; what the client's calls print, and the text
  of a library's error, are left out. Text is ASCII.
\<close>

section \<open>Printing and reading\<close>

text \<open>Numbers are displayed in decimal (\<open>decimal\<close>), bytes by \<open>{:02x}\<close>.\<close>

definition hex_lower :: "bytes \<Rightarrow> string" where
  "hex_lower b = concat (map (\<lambda>x. [hex_digits ! (unat x div 16), hex_digits ! (unat x mod 16)]) b)"

text \<open>\<open>str::split\<close> on a character, and \<open>str::lines\<close>: a line ends in a newline, or a return and a newline.\<close>

fun split_from :: "char \<Rightarrow> string \<Rightarrow> string \<Rightarrow> string list" where
  "split_from sep acc [] = [acc]"
| "split_from sep acc (c # cs) = (if c = sep then acc # split_from sep [] cs else split_from sep (acc @ [c]) cs)"

definition split_on :: "char \<Rightarrow> string \<Rightarrow> string list" where
  "split_on sep s = split_from sep [] s"

definition NEWLINE :: char where "NEWLINE = char_of (10 :: nat)"
definition RETURN :: char where "RETURN = char_of (13 :: nat)"

definition drop_return :: "string \<Rightarrow> string" where
  "drop_return s = (if s \<noteq> [] \<and> last s = RETURN then butlast s else s)"

fun lines_from :: "string \<Rightarrow> string \<Rightarrow> string list" where
  "lines_from acc [] = (if acc = [] then [] else [acc])"
| "lines_from acc (c # cs) =
     (if c = NEWLINE then drop_return acc # lines_from [] cs else lines_from (acc @ [c]) cs)"

definition text_lines :: "string \<Rightarrow> string list" where
  "text_lines s = lines_from [] s"

text \<open>How the client's errors name where a reserve comes from.\<close>

definition display_basis :: "reserve_basis \<Rightarrow> string" where
  "display_basis basis =
     (case basis of Quote height \<Rightarrow> ''getFeeState at height '' @ decimal (unat height)
      | Fallback \<Rightarrow> ''fixed fallback, no fee quote'')"

section \<open>Runs\<close>

datatype line = Out string | Err string

type_synonym 'a run = "line list \<times> 'a result"

definition say :: "line \<Rightarrow> unit run" where "say l = ([l], Inr ())"

definition quiet :: "'a result \<Rightarrow> 'a run" where "quiet r = ([], r)"

definition run_bind :: "'a run \<Rightarrow> ('a \<Rightarrow> 'b run) \<Rightarrow> 'b run" where
  "run_bind x f = (case x of (ls, Inl e) \<Rightarrow> (ls, Inl e) | (ls, Inr a) \<Rightarrow> (let (ls', r) = f a in (ls @ ls', r)))"

lemma run_bind_say [simp]: "run_bind (say l) f = (l # fst (f ()), snd (f ()))"
  by (simp add: run_bind_def say_def split: prod.splits)

lemma run_bind_quiet [simp]:
  "run_bind (quiet (Inr a)) f = f a" "run_bind (quiet (Inl e)) f = ([], Inl e)"
  by (simp_all add: run_bind_def quiet_def split: prod.splits)

lemma run_bind_pair [simp]:
  "run_bind (ls, Inl e) f = (ls, Inl e)" "run_bind (ls, Inr a) f = (ls @ fst (f a), snd (f a))"
  by (simp_all add: run_bind_def split: prod.splits)

lemma quiet_snd [simp]: "snd (quiet r) = r" "fst (quiet r) = []" "snd (say l) = Inr ()" "fst (say l) = [l]"
  by (simp_all add: quiet_def say_def)

lemma run_bind_Inr:
  "snd (run_bind x f) = Inr b \<longleftrightarrow> (\<exists>a. snd x = Inr a \<and> snd (f a) = Inr b)"
  by (cases x; cases "snd x") (auto simp: run_bind_def split: prod.splits)

section \<open>Reading a balance\<close>

definition usage :: "string \<Rightarrow> 'a run" where "usage txt = ([Err txt], Inl (Exit 2))"

definition unknown_argument :: "string \<Rightarrow> string \<Rightarrow> 'a run" where
  "unknown_argument txt arg = run_bind (say (Err (''unknown argument: '' @ arg))) (\<lambda>_. usage txt)"

definition BALANCE_USAGE :: string where
  "BALANCE_USAGE = ''usage: account_balance --of <account-id>'' @ [NEWLINE, NEWLINE] @
     ''The id is 64 hex chars or base58. LEE_WALLET_HOME_DIR names a wallet; any'' @ [NEWLINE] @
     ''wallet will do, because this reads an account rather than spending one.''"

text \<open>\<open>account_balance\<close>: \<open>balance_of a\<close> is what the sequencer answers for an account, \<open>None\<close> for an error.\<close>

fun balance_args :: "string list \<Rightarrow> string option \<Rightarrow> string option run" where
  "balance_args [] whose = quiet (Inr whose)"
| "balance_args [arg] whose =
     (if arg = ''--of'' then quiet (Inr None)
      else if arg = ''-h'' \<or> arg = ''--help'' then usage BALANCE_USAGE
      else unknown_argument BALANCE_USAGE arg)"
| "balance_args (arg # v # args) whose =
     (if arg = ''--of'' then balance_args args (Some v)
      else if arg = ''-h'' \<or> arg = ''--help'' then usage BALANCE_USAGE
      else unknown_argument BALANCE_USAGE arg)"

definition balance_line :: "bytes \<Rightarrow> u128 \<Rightarrow> string" where
  "balance_line a balance =
     ''{\"account\":\"'' @ hex_lower a @ ''\",\"balance\":\"'' @ decimal (unat balance) @ ''\"}''"

definition account_balance ::
  "'j host_libs \<Rightarrow> (account_id \<Rightarrow> u128 option) \<Rightarrow> string list \<Rightarrow> unit run" where
  "account_balance H balance_of args =
     run_bind (balance_args args None) (\<lambda>whose.
     case whose of
       None \<Rightarrow> usage BALANCE_USAGE
     | Some s \<Rightarrow> (case parse_account_id H s of
           Inl e \<Rightarrow> ([Err (''--of is '' @ e)], Inl (Exit 2))
         | Inr a \<Rightarrow> (case balance_of a of
               None \<Rightarrow> ([Err (''cannot read '' @ base58_encode H a)], Inl (Exit 1))
             | Some b \<Rightarrow> say (Out (balance_line a b)))))"

section \<open>Moving a balance\<close>

definition FUND_USAGE :: string where
  "FUND_USAGE = ''usage: fund_account --to <account-id> --amount <atomic units>'' @ [NEWLINE, NEWLINE] @
     ''LEE_WALLET_HOME_DIR names the wallet holding the payer; LEZ_RLN_PAYER names'' @ [NEWLINE] @
     ''the payer itself, and its key must be in that wallet.''"

text \<open>\<open>fund_account\<close>: the arguments read so far are the destination and the amount.\<close>

definition parse_amount :: "string \<Rightarrow> u128 option" where
  "parse_amount a = map_option word_of_nat (parse_uint 128 (trim a))"

definition amount_or_exit :: "u128 option \<Rightarrow> u128 run" where
  "amount_or_exit amount =
     (case amount of
        None \<Rightarrow> ([Err ''--amount must be a non-negative integer''], Inl (Exit 2)) | Some n \<Rightarrow> quiet (Inr n))"

fun fund_args :: "string list \<Rightarrow> string option \<Rightarrow> u128 option \<Rightarrow> (string option \<times> u128 option) run" where
  "fund_args [] dest amount = quiet (Inr (dest, amount))"
| "fund_args [arg] dest amount =
     (if arg = ''--to'' then quiet (Inr (None, amount))
      else if arg = ''--amount'' then run_bind (amount_or_exit None) (\<lambda>n. quiet (Inr (dest, Some n)))
      else if arg = ''-h'' \<or> arg = ''--help'' then usage FUND_USAGE
      else unknown_argument FUND_USAGE arg)"
| "fund_args (arg # v # args) dest amount =
     (if arg = ''--to'' then fund_args args (Some v) amount
      else if arg = ''--amount'' then run_bind (amount_or_exit (parse_amount v)) (\<lambda>n. fund_args args dest (Some n))
      else if arg = ''-h'' \<or> arg = ''--help'' then usage FUND_USAGE
      else unknown_argument FUND_USAGE arg)"

text \<open>\<open>transfer payer to amount w\<close>: \<open>NativeTokenTransfer::send_public_transfer\<close>, \<open>None\<close> when it fails.\<close>

definition fund_account ::
  "'j host_libs \<Rightarrow> environment \<Rightarrow> (account_id \<Rightarrow> account_id \<Rightarrow> u128 \<Rightarrow> 'w \<Rightarrow> 'w option) \<Rightarrow> string list \<Rightarrow> 'w \<Rightarrow> 'w run" where
  "fund_account H env transfer args w =
     run_bind (fund_args args None None) (\<lambda>(dest, amount).
     case (dest, amount) of
       (Some s, Some n) \<Rightarrow> (case parse_account_id H s of
           Inl e \<Rightarrow> ([Err (''--to is '' @ e)], Inl (Exit 2))
         | Inr a \<Rightarrow>
             run_bind (quiet (resolve_payer H env)) (\<lambda>payer.
             run_bind (say (Out (''funding '' @ base58_encode H a @ '' with '' @ decimal (unat n) @
               '' native from '' @ base58_encode H payer))) (\<lambda>_.
             case transfer payer a n w of
               None \<Rightarrow> ([Err ''transfer failed''], Inl (Exit 1))
             | Some w1 \<Rightarrow> run_bind (say (Out ''submitted'')) (\<lambda>_. quiet (Inr w1)))))
     | _ \<Rightarrow> usage FUND_USAGE)"

section \<open>What is printed reads back\<close>

lemma digit_value_char [simp]: "d < 10 \<Longrightarrow> digit_value (digit_char d) = Some d"
  by (simp add: digit_value_def digit_char_def)

lemma parse_digits_append:
  "parse_digits acc (xs @ ys) = (case parse_digits acc xs of None \<Rightarrow> None | Some n \<Rightarrow> parse_digits n ys)"
  by (induction acc xs rule: parse_digits.induct) (auto split: option.splits)

lemma parse_digits_decimal: "parse_digits 0 (decimal n) = Some n"
proof (induction n rule: decimal.induct)
  case (1 n)
  then show ?case by (subst decimal.simps) (auto simp: parse_digits_append)
qed

lemma decimal_digits: "set (decimal n) \<subseteq> digit_char ` {..<10}"
proof (induction n rule: decimal.induct)
  case (1 n)
  then show ?case by (subst decimal.simps) auto
qed

lemma decimal_not_Nil [simp]: "decimal n \<noteq> []"
  by (subst decimal.simps) simp

lemma of_digit_char: "d < 10 \<Longrightarrow> of_char (digit_char d) = 48 + d"
  by (simp add: digit_char_def)

lemma digit_char_plain:
  assumes "c \<in> digit_char ` {..<10}"
  shows "\<not> is_space c \<and> c \<noteq> CHR ''+'' \<and> c \<noteq> CHR '','' \<and> c \<noteq> NEWLINE \<and> c \<noteq> RETURN"
proof -
  have "48 \<le> (of_char c :: nat)" using assms of_digit_char by auto
  then show ?thesis by (auto simp: is_space_def Let_def NEWLINE_def RETURN_def)
qed

lemma decimal_plain: "c \<in> set (decimal n) \<Longrightarrow> \<not> is_space c \<and> c \<noteq> CHR ''+'' \<and> c \<noteq> CHR '','' \<and> c \<noteq> NEWLINE \<and> c \<noteq> RETURN"
  using decimal_digits [of n] by (intro digit_char_plain) auto

lemma trim_decimal [simp]: "trim (decimal n) = decimal n"
  by (rule trim_id) (simp add: decimal_plain)

lemma parse_uint_decimal: "n < 2 ^ w \<Longrightarrow> parse_uint w (decimal n) = Some n"
  using decimal_plain [of _ n] parse_digits_decimal [of n]
  by (cases "decimal n") (auto simp: parse_uint_def Let_def)

lemma parse_amount_decimal [simp]: "parse_amount (decimal (unat b)) = Some b"
proof -
  have "unat b < 2 ^ 128" using unsigned_less [of b, where 'a = nat] by simp
  then show ?thesis by (simp add: parse_amount_def parse_uint_decimal)
qed

end
