(* ===== verification/Binaries.thy ===== *)
theory Binaries
  imports Cli CheckMembership
begin

text \<open>
  The binaries that set up a registry, derive its accounts, and register members (\<open>src/bin\<close>:
  \<open>run_setup\<close>, \<open>derive_accounts\<close>, \<open>get_roots\<close>, \<open>register_member\<close>, \<open>register_commitments\<close>,
  \<open>mint_payer\<close>), composed of the client's calls as the binaries compose them. Opening the wallet
  succeeds. A run that ends in a panic or an exit keeps what it printed, not the state it left.
\<close>

section \<open>The ids of a tree\<close>

definition program_ids_from :: "'j host_libs \<Rightarrow> environment \<Rightarrow> files \<Rightarrow> bytes \<Rightarrow> program_ids result" where
  "program_ids_from H env files tree_id = program_ids_or_exit H env (files (record_path H env tree_id))"

section \<open>run_setup\<close>

record machine =
  mc_chain :: "selector \<Rightarrow> bytes"
  mc_next_key :: nat
  mc_files :: files

definition setup_report :: "'j host_libs \<Rightarrow> program_ids \<Rightarrow> account_id \<Rightarrow> account_id \<Rightarrow> account_id \<Rightarrow> line list" where
  "setup_report H programs payer tree_main config =
     [Out (''Payment account saved: '' @ base58_encode H payer),
      Out (''Registration program: '' @ hex_id H (pi_registration programs)),
      Out (''Merkle program:       '' @ hex_id H (pi_merkle programs)),
      Out (''Tree main account:    '' @ base58_encode H tree_main),
      Out (''Config account:       '' @ base58_encode H config)]"

definition run_setup_main ::
  "external \<Rightarrow> 'j host_libs \<Rightarrow> loader \<Rightarrow> network \<Rightarrow> environment \<Rightarrow> key_chain \<Rightarrow> (string \<Rightarrow> bytes option) \<Rightarrow>
     (string \<Rightarrow> bool) \<Rightarrow> machine \<Rightarrow> (program_ids \<times> machine) run" where
  "run_setup_main E H L N env keys binaries can_write mc =
     run_bind (quiet (resolve_payer H env)) (\<lambda>payer.
     run_bind (quiet (tree_id_from_env H env)) (\<lambda>tree_id.
     run_bind (quiet (load_programs L binaries)) (\<lambda>(registration, merkle).
     run_bind (say (Out (''=== RLN Setup ==='' @ [NEWLINE]))) (\<lambda>_.
     let record_file = record_path H env tree_id in
     run_bind (quiet (run_setup E H L N env keys registration merkle tree_id
       \<lparr>hs_chain = mc_chain mc, hs_next_key = mc_next_key mc, hs_record = mc_files mc record_file\<rparr>)) (\<lambda>(programs, h).
     run_bind (quiet (save_program_ids H env can_write tree_id programs (mc_files mc))) (\<lambda>files1.
     run_bind (quiet (save_payment_account H env can_write tree_id payer files1)) (\<lambda>files2.
     run_bind (quiet (derive_main_account E (pi_registration programs) tree_id)) (\<lambda>tree_main.
     run_bind (quiet (derive_config_account E (pi_registration programs) tree_id)) (\<lambda>config.
     (setup_report H programs payer tree_main config,
      Inr (programs, \<lparr>mc_chain = hs_chain h, mc_next_key = hs_next_key h, mc_files = files2\<rparr>)))))))))))"

section \<open>derive_accounts and get_roots\<close>

definition accounts_line :: "'j host_libs \<Rightarrow> program_ids \<Rightarrow> account_id \<Rightarrow> account_id \<Rightarrow> string" where
  "accounts_line H programs config tree_main =
     ''{\"registration_program_id\":\"'' @ hex_id H (pi_registration programs) @
     ''\",\"merkle_program_id\":\"'' @ hex_id H (pi_merkle programs) @
     ''\",\"config_account\":\"'' @ base58_encode H config @
     ''\",\"tree_main_account\":\"'' @ base58_encode H tree_main @ ''\"}''"

definition derive_accounts :: "external \<Rightarrow> 'j host_libs \<Rightarrow> environment \<Rightarrow> files \<Rightarrow> unit run" where
  "derive_accounts E H env files =
     run_bind (quiet (tree_id_from_env H env)) (\<lambda>tree_id.
     run_bind (quiet (program_ids_from H env files tree_id)) (\<lambda>programs.
     run_bind (quiet (derive_config_account E (pi_registration programs) tree_id)) (\<lambda>config.
     run_bind (quiet (derive_main_account E (pi_registration programs) tree_id)) (\<lambda>tree_main.
     say (Out (accounts_line H programs config tree_main))))))"

definition get_roots ::
  "external \<Rightarrow> 'j host_libs \<Rightarrow> environment \<Rightarrow> files \<Rightarrow> (selector \<Rightarrow> bytes) \<Rightarrow> unit run" where
  "get_roots E H env files chain =
     run_bind (quiet (tree_id_from_env H env)) (\<lambda>tree_id.
     run_bind (quiet (program_ids_from H env files tree_id)) (\<lambda>programs.
     run_bind (quiet (fetch_root E chain programs tree_id)) (\<lambda>root.
     say (Out (''LEZ tree root (LE hex): '' @ hex_encode H root)))))"

section \<open>register_member\<close>

definition USER_MESSAGE_LIMIT :: u64 where "USER_MESSAGE_LIMIT = 100"

text \<open>The arguments, the program's name first.\<close>

fun parse_count :: "string list \<Rightarrow> nat result" where
  "parse_count (arg # v # args) =
     (if arg = ''--count''
      then (case parse_uint 64 v of None \<Rightarrow> Inl (Panic ''--count must be a positive integer'') | Some n \<Rightarrow> Inr n)
      else parse_count (v # args))"
| "parse_count _ = Inr 1"

definition member_report :: "'j host_libs \<Rightarrow> account_id \<Rightarrow> nat \<Rightarrow> string \<Rightarrow> nat \<Rightarrow> nat \<Rightarrow> line list" where
  "member_report H config leaf_index secret_hex count i =
     [Out (''CONFIG_ACCOUNT='' @ base58_encode H config), Out (''LEAF_INDEX='' @ decimal leaf_index),
      Out (''IDENTITY_SECRET_HASH='' @ secret_hex)] @
     (if 1 < count
      then [Err (''  Registered member '' @ decimal (Suc i) @ ''/'' @ decimal count @ '': leaf='' @ decimal leaf_index)] else [])"

text \<open>What the calls below take beside the wallet and the world.\<close>

record ('f, 'j) rln_host =
  rh_field :: "'f host_field"
  rh_libs :: "'j host_libs"
  rh_generate :: "bytes \<Rightarrow> 'f \<times> 'f"
  rh_keys :: key_chain
  rh_signing_key :: "account_id \<Rightarrow> bytes option"
  rh_in_wallet :: "account_id \<Rightarrow> bool"
  rh_submit :: submit

definition new_identity :: "('f, 'j) rln_host \<Rightarrow> nat \<Rightarrow> ('f rln_identity \<times> nat) result" where
  "new_identity D next =
     create_identity (rh_libs D) (rh_field D) (rh_generate D) (rh_keys D) (rh_signing_key D) USER_MESSAGE_LIMIT next"

definition registered ::
  "external \<Rightarrow> ('f, 'j) rln_host \<Rightarrow> program_ids \<Rightarrow> bytes \<Rightarrow> bytes \<Rightarrow> account_id \<Rightarrow> u64 \<Rightarrow> world \<Rightarrow> (nat option \<times> world) result" where
  "registered E D =
     register_identity E (rh_field D) (rh_libs D) (rh_submit D) (rh_in_wallet D)"

definition register_one ::
  "external \<Rightarrow> ('f, 'j) rln_host \<Rightarrow> program_ids \<Rightarrow> bytes \<Rightarrow> account_id \<Rightarrow> nat \<Rightarrow> nat \<Rightarrow> nat \<times> world \<Rightarrow> (nat \<times> world) run" where
  "register_one E D programs tree_id config count i = (\<lambda>(next, w).
     run_bind (quiet (resolve_payer (rh_libs D) (w_env w))) (\<lambda>payer.
     run_bind (quiet (new_identity D next)) (\<lambda>(identity, next1).
     run_bind (quiet (registered E D programs tree_id (id_commitment_bytes identity) payer USER_MESSAGE_LIMIT w)) (\<lambda>(found, w1).
     case found of
       None \<Rightarrow> quiet (Inl (Panic ''Timeout waiting for leaf to appear on-chain''))
     | Some leaf_index \<Rightarrow>
         (member_report (rh_libs D) config leaf_index (id_secret_hash_hex identity) count i, Inr (next1, w1))))))"

text \<open>A loop over a range or a list, its state threaded through.\<close>

fun run_each :: "('a \<Rightarrow> 's \<Rightarrow> 's run) \<Rightarrow> 'a list \<Rightarrow> 's \<Rightarrow> 's run" where
  "run_each f [] s = quiet (Inr s)"
| "run_each f (x # xs) s = run_bind (f x s) (run_each f xs)"

definition register_member ::
  "external \<Rightarrow> ('f, 'j) rln_host \<Rightarrow> files \<Rightarrow> string list \<Rightarrow> nat \<times> world \<Rightarrow> (nat \<times> world) run" where
  "register_member E D files args = (\<lambda>(next, w).
     run_bind (quiet (parse_count args)) (\<lambda>count.
     run_bind (quiet (tree_id_from_env (rh_libs D) (w_env w))) (\<lambda>tree_id.
     run_bind (quiet (program_ids_from (rh_libs D) (w_env w) files tree_id)) (\<lambda>programs.
     run_bind (quiet (derive_config_account E (pi_registration programs) tree_id)) (\<lambda>config.
     run_each (register_one E D programs tree_id config count) [0..<count] (next, w))))))"

section \<open>register_commitments\<close>

text \<open>
  \<open>u8::from_str_radix\<close> on two characters, base 16: hexadecimal digits of either case; a leading plus sign
  is taken as a sign.
\<close>

definition parse_hex_u8 :: "char \<Rightarrow> char \<Rightarrow> u8 option" where
  "parse_hex_u8 a b =
     (case (if a = CHR ''+'' then Some 0 else hex_value a) of
        None \<Rightarrow> None
      | Some x \<Rightarrow> (case hex_value b of None \<Rightarrow> None | Some y \<Rightarrow> Some (word_of_nat (16 * x + y))))"

definition hex_to_bytes32 :: "string \<Rightarrow> bytes result" where
  "hex_to_bytes32 s =
     (let hex = trim s in
      rbind (check (length hex = 64) (Panic ''Expected 64 hex chars'')) (\<lambda>_.
      rmap (\<lambda>i. case parse_hex_u8 (hex ! (2 * i)) (hex ! (2 * i + 1)) of
          None \<Rightarrow> Inl (Panic ''Invalid hex at position'') | Some b \<Rightarrow> Inr b) [0..<32]))"

definition parse_entry :: "string \<Rightarrow> (bytes \<times> u64) result" where
  "parse_entry l =
     (let parts = split_on CHR '','' l in
      rbind (check (2 \<le> length parts) (Panic ''Expected: hex_commitment,rate_limit[,idSecretHash]'')) (\<lambda>_.
      rbind (hex_to_bytes32 (parts ! 0)) (\<lambda>commitment.
      case parse_uint 64 (trim (parts ! 1)) of
        None \<Rightarrow> Inl (Panic ''Invalid rate_limit'') | Some n \<Rightarrow> Inr (commitment, word_of_nat n))))"

definition parse_csv :: "string \<Rightarrow> (bytes \<times> u64) list result" where
  "parse_csv content = rmap parse_entry (filter (\<lambda>l. trim l \<noteq> []) (text_lines content))"

definition compute_rate_commitment :: "'f host_field \<Rightarrow> bytes \<Rightarrow> u64 \<Rightarrow> bytes result" where
  "compute_rate_commitment F id_commitment rate_limit =
     rbind (expect_fr F ''Invalid id_commitment bytes'' id_commitment) (\<lambda>x. rate_commitment_from_fr F x rate_limit)"

definition entry_report :: "'j host_libs \<Rightarrow> nat \<Rightarrow> nat \<Rightarrow> bytes \<Rightarrow> bytes \<Rightarrow> nat option \<Rightarrow> line" where
  "entry_report H count i commitment leaf found =
     (case found of
        None \<Rightarrow> Err (''WARNING: leaf 0x'' @ hex_encode H (take 8 leaf) @ '' not confirmed, continuing...'')
      | Some leaf_index \<Rightarrow>
          Err (''  Registered '' @ decimal (Suc i) @ ''/'' @ decimal count @ '': leaf_index='' @ decimal leaf_index @
            '' commitment=0x'' @ hex_encode H (take 8 commitment) @ ''... rate_commitment=0x'' @
            hex_encode H (take 8 leaf) @ ''...''))"

definition register_entry ::
  "external \<Rightarrow> ('f, 'j) rln_host \<Rightarrow> program_ids \<Rightarrow> bytes \<Rightarrow> nat \<Rightarrow> nat \<times> bytes \<times> u64 \<Rightarrow> world \<Rightarrow> world run" where
  "register_entry E D programs tree_id count = (\<lambda>(i, commitment, rate_limit) w.
     run_bind (quiet (resolve_payer (rh_libs D) (w_env w))) (\<lambda>payer.
     run_bind (quiet (compute_rate_commitment (rh_field D) commitment rate_limit)) (\<lambda>leaf.
     run_bind (quiet (registered E D programs tree_id commitment payer rate_limit w)) (\<lambda>(found, w1).
     ([entry_report (rh_libs D) count i commitment leaf found], Inr w1)))))"

definition success_line :: "nat \<Rightarrow> line" where
  "success_line count = Err (''All '' @ decimal count @ '' commitments registered successfully.'')"

definition register_commitments ::
  "external \<Rightarrow> ('f, 'j) rln_host \<Rightarrow> files \<Rightarrow> string list \<Rightarrow> world \<Rightarrow> world run" where
  "register_commitments E D files args w =
     (case args of
        program # csv_path # _ \<Rightarrow>
          (case files csv_path of
             None \<Rightarrow> quiet (Inl (Panic ''Failed to read''))
           | Some content \<Rightarrow>
               run_bind (quiet (parse_csv content)) (\<lambda>entries.
               let count = length entries in
               run_bind (say (Err (''Registering '' @ decimal count @ '' identity commitments on-chain...''))) (\<lambda>_.
               run_bind (quiet (tree_id_from_env (rh_libs D) (w_env w))) (\<lambda>tree_id.
               run_bind (quiet (program_ids_from (rh_libs D) (w_env w) files tree_id)) (\<lambda>programs.
               run_bind (quiet (derive_config_account E (pi_registration programs) tree_id)) (\<lambda>config.
               run_bind (run_each (register_entry E D programs tree_id count) (enumerate 0 entries) w) (\<lambda>w1.
               ([Out (''CONFIG_ACCOUNT='' @ base58_encode (rh_libs D) config), success_line count], Inr w1))))))))
      | _ \<Rightarrow> quiet (Inl (Panic ''Usage: register_commitments <commitments.csv>'')))"

section \<open>mint_payer\<close>

text \<open>
  The wallet's storage file is the state, \<open>None\<close> when there is none yet. The wallet crate's operations on it
  are parameters: opening and creating it, the account a label names (with its privacy), a new key, adding
  a label, and the text that is written.
\<close>

datatype labelled = Public account_id | Private account_id

record 's storage_lib =
  st_from_path :: "string \<Rightarrow> 's option"
  st_new :: "'s option"
  st_resolve_label :: "'s \<Rightarrow> string \<Rightarrow> labelled option"
  st_generate :: "'s \<Rightarrow> account_id \<times> 's"
  st_add_label :: "'s \<Rightarrow> string \<Rightarrow> labelled \<Rightarrow> 's option"
  st_save :: "'s \<Rightarrow> string option"

definition PAYER_LABEL :: string where "PAYER_LABEL = ''rln-fee-payer''"

definition expect_some :: "string \<Rightarrow> 'a option \<Rightarrow> 'a result" where
  "expect_some msg x = (case x of None \<Rightarrow> Inl (Panic msg) | Some a \<Rightarrow> Inr a)"

definition mint_payer :: "'j host_libs \<Rightarrow> 's storage_lib \<Rightarrow> string option \<Rightarrow> (account_id \<times> string option) run" where
  "mint_payer H S file =
     run_bind (quiet (case file of
         Some content \<Rightarrow> expect_some ''failed to open wallet storage'' (st_from_path S content)
       | None \<Rightarrow> expect_some ''failed to create wallet storage'' (st_new S))) (\<lambda>storage.
     case st_resolve_label S storage PAYER_LABEL of
       Some (Public existing) \<Rightarrow> ([Out (base58_encode H existing)], Inr (existing, file))
     | _ \<Rightarrow>
         (let (payer, s1) = st_generate S storage in
          run_bind (quiet (expect_some ''failed to label the payer'' (st_add_label S s1 PAYER_LABEL (Public payer)))) (\<lambda>s2.
          run_bind (quiet (expect_some ''failed to persist wallet storage'' (st_save S s2))) (\<lambda>content.
          ([Out (base58_encode H payer)], Inr (payer, Some content))))))"

end
