(* ===== verification/TextProperties.thy ===== *)
theory TextProperties
  imports HostScenario Binaries
begin

text \<open>
  The text the binaries exchange: what they print reads back, in the file of commitments, in the balance
  of an account, and in the wallet's labelled payer.
\<close>

section \<open>Hexadecimal rows\<close>

lemma nibbles: "unat (x :: u8) div 16 < 16" "unat x mod 16 < 16"
  using unsigned_less [of x, where 'a = nat] by auto

lemma hex_digit_plain:
  "n < 16 \<Longrightarrow> \<not> is_space (hex_digits ! n) \<and> hex_digits ! n \<noteq> CHR ''+'' \<and> hex_digits ! n \<noteq> CHR '','' \<and>
     hex_digits ! n \<noteq> NEWLINE \<and> hex_digits ! n \<noteq> RETURN"
proof -
  have "list_all (\<lambda>n. \<not> is_space (hex_digits ! n) \<and> hex_digits ! n \<noteq> CHR ''+'' \<and> hex_digits ! n \<noteq> CHR '','' \<and>
      hex_digits ! n \<noteq> NEWLINE \<and> hex_digits ! n \<noteq> RETURN) [0..<16]" by code_simp
  then show "n < 16 \<Longrightarrow> ?thesis" by (simp add: list_all_iff)
qed

lemma hex_lower_Cons: "hex_lower (x # b) = hex_digits ! (unat x div 16) # hex_digits ! (unat x mod 16) # hex_lower b"
  by (simp add: hex_lower_def)

lemma length_hex_lower [simp]: "length (hex_lower b) = 2 * length b"
  by (induction b) (simp_all add: hex_lower_Cons, simp add: hex_lower_def)

lemma hex_lower_plain:
  "c \<in> set (hex_lower b) \<Longrightarrow> \<not> is_space c \<and> c \<noteq> CHR '','' \<and> c \<noteq> NEWLINE \<and> c \<noteq> RETURN"
  using hex_digit_plain nibbles by (auto simp: hex_lower_def)

lemma hex_lower_nth:
  "i < length b \<Longrightarrow> hex_lower b ! (2 * i) = hex_digits ! (unat (b ! i) div 16) \<and>
     hex_lower b ! Suc (2 * i) = hex_digits ! (unat (b ! i) mod 16)"
proof (induction b arbitrary: i)
  case Nil
  then show ?case by simp
next
  case (Cons x b)
  then show ?case by (cases i) (simp_all add: hex_lower_Cons)
qed

lemma trim_plain: "\<forall>c \<in> set s. \<not> is_space c \<Longrightarrow> trim s = s"
  by (rule trim_id)

lemma dropWhile_keeps: "c \<in> set s \<Longrightarrow> \<not> P c \<Longrightarrow> c \<in> set (dropWhile P s)"
  by (induction s) auto

lemma trim_not_Nil: "c \<in> set s \<Longrightarrow> \<not> is_space c \<Longrightarrow> trim s \<noteq> []"
  using dropWhile_keeps [of c s is_space] dropWhile_keeps [of c "rev (dropWhile is_space s)" is_space]
  by (auto simp: trim_def)

lemma hex_to_bytes32_lower: "bytes32 b \<Longrightarrow> hex_to_bytes32 (hex_lower b) = Inr b"
proof -
  assume b: "bytes32 b"
  have "parse_hex_u8 (hex_lower b ! (2 * i)) (hex_lower b ! (2 * i + 1)) = Some (b ! i)" if "i < 32" for i
  proof -
    have i: "i < length b" using b that by simp
    show ?thesis
      using hex_lower_nth [OF i] nibbles [of "b ! i"] hex_value_digit hex_digit_plain by (simp add: parse_hex_u8_def)
  qed
  then have "rmap (\<lambda>i. case parse_hex_u8 (hex_lower b ! (2 * i)) (hex_lower b ! (2 * i + 1)) of
      None \<Rightarrow> Inl (Panic ''Invalid hex at position'') | Some b \<Rightarrow> Inr b) [0..<32] = Inr (map (\<lambda>i. b ! i) [0..<32])"
    by (intro rmap_ok) simp
  moreover have "trim (hex_lower b) = hex_lower b" by (rule trim_plain) (use hex_lower_plain in blast)
  moreover have "map (\<lambda>i. b ! i) [0..<32] = b" using b map_nth [of b] by simp
  ultimately show ?thesis using b by (simp add: hex_to_bytes32_def)
qed

section \<open>Splitting\<close>

lemma split_from_here: "sep \<notin> set xs \<Longrightarrow> split_from sep acc (xs @ sep # ys) = (acc @ xs) # split_from sep [] ys"
  by (induction xs arbitrary: acc) auto

lemma split_from_end: "sep \<notin> set xs \<Longrightarrow> split_from sep acc xs = [acc @ xs]"
  by (induction xs arbitrary: acc) auto

lemma split_on_two: "sep \<notin> set xs \<Longrightarrow> sep \<notin> set ys \<Longrightarrow> split_on sep (xs @ sep # ys) = [xs, ys]"
  by (simp add: split_on_def split_from_here split_from_end)

lemma split_on_three:
  "sep \<notin> set xs \<Longrightarrow> sep \<notin> set ys \<Longrightarrow> sep \<notin> set zs \<Longrightarrow> split_on sep (xs @ sep # ys @ sep # zs) = [xs, ys, zs]"
  by (simp add: split_on_def split_from_here split_from_end)

lemma lines_from_here: "NEWLINE \<notin> set xs \<Longrightarrow> lines_from acc (xs @ NEWLINE # ys) = drop_return (acc @ xs) # lines_from [] ys"
  by (induction xs arbitrary: acc) auto

lemma drop_return_simps:
  "drop_return (xs @ [RETURN]) = xs" "RETURN \<notin> set xs \<Longrightarrow> drop_return xs = xs"
  by (auto simp: drop_return_def dest: last_in_set)

section \<open>The file of commitments\<close>

text \<open>
  A row: the commitment, its rate limit, and, when the generator kept it, the secret; a line ends in a
  newline or a return and a newline.
\<close>

type_synonym row = "(bytes \<times> u64) \<times> bytes option \<times> bool"

definition row_text :: "row \<Rightarrow> string" where
  "row_text = (\<lambda>((commitment, rate_limit), secret, crlf).
     hex_lower commitment @ '','' @ decimal (unat rate_limit) @
     (case secret of None \<Rightarrow> '''' | Some s \<Rightarrow> '','' @ hex_lower s))"

definition row_end :: "row \<Rightarrow> string" where
  "row_end = (\<lambda>(_, _, crlf). if crlf then [RETURN, NEWLINE] else [NEWLINE])"

definition csv_text :: "row list \<Rightarrow> string" where
  "csv_text rows = concat (map (\<lambda>r. row_text r @ row_end r) rows)"

lemma row_text_plain: "c \<in> set (row_text r) \<Longrightarrow> c \<noteq> NEWLINE \<and> c \<noteq> RETURN"
proof -
  have "CHR '','' \<noteq> NEWLINE \<and> CHR '','' \<noteq> RETURN" by code_simp
  then show "c \<in> set (row_text r) \<Longrightarrow> ?thesis"
    using hex_lower_plain decimal_plain by (auto simp: row_text_def split: option.splits)
qed

lemma text_lines_csv: "text_lines (csv_text rows) = map row_text rows"
proof (induction rows)
  case Nil
  then show ?case by (simp add: csv_text_def text_lines_def)
next
  case (Cons r rows)
  obtain e secret crlf where r: "r = (e, secret, crlf)" by (cases r)
  have rn: "RETURN \<noteq> NEWLINE" by (simp add: RETURN_def NEWLINE_def)
  have nn: "NEWLINE \<notin> set (row_text r)" "NEWLINE \<notin> set (row_text r @ [RETURN])" "RETURN \<notin> set (row_text r)"
    using row_text_plain [of NEWLINE r] row_text_plain [of RETURN r] rn by auto
  have csv: "csv_text (r # rows) = (row_text r @ (if crlf then [RETURN] else [])) @ NEWLINE # csv_text rows"
    by (simp add: csv_text_def row_end_def r)
  have "drop_return (row_text r @ (if crlf then [RETURN] else [])) = row_text r"
    using nn(3) by (simp add: drop_return_simps)
  then have "lines_from [] (csv_text (r # rows)) = row_text r # lines_from [] (csv_text rows)"
    unfolding csv using nn by (subst lines_from_here) simp_all
  then show ?case using Cons by (simp add: text_lines_def)
qed

lemma parse_entry_row:
  assumes "bytes32 commitment"
  shows "parse_entry (row_text ((commitment, rate_limit), secret, crlf)) = Inr (commitment, rate_limit)"
proof -
  have no: "CHR '','' \<notin> set (hex_lower b)" "CHR '','' \<notin> set (decimal n)" for b n
    using hex_lower_plain decimal_plain by blast+
  have lt: "unat rate_limit < 2 ^ 64" using unsigned_less [of rate_limit, where 'a = nat] by simp
  have num: "parse_uint 64 (trim (decimal (unat rate_limit))) = Some (unat rate_limit)" using parse_uint_decimal [OF lt] by simp
  have "\<exists>rest. split_on CHR '','' (row_text ((commitment, rate_limit), secret, crlf)) =
      hex_lower commitment # decimal (unat rate_limit) # rest"
    using split_on_two [OF no(1) no(2)] split_on_three [OF no(1) no(2) no(1)]
    by (cases secret) (simp_all add: row_text_def)
  then show ?thesis
    using hex_to_bytes32_lower [OF assms] num by (auto simp: parse_entry_def Let_def)
qed

lemma row_text_trim: "trim (row_text ((commitment, rate_limit), secret, crlf)) \<noteq> []"
proof -
  obtain c where c: "c \<in> set (decimal (unat rate_limit))" by (metis decimal_not_Nil list.set_intros(1) neq_Nil_conv)
  then have "c \<in> set (row_text ((commitment, rate_limit), secret, crlf))" by (simp add: row_text_def)
  moreover have "\<not> is_space c" using c decimal_plain by blast
  ultimately show ?thesis by (rule trim_not_Nil)
qed

text \<open>
  C34. The file of commitments is read back exactly: rows of a commitment in hexadecimal, a decimal rate
  limit and an optional third column, with either line ending, are parsed to their commitments and rate
  limits, in order; blank lines aside, no row is dropped or changed.
\<close>

theorem csv_round_trip:
  assumes "\<forall>((c, l), _) \<in> set rows. bytes32 c"
  shows "parse_csv (csv_text rows) = Inr (map fst rows)"
proof -
  have "parse_entry (row_text r) = Inr (fst r) \<and> trim (row_text r) \<noteq> []" if "r \<in> set rows" for r
  proof -
    obtain c l secret crlf where r: "r = ((c, l), secret, crlf)" by (metis prod.collapse)
    have "bytes32 c" using bspec [OF assms that] by (simp add: r)
    then show ?thesis using parse_entry_row row_text_trim by (simp add: r)
  qed
  then have "filter (\<lambda>l. trim l \<noteq> []) (map row_text rows) = map row_text rows"
    and "rmap (\<lambda>r. parse_entry (row_text r)) rows = Inr (map fst rows)"
    by (auto simp: filter_id_conv intro: rmap_ok)
  moreover have "rmap parse_entry (map row_text rows) = rmap (\<lambda>r. parse_entry (row_text r)) rows"
    by (induction rows) simp_all
  ultimately show ?thesis by (simp add: parse_csv_def text_lines_csv)
qed

theorem csv_round_trip_witness:
  "parse_csv (csv_text [((demo_C, 200), Some demo_secret, False), ((demo_C, 20), None, True)]) = Inr [(demo_C, 200), (demo_C, 20)]"
  using csv_round_trip [of "[((demo_C, 200), Some demo_secret, False), ((demo_C, 20), None, True)]"] by simp

section \<open>Balances\<close>

text \<open>
  A balance read is a balance that can be sent: \<open>account_balance\<close> prints one line, whose decimal field
  has every digit of the balance; handed to \<open>fund_account\<close> as its amount, before or after the destination,
  it sends exactly that balance from the configured payer to that account, once, and exits with 1 when the
  transfer fails.
\<close>

theorem printed_balance_funds:
  assumes "parse_account_id H s = Inr a" and "balance_of a = Some b" and "resolve_payer H env = Inr payer"
  shows "\<exists>digits. account_balance H balance_of [''--of'', s] =
      ([Out (''{\"account\":\"'' @ hex_lower a @ ''\",\"balance\":\"'' @ digits @ ''\"}'')], Inr ()) \<and>
    (\<forall>args \<in> {[''--to'', s, ''--amount'', digits], [''--amount'', digits, ''--to'', s]}.
       snd (fund_account H env transfer args w) =
         (case transfer payer a b w of None \<Rightarrow> Inl (Exit 1) | Some w1 \<Rightarrow> Inr w1))"
proof (intro exI conjI ballI)
  let ?d = "decimal (unat b)"
  show "account_balance H balance_of [''--of'', s] =
      ([Out (''{\"account\":\"'' @ hex_lower a @ ''\",\"balance\":\"'' @ ?d @ ''\"}'')], Inr ())"
    using assms by (simp add: account_balance_def say_def balance_line_def)
  fix args
  assume "args \<in> {[''--to'', s, ''--amount'', ?d], [''--amount'', ?d, ''--to'', s]}"
  then have "fund_args args None None = quiet (Inr (Some s, Some b))"
    by (auto simp: amount_or_exit_def)
  then show "snd (fund_account H env transfer args w) =
      (case transfer payer a b w of None \<Rightarrow> Inl (Exit 1) | Some w1 \<Rightarrow> Inr w1)"
    using assms by (simp add: fund_account_def split: option.splits)
qed

definition demo_hex_env :: environment where
  "demo_hex_env = (\<lambda>_. None)(''LEZ_RLN_PAYER'' \<mapsto> toy_hex_encode demo_payer,
     ''LEZ_RLN_TREE_ID_HEX'' \<mapsto> toy_hex_encode demo_T)"

lemma demo_parse_id: "length a = 32 \<Longrightarrow> parse_account_id (toy_libs s) (toy_hex_encode a) = Inr a"
proof -
  assume a: "length a = 32"
  note h = toy_hex [of s, unfolded hex_ok_def]
  have enc: "toy_hex_encode a = hex_encode (toy_libs s) a" by (simp add: toy_libs_def)
  have "trim (toy_hex_encode a) = toy_hex_encode a" using h by (intro hex_digits_not_space) (simp add: enc)
  then show ?thesis using h a by (simp add: parse_account_id_def Let_def enc)
qed

lemma demo_env_ids:
  "resolve_payer (toy_libs s) demo_hex_env = Inr demo_payer" "tree_id_from_env (toy_libs s) demo_hex_env = Inr demo_T"
proof -
  show "resolve_payer (toy_libs s) demo_hex_env = Inr demo_payer"
    by (simp add: resolve_payer_def fee_payer_def demo_hex_env_def demo_parse_id)
  have "hex_decode (toy_libs s) (toy_hex_encode demo_T) = Some demo_T"
    using toy_hex [of s] by (simp add: hex_ok_def toy_libs_def)
  then show "tree_id_from_env (toy_libs s) demo_hex_env = Inr demo_T"
    by (simp add: tree_id_from_env_def demo_hex_env_def)
qed

theorem printed_balance_funds_witness:
  "\<exists>digits. snd (fund_account (toy_libs demo_empty) demo_hex_env (\<lambda>from dest n w. if n \<le> w then Some (w - n) else None)
     [''--to'', toy_hex_encode demo_treasury, ''--amount'', digits] 700) = Inr (200 :: u128)"
proof -
  have id: "parse_account_id (toy_libs demo_empty) (toy_hex_encode demo_treasury) = Inr demo_treasury"
    by (rule demo_parse_id) simp
  show ?thesis
    using printed_balance_funds [OF id, of "\<lambda>_. Some 500" 500 demo_hex_env demo_payer
        "\<lambda>from dest n w. if n \<le> w then Some (w - n) else None" "700 :: u128"] demo_env_ids(1) by auto
qed

section \<open>The payer's label\<close>

text \<open>
  What minting relies on of the wallet's storage: a label that was added names its account, whatever key
  was generated before it, and what was saved opens as it was.
\<close>

definition storage_ok :: "'s storage_lib \<Rightarrow> bool" where
  "storage_ok S \<longleftrightarrow>
     (\<forall>s l a s'. st_add_label S s l a = Some s' \<longrightarrow> st_resolve_label S s' l = Some a) \<and>
     (\<forall>s content. st_save S s = Some content \<longrightarrow> st_from_path S content = Some s)"

text \<open>
  Minting the payer is safe to repeat: whatever storage the first run found, a second run on the file
  it left prints the same account and leaves the file as it is.
\<close>

theorem mint_payer_idempotent:
  assumes "storage_ok S" and "mint_payer H S file = (ls, Inr (payer, file'))"
  shows "ls = [Out (base58_encode H payer)] \<and> mint_payer H S file' = (ls, Inr (payer, file'))"
proof -
  from assms(2) obtain st where st: "(case file of Some content \<Rightarrow> expect_some ''failed to open wallet storage'' (st_from_path S content)
      | None \<Rightarrow> expect_some ''failed to create wallet storage'' (st_new S)) = Inr st"
    by (auto simp: mint_payer_def quiet_def run_bind_def split: sum.splits)
  show ?thesis
  proof (cases "\<exists>existing. st_resolve_label S st PAYER_LABEL = Some (Public existing)")
    case True
    then show ?thesis using assms(2) st by (auto simp: mint_payer_def split: option.splits)
  next
    case False
    then obtain s2 s3 content where "st_add_label S s2 PAYER_LABEL (Public payer) = Some s3" and "st_save S s3 = Some content"
      and file': "file' = Some content" and ls: "ls = [Out (base58_encode H payer)]"
      using assms(2) st
      by (auto simp: mint_payer_def expect_some_def quiet_def run_bind_def Let_def split: option.splits labelled.splits sum.splits prod.splits)
          metis+
    then have "st_from_path S content = Some s3" "st_resolve_label S s3 PAYER_LABEL = Some (Public payer)"
      using assms(1) unfolding storage_ok_def by metis+
    then show ?thesis by (simp add: mint_payer_def file' ls expect_some_def)
  qed
qed

text \<open>A storage that is a number of keys and the payer's account, printed as that.\<close>

definition toy_storage :: "(nat \<times> labelled option) storage_lib" where
  "toy_storage = \<lparr>st_from_path = (\<lambda>c. case c of [] \<Rightarrow> None | p # r \<Rightarrow>
       Some (length r, if p = CHR ''P'' then Some (Public demo_payer) else None)),
     st_new = Some (0, None), st_resolve_label = (\<lambda>(n, l) _. l), st_generate = (\<lambda>(n, l). (demo_payer, (Suc n, l))),
     st_add_label = (\<lambda>(n, l) _ a. if a = Public demo_payer then Some (n, Some a) else None),
     st_save = (\<lambda>(n, l). if l = Some (Public demo_payer) then Some (CHR ''P'' # replicate n CHR ''k'') else None)\<rparr>"

theorem mint_payer_idempotent_witness:
  "mint_payer (toy_libs demo_empty) toy_storage None = ([Out (toy_name demo_payer)], Inr (demo_payer, Some ''Pk'')) \<and>
   mint_payer (toy_libs demo_empty) toy_storage (Some ''Pk'') = ([Out (toy_name demo_payer)], Inr (demo_payer, Some ''Pk''))"
proof -
  have ok: "storage_ok toy_storage" by (auto simp: storage_ok_def toy_storage_def split: if_splits)
  have first: "mint_payer (toy_libs demo_empty) toy_storage None = ([Out (toy_name demo_payer)], Inr (demo_payer, Some ''Pk''))"
    by (simp add: mint_payer_def toy_storage_def expect_some_def toy_libs_def)
  show ?thesis using first mint_payer_idempotent [OF ok first] by simp
qed

end
