(* ===== verification/ProgramProperties.thy ===== *)
theory ProgramProperties
  imports Scenario
begin

text \<open>
  The properties of the registration program's transactions: when each instruction succeeds and what
  it leaves in the shards, what it charges, which exit code a stale claim gives, and that running it
  ends. The witnesses are the transactions of \<open>Scenario\<close>.
\<close>

section \<open>Library\<close>

lemma tree_called_merkle:
  "separate E R M \<Longrightarrow> tree_called E R M M t ix s s' \<longleftrightarrow>
     (\<exists>d. merkle_run E ix (shard s (tree_sel E R M t)) = Inr d \<and> s' = s(tree_sel E R M t \<mapsto> d))"
  by (auto simp: tree_called_def separate_def)

lemma not_Inr_Inl: "(\<And>y. x \<noteq> Inr y) \<Longrightarrow> \<exists>e. x = Inl e"
  by (cases x) auto

lemma rbind_Inr [simp]: "rbind x Inr = x"
  by (cases x) simp_all

lemma rbind_ensure: "rbind (ensure b k msg) f = (if b then f () else Inl (Halt k msg))"
  by simp

text \<open>Once a member's shard is written, a registration of the same commitment fails.\<close>

lemma register_needs_free:
  assumes "separate E R M" and "poseidon_canonical E" and "instruction_ok (Register t c l m now p d g)"
    and "shard s (membership_sel E R t c) \<noteq> []"
  shows "\<exists>e. replay 2 E (deployed R M) s R caller metas (enc_instruction (Register t c l m now p d g)) = Inl e"
  unfolding numeral_2_eq_2
  by (rule not_Inr_Inl) (use assms(4) tx_register [OF assms(1-3)] in blast)

section \<open>Initializing\<close>

text \<open>
  \<open>Initialize\<close> succeeds exactly on an empty config shard of the tree's own account, with a positive
  rate capacity and a positive active duration, and then writes the config with no members; a second
  one of the same tree therefore fails.
\<close>

theorem initialize_transaction:
  assumes "separate E R M" and "instruction_ok (Initialize m t p a x d g)"
  shows "replay 2 E (deployed R M) s R caller metas (enc_instruction (Initialize m t p a x d g)) = Inr s' \<longleftrightarrow>
    (\<exists>config. metas = [config] \<and> meta_selector config = config_sel E R t \<and> 0 < x \<and> 0 < d \<and>
       shard s (config_sel E R t) = [] \<and>
       s' = s(config_sel E R t \<mapsto> enc_config \<lparr>cs_merkle_program_id = m, cs_tree_id = t,
            cs_price_per_unit = p, cs_treasury_account_id = a, cs_total_registrations = 0,
            cs_max_total_rate_limit = x, cs_current_total_rate_limit = 0, cs_active_duration_sec = d,
            cs_grace_period_duration_sec = g\<rparr>))"
  unfolding numeral_2_eq_2 using assms by (rule tx_initialize)

theorem initialize_transaction_witness:
  "shard demo_empty (config_sel toy demo_R demo_T) = [] \<and>
   replay 2 toy (deployed demo_R demo_M) demo_configured demo_R None [meta_for False (config_sel toy demo_R demo_T)]
     (enc_instruction (Initialize demo_M demo_T 10 demo_treasury 1000 100 50)) \<noteq> Inr demo_configured"
  using initialize_transaction [OF demo_separate demo_instructions_ok(1)] demo_has_config(1) demo_initialized
  by (auto simp: has_config_def simp del: replay.simps enc_instruction.simps)

text \<open>
  \<open>InitializeMerkleTree\<close> with the merkle program succeeds exactly when the tree's config exists and
  names that program and the tree shard is empty, and writes a fresh tree there; the config is kept.
\<close>

theorem initialize_tree_transaction:
  assumes "separate E R M" and "instruction_ok (InitializeMerkleTree t M)"
  shows "replay 2 E (deployed R M) s R caller metas (enc_instruction (InitializeMerkleTree t M)) = Inr s' \<longleftrightarrow>
    (\<exists>config tree_main cfg d. metas = [config, tree_main] \<and> meta_selector config = config_sel E R t \<and>
       meta_selector tree_main = tree_sel E R M t \<and> has_config E R s t cfg \<and> cs_tree_id cfg = t \<and>
       cs_merkle_program_id cfg = M \<and> initialize_tree (shard s (tree_sel E R M t)) = Inr d \<and>
       s' = s(tree_sel E R M t \<mapsto> d))"
  unfolding numeral_2_eq_2
  by (subst tx_initialize_tree [OF assms]) (auto simp: tree_called_merkle [OF assms(1)] merkle_run_def)

theorem initialize_tree_transaction_witness:
  "\<exists>d. initialize_tree (shard demo_configured (tree_sel toy demo_R demo_M demo_T)) = Inr d \<and>
     demo_ready = demo_configured(tree_sel toy demo_R demo_M demo_T \<mapsto> d)"
  using initialize_tree_transaction [OF demo_separate demo_instructions_ok(2), THEN iffD1, OF demo_tree_initialized]
  by blast

section \<open>Registering\<close>

text \<open>
  C11. \<open>Register\<close> succeeds exactly when every claim holds: the accounts are the program's own, the payer
  signed, the commitment is a canonical non-zero element, the rate limit is in range and within the
  remaining capacity, the price, durations, treasury, tree and merkle program are the config's, the
  claimed time is within the clock's tolerance, the commitment has no membership yet, and the tree
  takes the leaf. It then counts the member, writes its membership and inserts its leaf, and nothing
  else changes.
\<close>

theorem register_transaction:
  assumes "separate E R M" and "poseidon_canonical E" and "instruction_ok (Register t c l M now p d g)"
  shows "replay 2 E (deployed R M) s R caller metas (enc_instruction (Register t c l M now p d g)) = Inr s' \<longleftrightarrow>
    (\<exists>config tree_main payer treasury clock membership cfg tree.
       metas = [config, tree_main, payer, treasury, clock, membership] \<and>
       meta_selector config = config_sel E R t \<and> meta_selector tree_main = tree_sel E R M t \<and>
       meta_selector membership = membership_sel E R t c \<and> meta_selector clock = clock_sel E \<and>
       is_authorized payer \<and> felt_valid E c \<and> c \<noteq> ZERO \<and> MIN_RATE_LIMIT \<le> l \<and> l \<le> MAX_RATE_LIMIT \<and>
       felt_valid E (rate_felt l) \<and>
       has_config E R s t cfg \<and> cs_tree_id cfg = t \<and> cs_merkle_program_id cfg = M \<and>
       cs_price_per_unit cfg = p \<and> cs_treasury_account_id cfg = account_id treasury \<and>
       cs_active_duration_sec cfg = d \<and> cs_grace_period_duration_sec cfg = g \<and> can_register cfg l \<and>
       clock_ok E s now \<and> membership_sel E R t c \<noteq> config_sel E R t \<and> shard s (membership_sel E R t c) = [] \<and>
       insert_leaf E (shard s (tree_sel E R M t)) (membership_leaf E c l) = Inr tree \<and>
       s' = s(config_sel E R t \<mapsto> enc_config (counted cfg l),
              membership_sel E R t c \<mapsto> enc_membership (new_membership c l now d g),
              tree_sel E R M t \<mapsto> tree))"
  unfolding numeral_2_eq_2
  by (subst tx_register [OF assms])
    (auto simp: tree_called_merkle [OF assms(1)] merkle_run_def sel_other [OF assms(1)])

theorem register_transaction_witness:
  "\<exists>cfg tree. has_config toy demo_R demo_ready demo_T cfg \<and> can_register cfg 200 \<and>
     insert_leaf toy (shard demo_ready (tree_sel toy demo_R demo_M demo_T)) (membership_leaf toy demo_C 200) = Inr tree"
  using register_transaction [OF demo_separate toy_canonical demo_instructions_ok(3) [unfolded demo_register_def],
      THEN iffD1, OF demo_register_effect [unfolded demo_register_def]]
  by blast

text \<open>
  No double registration: after a successful \<open>Register\<close> of a commitment, any later \<open>Register\<close> of the
  same commitment in the same tree fails on the resulting shards, whatever it claims.
\<close>

theorem no_double_registration:
  assumes "separate E R M" and "poseidon_canonical E"
    and "instruction_ok (Register t c l m now p d g)" and "instruction_ok (Register t c l2 m2 now2 p2 d2 g2)"
    and "replay 2 E (deployed R M) s R caller metas (enc_instruction (Register t c l m now p d g)) = Inr s'"
  shows "\<exists>e. replay 2 E (deployed R M) s' R caller2 metas2 (enc_instruction (Register t c l2 m2 now2 p2 d2 g2)) = Inl e"
proof -
  obtain s1 where call: "tree_called E R M m t (MInsert (membership_leaf E c l)) s1 s'"
    and s1: "shard s1 (membership_sel E R t c) = enc_membership (new_membership c l now d g)"
    using assms(5) tx_register [OF assms(1-3)] by (force simp: numeral_2_eq_2 simp del: replay.simps enc_instruction.simps)
  then have "shard s' (membership_sel E R t c) = enc_membership (new_membership c l now d g)"
    using tree_called_writes [OF call] assms(1) by simp
  then show ?thesis by (intro register_needs_free assms(1,2,4)) simp
qed

theorem no_double_registration_witness:
  "\<exists>e. replay 2 toy (deployed demo_R demo_M) demo_registered demo_R None demo_register_metas
     (enc_instruction demo_register) = Inl e"
  using no_double_registration [OF demo_separate toy_canonical demo_instructions_ok(3,3) [unfolded demo_register_def]
      demo_register_effect [unfolded demo_register_def]]
  by (simp add: demo_register_def)

section \<open>Slashing, erasing, extending\<close>

text \<open>
  C14. \<open>Slash\<close> succeeds exactly when the given secret is a canonical element hashing to the commitment of
  an existing membership with the claimed rate limit, under the tree's config, and the tree holds the
  membership's leaf at the claimed index. It then empties the membership, gives its share of the
  counters back and zeroes its leaf. No clock is read and no signature is needed.
\<close>

theorem slash_transaction:
  assumes "separate E R M" and "poseidon_canonical E" and "instruction_ok (Slash t c secret M i l)"
  shows "replay 2 E (deployed R M) s R caller metas (enc_instruction (Slash t c secret M i l)) = Inr s' \<longleftrightarrow>
    (\<exists>config tree_main membership cfg mem tree.
       metas = [config, tree_main, membership] \<and>
       meta_selector config = config_sel E R t \<and> meta_selector tree_main = tree_sel E R M t \<and>
       meta_selector membership = membership_sel E R t c \<and>
       felt_valid E secret \<and> compress1 E secret = c \<and> felt_valid E c \<and> felt_valid E (rate_felt l) \<and>
       has_config E R s t cfg \<and> cs_tree_id cfg = t \<and> cs_merkle_program_id cfg = M \<and>
       membership_sel E R t c \<noteq> config_sel E R t \<and> has_member E R s t c mem \<and>
       ms_id_commitment mem = c \<and> ms_rate_limit mem = l \<and>
       remove_leaf E (shard s (tree_sel E R M t)) i (membership_leaf E c l) = Inr tree \<and>
       s' = s(config_sel E R t \<mapsto> enc_config (released cfg l), membership_sel E R t c \<mapsto> [],
              tree_sel E R M t \<mapsto> tree))"
  unfolding numeral_2_eq_2
  by (subst tx_slash [OF assms])
    (auto simp: tree_called_merkle [OF assms(1)] merkle_run_def sel_other [OF assms(1)])

lemma demo_slash_ok: "instruction_ok (Slash demo_T demo_C demo_secret demo_M 0 200)"
  by simp

theorem slash_transaction_witness:
  "\<exists>mem tree. has_member toy demo_R (demo_at 1) demo_T demo_C mem \<and> compress1 toy demo_secret = demo_C \<and>
     remove_leaf toy (shard (demo_at 1) (tree_sel toy demo_R demo_M demo_T)) 0 (membership_leaf toy demo_C 200) = Inr tree"
  using slash_transaction [OF demo_separate toy_canonical demo_slash_ok, THEN iffD1, OF demo_slashed] by blast

text \<open>
  C15. \<open>Erase\<close> succeeds exactly when the claimed time is within the clock's tolerance, the membership with
  the claimed rate limit is expired at it, and the tree holds its leaf at the claimed index; its
  effect is that of a slash. Anyone may send it.
\<close>

theorem erase_transaction:
  assumes "separate E R M" and "poseidon_canonical E" and "instruction_ok (Erase t c M i l now)"
  shows "replay 2 E (deployed R M) s R caller metas (enc_instruction (Erase t c M i l now)) = Inr s' \<longleftrightarrow>
    (\<exists>config tree_main membership clock cfg mem tree.
       metas = [config, tree_main, membership, clock] \<and>
       meta_selector config = config_sel E R t \<and> meta_selector tree_main = tree_sel E R M t \<and>
       meta_selector membership = membership_sel E R t c \<and> meta_selector clock = clock_sel E \<and>
       felt_valid E c \<and> felt_valid E (rate_felt l) \<and>
       has_config E R s t cfg \<and> cs_tree_id cfg = t \<and> cs_merkle_program_id cfg = M \<and> clock_ok E s now \<and>
       membership_sel E R t c \<noteq> config_sel E R t \<and> has_member E R s t c mem \<and> ms_rate_limit mem = l \<and>
       is_expired (ms_grace_period_start_timestamp_ms mem)
         (secs_to_millis (ms_grace_period_duration_sec mem)) now \<and>
       remove_leaf E (shard s (tree_sel E R M t)) i (membership_leaf E c l) = Inr tree \<and>
       s' = s(config_sel E R t \<mapsto> enc_config (released cfg l), membership_sel E R t c \<mapsto> [],
              tree_sel E R M t \<mapsto> tree))"
  unfolding numeral_2_eq_2
  by (subst tx_erase [OF assms])
    (auto simp: tree_called_merkle [OF assms(1)] merkle_run_def sel_other [OF assms(1)])

lemma demo_erase_ok: "instruction_ok (Erase demo_T demo_C demo_M 0 200 1200000)"
  by simp

theorem erase_transaction_witness:
  "\<exists>mem tree. has_member toy demo_R (demo_at 1200000) demo_T demo_C mem \<and> clock_ok toy (demo_at 1200000) 1200000 \<and>
     remove_leaf toy (shard (demo_at 1200000) (tree_sel toy demo_R demo_M demo_T)) 0 (membership_leaf toy demo_C 200) = Inr tree"
  using erase_transaction [OF demo_separate toy_canonical demo_erase_ok, THEN iffD1, OF demo_erased] by blast

text \<open>
  C16. \<open>Extend\<close> succeeds exactly when the payer signed, the price and the treasury are the config's, and
  the membership with the claimed rate limit is in its grace period at a claimed time within the
  clock's tolerance. It moves the grace period past its current end by one active duration and
  changes nothing else.
\<close>

theorem extend_transaction:
  assumes "separate E R M" and "instruction_ok (Extend t c now p l)"
  shows "replay 2 E (deployed R M) s R caller metas (enc_instruction (Extend t c now p l)) = Inr s' \<longleftrightarrow>
    (\<exists>config membership payer treasury clock cfg mem.
       metas = [config, membership, payer, treasury, clock] \<and>
       meta_selector config = config_sel E R t \<and> meta_selector membership = membership_sel E R t c \<and>
       meta_selector clock = clock_sel E \<and> is_authorized payer \<and>
       has_config E R s t cfg \<and> cs_tree_id cfg = t \<and> cs_price_per_unit cfg = p \<and>
       cs_treasury_account_id cfg = account_id treasury \<and> clock_ok E s now \<and>
       has_member E R s t c mem \<and> ms_rate_limit mem = l \<and>
       is_in_grace_period (ms_grace_period_start_timestamp_ms mem)
         (secs_to_millis (ms_grace_period_duration_sec mem)) now \<and>
       s' = s(membership_sel E R t c \<mapsto> enc_membership (renewed mem)))"
  unfolding numeral_2_eq_2 using assms by (rule tx_extend)

lemma demo_extend_ok: "instruction_ok (Extend demo_T demo_C 1120000 10 200)"
  by simp

theorem extend_transaction_witness:
  "\<exists>mem. has_member toy demo_R (demo_at 1120000) demo_T demo_C mem \<and>
     is_in_grace_period (ms_grace_period_start_timestamp_ms mem) (secs_to_millis (ms_grace_period_duration_sec mem)) 1120000"
  using extend_transaction [OF demo_separate demo_extend_ok, THEN iffD1, OF demo_extended] by blast

text \<open>
  C18. A renewal cannot be replayed: after a successful \<open>Extend\<close> at a claimed time, every \<open>Extend\<close> of the
  same membership claiming that time or an earlier one fails on the resulting shards, so the
  tolerance for old clock claims does not let one period be renewed twice.
\<close>

theorem extend_not_replayable:
  assumes "separate E R M" and "instruction_ok (Extend t c now p l)" and "instruction_ok (Extend t c now2 p2 l2)"
    and "replay 2 E (deployed R M) s R caller metas (enc_instruction (Extend t c now p l)) = Inr s'"
    and "now2 \<le> now"
  shows "\<exists>e. replay 2 E (deployed R M) s' R caller2 metas2 (enc_instruction (Extend t c now2 p2 l2)) = Inl e"
proof -
  obtain mem where mem: "is_in_grace_period (ms_grace_period_start_timestamp_ms mem)
      (secs_to_millis (ms_grace_period_duration_sec mem)) now" "membership_ok mem"
    and s': "s' = s(membership_sel E R t c \<mapsto> enc_membership (renewed mem))"
    using assms(4) tx_extend [OF assms(1,2)]
    by (auto simp: numeral_2_eq_2 has_member_def simp del: replay.simps enc_instruction.simps)
  have late: "\<not> is_in_grace_period (ms_grace_period_start_timestamp_ms (renewed mem)) g now2" for g
    using le_less_trans [OF assms(5) renewed_past [OF mem(1)]] by (auto simp: is_in_grace_period_def not_le)
  have "has_member E R s' t c (renewed mem)" using mem(2) by (simp add: s' has_member_def)
  then have "has_member E R s' t c m \<Longrightarrow> m = renewed mem" for m by (rule has_member_unique [rotated])
  then have "replay 2 E (deployed R M) s' R caller2 metas2 (enc_instruction (Extend t c now2 p2 l2)) \<noteq> Inr y" for y
    unfolding numeral_2_eq_2 using tx_extend [OF assms(1,3)] late by blast
  then show ?thesis by (rule not_Inr_Inl)
qed

lemma demo_extend_again_ok: "instruction_ok (Extend demo_T demo_C 1110000 10 200)"
  by simp

theorem extend_not_replayable_witness:
  "\<exists>s' e. replay 2 toy (deployed demo_R demo_M) (demo_at 1120000) demo_R None demo_extend_metas
       (enc_instruction (Extend demo_T demo_C 1120000 10 200)) = Inr s' \<and>
     replay 2 toy (deployed demo_R demo_M) s' demo_R None demo_extend_metas
       (enc_instruction (Extend demo_T demo_C 1110000 10 200)) = Inl e"
  using demo_extended extend_not_replayable [OF demo_separate demo_extend_ok demo_extend_again_ok demo_extended] by force

section \<open>Stale claims\<close>

text \<open>The input a transaction is planned from, and a planned transaction step by step.\<close>

abbreviation plan_input_of :: "account_id \<Rightarrow> account_id option \<Rightarrow> account_meta list \<Rightarrow> instruction \<Rightarrow> plan_input" where
  "plan_input_of R caller metas ix \<equiv>
     \<lparr>self_account_id = R, caller_account_id = caller, accounts = metas, instruction_data = enc_instruction ix\<rparr>"

lemma replay_planned:
  assumes "separate E R M" and "instruction_ok ix" and "plan_instruction E (plan_input_of R caller metas ix) ix = Inr p"
  shows "replay (Suc n) E (deployed R M) s R caller metas (enc_instruction ix) =
    rbind (rfold (apply_step E RegistrationGuest) s (effects (map_plan OfRegistration p))) (\<lambda>s1.
    rfold (\<lambda>s2 call. if callee call = native_program E then Inr s2
        else replay n E (deployed R M) s2 (callee call) (Some R) (call_metas call) (call_data call))
      s1 (chained_calls p))"
  using assms by (simp add: run_plan.simps instruction_codec.from_slice_enc map_plan_def)

lemma replay_merkle_call:
  assumes "separate E R M" and "merkle_instruction_ok ix"
  shows "replay (Suc n) E (deployed R M) s M (Some R) (call_metas (to_merkle E R M t ix)) (enc_merkle_instruction ix) =
    rbind (merkle_run E ix (shard s (tree_sel E R M t))) (\<lambda>d. Inr (s(tree_sel E R M t \<mapsto> d)))"
  using assms
  by (simp add: run_plan.simps merkle_data merkle_plan_def plan_builders map_plan_def apply_step_merkle
      meta_selector_def tree_sel_def)

lemma replay_leaf_calls:
  fixes t :: bytes
  assumes "separate E R M" and "bytes32 leaf"
  defines "metas \<equiv> [\<lparr>account_id = pda_main E R t, is_authorized = True, program_account_id = M\<rparr>]"
  shows "replay (Suc n) E (deployed R M) s M (Some R) metas (1 # leaf) =
      rbind (insert_leaf E (shard s (tree_sel E R M t)) leaf) (\<lambda>d. Inr (s(tree_sel E R M t \<mapsto> d)))"
    and "replay (Suc n) E (deployed R M) s M (Some R) metas (2 # u64_le i @ leaf) =
      rbind (remove_leaf E (shard s (tree_sel E R M t)) i leaf) (\<lambda>d. Inr (s(tree_sel E R M t \<mapsto> d)))"
  using replay_merkle_call [OF assms(1), of "MInsert leaf" n s t] replay_merkle_call [OF assms(1), of "MRemove i leaf" n s t]
    assms(2) by (simp_all add: metas_def merkle_run_def del: replay.simps)

lemma decode_shards [simp]:
  "has_config E R s t cfg \<Longrightarrow> decode_config (shard s (config_sel E R t)) = Inr cfg"
  "has_member E R s t c mem \<Longrightarrow> decode_membership (shard s (membership_sel E R t c)) msg = Inr mem"
  by (simp_all add: decode_config_def decode_membership_def has_config_def has_member_def
      config_codec.from_slice_enc membership_codec.from_slice_enc)

text \<open>The message of the first claim of a charge that is not the config's: price, treasury, then the durations.\<close>

definition stale_claim :: "config_state \<Rightarrow> u128 \<Rightarrow> account_id \<Rightarrow> u32 \<Rightarrow> string" where
  "stale_claim cfg p a d =
     (if cs_price_per_unit cfg \<noteq> p then ''price_per_unit claim must match config''
      else if cs_treasury_account_id cfg \<noteq> a then ''Wrong treasury''
      else if cs_active_duration_sec cfg \<noteq> d then ''active_duration_sec claim must match config''
      else ''grace_period_duration_sec claim must match config'')"

text \<open>
  C26. What a stale \<open>Register\<close> costs. For a transaction that is well formed (its plan succeeds) on the
  registry of its tree, the outcome is decided by the chain in this order: a price, treasury or duration
  other than the config's exits with \<open>EXIT_STALE_CONFIG\<close>, a rate limit over the remaining capacity with
  \<open>EXIT_RATE_LIMIT_FULL\<close>, a claimed time the clock does not support with the clock's code, an existing
  membership with \<open>EXIT_MEMBERSHIP_EXISTS\<close>, a full tree with the tree's code; else it succeeds.
\<close>

theorem register_outcome:
  fixes R M t c :: bytes and l now :: u64
  assumes "separate E R M" and "poseidon_canonical E" and "instruction_ok (Register t c l M now p d g)"
    and "plan_instruction E (plan_input_of R caller [config, tree_main, payer, treasury, clock, membership]
      (Register t c l M now p d g)) (Register t c l M now p d g) = Inr pl"
    and "has_config E R s t cfg" and "cs_tree_id cfg = t" and "cs_merkle_program_id cfg = M"
    and "membership_sel E R t c \<noteq> config_sel E R t"
  shows "replay 2 E (deployed R M) s R caller [config, tree_main, payer, treasury, clock, membership]
      (enc_instruction (Register t c l M now p d g)) =
    (if cs_price_per_unit cfg \<noteq> p \<or> cs_treasury_account_id cfg \<noteq> account_id treasury \<or>
        cs_active_duration_sec cfg \<noteq> d \<or> cs_grace_period_duration_sec cfg \<noteq> g
     then Inl (Halt EXIT_STALE_CONFIG (stale_claim cfg p (account_id treasury) d))
     else if \<not> can_register cfg l then Inl (Halt EXIT_RATE_LIMIT_FULL ''Would exceed max total rate limit'')
     else rbind (assert_clock_is E (shard s (clock_sel E)) now) (\<lambda>_.
       if shard s (membership_sel E R t c) \<noteq> [] then Inl (Halt EXIT_MEMBERSHIP_EXISTS ''AccountAlreadyInitialized: membership already exists'')
       else rbind (insert_leaf E (shard s (tree_sel E R M t)) (membership_leaf E c l)) (\<lambda>tree.
         Inr (s(config_sel E R t \<mapsto> enc_config (counted cfg l),
                membership_sel E R t c \<mapsto> enc_membership (new_membership c l now d g),
                tree_sel E R M t \<mapsto> tree)))))"
proof -
  have pl: "pl = planned
          [(config_sel E R t, RegisterConfig t M p (account_id treasury) l d g),
           (clock_sel E, ClockIs now),
           (membership_sel E R t c, InitMembership (new_membership c l now d g))]
          [payment E (account_id payer) (account_id treasury) l p,
           to_merkle E R M t (MInsert (membership_leaf E c l))]"
    using assms(4) by (simp add: plan_simps new_membership_def)
  have M: "M \<noteq> native_program E" and sels: "clock_sel E \<noteq> config_sel E R t"
    "tree_sel E R M t \<noteq> config_sel E R t" "tree_sel E R M t \<noteq> membership_sel E R t c"
    using assms(1) clock_sel_other sel_other by (auto simp: separate_def)
  note call = replay_leaf_calls(1) [OF assms(1) membership_leaf_ok [OF assms(2)]]
  show ?thesis
    unfolding numeral_2_eq_2
    using assms(5-8) M sels
    by (subst replay_planned [OF assms(1,3,4)])
      (simp add: pl map_plan_def apply_register_config_def apply_init_membership_def assert_config_ids_def rbind_ensure stale_claim_def call
        merkle_run_def counted_def [symmetric] rbind_assoc del: replay.simps enc_instruction.simps)
qed

lemma planned_if_accepted:
  assumes "separate E R M" and "instruction_ok ix"
    and "replay 2 E (deployed R M) s R caller metas (enc_instruction ix) = Inr s'"
  obtains pl where "plan_instruction E (plan_input_of R caller metas ix) ix = Inr pl"
  using assms(3) that unfolding numeral_2_eq_2 replay_registration [OF assms(1,2)] by blast

theorem register_outcome_witness:
  "replay 2 toy (deployed demo_R demo_M) demo_registered demo_R None demo_register_metas (enc_instruction demo_register) =
     Inl (Halt EXIT_MEMBERSHIP_EXISTS ''AccountAlreadyInitialized: membership already exists'')"
proof -
  obtain pl where pl: "plan_instruction toy (plan_input_of demo_R None demo_register_metas demo_register) demo_register = Inr pl"
    using planned_if_accepted [OF demo_separate demo_instructions_ok(3) demo_register_effect] .
  have clk: "assert_clock_is toy (shard demo_registered (clock_sel toy)) demo_now = Inr ()"
    using demo_clock_ok(1) by (simp add: clock_ok_def demo_empty_def)
  have cap: "can_register (counted demo_cfg 200) 200" "cs_active_duration_sec (counted demo_cfg 200) = 100"
    "cs_grace_period_duration_sec (counted demo_cfg 200) = 50"
    by (simp_all add: can_register_def counted_def demo_cfg_def sat_add_def)
  have member: "shard demo_registered (membership_sel toy demo_R demo_T demo_C) \<noteq> []"
    using demo_has_member by (auto simp: has_member_def)
  have treasury: "fst (native_sel toy demo_treasury) = demo_treasury" by (simp add: native_sel_def)
  show ?thesis
    unfolding demo_register_metas_def demo_register_def
    by (subst register_outcome [OF demo_separate toy_canonical demo_instructions_ok(3) [unfolded demo_register_def]
          pl [unfolded demo_register_metas_def demo_register_def] demo_has_config(3)])
      (use clk cap member treasury in simp_all)
qed

text \<open>
  What a stale \<open>Extend\<close> costs. For a transaction that is well formed (its plan succeeds) on the config of
  its tree and any membership shard that decodes or is empty, the outcome is decided in this order: a
  stale price or treasury exits with \<open>EXIT_STALE_CONFIG\<close>, an unsupported time with the clock's code, a missing
  membership with \<open>EXIT_MEMBERSHIP_MISSING\<close>, another rate limit with \<open>EXIT_STALE_RATE_LIMIT\<close>, a time outside
  the grace period with \<open>EXIT_NOT_IN_GRACE_PERIOD\<close>; else the membership is renewed.
\<close>

theorem extend_outcome:
  fixes R M t c :: bytes and l now :: u64
  assumes "separate E R M" and "instruction_ok (Extend t c now p l)"
    and "plan_instruction E (plan_input_of R caller [config, membership, payer, treasury, clock]
      (Extend t c now p l)) (Extend t c now p l) = Inr pl"
    and "has_config E R s t cfg" and "cs_tree_id cfg = t"
    and "case mem of None \<Rightarrow> shard s (membership_sel E R t c) = [] | Some m \<Rightarrow> has_member E R s t c m"
  shows "replay 2 E (deployed R M) s R caller [config, membership, payer, treasury, clock]
      (enc_instruction (Extend t c now p l)) =
    (if cs_price_per_unit cfg \<noteq> p \<or> cs_treasury_account_id cfg \<noteq> account_id treasury
     then Inl (Halt EXIT_STALE_CONFIG (stale_claim cfg p (account_id treasury) 0))
     else rbind (assert_clock_is E (shard s (clock_sel E)) now) (\<lambda>_.
       case mem of None \<Rightarrow> Inl (Halt EXIT_MEMBERSHIP_MISSING
         ''Membership account is empty - cannot extend a non-existent membership'')
       | Some m \<Rightarrow>
           if ms_rate_limit m \<noteq> l then Inl (Halt EXIT_STALE_RATE_LIMIT ''rate_limit claim must match membership'')
           else if \<not> is_in_grace_period (ms_grace_period_start_timestamp_ms m)
               (secs_to_millis (ms_grace_period_duration_sec m)) now then Inl (Halt EXIT_NOT_IN_GRACE_PERIOD
               ''CannotExtendNonGracePeriodMembership: membership is not in its grace period'')
           else Inr (s(membership_sel E R t c \<mapsto> enc_membership (renewed m)))))"
proof -
  have pl: "pl = planned
          [(config_sel E R t, ExtendConfig t p (account_id treasury)), (clock_sel E, ClockIs now),
           (membership_sel E R t c, ExtendMembership now l)]
          [payment E (account_id payer) (account_id treasury) l p]"
    using assms(3) by (simp add: plan_simps)
  have missing: "decode_membership [] msg = Inl (Halt EXIT_MEMBERSHIP_MISSING msg)" for msg
    by (simp add: decode_membership_def rbind_ensure)
  show ?thesis
    unfolding numeral_2_eq_2
    using assms(4-6)
    by (subst replay_planned [OF assms(1-3)], cases mem)
      (simp_all add: pl map_plan_def apply_extend_config_def apply_extend_membership_def rbind_ensure stale_claim_def missing
        renewed_def [symmetric] rbind_assoc del: replay.simps enc_instruction.simps)
qed

theorem extend_outcome_witness:
  "replay 2 toy (deployed demo_R demo_M) ((demo_at 1120000)(membership_sel toy demo_R demo_T demo_C \<mapsto> []))
     demo_R None demo_extend_metas (enc_instruction (Extend demo_T demo_C 1120000 10 200)) =
     Inl (Halt EXIT_MEMBERSHIP_MISSING
         ''Membership account is empty - cannot extend a non-existent membership'')"
proof -
  let ?s = "(demo_at 1120000)(membership_sel toy demo_R demo_T demo_C \<mapsto> [])"
  obtain pl where pl: "plan_instruction toy (plan_input_of demo_R None demo_extend_metas (Extend demo_T demo_C 1120000 10 200))
      (Extend demo_T demo_C 1120000 10 200) = Inr pl"
    using planned_if_accepted [OF demo_separate demo_extend_ok demo_extended] .
  have cfg: "has_config toy demo_R ?s demo_T (counted demo_cfg 200)"
    using demo_at_shards(2) by (simp add: has_config_def)
  have clk: "assert_clock_is toy (shard ?s (clock_sel toy)) 1120000 = Inr ()"
    using demo_at_clock [of 1120000] by (simp add: clock_ok_def)
  have treasury: "fst (native_sel toy demo_treasury) = demo_treasury" by (simp add: native_sel_def)
  show ?thesis
    unfolding demo_extend_metas_def
    by (subst extend_outcome [OF demo_separate demo_extend_ok pl [unfolded demo_extend_metas_def] cfg, where mem = None])
      (use clk treasury in simp_all)
qed

text \<open>
  What a stale \<open>Erase\<close> costs. For a transaction that is well formed (its plan succeeds) on the config of
  its tree and any membership shard that decodes or is empty, the outcome is decided in this order: an
  unsupported time exits with the clock's code, a missing membership with \<open>EXIT_MEMBERSHIP_MISSING\<close>, another
  rate limit with \<open>EXIT_STALE_RATE_LIMIT\<close>, a membership that has not expired with \<open>EXIT_NOT_EXPIRED\<close>, a wrong
  index with the tree's code; else the member is removed.
\<close>

theorem erase_outcome:
  fixes R M t c :: bytes and l now :: u64
  assumes "separate E R M" and "poseidon_canonical E" and "instruction_ok (Erase t c M i l now)"
    and "plan_instruction E (plan_input_of R caller [config, tree_main, membership, clock]
      (Erase t c M i l now)) (Erase t c M i l now) = Inr pl"
    and "has_config E R s t cfg" and "cs_tree_id cfg = t" and "cs_merkle_program_id cfg = M"
    and "membership_sel E R t c \<noteq> config_sel E R t"
    and "case mem of None \<Rightarrow> shard s (membership_sel E R t c) = [] | Some m \<Rightarrow> has_member E R s t c m"
  shows "replay 2 E (deployed R M) s R caller [config, tree_main, membership, clock]
      (enc_instruction (Erase t c M i l now)) =
    rbind (assert_clock_is E (shard s (clock_sel E)) now) (\<lambda>_.
      case mem of None \<Rightarrow> Inl (Halt EXIT_MEMBERSHIP_MISSING
         ''Membership account is empty - nothing to erase'')
      | Some m \<Rightarrow>
          if ms_rate_limit m \<noteq> l then Inl (Halt EXIT_STALE_RATE_LIMIT ''rate_limit claim must match membership'')
          else if \<not> is_expired (ms_grace_period_start_timestamp_ms m)
              (secs_to_millis (ms_grace_period_duration_sec m)) now then Inl (Halt EXIT_NOT_EXPIRED
              ''CannotEraseUnexpiredMembership: membership has not expired yet'')
          else rbind (remove_leaf E (shard s (tree_sel E R M t)) i (membership_leaf E c l)) (\<lambda>tree.
            Inr (s(config_sel E R t \<mapsto> enc_config (released cfg l), membership_sel E R t c \<mapsto> [],
                   tree_sel E R M t \<mapsto> tree))))"
proof -
  have pl: "pl = planned
          [(config_sel E R t, ReleaseConfig t M l), (clock_sel E, ClockIs now),
           (membership_sel E R t c, EraseMembership now l)]
          [to_merkle E R M t (MRemove i (membership_leaf E c l))]"
    using assms(4) by (simp add: plan_simps)
  have missing: "decode_membership [] msg = Inl (Halt EXIT_MEMBERSHIP_MISSING msg)" for msg
    by (simp add: decode_membership_def rbind_ensure)
  have M: "M \<noteq> native_program E" and sels: "clock_sel E \<noteq> config_sel E R t"
    "tree_sel E R M t \<noteq> config_sel E R t" "tree_sel E R M t \<noteq> membership_sel E R t c"
    using assms(1) clock_sel_other sel_other by (auto simp: separate_def)
  note call = replay_leaf_calls(2) [OF assms(1) membership_leaf_ok [OF assms(2)]]
  show ?thesis
    unfolding numeral_2_eq_2
    using assms(5-9) M sels
    by (subst replay_planned [OF assms(1,3,4)], cases mem)
      (simp_all add: pl map_plan_def apply_release_config_def apply_erase_membership_def assert_config_ids_def
        rbind_ensure missing call merkle_run_def released_def [symmetric] rbind_assoc
        del: replay.simps enc_instruction.simps)
qed

theorem erase_outcome_witness:
  "replay 2 toy (deployed demo_R demo_M)
     ((demo_at 1200000)(membership_sel toy demo_R demo_T demo_C \<mapsto> enc_membership (renewed demo_member)))
     demo_R None (demo_config_metas @ [meta_for False (clock_sel toy)])
     (enc_instruction (Erase demo_T demo_C demo_M 0 200 1200000)) = Inl (Halt EXIT_NOT_EXPIRED
     ''CannotEraseUnexpiredMembership: membership has not expired yet'')"
proof -
  let ?s = "(demo_at 1200000)(membership_sel toy demo_R demo_T demo_C \<mapsto> enc_membership (renewed demo_member))"
  let ?metas = "demo_config_metas @ [meta_for False (clock_sel toy)]"
  obtain pl where pl: "plan_instruction toy (plan_input_of demo_R None ?metas (Erase demo_T demo_C demo_M 0 200 1200000))
      (Erase demo_T demo_C demo_M 0 200 1200000) = Inr pl"
    using planned_if_accepted [OF demo_separate demo_erase_ok demo_erased] .
  have cfg: "has_config toy demo_R ?s demo_T (counted demo_cfg 200)"
    using demo_at_shards(2) by (simp add: has_config_def)
  have mem: "has_member toy demo_R ?s demo_T demo_C (renewed demo_member)" by (simp add: has_member_def)
  have clk: "assert_clock_is toy (shard ?s (clock_sel toy)) 1200000 = Inr ()"
    using demo_at_clock [of 1200000] by (simp add: clock_ok_def)
  have early: "\<not> is_expired (ms_grace_period_start_timestamp_ms (renewed demo_member)) (secs_to_millis 50) 1200000"
    by (simp add: renewed_def is_expired_def sat_add_def secs_to_millis_def MILLIS_PER_SECOND_def)
  show ?thesis
    unfolding demo_config_metas_def append.simps
    by (subst erase_outcome [OF demo_separate toy_canonical demo_erase_ok
          pl [unfolded demo_config_metas_def append.simps] cfg, where mem = "Some (renewed demo_member)"])
      (use clk mem early in simp_all)
qed

section \<open>Charging, and termination\<close>

text \<open>The merkle program an instruction calls, and the native transfer it must make.\<close>

fun merkle_of :: "instruction \<Rightarrow> bytes option" where
  "merkle_of (InitializeMerkleTree t m) = Some m"
| "merkle_of (Register t c l m n p d g) = Some m"
| "merkle_of (Slash t c s m i l) = Some m"
| "merkle_of (Erase t c m i l n) = Some m"
| "merkle_of _ = None"

fun charge_of :: "instruction \<Rightarrow> nat option" where
  "charge_of (Register t c l m n p d g) = Some (min (unat p * unat l) (2 ^ 128 - 1))"
| "charge_of (Extend t c n p l) = Some (min (unat p * unat l) (2 ^ 128 - 1))"
| "charge_of _ = None"

text \<open>
  What a plan charges. \<open>Register\<close> and \<open>Extend\<close> plan exactly one native transfer: from the third account,
  which must have signed, to the fourth, of price times rate limit, saturating at the largest \<open>u128\<close>,
  and with no program seed to authorize anything. The other instructions plan none.
\<close>

theorem charges_price_to_treasury:
  assumes "plan_instruction E input ix = Inr pl" and "merkle_of ix \<noteq> Some (native_program E)"
  shows "case charge_of ix of
      None \<Rightarrow> filter (\<lambda>call. callee call = native_program E) (chained_calls pl) = []
    | Some amount \<Rightarrow>
        is_authorized (accounts input ! 2) \<and>
        (\<exists>w. unat w = amount \<and> filter (\<lambda>call. callee call = native_program E) (chained_calls pl) =
          [\<lparr>callee = native_program E,
            shard_selectors = [native_sel E (account_id (accounts input ! 2)), native_sel E (account_id (accounts input ! 3))],
            call_data = native_transfer E w, pda_seeds = []\<rparr>])"
  using assms
  by (cases ix) (auto simp: plan_simps payment_def to_merkle_def unat_payment intro!: exI [of _ "calculate_payment_amount _ _"])

theorem charges_price_to_treasury_witness:
  "\<exists>pl. plan_instruction toy (plan_input_of demo_R None demo_register_metas demo_register) demo_register = Inr pl \<and>
     (\<exists>w. unat w = 2000 \<and> filter (\<lambda>call. callee call = native_program toy) (chained_calls pl) =
        [\<lparr>callee = native_program toy, shard_selectors = [native_sel toy demo_payer, native_sel toy demo_treasury],
          call_data = native_transfer toy w, pda_seeds = []\<rparr>])"
proof -
  obtain pl where pl: "plan_instruction toy (plan_input_of demo_R None demo_register_metas demo_register) demo_register = Inr pl"
    using planned_if_accepted [OF demo_separate demo_instructions_ok(3) demo_register_effect] .
  have m: "merkle_of demo_register \<noteq> Some (native_program toy)"
    using demo_separate by (simp add: demo_register_def separate_def)
  have c: "charge_of demo_register = Some 2000" by (simp add: demo_register_def)
  have p: "fst (native_sel toy demo_payer) = demo_payer" "fst (native_sel toy demo_treasury) = demo_treasury"
    by (simp_all add: native_sel_def)
  show ?thesis
    using charges_price_to_treasury [OF pl m] pl by (simp add: c p demo_register_metas_def)
qed

text \<open>
  C27. A transaction ends. However deep calls may nest, two levels give the outcome: with any more fuel
  \<open>replay\<close> of either program returns the same result, because a chained call of the registration program is
  a native transfer or carries a merkle instruction, and a merkle plan chains nothing.
\<close>

theorem replay_terminates:
  assumes "separate E R M" and "poseidon_canonical E"
  shows "replay (n + 2) E (deployed R M) s pid caller metas data = replay 2 E (deployed R M) s pid caller metas data \<and>
    (plan_instruction E input ix = Inr pl \<and> call \<in> set (chained_calls pl) \<longrightarrow>
       callee call = native_program E \<or>
       (\<exists>mi. merkle_instruction_ok mi \<and> call_data call = enc_merkle_instruction mi)) \<and>
    (run_plan E MerkleGuest minput = Inr mpl \<longrightarrow> chained_calls mpl = [])"
  unfolding add_2_eq_Suc'
  using replay_fuel [OF assms, of n] plan_calls [OF _ assms(2)] merkle_calls_nothing by blast

theorem replay_terminates_witness:
  "replay 7 toy (deployed demo_R demo_M) demo_ready demo_R None demo_register_metas (enc_instruction demo_register) =
     Inr demo_registered"
proof -
  have "replay (5 + 2) toy (deployed demo_R demo_M) demo_ready demo_R None demo_register_metas (enc_instruction demo_register) =
      Inr demo_registered"
    by (rule trans [OF conjunct1 [OF replay_terminates [OF demo_separate toy_canonical]] demo_register_effect])
  then show ?thesis by (simp del: replay.simps)
qed

end
