(* ===== verification/BuildScript.thy ===== *)
theory BuildScript
  imports Layouts
begin

text \<open>
  The container surgery of the guest build script, \<open>methods/build.rs\<close>: splitting an \<open>R0BF\<close> program
  binary and re-packing it around a stripped user ELF. \<open>llvm-strip\<close> is the function \<open>strip\<close>, which
  may fail. Lengths are read and written as \<open>u32\<close>, so the packing is exact below 4 GiB.
\<close>

definition R0BF :: bytes where "R0BF = ascii ''R0BF''"

definition read_u32 :: "bytes \<Rightarrow> nat \<Rightarrow> u32 result" where
  "read_u32 b off = rbind (read_slice off 4 b) (\<lambda>x. Inr (u32_of x))"

definition split_r0bf :: "bytes \<Rightarrow> (bytes \<times> bytes \<times> bytes) result" where
  "split_r0bf blob =
     rbind (read_slice 0 4 blob) (\<lambda>magic.
     rbind (check (magic = R0BF) (Panic ''expected R0BF magic'')) (\<lambda>_.
     rbind (read_u32 blob 4) (\<lambda>ver.
     rbind (check (ver = 1) (Panic ''unsupported R0BF version'')) (\<lambda>_.
     rbind (read_u32 blob 8) (\<lambda>h.
     let header_len = unat h; header_end = 12 + header_len in
     rbind (read_slice 12 header_len blob) (\<lambda>header.
     rbind (read_u32 blob header_end) (\<lambda>u.
     let user_len = unat u in
     rbind (read_slice (header_end + 4) user_len blob) (\<lambda>user_elf.
     Inr (header, user_elf, drop (header_end + 4 + user_len) blob)))))))))"

definition pack_r0bf :: "bytes \<Rightarrow> bytes \<Rightarrow> bytes \<Rightarrow> bytes" where
  "pack_r0bf header user_elf kernel_elf =
     R0BF @ u32_le 1 @ u32_le (word_of_nat (length header)) @ header @
     u32_le (word_of_nat (length user_elf)) @ user_elf @ kernel_elf"

definition strip_program_binary :: "(bytes \<Rightarrow> bytes result) \<Rightarrow> bytes \<Rightarrow> bytes result" where
  "strip_program_binary strip blob =
     rbind (split_r0bf blob) (\<lambda>(header, user_elf, kernel_elf).
     rbind (strip user_elf) (\<lambda>stripped_user.
     Inr (pack_r0bf header stripped_user kernel_elf)))"

section \<open>Packing and splitting are inverse\<close>

lemma R0BF_length [simp]: "length R0BF = 4"
  by (simp add: R0BF_def)

lemma slice_append_skip: "length a = n \<Longrightarrow> slice (n + k) m (a @ b) = slice k m b"
  by (simp add: slice_def)

lemma read_slice_append:
  "length a = n \<Longrightarrow> length b = m \<Longrightarrow> read_slice n m (a @ b @ c) = Inr b"
  by (simp add: read_slice_def slice_def)

lemma unat_word_length: "n < 2 ^ 32 \<Longrightarrow> unat (word_of_nat n :: u32) = n"
  by (simp add: unat_of_nat)

lemma split_pack:
  assumes "length header < 2 ^ 32" and "length user < 2 ^ 32"
  shows "split_r0bf (pack_r0bf header user kern) = Inr (header, user, kern)"
proof -
  let ?h = "u32_le (word_of_nat (length header))" and ?u = "u32_le (word_of_nat (length user))"
  let ?b = "pack_r0bf header user kern"
  have "read_slice 0 4 ?b = Inr R0BF" "read_slice 4 4 ?b = Inr (u32_le 1)" "read_slice 8 4 ?b = Inr ?h"
    "read_slice 12 (length header) ?b = Inr header" "read_slice (12 + length header) 4 ?b = Inr ?u"
    "read_slice (12 + length header + 4) (length user) ?b = Inr user"
    using read_slice_append [of "[]" 0 R0BF 4] read_slice_append [of R0BF 4 "u32_le 1" 4]
      read_slice_append [of "R0BF @ u32_le 1" 8 ?h 4]
      read_slice_append [of "R0BF @ u32_le 1 @ ?h" 12 header]
      read_slice_append [of "R0BF @ u32_le 1 @ ?h @ header" "12 + length header" ?u 4]
      read_slice_append [of "R0BF @ u32_le 1 @ ?h @ header @ ?u" "12 + length header + 4" user]
    by (simp_all add: pack_r0bf_def)
  moreover have "drop (12 + length header + 4 + length user) ?b = kern" by (simp add: pack_r0bf_def)
  ultimately show ?thesis
    using assms by (simp add: split_r0bf_def read_u32_def unat_word_length Let_def)
qed

text \<open>A binary that splits is the packing of its parts.\<close>

lemma pack_split:
  assumes "split_r0bf blob = Inr (header, user, kern)"
  shows "blob = pack_r0bf header user kern" and "length header < 2 ^ 32" and "length user < 2 ^ 32"
proof -
  from assms obtain ver h u where m: "read_slice 0 4 blob = Inr R0BF" and v: "read_slice 4 4 blob = Inr ver" "u32_of ver = 1"
    and h: "read_slice 8 4 blob = Inr h" "read_slice 12 (unat (u32_of h)) blob = Inr header"
    and u: "read_slice (12 + unat (u32_of h)) 4 blob = Inr u"
      "read_slice (12 + unat (u32_of h) + 4) (unat (u32_of u)) blob = Inr user"
    and k: "kern = drop (12 + unat (u32_of h) + 4 + unat (u32_of u)) blob"
    by (auto simp: split_r0bf_def read_u32_def result_simps Let_def)
  have parts: "length x = n \<and> drop p blob = x @ drop (p + n) blob" if "read_slice p n blob = Inr x" for p n x
  proof -
    have "p + n \<le> length blob" "x = take n (drop p blob)"
      using that by (auto simp: read_slice_def slice_def split: if_splits)
    moreover have "drop p blob = take n (drop p blob) @ drop (p + n) blob"
      by (metis add.commute append_take_drop_id drop_drop)
    ultimately show ?thesis by simp
  qed
  have len: "length header = unat (u32_of h)" "length user = unat (u32_of u)" "length ver = 4" "length h = 4" "length u = 4"
    using parts m v h u by blast+
  moreover have "blob = R0BF @ ver @ h @ header @ u @ user @ kern"
    using parts [OF m] parts [OF v(1)] parts [OF h(1)] parts [OF h(2)] parts [OF u(1)] parts [OF u(2)] k
    by simp
  moreover have "u32_le (u32_of ver) = ver" "u32_le (u32_of h) = h" "u32_le (u32_of u) = u"
    using len(3-5) by (simp_all only: u32_le_of)
  ultimately show "blob = pack_r0bf header user kern" "length header < 2 ^ 32" "length user < 2 ^ 32"
    using v(2) unsigned_less [of "u32_of h", where 'a = nat] unsigned_less [of "u32_of u", where 'a = nat]
    by (simp_all add: pack_r0bf_def)
qed

text \<open>Stripping keeps the header and the kernel ELF, and a stripped binary strips to itself.\<close>

lemma strip_keeps:
  assumes "strip_program_binary strip blob = Inr b1"
    and "\<And>x y. strip x = Inr y \<Longrightarrow> length y < 2 ^ 32"
  obtains header user user1 kern where "split_r0bf blob = Inr (header, user, kern)" and "strip user = Inr user1"
    and "split_r0bf b1 = Inr (header, user1, kern)"
proof -
  from assms(1) obtain header user user1 kern where p: "split_r0bf blob = Inr (header, user, kern)"
    "strip user = Inr user1" and b1: "b1 = pack_r0bf header user1 kern"
    by (auto simp: strip_program_binary_def result_simps)
  have "length header < 2 ^ 32" "length user1 < 2 ^ 32"
    using pack_split(2) [OF p(1)] assms(2) [OF p(2)] by simp_all
  then have "split_r0bf b1 = Inr (header, user1, kern)" unfolding b1 by (rule split_pack)
  with p show ?thesis by (rule that)
qed

lemma strip_twice:
  assumes "strip_program_binary strip blob = Inr b1"
    and "\<And>x y. strip x = Inr y \<Longrightarrow> length y < 2 ^ 32" and "\<And>x y. strip x = Inr y \<Longrightarrow> strip y = Inr y"
  shows "strip_program_binary strip b1 = Inr b1"
proof -
  obtain header user user1 kern where "strip user = Inr user1" and b1: "split_r0bf b1 = Inr (header, user1, kern)"
    using assms(1,2) by (rule strip_keeps)
  then have "strip user1 = Inr user1" using assms(3) by blast
  then show ?thesis using pack_split(1) [OF b1, symmetric] by (simp add: strip_program_binary_def b1)
qed

end
