(* ===== verification/HostProperties.thy ===== *)
theory HostProperties
  imports ProgramProperties HostScenario BuildScript
begin

text \<open>
  The properties of the host's tools: setting up a registry, the record of the deployed programs, the
  membership lookup, and the stripping of guest binaries.
\<close>

section \<open>Setting up\<close>

text \<open>
  A network that runs the transactions it is sent: the chain after is what the guests make of the chain
  before (\<open>transaction\<close>: all or nothing), and the wait observes one or the other. No account signs.
\<close>

definition unsigned_metas :: "selector list \<Rightarrow> account_meta list" where
  "unsigned_metas ks = map (\<lambda>k. \<lparr>account_id = fst k, is_authorized = False, program_account_id = snd k\<rparr>) ks"

definition runs_guests :: "external \<Rightarrow> account_id \<Rightarrow> account_id \<Rightarrow> network \<Rightarrow> bool" where
  "runs_guests E R M N \<longleftrightarrow>
     (\<forall>tx k before observed chain. nw_send N tx k before = Some (observed, chain) \<longrightarrow>
        (\<exists>s. before = shard s \<and>
           chain = shard (transaction 2 E (deployed R M) s (it_program tx) (unsigned_metas (it_selectors tx)) (it_data tx))) \<and>
        (\<forall>(first, included, again) \<in> set observed. first \<in> {before k, chain k} \<and> again \<in> {before k, chain k}))"

lemma confirmed_observed:
  "confirm_effect P observed = Inr u \<Longrightarrow>
     \<exists>first included again. (first, included, again) \<in> set observed \<and> (P first \<or> P again)"
proof (induction P observed rule: confirm_effect.induct)
  case (1 P)
  then show ?case by simp
next
  case (2 P shard included again later)
  then consider "P shard" | "P again" | "\<not> P shard" "\<not> included" "confirm_effect P later = Inr u"
    by (auto split: if_splits)
  then show ?case using 2(1) by cases (meson list.set_intros)+
qed

text \<open>A confirmed transaction took effect.\<close>

lemma send_init_tx_effect:
  assumes N: "runs_guests E R M N" and send: "send_init_tx H N env \<lparr>pi_registration = R, pi_merkle = M'\<rparr> ks ix k h = Inr h'"
    and empty: "hs_chain h k = []"
  obtains s s' where "hs_chain h = shard s" and "hs_chain h' = shard s'"
    and "replay 2 E (deployed R M) s R None (unsigned_metas ks) (enc_instruction ix) = Inr s'"
proof -
  let ?r = "\<lambda>s. replay 2 E (deployed R M) s R None (unsigned_metas ks) (enc_instruction ix)"
  from send obtain payer observed chain' where
    sent: "nw_send N \<lparr>it_program = R, it_selectors = ks, it_data = enc_instruction ix, it_payer = payer\<rparr> k (hs_chain h) =
      Some (observed, chain')"
    and ok: "confirm_effect (\<lambda>shard. shard \<noteq> []) (take (wait_account_attempts env) observed) = Inr ()"
    and h': "hs_chain h' = chain'"
    by (auto simp: send_init_tx_def result_simps case_Inr simp del: enc_instruction.simps)
  note eff = N [unfolded runs_guests_def, THEN spec, THEN spec, THEN spec, THEN spec, THEN spec, THEN mp, OF sent,
      unfolded init_tx.select_convs]
  obtain s where s: "hs_chain h = shard s"
    and chain': "chain' = shard (transaction 2 E (deployed R M) s R (unsigned_metas ks) (enc_instruction ix))"
    using conjunct1 [OF eff] by blast
  obtain first included again where "(first, included, again) \<in> set observed" "first \<noteq> [] \<or> again \<noteq> []"
    using confirmed_observed [OF ok] by (metis in_set_takeD)
  then have "chain' k \<noteq> []" using bspec [OF conjunct2 [OF eff], of "(first, included, again)"] empty by auto
  then obtain s' where "?r s = Inr s'"
    using chain' empty s by (cases "?r s") (simp_all add: transaction_def del: replay.simps enc_instruction.simps)
  then show ?thesis
    using that s chain' h' by (simp add: transaction_def del: replay.simps enc_instruction.simps)
qed

text \<open>
  C30. Setup makes a registry. When initializing the registry of a tree the chain does not have ends
  without a panic, over a network that runs the guests, the chain holds the tree's config with setup's
  price, capacity, treasury and durations and no members, and a fresh consistent tree.
\<close>

theorem setup_gives_registry:
  assumes "separate E R M" and "poseidon_ok E" and "runs_guests E R M N" and "bytes32 M" and "bytes32 t" and "\<And>n. bytes32 (keys n)"
    and "initialize_registry E H N env keys \<lparr>pi_registration = R, pi_merkle = M\<rparr> t h = Inr h'"
    and "hs_chain h (config_sel E R t) = []" and "hs_chain h (tree_sel E R M t) = []"
  shows "\<exists>s' active grace d. hs_chain h' = shard s' \<and> membership_durations env = Inr (active, grace) \<and>
    has_config E R s' t \<lparr>cs_merkle_program_id = M, cs_tree_id = t, cs_price_per_unit = PRICE_PER_UNIT,
      cs_treasury_account_id = keys (hs_next_key h), cs_total_registrations = 0,
      cs_max_total_rate_limit = MAX_TOTAL_RATE_LIMIT, cs_current_total_rate_limit = 0,
      cs_active_duration_sec = active, cs_grace_period_duration_sec = grace\<rparr> \<and>
    shard s' (tree_sel E R M t) = d \<and> tree_ok E d \<and> hdr_next d = 0 \<and> 0 < active"
proof -
  let ?P = "\<lparr>pi_registration = R, pi_merkle = M\<rparr>"
  let ?tx1 = "\<lambda>active grace. initialize_instruction ?P t (keys (hs_next_key h)) active grace"
  from assms(7) obtain active grace h2 where dur: "membership_durations env = Inr (active, grace)"
    and s1: "send_init_tx H N env ?P [config_sel E R t] (?tx1 active grace) (config_sel E R t) (h\<lparr>hs_next_key := hs_next_key h + 1\<rparr>) = Inr h2"
    and s2: "send_init_tx H N env ?P [config_sel E R t, tree_sel E R M t] (InitializeMerkleTree t M) (tree_sel E R M t) h2 = Inr h'"
    by (auto simp: initialize_registry_def create_account_def result_simps)
  let ?cfg = "\<lparr>cs_merkle_program_id = M, cs_tree_id = t, cs_price_per_unit = PRICE_PER_UNIT,
      cs_treasury_account_id = keys (hs_next_key h), cs_total_registrations = 0,
      cs_max_total_rate_limit = MAX_TOTAL_RATE_LIMIT, cs_current_total_rate_limit = 0,
      cs_active_duration_sec = active, cs_grace_period_duration_sec = grace\<rparr>"
  have ok1: "instruction_ok (?tx1 active grace)" and ok2: "instruction_ok (InitializeMerkleTree t M)"
    using assms(4-6) by (simp_all add: initialize_instruction_def)
  obtain s a where s: "hs_chain h = shard s" and h2: "hs_chain h2 = shard a"
    and a: "replay 2 E (deployed R M) s R None (unsigned_metas [config_sel E R t]) (enc_instruction (?tx1 active grace)) = Inr a"
    using send_init_tx_effect [OF assms(3) s1] assms(8) by auto
  have a': "a = s(config_sel E R t \<mapsto> enc_config ?cfg)" and pos: "0 < active"
    using tx_initialize [OF assms(1) ok1 [unfolded initialize_instruction_def], THEN iffD1, OF a [unfolded numeral_2_eq_2 initialize_instruction_def]]
    by auto
  have tree: "hs_chain h2 (tree_sel E R M t) = []" using assms(1,9) s h2 by (simp add: a')
  obtain a2 b where a2: "shard a = shard a2" and b: "replay 2 E (deployed R M) a2 R None (unsigned_metas [config_sel E R t, tree_sel E R M t])
      (enc_instruction (InitializeMerkleTree t M)) = Inr b" and h': "hs_chain h' = shard b"
    using send_init_tx_effect [OF assms(3) s2 tree] h2 by metis
  obtain d where d: "initialize_tree (shard a2 (tree_sel E R M t)) = Inr d" and b': "b = a2(tree_sel E R M t \<mapsto> d)"
    using tx_initialize_tree [OF assms(1) ok2, THEN iffD1, OF b [unfolded numeral_2_eq_2]]
    by (auto simp: tree_called_merkle [OF assms(1)] merkle_run_def)
  have "tree_ok E d" "hdr_next d = 0"
    using initialize_tree_correct [OF assms(2)] d tree h2 a2 by (metis Inr_inject)+
  moreover have "has_config E R b t ?cfg"
    using assms(1,4-6) by (simp add: b' a2 [symmetric] has_config_def config_ok_def) (simp add: a')
  ultimately show ?thesis using h' dur pos b' by auto
qed

text \<open>A network that runs the guests at once, and a host with an empty registry.\<close>

definition demo_network :: network where
  "demo_network = \<lparr>nw_deploy = (\<lambda>_ _ _ _ _. None),
     nw_send = (\<lambda>tx k before.
       let chain = shard (transaction 2 toy (deployed demo_R demo_M) (\<lambda>k. Some (before k)) (it_program tx)
             (unsigned_metas (it_selectors tx)) (it_data tx))
       in Some ([(before k, True, chain k)], chain))\<rparr>"

lemma shard_Some [simp]: "shard (\<lambda>k. Some (f k)) = f"
  by (rule ext) (simp add: shard_def)

lemma demo_network_runs: "runs_guests toy demo_R demo_M demo_network"
  unfolding runs_guests_def demo_network_def network.select_convs Let_def option.inject prod.inject
  by (intro allI impI conjI exI [of _ "\<lambda>k. Some (before k)" for before]) auto

definition demo_host :: "shards \<Rightarrow> host_state" where
  "demo_host s = \<lparr>hs_chain = shard s, hs_next_key = 0, hs_record = None\<rparr>"

text \<open>What this network makes of a transaction that succeeds.\<close>

lemma demo_send:
  assumes "replay 2 toy (deployed demo_R demo_M) (\<lambda>k. Some (hs_chain h k)) demo_R None (unsigned_metas ks) (enc_instruction ix) = Inr s'"
    and "shard s' k \<noteq> []"
  shows "send_init_tx H demo_network (\<lambda>_. None) demo_programs ks ix k h = Inr (h\<lparr>hs_chain := shard s'\<rparr>)"
proof -
  have "wait_account_attempts (\<lambda>_. None) = Suc 359" by (simp add: wait_account_attempts_def)
  then show ?thesis
    using assms
    by (simp add: send_init_tx_def demo_network_def demo_programs_def fee_payer_def transaction_def Let_def
        del: replay.simps enc_instruction.simps)
qed

definition setup_cfg :: config_state where
  "setup_cfg = \<lparr>cs_merkle_program_id = demo_M, cs_tree_id = demo_T, cs_price_per_unit = PRICE_PER_UNIT,
      cs_treasury_account_id = demo_treasury, cs_total_registrations = 0,
      cs_max_total_rate_limit = MAX_TOTAL_RATE_LIMIT, cs_current_total_rate_limit = 0,
      cs_active_duration_sec = DEFAULT_ACTIVE_DURATION_SECS, cs_grace_period_duration_sec = DEFAULT_GRACE_PERIOD_DURATION_SECS\<rparr>"

lemma unsigned_metas_sel [simp]:
  "unsigned_metas [] = []" "unsigned_metas (k # ks) = meta_for False k # unsigned_metas ks"
  by (simp_all add: unsigned_metas_def meta_for_def)

lemma demo_empty_tree: "shard demo_empty (tree_sel toy demo_R demo_M demo_T) = []"
  by (simp add: demo_empty_def demo_sep_sels(7) [THEN not_sym]) (simp add: shard_def)

lemma demo_setup:
  "\<exists>h'. initialize_registry toy H demo_network (\<lambda>_. None) (\<lambda>_. demo_treasury) demo_programs demo_T (demo_host demo_empty) = Inr h'"
proof -
  let ?s0 = "\<lambda>k. Some (shard demo_empty k)" and ?h = "(demo_host demo_empty)\<lparr>hs_next_key := 1\<rparr>"
  let ?ix1 = "initialize_instruction demo_programs demo_T demo_treasury DEFAULT_ACTIVE_DURATION_SECS DEFAULT_GRACE_PERIOD_DURATION_SECS"
  let ?s1 = "?s0(config_sel toy demo_R demo_T \<mapsto> enc_config setup_cfg)"
  have ok: "instruction_ok ?ix1" by (simp add: initialize_instruction_def demo_programs_def)
  have r1: "replay 2 toy (deployed demo_R demo_M) ?s0 demo_R None (unsigned_metas [config_sel toy demo_R demo_T]) (enc_instruction ?ix1) = Inr ?s1"
    unfolding numeral_2_eq_2 initialize_instruction_def
    by (subst tx_initialize [OF demo_separate ok [unfolded initialize_instruction_def]])
      (simp add: setup_cfg_def demo_programs_def MAX_TOTAL_RATE_LIMIT_def DEFAULT_ACTIVE_DURATION_SECS_def)
  have t1: "send_init_tx H demo_network (\<lambda>_. None) demo_programs [config_sel toy demo_R demo_T] ?ix1 (config_sel toy demo_R demo_T) ?h =
      Inr (?h\<lparr>hs_chain := shard ?s1\<rparr>)"
    using r1 by (intro demo_send) (simp_all add: demo_host_def del: replay.simps enc_instruction.simps)
  let ?s1' = "\<lambda>k. Some (shard ?s1 k)" and ?ix2 = "InitializeMerkleTree demo_T demo_M"
  have cfg: "has_config toy demo_R ?s1' demo_T setup_cfg" by (simp add: has_config_def config_ok_def setup_cfg_def)
  have empty: "shard ?s1' (tree_sel toy demo_R demo_M demo_T) = []" by (simp add: demo_empty_tree)
  obtain d where d: "initialize_tree [] = Inr d" "tree_ok toy d" using initialize_tree_correct [OF toy_poseidon] by blast
  let ?s2 = "?s1'(tree_sel toy demo_R demo_M demo_T \<mapsto> d)"
  have r2: "replay 2 toy (deployed demo_R demo_M) ?s1' demo_R None
      (unsigned_metas [config_sel toy demo_R demo_T, tree_sel toy demo_R demo_M demo_T]) (enc_instruction ?ix2) = Inr ?s2"
    unfolding numeral_2_eq_2
    by (subst tx_initialize_tree [OF demo_separate demo_instructions_ok(2)])
      (use cfg d empty in \<open>auto simp: tree_called_merkle [OF demo_separate] merkle_run_def setup_cfg_def\<close>)
  have t2: "send_init_tx H demo_network (\<lambda>_. None) demo_programs [config_sel toy demo_R demo_T, tree_sel toy demo_R demo_M demo_T]
      ?ix2 (tree_sel toy demo_R demo_M demo_T) (?h\<lparr>hs_chain := shard ?s1\<rparr>) = Inr (?h\<lparr>hs_chain := shard ?s2\<rparr>)"
    using r2 tree_ok_not_Nil [OF d(2)]
    by (intro demo_send [THEN trans]) (simp_all add: demo_host_def del: replay.simps enc_instruction.simps)
  have dur: "membership_durations (\<lambda>_. None) = Inr (DEFAULT_ACTIVE_DURATION_SECS, DEFAULT_GRACE_PERIOD_DURATION_SECS)"
    by (simp add: membership_durations_def read_duration_def)
  show ?thesis
    using t1 t2 by (simp add: initialize_registry_def create_account_def demo_host_def dur demo_programs_def)
qed

theorem setup_gives_registry_witness:
  "\<exists>h' s'. initialize_registry toy (toy_libs demo_empty) demo_network (\<lambda>_. None) (\<lambda>_. demo_treasury) demo_programs demo_T
       (demo_host demo_empty) = Inr h' \<and>
     hs_chain h' = shard s' \<and> has_config toy demo_R s' demo_T setup_cfg \<and> tree_ok toy (shard s' (tree_sel toy demo_R demo_M demo_T))"
proof -
  obtain h' where h': "initialize_registry toy (toy_libs demo_empty) demo_network (\<lambda>_. None) (\<lambda>_. demo_treasury) demo_programs demo_T
      (demo_host demo_empty) = Inr h'" using demo_setup by blast
  have dur: "membership_durations (\<lambda>_. None) = Inr (DEFAULT_ACTIVE_DURATION_SECS, DEFAULT_GRACE_PERIOD_DURATION_SECS)"
    by (simp add: membership_durations_def read_duration_def)
  have e: "hs_chain (demo_host demo_empty) (config_sel toy demo_R demo_T) = []"
    "hs_chain (demo_host demo_empty) (tree_sel toy demo_R demo_M demo_T) = []"
    by (simp_all add: demo_host_def demo_empty_tree)
  show ?thesis
    using setup_gives_registry [OF demo_separate toy_poseidon demo_network_runs _ _ _ h' [unfolded demo_programs_def] e] h' dur
    by (auto simp: setup_cfg_def)
qed

text \<open>
  C31. Setup is idempotent by the config alone. When both programs are known and deployed and the tree's
  config shard is not empty, a run of setup ends at once: it sends nothing, whatever the tree shard
  holds, and rewrites the record with the known ids. A setup cut off between its two transactions is
  therefore not completed by running it again.
\<close>

theorem setup_stops_at_config:
  assumes "known_program_ids_of H env (hs_record h) = Inr \<lparr>ki_registration = Some R, ki_merkle = Some M\<rparr>"
    and "program_deployed_at L h M (fst merkle) = Inr True" and "program_deployed_at L h R (fst registration) = Inr True"
    and "hs_chain h (config_sel E R t) \<noteq> []"
  shows "run_setup E H L N env keys registration merkle t h =
    Inr (\<lparr>pi_registration = R, pi_merkle = M\<rparr>, h\<lparr>hs_record := Some (encode_record H \<lparr>pi_registration = R, pi_merkle = M\<rparr>)\<rparr>)"
  using assms by (simp add: run_setup_def ensure_program_def is_initialized_def Let_def)

text \<open>A loader for which every program has been deployed.\<close>

definition demo_loader :: loader where
  "demo_loader = \<lparr>decode_binary = (\<lambda>_. None), program_image = (\<lambda>_. None), header_image = (\<lambda>_. Some []),
     default_kernel = [], max_segment_data_len = 1, max_program_segments = 1, loader_account = demo_treasury\<rparr>"

definition demo_deployed_host :: host_state where
  "demo_deployed_host = (demo_host (demo_configured((demo_R, demo_treasury) \<mapsto> [1], (demo_M, demo_treasury) \<mapsto> [1])))
     \<lparr>hs_record := Some (encode_record (toy_libs demo_configured) demo_programs)\<rparr>"

theorem setup_stops_at_config_witness:
  "run_setup toy (toy_libs demo_configured) demo_loader demo_network (\<lambda>_. None) (\<lambda>_. demo_treasury) ([], []) ([], []) demo_T demo_deployed_host =
     Inr (demo_programs, demo_deployed_host) \<and>
   hs_chain demo_deployed_host (tree_sel toy demo_R demo_M demo_T) = []"
proof -
  let ?H = "toy_libs demo_configured"
  have rec: "known_program_ids_of ?H (\<lambda>_. None) (hs_record demo_deployed_host) =
      Inr \<lparr>ki_registration = Some demo_R, ki_merkle = Some demo_M\<rparr>"
    using decode_encode_record [OF toy_hex toy_json, of demo_programs]
    by (simp add: demo_deployed_host_def demo_programs_def known_program_ids_of_def read_record_def env_id_def or_else_def)
  have apart: "demo_R \<noteq> demo_treasury" "demo_M \<noteq> demo_treasury" "demo_R \<noteq> demo_M" by (simp_all add: demo_ids)
  have dep: "program_deployed_at demo_loader demo_deployed_host demo_M [] = Inr True"
    "program_deployed_at demo_loader demo_deployed_host demo_R [] = Inr True"
    using apart by (simp_all add: program_deployed_at_def header_deployed_def demo_loader_def demo_deployed_host_def demo_host_def)
  have keep: "hs_chain demo_deployed_host (a, demo_R) = shard demo_configured (a, demo_R)"
    "hs_chain demo_deployed_host (a, demo_M) = shard demo_configured (a, demo_M)" for a
    using apart by (simp_all add: demo_deployed_host_def demo_host_def)
  then have cfg: "hs_chain demo_deployed_host (config_sel toy demo_R demo_T) \<noteq> []"
    and tree: "hs_chain demo_deployed_host (tree_sel toy demo_R demo_M demo_T) = []"
    using demo_has_config(1) demo_shards(2) by (auto simp: config_sel_def tree_sel_def has_config_def)
  show ?thesis
    using setup_stops_at_config [OF rec _ _ cfg, of demo_loader "([], [])" "([], [])" demo_network "\<lambda>_. demo_treasury"] dep tree
    by (simp add: demo_deployed_host_def demo_programs_def)
qed

section \<open>The record of the deployed programs\<close>

text \<open>
  The record of the deployed programs round-trips: decoding what setup wrote gives back the two ids,
  and an id that is also set in the environment is taken from there, each on its own.
\<close>

theorem program_ids_record_round_trip:
  assumes "hex_ok H" and "json_ok H" and "bytes32 (pi_registration ids)" and "bytes32 (pi_merkle ids)"
    and "env REGISTRATION_PROGRAM_ID_ENV = map_option (hex_id H) r" and "env MERKLE_PROGRAM_ID_ENV = map_option (hex_id H) m"
    and "\<forall>a. r = Some a \<or> m = Some a \<longrightarrow> bytes32 a"
  shows "decode_record H (encode_record H ids) = Inr ids \<and>
    program_ids_or_exit H env (Some (encode_record H ids)) =
      Inr \<lparr>pi_registration = (case r of None \<Rightarrow> pi_registration ids | Some a \<Rightarrow> a),
           pi_merkle = (case m of None \<Rightarrow> pi_merkle ids | Some a \<Rightarrow> a)\<rparr>"
  using decode_encode_record [OF assms(1-4)] known_ids_env [OF assms] by blast

theorem program_ids_record_round_trip_witness:
  "program_ids_or_exit (toy_libs demo_empty) [MERKLE_PROGRAM_ID_ENV \<mapsto> toy_hex_encode demo_treasury]
     (Some (encode_record (toy_libs demo_empty) demo_programs)) = Inr \<lparr>pi_registration = demo_R, pi_merkle = demo_treasury\<rparr>"
proof -
  have ne: "REGISTRATION_PROGRAM_ID_ENV \<noteq> MERKLE_PROGRAM_ID_ENV"
    by (simp add: REGISTRATION_PROGRAM_ID_ENV_def MERKLE_PROGRAM_ID_ENV_def)
  have "hex_id (toy_libs demo_empty) a = toy_hex_encode a" for a by (simp add: hex_id_def toy_libs_def)
  then show ?thesis
    using program_ids_record_round_trip [OF toy_hex [of demo_empty] toy_json [of demo_empty], where ids = demo_programs and r = None and m = "Some demo_treasury"
        and env = "[MERKLE_PROGRAM_ID_ENV \<mapsto> toy_hex_encode demo_treasury]"] ne
    by (simp add: demo_programs_def)
qed

section \<open>Looking a membership up\<close>

text \<open>
  C28. The lookup tool tells the chain's truth. Against a sequencer that answers from the shards, and with
  the hashes its replicated derivation relies on, it reports a membership exactly when the guests have
  one, with its fields and the clock's time, exits 0 then and 1 when there is none, and calls it in grace
  exactly when the guest would renew it and expired exactly when the guest would erase it.
\<close>

theorem check_membership_agrees:
  assumes "answers H fetch s" and "tool_agrees E" and "bytes32 R"
    and "clock_timestamp E (shard s (clock_sel E)) = Some now"
    and "case mem of None \<Rightarrow> shard s (membership_sel E R t c) = [] | Some m \<Rightarrow> has_member E R s t c m"
  shows "check_account E H is_null fetch json sequencer R t c =
      Inr (case mem of None \<Rightarrow> Unregistered json | Some m \<Rightarrow> Registered json m (lifecycle m now) now) \<and>
    exit_code (check_account E H is_null fetch json sequencer R t c) = (case mem of None \<Rightarrow> 1 | Some m \<Rightarrow> 0) \<and>
    (\<forall>m. mem = Some m \<longrightarrow>
       (lifecycle m now = ''grace_period'') =
         (\<exists>d. apply_extend_membership now (ms_rate_limit m) (shard s (membership_sel E R t c)) = Inr d) \<and>
       (lifecycle m now = ''expired'') =
         (\<exists>d. apply_erase_membership now (ms_rate_limit m) (shard s (membership_sel E R t c)) = Inr d))"
proof (cases mem)
  case None
  then show ?thesis
    using assms(5) check_account_unregistered [OF assms(1-3)] by (simp add: exit_code_def)
next
  case (Some m)
  then have m: "has_member E R s t c m" using assms(5) by simp
  then show ?thesis
    using Some check_account_registered [OF assms(1-3) m assms(4)] lifecycle_guest(1,2) [of m now]
    by (simp add: exit_code_def has_member_def)
qed

lemma toy_tool_agrees: "tool_agrees toy"
  by (simp add: tool_agrees_def toy_def PDA_PREFIX_def clock_program_account_id_def builtin_program_account_id_def toy_sha_def Let_def)

theorem check_membership_agrees_witness:
  "check_account toy (toy_libs (demo_at 1120000)) (\<lambda>_. False) toy_fetch True ''url'' demo_R demo_T demo_C =
     Inr (Registered True demo_member ''grace_period'' 1120000)"
proof -
  have "lifecycle demo_member 1120000 = ''grace_period''"
    by (simp add: lifecycle_def is_expired_def is_in_grace_period_def sat_add_def secs_to_millis_def MILLIS_PER_SECOND_def)
  then show ?thesis
    using check_membership_agrees [OF toy_answers toy_tool_agrees _ demo_clock_at, where mem = "Some demo_member" and R = demo_R]
      demo_at_shards(3) by simp
qed

section \<open>Stripping guest binaries\<close>

text \<open>
  Stripping a guest binary keeps it whole. When it succeeds, the result splits into the header and
  kernel it had and the stripped user program, and, where \<open>llvm-strip\<close> leaves a stripped program as it is,
  a stripped binary strips to itself, so a second build changes nothing.
\<close>

theorem strip_program_binary_stable:
  assumes "strip_program_binary strip blob = Inr b1"
    and "\<And>x y. strip x = Inr y \<Longrightarrow> length y < 2 ^ 32" and "\<And>x y. strip x = Inr y \<Longrightarrow> strip y = Inr y"
  shows "\<exists>header user user1 kern. split_r0bf blob = Inr (header, user, kern) \<and> strip user = Inr user1 \<and>
      split_r0bf b1 = Inr (header, user1, kern) \<and> strip_program_binary strip b1 = Inr b1"
proof -
  obtain header user user1 kern where "split_r0bf blob = Inr (header, user, kern)" "strip user = Inr user1"
    "split_r0bf b1 = Inr (header, user1, kern)" using assms(1,2) by (rule strip_keeps)
  moreover have "strip_program_binary strip b1 = Inr b1"
    by (rule strip_twice [OF assms(1)], erule assms(2), erule assms(3))
  ultimately show ?thesis by blast
qed

theorem strip_program_binary_stable_witness:
  "\<exists>b1. strip_program_binary (\<lambda>x. Inr (take 1 x)) (pack_r0bf [1, 2] [3, 4, 5] [6]) = Inr b1 \<and>
     split_r0bf b1 = Inr ([1, 2], [3], [6])"
proof -
  let ?strip = "\<lambda>x :: bytes. Inr (take 1 x) :: bytes result"
  have p: "split_r0bf (pack_r0bf [1, 2] [3, 4, 5] [6]) = Inr ([1, 2], [3, 4, 5], [6])" by (rule split_pack) simp_all
  then have s: "strip_program_binary ?strip (pack_r0bf [1, 2] [3, 4, 5] [6]) = Inr (pack_r0bf [1, 2] [3] [6])"
    by (simp add: strip_program_binary_def)
  have "length y < 2 ^ 32 \<and> ?strip y = Inr y" if "?strip x = Inr y" for x y using that by auto
  then show ?thesis using strip_program_binary_stable [OF s] p s by auto
qed

end
