(* ===== verification/HostRuns.thy ===== *)
theory HostRuns
  imports TextProperties HostProperties
begin

text \<open>
  What a run of setup leaves for the other binaries: the record of the programs, the payment account, and
  the accounts derived from them.
\<close>

section \<open>What setup leaves for the other binaries\<close>

definition base58_ok :: "'j host_libs \<Rightarrow> bool" where
  "base58_ok H \<longleftrightarrow>
     (\<forall>a. bytes32 a \<longrightarrow> parse_base58_id H (trim (base58_encode H a)) = Some a) \<and>
     (\<forall>s a. parse_base58_id H s = Some a \<longrightarrow> bytes32 a)"

lemma parsed_id_bytes32: "base58_ok H \<Longrightarrow> parse_account_id H raw = Inr a \<Longrightarrow> bytes32 a"
  unfolding parse_account_id_def Let_def base58_ok_def
  by (auto split: option.splits if_splits)

lemma payer_bytes32: "base58_ok H \<Longrightarrow> resolve_payer H env = Inr a \<Longrightarrow> bytes32 a"
  by (auto simp: resolve_payer_def fee_payer_def result_simps split: option.splits sum.splits intro: parsed_id_bytes32)

lemma hex_id_bytes32: "parse_hex_id H raw what = Inr a \<Longrightarrow> bytes32 a"
  by (auto simp: parse_hex_id_def split: option.splits if_splits)

text \<open>The ids a run starts from: those of the environment first, each 32 bytes long.\<close>

lemma known_ids_parts:
  assumes "known_program_ids_of H env file = Inr known"
  obtains r m where "env_id H env REGISTRATION_PROGRAM_ID_ENV = Inr r" and "env_id H env MERKLE_PROGRAM_ID_ENV = Inr m"
    and "\<forall>a. r = Some a \<longrightarrow> ki_registration known = Some a" and "\<forall>a. m = Some a \<longrightarrow> ki_merkle known = Some a"
    and "\<forall>a. ki_registration known = Some a \<longrightarrow> bytes32 a" and "\<forall>a. ki_merkle known = Some a \<longrightarrow> bytes32 a"
proof -
  from assms obtain recorded r m where rec: "read_record H file = Inr recorded" and r: "env_id H env REGISTRATION_PROGRAM_ID_ENV = Inr r"
    and m: "env_id H env MERKLE_PROGRAM_ID_ENV = Inr m"
    and known: "known = \<lparr>ki_registration = or_else r (map_option pi_registration recorded),
      ki_merkle = or_else m (map_option pi_merkle recorded)\<rparr>"
    by (auto simp: known_program_ids_of_def rbind_Inr_iff)
  have env: "bytes32 a" if "env_id H env var = Inr (Some a)" for var a
    using that by (auto simp: env_id_def rbind_Inr_iff split: option.splits intro: hex_id_bytes32)
  have field: "bytes32 a" if "record_field H v key = Inr a" for v key a
    using that by (auto simp: record_field_def split: option.splits intro: hex_id_bytes32)
  have "bytes32 (pi_registration ids) \<and> bytes32 (pi_merkle ids)" if "recorded = Some ids" for ids
    using rec that field
    by (auto simp: read_record_def decode_record_def rbind_Inr_iff split: option.splits)
  then show ?thesis
    using that [OF r m] env r m known by (auto simp: or_else_def split: option.splits)
qed

lemma ensure_program_id:
  assumes "ensure_program H L N env keys known img bytecode h = Inr (a, h')"
  shows "(\<exists>k. known = None \<and> a = keys k) \<or> known = Some a"
proof (cases known)
  case None
  then obtain h1 where "fresh_loader_account L keys h = Inr (a, h1)"
    using assms by (auto simp: ensure_program_def deploy_program_def result_simps case_Inr Let_def)
  then show ?thesis using None fresh_loader_account_ok by metis
next
  case (Some x)
  then show ?thesis using assms by (auto simp: ensure_program_def split: sum.splits bool.splits)
qed

lemma files_apart: "record_path H env t \<noteq> account_file_path H env t ''payment_account''"
proof -
  have "path_join d x \<noteq> path_join d y" if "x \<noteq> y" "d \<noteq> []" for d x y
    using that by (simp add: path_join_def)
  moreover have "path_join (home_dir env) DATA_DIR \<noteq> []" by (simp add: path_join_def DATA_DIR_def)
  ultimately show ?thesis by (simp add: record_path_def account_file_path_def)
qed

text \<open>
  C36. What setup leaves, the other binaries find. After a run of \<open>run_setup\<close> that ends well, in the same
  environment, whether it deployed the programs, took them from the environment, or from an earlier
  record: the ids every binary reads are the ones setup used, the payment account reads back as its payer,
  and \<open>derive_accounts\<close> prints those ids with the config and tree accounts of setup's report.
\<close>

theorem setup_then_tools:
  assumes "hex_ok H" and "json_ok H" and "base58_ok H" and "\<And>k. bytes32 (keys k)"
    and "run_setup_main E H L N env keys binaries can_write mc = (ls, Inr (programs, mc'))"
  shows "\<exists>t payer config tree_main. tree_id_from_env H env = Inr t \<and> resolve_payer H env = Inr payer \<and>
    program_ids_from H env (mc_files mc') t = Inr programs \<and>
    load_payment_account H env t (mc_files mc') = Some payer \<and>
    ls = Out (''=== RLN Setup ==='' @ [NEWLINE]) # setup_report H programs payer tree_main config \<and>
    derive_accounts E H env (mc_files mc') = ([Out (accounts_line H programs config tree_main)], Inr ())"
proof -
  from assms(5) obtain payer t reg merkle h files1 files2 config tree_main where
    payer: "resolve_payer H env = Inr payer" and t: "tree_id_from_env H env = Inr t"
    and run: "run_setup E H L N env keys reg merkle t
      \<lparr>hs_chain = mc_chain mc, hs_next_key = mc_next_key mc, hs_record = mc_files mc (record_path H env t)\<rparr> = Inr (programs, h)"
    and f1: "save_program_ids H env can_write t programs (mc_files mc) = Inr files1"
    and f2: "save_payment_account H env can_write t payer files1 = Inr files2"
    and main: "derive_main_account E (pi_registration programs) t = Inr tree_main"
    and config: "derive_config_account E (pi_registration programs) t = Inr config"
    and mc': "mc_files mc' = files2"
    and ls: "ls = Out (''=== RLN Setup ==='' @ [NEWLINE]) # setup_report H programs payer tree_main config"
    by (auto simp: run_setup_main_def run_bind_def quiet_def say_def Let_def split: sum.splits prod.splits)
  from run obtain known m h1 r h2 where known: "known_program_ids_of H env (mc_files mc (record_path H env t)) = Inr known"
    and m: "ensure_program H L N env keys (ki_merkle known) (fst merkle) (snd merkle)
      \<lparr>hs_chain = mc_chain mc, hs_next_key = mc_next_key mc, hs_record = mc_files mc (record_path H env t)\<rparr> = Inr (m, h1)"
    and r: "ensure_program H L N env keys (ki_registration known) (fst reg) (snd reg) h1 = Inr (r, h2)"
    and programs: "programs = \<lparr>pi_registration = r, pi_merkle = m\<rparr>"
    by (auto simp: run_setup_def result_simps Let_def split: sum.splits if_splits)
  obtain er em where er: "env_id H env REGISTRATION_PROGRAM_ID_ENV = Inr er" and em: "env_id H env MERKLE_PROGRAM_ID_ENV = Inr em"
    and kr: "\<forall>a. er = Some a \<longrightarrow> ki_registration known = Some a" and km: "\<forall>a. em = Some a \<longrightarrow> ki_merkle known = Some a"
    and br: "\<forall>a. ki_registration known = Some a \<longrightarrow> bytes32 a" and bm: "\<forall>a. ki_merkle known = Some a \<longrightarrow> bytes32 a"
    by (rule known_ids_parts [OF known]) blast
  note idr = ensure_program_id [OF r] and idm = ensure_program_id [OF m]
  have ids: "bytes32 (pi_registration programs)" "bytes32 (pi_merkle programs)"
    using idr idm br bm assms(4) by (auto simp: programs)
  have rec: "files2 (record_path H env t) = Some (encode_record H programs)"
    using f1 f2 files_apart [of H env t]
    by (auto simp: save_program_ids_def save_payment_account_def write_file_def result_simps)
  have "or_else er (Some r) = Some r" "or_else em (Some m) = Some m"
    using kr km idr idm by (auto simp: or_else_def split: option.splits)
  then have found: "program_ids_from H env files2 t = Inr programs"
    using decode_encode_record [OF assms(1,2) ids]
    by (simp add: program_ids_from_def program_ids_or_exit_def known_program_ids_of_def read_record_def rec er em
        complete_ids_def programs)
  moreover have "load_payment_account H env t files2 = Some payer"
    using payment_account_round_trip [OF _ f2] assms(3) payer_bytes32 [OF assms(3) payer] by (simp add: base58_ok_def)
  moreover have "derive_accounts E H env files2 = ([Out (accounts_line H programs config tree_main)], Inr ())"
    using t found main config by (simp add: derive_accounts_def say_def)
  ultimately show ?thesis using payer t ls mc' by blast
qed

text \<open>Libraries whose account names are hexadecimal, and a machine on which the programs are deployed.\<close>

definition toy_libs_hex :: "shards \<Rightarrow> toy_json host_libs" where
  "toy_libs_hex s = (toy_libs s)\<lparr>base58_encode := toy_hex_encode,
     parse_base58_id := (\<lambda>t. case toy_hex_decode t of None \<Rightarrow> None | Some b \<Rightarrow> if length b = 32 then Some b else None)\<rparr>"

lemma toy_libs_hex_ok: "hex_ok (toy_libs_hex s)" "json_ok (toy_libs_hex s)" "base58_ok (toy_libs_hex s)"
proof -
  show "hex_ok (toy_libs_hex s)" using toy_hex [of s] by (simp add: hex_ok_def toy_libs_hex_def)
  show "json_ok (toy_libs_hex s)" using toy_json [of s] by (simp add: json_ok_def toy_libs_hex_def)
  have "toy_hex_decode (toy_hex_encode a) = Some a" "trim (toy_hex_encode a) = toy_hex_encode a" for a
    using toy_hex [of s] hex_digits_not_space by (auto simp: hex_ok_def toy_libs_def)
  then show "base58_ok (toy_libs_hex s)" by (auto simp: base58_ok_def toy_libs_hex_def split: option.splits if_splits)
qed

abbreviation "demo_libs \<equiv> toy_libs_hex demo_configured"

lemma demo_hex_ids:
  "resolve_payer demo_libs demo_hex_env = Inr demo_payer" "tree_id_from_env demo_libs demo_hex_env = Inr demo_T"
proof -
  have "parse_account_id demo_libs raw = Inr a" if "parse_account_id (toy_libs demo_configured) raw = Inr a" for raw a
    using that by (auto simp: parse_account_id_def Let_def toy_libs_hex_def toy_libs_def split: option.splits if_splits)
  then show "resolve_payer demo_libs demo_hex_env = Inr demo_payer"
    using demo_parse_id [of demo_payer demo_configured] by (simp add: resolve_payer_def fee_payer_def demo_hex_env_def)
  have d: "hex_decode demo_libs = hex_decode (toy_libs demo_configured)" by (simp add: toy_libs_hex_def)
  show "tree_id_from_env demo_libs demo_hex_env = Inr demo_T"
    using demo_env_ids(2) [of demo_configured] unfolding tree_id_from_env_def d .
qed

definition demo_machine :: machine where
  "demo_machine = \<lparr>mc_chain = hs_chain demo_deployed_host, mc_next_key = 0,
     mc_files = [record_path demo_libs demo_hex_env demo_T \<mapsto> encode_record demo_libs demo_programs]\<rparr>"

lemma demo_setup_main:
  "\<exists>ls mc'. run_setup_main toy demo_libs (demo_loader\<lparr>program_image := \<lambda>_. Some []\<rparr>) demo_network demo_hex_env
     (\<lambda>_. demo_treasury) (\<lambda>_. Some []) (\<lambda>_. True) demo_machine = (ls, Inr (demo_programs, mc'))"
proof -
  let ?L = "demo_loader\<lparr>program_image := \<lambda>_. Some []\<rparr>"
  let ?h = "\<lparr>hs_chain = hs_chain demo_deployed_host, hs_next_key = 0, hs_record = Some (encode_record demo_libs demo_programs)\<rparr>"
  have unset: "demo_hex_env REGISTRATION_PROGRAM_ID_ENV = None" "demo_hex_env MERKLE_PROGRAM_ID_ENV = None"
    by (simp_all add: demo_hex_env_def REGISTRATION_PROGRAM_ID_ENV_def MERKLE_PROGRAM_ID_ENV_def)
  have known: "known_program_ids_of demo_libs demo_hex_env (Some (encode_record demo_libs demo_programs)) =
      Inr \<lparr>ki_registration = Some demo_R, ki_merkle = Some demo_M\<rparr>"
    using decode_encode_record [OF toy_libs_hex_ok(1,2), of demo_programs]
    by (simp add: demo_programs_def known_program_ids_of_def read_record_def env_id_def or_else_def unset)
  have apart: "demo_R \<noteq> demo_treasury" "demo_M \<noteq> demo_treasury" "demo_R \<noteq> demo_M" by (simp_all add: demo_ids)
  have dep: "program_deployed_at ?L ?h demo_M [] = Inr True" "program_deployed_at ?L ?h demo_R [] = Inr True"
    using apart by (simp_all add: program_deployed_at_def header_deployed_def demo_loader_def demo_deployed_host_def demo_host_def)
  have "hs_chain demo_deployed_host (a, demo_R) = shard demo_configured (a, demo_R)" for a
    using apart by (simp add: demo_deployed_host_def demo_host_def)
  then have cfg: "hs_chain demo_deployed_host (config_sel toy demo_R demo_T) \<noteq> []"
    using demo_has_config(1) by (auto simp: config_sel_def has_config_def)
  have "run_setup toy demo_libs ?L demo_network demo_hex_env (\<lambda>_. demo_treasury) ([], []) ([], []) demo_T ?h = Inr (demo_programs, ?h)"
    using known dep cfg by (simp add: run_setup_def ensure_program_def is_initialized_def demo_programs_def Let_def)
  then show ?thesis
    by (simp add: run_setup_main_def demo_hex_ids load_programs_def load_program_def demo_machine_def Let_def
        save_program_ids_def save_payment_account_def write_file_def derive_main_account_def)
qed

theorem setup_then_tools_witness:
  "\<exists>ls mc'. run_setup_main toy demo_libs (demo_loader\<lparr>program_image := \<lambda>_. Some []\<rparr>) demo_network demo_hex_env
     (\<lambda>_. demo_treasury) (\<lambda>_. Some []) (\<lambda>_. True) demo_machine = (ls, Inr (demo_programs, mc')) \<and>
   load_payment_account demo_libs demo_hex_env demo_T (mc_files mc') = Some demo_payer \<and>
   program_ids_from demo_libs demo_hex_env (mc_files mc') demo_T = Inr demo_programs"
proof -
  obtain ls mc' where run: "run_setup_main toy demo_libs (demo_loader\<lparr>program_image := \<lambda>_. Some []\<rparr>) demo_network demo_hex_env
     (\<lambda>_. demo_treasury) (\<lambda>_. Some []) (\<lambda>_. True) demo_machine = (ls, Inr (demo_programs, mc'))" using demo_setup_main by blast
  show ?thesis
    using setup_then_tools [OF toy_libs_hex_ok _ run] run by (auto simp: demo_hex_ids)
qed

end
