(* ===== verification/RlnProof.thy ===== *)
theory RlnProof
  imports Binaries
begin

text \<open>
  The proof demo, \<open>src/bin/run_rln_proof.rs\<close>: a member is registered, its inclusion proof is read off the
  chain, and an RLN proof over it is made and verified. zerokit's hash to the field, its prover and its
  verifier are parameters (\<open>rln_lib\<close>); the circuit is that of \<open>src/proof_circuit.rs\<close>'s \<open>engine\<close>.
\<close>

section \<open>The prover's interface\<close>

record 'f rln_witness =
  rw_identity_secret :: 'f
  rw_user_message_limit :: 'f
  rw_path_elements :: "'f list"
  rw_path_indices :: "u8 list"
  rw_x :: 'f
  rw_external_nullifier :: 'f
  rw_message_id :: 'f

text \<open>
  \<^item> \<open>hash_to_field_le\<close>: the hash of bytes into the field;
  \<^item> \<open>witness_ok\<close>: whether \<open>RLNWitnessInput\<close>'s \<open>build\<close> accepts the fields;
  \<^item> \<open>generate_proof\<close>: the proof and its public values, \<open>verify_with_roots\<close>: \<open>None\<close> for an error;
  \<^item> \<open>value_nullifier\<close>, \<open>value_root\<close>: fields of the public values.
\<close>

record ('f, 'p, 'v) rln_lib =
  hash_to_field_le :: "bytes \<Rightarrow> 'f"
  witness_ok :: "'f rln_witness \<Rightarrow> bool"
  generate_proof :: "'f rln_witness \<Rightarrow> ('p \<times> 'v) option"
  verify_with_roots :: "'p \<Rightarrow> 'v \<Rightarrow> 'f \<Rightarrow> 'f list \<Rightarrow> bool option"
  value_nullifier :: "'v \<Rightarrow> 'f option"
  value_root :: "'v \<Rightarrow> 'f"

section \<open>The demo\<close>

definition MESSAGE_ID :: u64 where "MESSAGE_ID = 0"
definition MESSAGE :: string where "MESSAGE = ''Hello, RLN!''"
definition EPOCH :: string where "EPOCH = ''1231028105''"
definition RLN_IDENTIFIER :: string where "RLN_IDENTIFIER = ''rln/logos-rln-relay/v2.0.0''"

definition external_nullifier :: "'f host_field \<Rightarrow> ('f, 'p, 'v) rln_lib \<Rightarrow> 'f" where
  "external_nullifier F Z =
     fr_hash_pair F (hash_to_field_le Z (ascii EPOCH)) (hash_to_field_le Z (ascii RLN_IDENTIFIER))"

definition demo_witness :: "'f host_field \<Rightarrow> ('f, 'p, 'v) rln_lib \<Rightarrow> 'f \<Rightarrow> 'f list \<times> u8 list \<Rightarrow> 'f rln_witness" where
  "demo_witness F Z secret = (\<lambda>(es, js).
     \<lparr>rw_identity_secret = secret, rw_user_message_limit = fr_from F USER_MESSAGE_LIMIT,
      rw_path_elements = es, rw_path_indices = js, rw_x = hash_to_field_le Z (ascii MESSAGE),
      rw_external_nullifier = external_nullifier F Z, rw_message_id = fr_from F MESSAGE_ID\<rparr>)"

text \<open>Steps 4 and 5: the proof made and verified against the one root; its nullifier and whether it holds.\<close>

definition prove_and_verify ::
  "'f host_field \<Rightarrow> ('f, 'p, 'v) rln_lib \<Rightarrow> 'f \<Rightarrow> 'f list \<times> u8 list \<Rightarrow> 'f \<Rightarrow> ((bytes \<times> bytes) \<times> bool) result" where
  "prove_and_verify F Z secret path root =
     (let witness = demo_witness F Z secret path in
      rbind (check (witness_ok Z witness) (Panic ''Failed to create RLN witness'')) (\<lambda>_.
      rbind (expect_some ''Failed to generate RLN proof'' (generate_proof Z witness)) (\<lambda>(pf, vals).
      rbind (rbind (expect_some ''single-mode proof'' (value_nullifier Z vals)) (fr_to_bytes_le F)) (\<lambda>nullifier.
      rbind (fr_to_bytes_le F (value_root Z vals)) (\<lambda>proof_root.
      rbind (expect_some ''Failed to verify proof''
        (verify_with_roots Z pf vals (hash_to_field_le Z (ascii MESSAGE)) [root])) (\<lambda>is_valid.
      Inr ((nullifier, proof_root), is_valid)))))))"

definition summary_lines :: "'j host_libs \<Rightarrow> nat \<Rightarrow> bytes \<Rightarrow> bool \<Rightarrow> line list" where
  "summary_lines H leaf_index root is_valid =
     [Out (if is_valid then ''  Proof verified successfully!'' else ''  Proof verification FAILED!''),
      Out ([NEWLINE] @ ''=== Summary ===''),
      Out (''Identity inserted at index: '' @ decimal leaf_index),
      Out (''On-chain root: '' @ hex_encode H root),
      Out (''Proof valid: '' @ (if is_valid then ''true'' else ''false''))]"

definition proof_lines :: "'j host_libs \<Rightarrow> bytes \<times> bytes \<Rightarrow> line list" where
  "proof_lines H = (\<lambda>(nullifier, proof_root).
     [Out ''  Proof generated successfully!'', Out (''  Nullifier: '' @ hex_encode H nullifier),
      Out (''  Root in proof: '' @ hex_encode H proof_root),
      Out ([NEWLINE] @ ''Step 5: Verifying RLN proof...'')])"

text \<open>Steps 3 to 5, once the member is at \<open>leaf_index\<close>.\<close>

definition prove_membership ::
  "external \<Rightarrow> ('f, 'j) rln_host \<Rightarrow> ('f, 'p, 'v) rln_lib \<Rightarrow> program_ids \<Rightarrow> bytes \<Rightarrow> 'f rln_identity \<Rightarrow> nat \<Rightarrow> world \<Rightarrow> unit run" where
  "prove_membership E D Z programs tree_id identity leaf_index w =
     run_bind (say (Out ([NEWLINE] @ ''Step 3: Fetching merkle proof...''))) (\<lambda>_.
     run_bind (quiet (get_merkle_proof E (w_chain w) programs tree_id leaf_index)) (\<lambda>p.
     run_bind (quiet (proof_to_circuit (rh_field D) p)) (\<lambda>(path, root).
     run_bind (quiet (check (leaf_bytes identity = mp_leaf p) (Panic ''Leaf mismatch''))) (\<lambda>_.
     run_bind (say (Out ([NEWLINE] @ ''Step 4: Generating RLN proof...''))) (\<lambda>_.
     run_bind (quiet (prove_and_verify (rh_field D) Z (identity_secret identity) path root)) (\<lambda>(printed, is_valid).
     run_bind (quiet (fr_to_bytes_le (rh_field D) root)) (\<lambda>root_bytes.
     (proof_lines (rh_libs D) printed @ summary_lines (rh_libs D) leaf_index root_bytes is_valid,
      check is_valid (Panic ''RLN proof verification failed!'')))))))))"

definition run_rln_proof ::
  "external \<Rightarrow> ('f, 'j) rln_host \<Rightarrow> ('f, 'p, 'v) rln_lib \<Rightarrow> files \<Rightarrow> nat \<times> world \<Rightarrow> unit run" where
  "run_rln_proof E D Z files = (\<lambda>(next, w).
     run_bind (quiet (tree_id_from_env (rh_libs D) (w_env w))) (\<lambda>tree_id.
     run_bind (quiet (program_ids_from (rh_libs D) (w_env w) files tree_id)) (\<lambda>programs.
     run_bind (say (Out (''=== RLN Proof Demo ==='' @ [NEWLINE]))) (\<lambda>_.
     run_bind (quiet (resolve_payer (rh_libs D) (w_env w))) (\<lambda>payer.
     run_bind (say (Out ''Step 1: Creating identity...'')) (\<lambda>_.
     run_bind (quiet (new_identity D next)) (\<lambda>(identity, next1).
     run_bind (say (Out (''  Identity commitment: '' @ hex_encode (rh_libs D) (id_commitment_bytes identity)))) (\<lambda>_.
     run_bind (say (Out ([NEWLINE] @ ''Step 2: Registering...''))) (\<lambda>_.
     run_bind (quiet (registered E D programs tree_id (id_commitment_bytes identity) payer USER_MESSAGE_LIMIT w)) (\<lambda>(found, w1).
     run_bind (quiet (expect_some ''Timeout waiting for leaf to appear on-chain'' found)) (\<lambda>leaf_index.
     run_bind (say (Out (''  Registered at index: '' @ decimal leaf_index))) (\<lambda>_.
     prove_membership E D Z programs tree_id identity leaf_index w1))))))))))))"

section \<open>A proof for a registered member verifies\<close>

text \<open>
  Completeness of the prover, zerokit's documented behaviour: a witness of the circuit's depth, with path
  indices that are bits, whose path leads from the rate commitment of its secret to a root, and with a message
  id below a limit of the 16 bits the circuit compares them in, is accepted, proved, and verified against that
  root. \<open>commitment\<close> is the one-input Poseidon hash.
\<close>

definition LIMIT_BIT_SIZE :: nat where "LIMIT_BIT_SIZE = 16"

definition rln_complete :: "'f host_field \<Rightarrow> ('f \<Rightarrow> 'f) \<Rightarrow> ('f, 'p, 'v) rln_lib \<Rightarrow> bool" where
  "rln_complete F commitment Z \<longleftrightarrow>
     (\<forall>secret limit message_id es js x nullifier root.
        length es = CIRCUIT_DEPTH \<longrightarrow> length js = CIRCUIT_DEPTH \<longrightarrow> set js \<subseteq> {0, 1} \<longrightarrow>
        message_id < limit \<longrightarrow> unat limit < 2 ^ LIMIT_BIT_SIZE \<longrightarrow>
        fold_path (fr_hash_pair F) (fr_hash_pair F (commitment secret) (fr_from F limit)) es js = root \<longrightarrow>
        (let w = \<lparr>rw_identity_secret = secret, rw_user_message_limit = fr_from F limit, rw_path_elements = es,
               rw_path_indices = js, rw_x = x, rw_external_nullifier = nullifier, rw_message_id = fr_from F message_id\<rparr>
         in witness_ok Z w \<and>
            (\<exists>pf vals n. generate_proof Z w = Some (pf, vals) \<and> value_nullifier Z vals = Some n \<and>
               length (fr_serialize F n) = 32 \<and> length (fr_serialize F (value_root Z vals)) = 32 \<and>
               verify_with_roots Z pf vals x [root] = Some True)))"

lemma prove_and_verify_holds:
  assumes "rln_complete F commitment Z" and "length es = CIRCUIT_DEPTH" and "length js = CIRCUIT_DEPTH"
    and "set js \<subseteq> {0, 1}" and "fold_path (fr_hash_pair F) (fr_hash_pair F (commitment secret) (fr_from F USER_MESSAGE_LIMIT)) es js = root"
  obtains printed where "prove_and_verify F Z secret (es, js) root = Inr (printed, True)"
proof -
  have lt: "MESSAGE_ID < USER_MESSAGE_LIMIT" "unat USER_MESSAGE_LIMIT < 2 ^ LIMIT_BIT_SIZE"
    by (simp_all add: MESSAGE_ID_def USER_MESSAGE_LIMIT_def LIMIT_BIT_SIZE_def)
  note c = assms(1) [unfolded rln_complete_def Let_def, rule_format, OF assms(2-4) lt assms(5),
      of "hash_to_field_le Z (ascii MESSAGE)" "external_nullifier F Z"]
  then obtain pf vals n where "witness_ok Z (demo_witness F Z secret (es, js))"
    and "generate_proof Z (demo_witness F Z secret (es, js)) = Some (pf, vals)"
    and "value_nullifier Z vals = Some n" "length (fr_serialize F n) = 32" "length (fr_serialize F (value_root Z vals)) = 32"
    "verify_with_roots Z pf vals (hash_to_field_le Z (ascii MESSAGE)) [root] = Some True"
    by (auto simp: demo_witness_def)
  then show ?thesis
    using that by (simp add: prove_and_verify_def Let_def expect_some_def fr_to_bytes_le_def)
qed

text \<open>Hashes serialize canonically.\<close>

definition hash_canonical :: "'f host_field \<Rightarrow> bool" where
  "hash_canonical F \<longleftrightarrow> (\<forall>x y. fr_deserialize F (fr_serialize F (fr_hash_pair F x y)) = Some (fr_hash_pair F x y))"

lemma fold_path_hash:
  "length es = length js \<Longrightarrow> es \<noteq> [] \<Longrightarrow> \<exists>a b. fold_path h x es js = h a b"
proof (induction es arbitrary: x js)
  case Nil
  then show ?case by simp
next
  case (Cons e es)
  then obtain j js' where js: "js = j # js'" "length es = length js'" by (cases js) auto
  show ?case
  proof (cases "es = []")
    case True
    then show ?thesis using js by auto
  next
    case False
    then show ?thesis using Cons.IH [OF js(2)] by (simp add: js(1))
  qed
qed

text \<open>On a consistent tree that holds the identity's leaf at the index, the rest of the demo ends well.\<close>

lemma prove_membership_succeeds:
  assumes E: "poseidon_ok E" and F: "same_poseidon E (rh_field D)" and Z: "rln_complete (rh_field D) commitment Z"
    and canonical: "hash_canonical (rh_field D)"
    and ok: "tree_ok E d" and fetch: "fetch_tree_shard E (w_chain w) programs tree_id = Inr d"
    and i: "i < 2 ^ TREE_DEPTH" and leaf: "tree_leaf d i = leaf_bytes identity"
    and rate: "rate_commitment_from_fr (rh_field D) (commitment (identity_secret identity)) USER_MESSAGE_LIMIT = Inr (leaf_bytes identity)"
  obtains ls where "prove_membership E D Z programs tree_id identity i w = (ls @ [Out ''Proof valid: true''], Inr ())"
proof -
  let ?F = "rh_field D"
  obtain p x es js root where p: "merkle_proof_of d i = Inr p" "proof_to_circuit ?F p = Inr ((es, js), root)"
    and x: "fr_deserialize ?F (tree_leaf d i) = Some x" and len: "length es = CIRCUIT_DEPTH" "length js = CIRCUIT_DEPTH"
    and fold: "fold_path (fr_hash_pair ?F) x es js = root"
    by (rule circuit_proof_folds [OF E F ok i])
  have "leaf_bytes identity = fr_serialize ?F (fr_hash_pair ?F (commitment (identity_secret identity)) (fr_from ?F USER_MESSAGE_LIMIT))"
    using rate by (auto simp: rate_commitment_from_fr_def fr_to_bytes_le_def result_simps)
  then have "x = fr_hash_pair ?F (commitment (identity_secret identity)) (fr_from ?F USER_MESSAGE_LIMIT)"
    using x leaf canonical by (simp add: hash_canonical_def)
  then obtain printed where "prove_and_verify ?F Z (identity_secret identity) (es, js) root = Inr (printed, True)"
    using prove_and_verify_holds [OF Z len circuit_path_bits [OF p]] fold by blast
  moreover have "mp_leaf p = leaf_bytes identity"
    using merkle_proof_folds [OF ok i] p(1) leaf by (metis Inr_inject)
  moreover have "es \<noteq> []" using len(1) by (auto simp: CIRCUIT_DEPTH_def)
  then obtain a b where "root = fr_hash_pair ?F a b" using fold_path_hash [of es js] len fold by metis
  then have "length (fr_serialize ?F root) = 32"
    using F canonical by (metis hash_canonical_def option.distinct(1) same_poseidon_def)
  ultimately show ?thesis
    using that p fetch by (simp add: prove_membership_def get_merkle_proof_def fr_to_bytes_le_def summary_lines_def)
qed

end
