(* ===== verification/RegistrationRuns.thy ===== *)
theory RegistrationRuns
  imports HostRuns EndToEnd RlnProof
begin

text \<open>
  The properties of the registration binaries: what a confirmed registration means on a chain others use
  too, bulk registration, and the proof demo from a new identity to the verified proof.
\<close>

section \<open>A confirmed registration\<close>

text \<open>
  What the wait after a send may see, on a chain anyone may be using: each tree it reads is the tree of
  some state that a run of the registry reaches.
\<close>

definition tree_of_some_state :: "external \<Rightarrow> account_id \<Rightarrow> account_id \<Rightarrow> bytes set \<Rightarrow> bytes set \<Rightarrow> bytes \<Rightarrow> bytes \<Rightarrow> bool" where
  "tree_of_some_state E R M T C t d \<longleftrightarrow>
     (\<exists>s cfg. reachable E R M T C s \<and> has_config E R s t cfg \<and> cs_merkle_program_id cfg = M \<and> d = shard s (tree_sel E R M t))"

definition honest_submit :: "external \<Rightarrow> account_id \<Rightarrow> account_id \<Rightarrow> bytes set \<Rightarrow> bytes set \<Rightarrow> bytes \<Rightarrow> submit \<Rightarrow> bool" where
  "honest_submit E R M T C t submit \<longleftrightarrow>
     (\<forall>tx w observed w1. submit tx w = Some (observed, w1) \<longrightarrow>
        (\<forall>(first, included, again) \<in> set observed.
           tree_of_some_state E R M T C t first \<and> tree_of_some_state E R M T C t again))"

text \<open>No other commitment and rate limit has this leaf: the collision resistance of Poseidon.\<close>

definition leaf_unique :: "external \<Rightarrow> bytes set \<Rightarrow> bytes \<Rightarrow> u64 \<Rightarrow> bool" where
  "leaf_unique E C c l \<longleftrightarrow>
     membership_leaf E c l \<noteq> ZERO \<and> (\<forall>c' \<in> C. \<forall>l'. membership_leaf E c' l' = membership_leaf E c l \<longrightarrow> c' = c \<and> l' = l)"

lemma await_registration_saw:
  "await_registration observed leaf already_at = Inr (Some i) \<Longrightarrow>
     \<exists>first included again. (first, included, again) \<in> set observed \<and>
       (landed leaf already_at first = Inr (Some i) \<or> landed leaf already_at again = Inr (Some i))"
proof (induction observed leaf already_at rule: await_registration.induct)
  case (1 leaf already_at)
  then show ?case by simp
next
  case (2 shard included again later leaf already_at)
  from 2(2) obtain found where f: "landed leaf already_at shard = Inr found"
    and r: "(case found of Some index \<Rightarrow> Inr (Some index)
      | None \<Rightarrow> if included then landed leaf already_at again else await_registration later leaf already_at) = Inr (Some i)"
    by (auto simp: result_simps)
  consider "found = Some i" | "landed leaf already_at again = Inr (Some i)"
    | "found = None" "\<not> included" "await_registration later leaf already_at = Inr (Some i)"
    using r by (auto split: option.splits if_splits)
  then show ?case
  proof cases
    case 3
    then show ?thesis using 2(1) [OF f] by (meson list.set_intros(2))
  qed (rule exI [of _ shard], rule exI [of _ included], rule exI [of _ again], use f in auto)+
qed

lemma landed_newer:
  "landed leaf already_at d = Inr (Some i) \<Longrightarrow>
     find_leaf_index d leaf = Inr (Some i) \<and> (\<forall>old. already_at = Some old \<longrightarrow> old < i)"
  by (auto simp: landed_def result_simps split: option.splits if_splits)

lemma find_leaf_sound:
  assumes "tree_ok E d" and "find_leaf_index d leaf = Inr (Some i)"
  shows "i < unat (hdr_next d)" and "tree_leaf d i = leaf"
proof -
  let ?P = "\<lambda>i. i < unat (hdr_next d) \<and> tree_leaf d i = leaf"
  have "\<exists>i. ?P i" and i: "i = (GREATEST i. ?P i)"
    using assms by (auto simp: find_leaf_index_ok split: if_splits)
  then have "?P (GREATEST i. ?P i)" by (elim exE) (rule GreatestI_nat [of ?P _ "unat (hdr_next d)"]; simp)
  then show "i < unat (hdr_next d)" "tree_leaf d i = leaf" unfolding i by blast+
qed

text \<open>A leaf that is in the tree of a reachable state is the leaf of one of its members.\<close>

lemma leaf_in_tree_is_member:
  assumes "separate E R M" and "poseidon_ok E" and "no_collision E R T C" and "t \<in> T"
    and s: "reachable E R M T C s" "has_config E R s t cfg" "cs_merkle_program_id cfg = M"
    and found: "find_leaf_index (shard s (tree_sel E R M t)) (membership_leaf E c l) = Inr (Some i)"
    and unique: "leaf_unique E C c l"
  obtains m where "has_member E R s t c m" and "ms_id_commitment m = c" and "ms_rate_limit m = l"
    and "tree_leaf (shard s (tree_sel E R M t)) i = membership_leaf E c l"
proof -
  let ?d = "shard s (tree_sel E R M t)" and ?leaf = "membership_leaf E c l"
  note ok = registry_okE [OF reachable_ok [OF assms(1-4) s(1)] s(2,3)]
  have ne: "?d \<noteq> []" using found by (auto simp: find_leaf_index_def ParsedTreeMain_from_bytes_def check_tree_shard_def result_simps offset_tree_data)
  have d: "tree_ok E ?d" and lm: "leaves_match E R C s t (tv_leaves (view ?d))"
    using ok(3) ne by (auto simp: tree_matches_def Let_def)
  have at: "i < unat (hdr_next ?d)" "tree_leaf ?d i = ?leaf" by (rule find_leaf_sound [OF d found])+
  have "i < 2 ^ TREE_DEPTH" using at(1) d by (simp add: tree_ok_def)
  then have "?leaf \<in> set (tv_leaves (view ?d))" using at(2) by (force simp: view_def)
  then have "?leaf \<in># image_mset (\<lambda>c. membership_leaf E c (rate_of E R s t c)) (mset_set (live E R C s t)) +
      replicate_mset (2 ^ TREE_DEPTH - card (live E R C s t)) ZERO"
    using lm unfolding leaves_match_def by (metis set_mset_mset)
  moreover have fin: "finite (live E R C s t)" using ok(2) by (simp add: counts_match_def)
  ultimately obtain c' where c': "c' \<in> live E R C s t" "membership_leaf E c' (rate_of E R s t c') = ?leaf"
    using unique by (auto simp: leaf_unique_def split: if_splits)
  have "c' \<in> C" using c'(1) by (simp add: live_def)
  then have eq: "c' = c" "rate_of E R s t c' = l" using unique c'(2) by (auto simp: leaf_unique_def)
  obtain m where m: "has_member E R s t c m" "ms_id_commitment m = c"
    using ok(2) c'(1) eq(1) by (auto simp: counts_match_def member_good_def)
  have "rate_of E R s t c = ms_rate_limit m" using m(1) by (simp add: rate_of_def member_of_has)
  then show ?thesis using that m eq at(2) by simp
qed

text \<open>
  C23. A confirmed registration registered. When \<open>register_identity\<close> returns an index, whatever other
  transactions ran in between, there was a state of the chain in which the commitment was a member of the
  tree with the requested rate limit and its leaf was at that index, one no earlier leaf of it had.
\<close>

theorem registration_confirmed:
  assumes "separate E R M" and "poseidon_ok E" and "same_poseidon E F" and "no_collision E R T C" and "t \<in> T"
    and "honest_submit E R M T C t submit" and "leaf_unique E C c l"
    and "register_identity E F H submit in_wallet \<lparr>pi_registration = R, pi_merkle = M\<rparr> t c payer l w = Inr (Some i, w1)"
  shows "\<exists>s m. reachable E R M T C s \<and> has_member E R s t c m \<and> ms_id_commitment m = c \<and> ms_rate_limit m = l \<and>
    tree_leaf (shard s (tree_sel E R M t)) i = membership_leaf E c l \<and>
    (\<forall>old. find_leaf_index (w_chain w (tree_sel E R M t)) (membership_leaf E c l) = Inr (Some old) \<longrightarrow> old < i)"
proof -
  let ?P = "\<lparr>pi_registration = R, pi_merkle = M\<rparr>"
  from assms(8) obtain rq leaf already_at tx observed where
    rq: "register_request E F w ?P t c payer l = Inr (rq, leaf, already_at)" and sent: "submit tx w = Some (observed, w1)"
    and found: "await_registration (take (wait_account_attempts (w_env w)) observed) leaf already_at = Inr (Some i)"
    by (auto simp: register_identity_def result_simps split: option.splits)
  have l: "registration_leaf F c l = Inr leaf" and before: "find_leaf_index (w_chain w (tree_sel E R M t)) leaf = Inr already_at"
    using rq by (auto simp: register_request_def fetch_tree_shard_def result_simps)
  then obtain x where "expect_fr F ''id_commitment is not a valid BN254 field element'' c = Inr x"
    by (auto simp: registration_leaf_def result_simps)
  then have "bytes32 c" "felt_valid E c" using expect_fr_valid [OF assms(3)] by auto
  then have leaf: "leaf = membership_leaf E c l"
    using registration_leaf_eq [OF assms(3)] assms(2) l by (simp add: poseidon_ok_def)
  obtain first included again d where o: "(first, included, again) \<in> set observed" and d: "d \<in> {first, again}"
    and land: "landed leaf already_at d = Inr (Some i)"
    using await_registration_saw [OF found] by (metis in_set_takeD insert_iff)
  have "tree_of_some_state E R M T C t d"
    using assms(6) [unfolded honest_submit_def, rule_format, OF sent o] d by auto
  then obtain s cfg where s: "reachable E R M T C s" "has_config E R s t cfg" "cs_merkle_program_id cfg = M"
    and dk: "d = shard s (tree_sel E R M t)" by (auto simp: tree_of_some_state_def)
  have f: "find_leaf_index (shard s (tree_sel E R M t)) (membership_leaf E c l) = Inr (Some i)"
    using landed_newer [OF land] by (simp add: dk leaf)
  obtain m where "has_member E R s t c m" "ms_id_commitment m = c" "ms_rate_limit m = l"
    "tree_leaf (shard s (tree_sel E R M t)) i = membership_leaf E c l"
    by (rule leaf_in_tree_is_member [OF assms(1,2,4,5) s f assms(7)])
  then show ?thesis using s(1) landed_newer [OF land] before by (auto simp: leaf)
qed

section \<open>A run of the registration\<close>

text \<open>The demo registry with the payer and the tree named in the environment.\<close>

definition run_world :: "shards \<Rightarrow> world" where
  "run_world s = (demo_world s)\<lparr>w_env := demo_hex_env\<rparr>"

definition demo_submit :: "bytes \<Rightarrow> world \<Rightarrow> submit" where
  "demo_submit d w1 = (\<lambda>tx w. Some ([(d, True, d)], w1))"

lemma run_world_sel [simp]:
  "w_chain (run_world s) = shard s" "w_env (run_world s) = demo_hex_env" "w_quote (run_world s) = None"
  "w_balances (run_world s) = (\<lambda>_. 10 ^ 12)"
  by (simp_all add: run_world_def demo_world_def)

lemma demo_hex_env_limits:
  "declared_gas_limit demo_hex_env = Inr MAX_GAS_EXEC" "wait_account_attempts demo_hex_env = 360"
  by (simp_all add: declared_gas_limit_def wait_account_attempts_def demo_hex_env_def)

lemma run_afford:
  "l \<in> {100, 200} \<Longrightarrow> assert_can_afford demo_hex_env None (\<lambda>_. 10 ^ 12) a (sat_mul 10 (ucast (l :: u64))) = Inr DECLARED_MAX_FEE"
  by (auto simp: assert_can_afford_def quoted_fee_reserve_def demo_hex_env_limits fee_reserve_def sat_mul_def
      sat_add_def DECLARED_MAX_FEE_def ASSUMED_DATA_BYTES_def)

lemma run_leaf: "registration_leaf toy_field demo_C l = Inr (membership_leaf toy demo_C l)"
  using registration_leaf_eq [OF toy_same_poseidon toy_canonical] by simp

lemma run_request:
  assumes "l \<in> {100, 200}"
  obtains rq where "register_request toy toy_field (run_world demo_ready) demo_programs demo_T demo_C demo_payer l =
    Inr (rq, membership_leaf toy demo_C l, None)"
proof -
  have "read_config toy (shard demo_ready) demo_programs demo_T = Inr demo_cfg"
    using demo_has_config(2) by (simp add: demo_programs_def read_config_iff)
  moreover have "check_merkle_claim demo_cfg demo_programs = Inr ()"
    by (simp add: check_merkle_claim_def demo_cfg_def demo_programs_def)
  moreover have "read_clock_ms toy (shard demo_ready) = Inr demo_now"
    using demo_clock_ok(2) demo_shards(5) by (simp add: read_clock_ms_def clock_selector_def clock_sel_def demo_now_def Let_def)
  moreover have "find_leaf_index fresh_tree (membership_leaf toy demo_C l) = Inr None"
    using find_leaf_index_ok [OF fresh_tree_ok [OF toy_poseidon]] fresh_tree_view(1) [OF toy_poseidon] by simp
  moreover have "cs_price_per_unit demo_cfg = 10" by (simp add: demo_cfg_def)
  ultimately show ?thesis
    using that run_afford [OF assms]
    by (auto simp: register_request_def run_leaf fetch_tree_shard_def demo_programs_def)
qed

lemma run_inserted:
  obtains d where "insert_leaf toy fresh_tree (membership_leaf toy demo_C l) = Inr d" and "tree_ok toy d"
    and "find_leaf_index d (membership_leaf toy demo_C l) = Inr (Some 0)" and "tree_leaf d 0 = membership_leaf toy demo_C l"
proof -
  note fresh = fresh_tree_ok [OF toy_poseidon] fresh_tree_view(1) [OF toy_poseidon]
  have node: "node_ok toy (membership_leaf toy demo_C l)"
    using poseidon_compress2 [OF toy_poseidon] by (simp add: membership_leaf_def)
  then have b: "bytes32 (membership_leaf toy demo_C l)" by (simp add: node_ok_def)
  obtain d where d: "insert_leaf toy fresh_tree (membership_leaf toy demo_C l) = Inr d"
    by (rule insert_succeeds [OF toy_poseidon fresh(1) node]) (simp add: fresh(2))
  have ok: "tree_ok toy d" using insert_leaf_view(1) [OF toy_poseidon fresh(1) b d] .
  have at: "find_leaf_index d (membership_leaf toy demo_C l) = Inr (Some 0)"
    using find_inserted [OF toy_poseidon fresh(1) b d] fresh(2) by simp
  show ?thesis using that d ok at find_leaf_sound(2) [OF ok at] by blast
qed

lemma demo_register_run:
  assumes "l \<in> {100, 200}" and "find_leaf_index d (membership_leaf toy demo_C l) = Inr (Some 0)"
    and "resolve_payer H demo_hex_env = Inr demo_payer"
  shows "register_identity toy toy_field H (demo_submit d w1) (\<lambda>_. True) demo_programs demo_T demo_C demo_payer l
    (run_world demo_ready) = Inr (Some 0, w1)"
proof -
  obtain rq where rq: "register_request toy toy_field (run_world demo_ready) demo_programs demo_T demo_C demo_payer l =
    Inr (rq, membership_leaf toy demo_C l, None)" by (rule run_request [OF assms(1)])
  have "fee_payer H demo_hex_env = Inr (Some demo_payer)"
    using assms(3) by (auto simp: resolve_payer_def result_simps split: option.splits)
  then show ?thesis
    using assms(2) by (simp add: register_identity_def rq send_metered_tx_def demo_hex_env_limits demo_submit_def landed_def)
qed

text \<open>The stand-in hash tells rate limits apart.\<close>

lemma triple_inject: "3 * (x :: u8) = 3 * y \<Longrightarrow> x = y"
proof -
  assume "3 * x = 3 * y"
  then have "171 * (3 * x) = 171 * (3 * y)" by (rule arg_cong)
  moreover have "171 * (3 * z) = z" for z :: u8
  proof -
    have "(171 * 3 :: u8) = 1" by code_simp
    then show ?thesis by (metis mult.assoc mult_1)
  qed
  ultimately show "x = y" by metis
qed

lemma demo_leaf_byte:
  "i < 31 \<Longrightarrow> membership_leaf toy demo_C l ! i = demo_C ! i + 3 * rate_felt l ! i + 7"
  "membership_leaf toy demo_C l ! 31 = 1"
proof -
  have ne: "demo_C \<noteq> rate_felt l"
  proof
    assume "demo_C = rate_felt l"
    then have "demo_C ! 31 = rate_felt l ! 31" by simp
    then show False by (simp add: demo_C_def rate_felt_def nth_append)
  qed
  show "membership_leaf toy demo_C l ! 31 = 1"
    using ne by (simp add: membership_leaf_def toy_def toy_compress2_def)
  assume "i < 31"
  then show "membership_leaf toy demo_C l ! i = demo_C ! i + 3 * rate_felt l ! i + 7"
    using ne by (simp add: membership_leaf_def toy_def toy_compress2_def toy_pad_def nth_append)
qed

lemma demo_leaf_unique: "leaf_unique toy {demo_C} demo_C l"
proof -
  have "membership_leaf toy demo_C l \<noteq> ZERO"
    using demo_leaf_byte(2) [of l] by (auto simp: ZERO_def)
  moreover have "l' = l" if eq: "membership_leaf toy demo_C l' = membership_leaf toy demo_C l" for l'
  proof -
    have "u64_le l' ! i = u64_le l ! i" if "i < 8" for i
      using demo_leaf_byte(1) [of i l] demo_leaf_byte(1) [of i l'] eq that
      by (auto simp: rate_felt_def nth_append intro: triple_inject)
    then have "u64_le l' = u64_le l" by (intro nth_equalityI) simp_all
    then show ?thesis by simp
  qed
  ultimately show ?thesis by (simp add: leaf_unique_def)
qed

theorem registration_confirmed_witness:
  "\<exists>s m. reachable toy demo_R demo_M {demo_T} {demo_C} s \<and> has_member toy demo_R s demo_T demo_C m \<and> ms_rate_limit m = 200 \<and>
     tree_leaf (shard s (tree_sel toy demo_R demo_M demo_T)) 0 = demo_leaf"
proof -
  have at: "find_leaf_index demo_tree (membership_leaf toy demo_C 200) = Inr (Some 0)"
    using run_inserted [of 200] demo_insert by (metis Inr_inject demo_leaf_def)
  note run = demo_register_run [OF _ at demo_env_ids(1) [of demo_registered], of "run_world demo_registered"]
  have "tree_of_some_state toy demo_R demo_M {demo_T} {demo_C} demo_T demo_tree"
    unfolding tree_of_some_state_def using demo_reachable(2) demo_has_config(3)
    by (intro exI [of _ demo_registered] exI [of _ "counted demo_cfg 200"]) simp
  then have "honest_submit toy demo_R demo_M {demo_T} {demo_C} demo_T (demo_submit demo_tree (run_world demo_registered))"
    by (simp add: honest_submit_def demo_submit_def)
  from registration_confirmed [OF demo_separate toy_poseidon toy_same_poseidon demo_no_collision _ this demo_leaf_unique
      run [unfolded demo_programs_def]]
  show ?thesis by (auto simp: demo_leaf_def)
qed

section \<open>The proof demo\<close>

lemma new_identity_leaf:
  assumes "new_identity D next = Inr (identity, next1)" and "\<And>seed. snd (rh_generate D seed) = commitment (fst (rh_generate D seed))"
  shows "rate_commitment_from_fr (rh_field D) (commitment (identity_secret identity)) USER_MESSAGE_LIMIT = Inr (leaf_bytes identity)"
proof -
  from assms(1) obtain seed secret c where "rh_generate D seed = (secret, c)" "identity_secret identity = secret"
    "rate_commitment_from_fr (rh_field D) c USER_MESSAGE_LIMIT = Inr (leaf_bytes identity)"
    by (auto simp: new_identity_def create_identity_def result_simps split: option.splits prod.splits)
  then show ?thesis using assms(2) [of seed] by simp
qed

text \<open>
  C32. The proof demo ends in a verified proof. Once the registration of the new identity is confirmed at an
  index and the tree the chain then holds is consistent and still has the leaf there, the inclusion proof
  is read, lifted to the circuit's depth, proved and verified against the one root the chain gives, and the
  run prints that the proof is valid and exits normally.
\<close>

theorem proof_demo_succeeds:
  assumes "poseidon_ok E" and "same_poseidon E (rh_field D)" and "hash_canonical (rh_field D)"
    and "rln_complete (rh_field D) commitment Z"
    and "\<And>seed. snd (rh_generate D seed) = commitment (fst (rh_generate D seed))"
    and "tree_id_from_env (rh_libs D) (w_env w) = Inr t" and "program_ids_from (rh_libs D) (w_env w) files t = Inr programs"
    and "resolve_payer (rh_libs D) (w_env w) = Inr payer" and "new_identity D next = Inr (identity, next1)"
    and "registered E D programs t (id_commitment_bytes identity) payer USER_MESSAGE_LIMIT w = Inr (Some i, w1)"
    and "fetch_tree_shard E (w_chain w1) programs t = Inr d" and "tree_ok E d"
    and "find_leaf_index d (leaf_bytes identity) = Inr (Some i)"
  shows "\<exists>ls. run_rln_proof E D Z files (next, w) = (ls @ [Out ''Proof valid: true''], Inr ())"
proof -
  note at = find_leaf_sound [OF assms(12,13)]
  have i: "i < 2 ^ TREE_DEPTH" using at(1) assms(12) by (simp add: tree_ok_def)
  obtain ls where "prove_membership E D Z programs t identity i w1 = (ls @ [Out ''Proof valid: true''], Inr ())"
    by (rule prove_membership_succeeds [OF assms(1,2,4,3,12,11) i at(2) new_identity_leaf [OF assms(9,5)]])
  then show ?thesis using assms(6-10) by (simp add: run_rln_proof_def expect_some_def)
qed

text \<open>A prover whose proof is its public root, and a host on the demo registry.\<close>

definition toy_rln :: "(bytes, unit, bytes) rln_lib" where
  "toy_rln = \<lparr>hash_to_field_le = (\<lambda>_. ZERO), witness_ok = (\<lambda>_. True),
     generate_proof = (\<lambda>w. Some ((), fold_path toy_compress2
       (toy_compress2 (compress1 toy (rw_identity_secret w)) (rw_user_message_limit w)) (rw_path_elements w) (rw_path_indices w))),
     verify_with_roots = (\<lambda>_ root _ roots. Some (root \<in> set roots)),
     value_nullifier = (\<lambda>_. Some ZERO), value_root = (\<lambda>root. root)\<rparr>"

lemma toy_hash_ok: "toy_valid (toy_compress2 a b)"
  using poseidon_compress2 [OF toy_poseidon, of a b] by (simp add: node_ok_def toy_def)

lemma toy_rln_complete: "rln_complete toy_field (compress1 toy) toy_rln"
proof -
  have "length (fold_path toy_compress2 x es js) = 32" if len: "length es = CIRCUIT_DEPTH" "length js = CIRCUIT_DEPTH" for x es js
  proof -
    have "length es = length js" "es \<noteq> []" using len by (auto simp: CIRCUIT_DEPTH_def)
    then obtain a b where "fold_path toy_compress2 x es js = toy_compress2 a b" using fold_path_hash by metis
    then show ?thesis using toy_hash_ok by (simp add: toy_valid_def)
  qed
  then show ?thesis by (simp add: rln_complete_def toy_field_def toy_rln_def Let_def)
qed

definition demo_rln_host :: "submit \<Rightarrow> (bytes, toy_json) rln_host" where
  "demo_rln_host submit = \<lparr>rh_field = toy_field, rh_libs = demo_libs, rh_generate = (\<lambda>_. (demo_secret, demo_C)),
     rh_keys = (\<lambda>_. demo_treasury), rh_signing_key = (\<lambda>_. Some []), rh_in_wallet = (\<lambda>_. True), rh_submit = submit\<rparr>"

definition demo_identity :: "bytes rln_identity" where
  "demo_identity = \<lparr>identity_secret = demo_secret, id_commitment_fr = demo_C, id_commitment_bytes = demo_C,
     leaf_bytes = membership_leaf toy demo_C 100, id_secret_hash_hex = toy_hex_encode demo_secret\<rparr>"

lemma demo_new_identity: "new_identity (demo_rln_host submit) next = Inr (demo_identity, Suc next)"
proof -
  have "rate_commitment_from_fr toy_field demo_C 100 = Inr (membership_leaf toy demo_C 100)"
    using run_leaf [of 100] demo_expect [OF demo_felt(1)] by (simp add: registration_leaf_def)
  then show ?thesis
    by (simp add: new_identity_def create_identity_def demo_rln_host_def demo_identity_def USER_MESSAGE_LIMIT_def
        fr_to_bytes_le_def toy_field_def toy_libs_hex_def toy_libs_def)
qed

definition demo_files :: files where
  "demo_files = [record_path demo_libs demo_hex_env demo_T \<mapsto> encode_record demo_libs demo_programs]"

lemma demo_program_ids: "program_ids_from demo_libs demo_hex_env demo_files demo_T = Inr demo_programs"
  using known_ids_env [where H = demo_libs and ids = demo_programs and env = demo_hex_env and r = None and m = None, OF toy_libs_hex_ok(1,2)]
  by (simp add: program_ids_from_def demo_files_def demo_programs_def demo_hex_env_def
      REGISTRATION_PROGRAM_ID_ENV_def MERKLE_PROGRAM_ID_ENV_def)

lemma demo_registered_run:
  assumes "find_leaf_index d (membership_leaf toy demo_C 100) = Inr (Some 0)"
  shows "registered toy (demo_rln_host (demo_submit d w1)) demo_programs demo_T demo_C demo_payer 100 (run_world demo_ready) = Inr (Some 0, w1)"
  using demo_register_run [OF _ assms demo_hex_ids(1), of w1] by (simp add: registered_def demo_rln_host_def)

theorem proof_demo_succeeds_witness:
  "\<exists>d ls. run_rln_proof toy (demo_rln_host (demo_submit d (run_world (demo_ready(tree_sel toy demo_R demo_M demo_T \<mapsto> d)))))
     toy_rln demo_files (0, run_world demo_ready) = (ls @ [Out ''Proof valid: true''], Inr ())"
proof -
  obtain d where d: "tree_ok toy d" "find_leaf_index d (membership_leaf toy demo_C 100) = Inr (Some 0)"
    by (rule run_inserted [of 100])
  let ?w1 = "run_world (demo_ready(tree_sel toy demo_R demo_M demo_T \<mapsto> d))"
  let ?D = "demo_rln_host (demo_submit d ?w1)"
  have D: "rh_field ?D = toy_field" "rh_libs ?D = demo_libs" "\<And>seed. snd (rh_generate ?D seed) = compress1 toy (fst (rh_generate ?D seed))"
    using demo_secret_ok by (simp_all add: demo_rln_host_def)
  have fetch: "fetch_tree_shard toy (w_chain ?w1) demo_programs demo_T = Inr d"
    by (simp add: fetch_tree_shard_def demo_programs_def)
  have canonical: "hash_canonical toy_field" using toy_hash_ok by (simp add: hash_canonical_def toy_field_def)
  have reg: "registered toy ?D demo_programs demo_T (id_commitment_bytes demo_identity) demo_payer USER_MESSAGE_LIMIT (run_world demo_ready) = Inr (Some 0, ?w1)"
    using demo_registered_run [OF d(2)] by (simp add: demo_identity_def USER_MESSAGE_LIMIT_def)
  have "find_leaf_index d (leaf_bytes demo_identity) = Inr (Some 0)" using d(2) by (simp add: demo_identity_def)
  from proof_demo_succeeds [of toy ?D "compress1 toy" toy_rln, unfolded D, OF toy_poseidon toy_same_poseidon canonical toy_rln_complete _ _ _ _
      demo_new_identity reg fetch d(1) this]
  have "\<exists>ls. run_rln_proof toy ?D toy_rln demo_files (0, run_world demo_ready) = (ls @ [Out ''Proof valid: true''], Inr ())"
    using D(3) demo_hex_ids demo_program_ids by (simp add: D)
  then show ?thesis by blast
qed

section \<open>Registering members\<close>

lemma run_each_lines:
  assumes "run_each f xs s = (ls, Inr s')"
    and "\<forall>x \<in> set xs. \<forall>s1 l s2. f x s1 = (l, Inr s2) \<longrightarrow> (\<forall>y \<in> set l. P y) \<and> m s2 = Suc (m s1)"
  shows "(\<forall>y \<in> set ls. P y) \<and> m s' = m s + length xs"
  using assms
proof (induction xs arbitrary: s ls)
  case Nil
  then show ?case by (simp add: quiet_def)
next
  case (Cons x xs)
  from Cons.prems(1) obtain l s1 ls2 where f: "f x s = (l, Inr s1)" and rest: "run_each f xs s1 = (ls2, Inr s')" and ls: "ls = l @ ls2"
    by (auto simp: run_bind_def split: prod.splits sum.splits)
  have "(\<forall>y \<in> set ls2. P y) \<and> m s' = m s1 + length xs"
    using Cons.prems(2) by (intro Cons.IH [OF rest]) simp
  moreover have "(\<forall>y \<in> set l. P y) \<and> m s1 = Suc (m s)" using Cons.prems(2) f by simp
  ultimately show ?case by (auto simp: ls)
qed

text \<open>What a secret printed for a member is good for: it is the secret of a commitment whose registration was confirmed.\<close>

definition secret_of_registered ::
  "external \<Rightarrow> ('f, 'j) rln_host \<Rightarrow> program_ids \<Rightarrow> bytes \<Rightarrow> string \<Rightarrow> bool" where
  "secret_of_registered E D programs tree_id hex \<longleftrightarrow>
     (\<exists>secret payer i w1 w2. hex_decode (rh_libs D) hex = Some secret \<and> bytes32 secret \<and> felt_valid E secret \<and>
        registered E D programs tree_id (compress1 E secret) payer USER_MESSAGE_LIMIT w1 = Inr (Some i, w2))"

lemma register_one_secret:
  assumes laws: "same_poseidon E (rh_field D)" "poseidon_canonical E" "hex_ok (rh_libs D)" "keys_hash E (rh_field D) (rh_generate D)"
    and run: "register_one E D programs tree_id config members i s = (ls, Inr s')"
  shows "(\<forall>y \<in> set ls. \<forall>h. y = Out (''IDENTITY_SECRET_HASH='' @ h) \<longrightarrow> secret_of_registered E D programs tree_id h) \<and>
    fst s' = Suc (fst s)"
proof -
  obtain next_key w where s: "s = (next_key, w)" by (cases s)
  from run obtain payer identity next1 leaf_index w1 where
    new: "new_identity D next_key = Inr (identity, next1)"
    and reg: "registered E D programs tree_id (id_commitment_bytes identity) payer USER_MESSAGE_LIMIT w = Inr (Some leaf_index, w1)"
    and ls: "ls = member_report (rh_libs D) config leaf_index (id_secret_hash_hex identity) members i" and s': "s' = (next1, w1)"
    by (auto simp: s register_one_def run_bind_def quiet_def split: sum.splits prod.splits option.splits)
  obtain secret where secret: "hex_decode (rh_libs D) (id_secret_hash_hex identity) = Some secret" "bytes32 secret" "felt_valid E secret"
    "compress1 E secret = id_commitment_bytes identity" and n: "next1 = Suc next_key"
    by (rule identity_slashable [OF laws new [unfolded new_identity_def]])
  have "secret_of_registered E D programs tree_id (id_secret_hash_hex identity)"
    unfolding secret_of_registered_def using secret reg by metis
  then show ?thesis by (auto simp: ls member_report_def s s' n)
qed

text \<open>
  C37. Every secret \<open>register_member\<close> prints is worth its membership. When a run ends well, it made as many
  new wallet accounts as members were asked for, and each \<open>IDENTITY_SECRET_HASH\<close> it printed is the
  hexadecimal of a valid secret whose commitment is one whose registration was confirmed at an index: the
  secret that slashes that membership.
\<close>

theorem members_are_slashable:
  assumes "same_poseidon E (rh_field D)" and "poseidon_canonical E" and "hex_ok (rh_libs D)" and "keys_hash E (rh_field D) (rh_generate D)"
    and "register_member E D files args (next, w) = (ls, Inr (next', w'))"
  shows "\<exists>members t programs. parse_count args = Inr members \<and> next' = next + members \<and>
    tree_id_from_env (rh_libs D) (w_env w) = Inr t \<and> program_ids_from (rh_libs D) (w_env w) files t = Inr programs \<and>
    (\<forall>h. Out (''IDENTITY_SECRET_HASH='' @ h) \<in> set ls \<longrightarrow> secret_of_registered E D programs t h)"
proof -
  from assms(5) obtain members t programs config where c: "parse_count args = Inr members"
    and t: "tree_id_from_env (rh_libs D) (w_env w) = Inr t" and p: "program_ids_from (rh_libs D) (w_env w) files t = Inr programs"
    and loop: "run_each (register_one E D programs t config members) [0..<members] (next, w) = (ls, Inr (next', w'))"
    by (auto simp: register_member_def run_bind_def quiet_def split: sum.splits prod.splits)
  have "(\<forall>y \<in> set ls. \<forall>h. y = Out (''IDENTITY_SECRET_HASH='' @ h) \<longrightarrow> secret_of_registered E D programs t h) \<and>
      fst (next', w') = fst (next, w) + length [0..<members]"
    by (rule run_each_lines [OF loop]) (intro ballI allI impI register_one_secret [OF assms(1-4)])
  then show ?thesis using c t p by auto
qed

theorem members_are_slashable_witness:
  "\<exists>d ls w1. register_member toy (demo_rln_host (demo_submit d w1)) demo_files [''register_member''] (0, run_world demo_ready) = (ls, Inr (1, w1)) \<and>
     Out (''IDENTITY_SECRET_HASH='' @ toy_hex_encode demo_secret) \<in> set ls \<and>
     secret_of_registered toy (demo_rln_host (demo_submit d w1)) demo_programs demo_T (toy_hex_encode demo_secret)"
proof -
  obtain d where d: "find_leaf_index d (membership_leaf toy demo_C 100) = Inr (Some 0)"
    by (rule run_inserted [of 100])
  let ?w1 = "run_world demo_ready" and ?D = "demo_rln_host (demo_submit d (run_world demo_ready))"
  have D: "rh_field ?D = toy_field" "rh_libs ?D = demo_libs" "rh_generate ?D = (\<lambda>_. (demo_secret, demo_C))" by (simp_all add: demo_rln_host_def)
  have "toy_valid demo_secret" "toy_valid demo_C" "compress1 toy demo_secret = demo_C" by code_simp+
  then have keys: "keys_hash toy toy_field (\<lambda>_. (demo_secret, demo_C))" by (simp add: keys_hash_def toy_field_def)
  have reg: "registered toy ?D demo_programs demo_T demo_C demo_payer 100 ?w1 = Inr (Some 0, ?w1)"
    by (rule demo_registered_run [OF d])
  have ids: "resolve_payer demo_libs demo_hex_env = Inr demo_payer" "tree_id_from_env demo_libs demo_hex_env = Inr demo_T" by (rule demo_hex_ids)+
  let ?report = "\<lambda>config. member_report demo_libs config 0 (toy_hex_encode demo_secret) 1 0"
  have one: "register_one toy ?D demo_programs demo_T config 1 0 (0, ?w1) = (?report config, Inr (1, ?w1))" for config
    using reg ids by (simp add: register_one_def D demo_new_identity) (simp add: demo_identity_def USER_MESSAGE_LIMIT_def D)
  obtain config where config: "derive_config_account toy demo_R demo_T = Inr config"
    by (simp add: derive_config_account_def derive_pda_def)
  have run: "register_member toy ?D demo_files [''register_member''] (0, ?w1) = (?report config, Inr (1, ?w1))"
    using ids demo_program_ids config one [of config]
    by (simp add: register_member_def D demo_programs_def quiet_def run_bind_def)
  have "Out (''IDENTITY_SECRET_HASH='' @ toy_hex_encode demo_secret) \<in> set (?report config)" by (simp add: member_report_def)
  moreover from members_are_slashable [of toy ?D, unfolded D, OF toy_same_poseidon toy_canonical toy_libs_hex_ok(1) keys run]
  have "Out (''IDENTITY_SECRET_HASH='' @ toy_hex_encode demo_secret) \<in> set (?report config) \<Longrightarrow>
      secret_of_registered toy ?D demo_programs demo_T (toy_hex_encode demo_secret)"
    using ids demo_program_ids by auto
  ultimately show ?thesis using run by blast
qed

section \<open>Registering a file of commitments\<close>

lemma run_each_reports:
  assumes "run_each f xs s = (ls, Inr s')" and "\<forall>x \<in> set xs. \<forall>s1 l s2. f x s1 = (l, Inr s2) \<longrightarrow> (\<exists>y. l = [y] \<and> Q x y)"
  shows "list_all2 Q xs ls"
  using assms
proof (induction xs arbitrary: s ls)
  case Nil
  then show ?case by (simp add: quiet_def)
next
  case (Cons x xs)
  from Cons.prems(1) obtain l s1 ls2 where f: "f x s = (l, Inr s1)" and rest: "run_each f xs s1 = (ls2, Inr s')" and ls: "ls = l @ ls2"
    by (auto simp: run_bind_def split: prod.splits sum.splits)
  have "list_all2 Q xs ls2" by (rule Cons.IH [OF rest]) (use Cons.prems(2) in simp)
  moreover obtain y where "l = [y]" "Q x y" using Cons.prems(2) f by (meson list.set_intros(1))
  ultimately show ?case by (simp add: ls)
qed

text \<open>The line printed for an entry: its index when the registration was confirmed, else a warning.\<close>

definition reports_entry :: "external \<Rightarrow> ('f, 'j) rln_host \<Rightarrow> program_ids \<Rightarrow> bytes \<Rightarrow> nat \<Rightarrow> nat \<times> bytes \<times> u64 \<Rightarrow> line \<Rightarrow> bool" where
  "reports_entry E D programs tree_id members = (\<lambda>(i, commitment, rate_limit) y.
     \<exists>payer w1 found w2 leaf. registered E D programs tree_id commitment payer rate_limit w1 = Inr (found, w2) \<and>
       compute_rate_commitment (rh_field D) commitment rate_limit = Inr leaf \<and>
       y = entry_report (rh_libs D) members i commitment leaf found)"

lemma register_entry_reports:
  "register_entry E D programs tree_id members x w = (l, Inr w') \<Longrightarrow> \<exists>y. l = [y] \<and> reports_entry E D programs tree_id members x y"
  unfolding register_entry_def reports_entry_def
  by (cases x) (auto simp: run_bind_def quiet_def split: sum.splits prod.splits, blast)

text \<open>
  C33. Bulk registration reports every row and then success, whatever the rows' outcome. A run that ends
  well printed one line for each row of the file, in order: the index of a confirmed registration or a
  warning for one that was not confirmed. After them it always prints that all rows were registered
  successfully, warnings or not.
\<close>

theorem bulk_registration_reports:
  assumes "register_commitments E D files args w = (ls, Inr w')"
  shows "\<exists>program path rest content entries t programs config reports.
    args = program # path # rest \<and> files path = Some content \<and> parse_csv content = Inr entries \<and>
    program_ids_from (rh_libs D) (w_env w) files t = Inr programs \<and>
    list_all2 (reports_entry E D programs t (length entries)) (enumerate 0 entries) reports \<and>
    ls = [Err (''Registering '' @ decimal (length entries) @ '' identity commitments on-chain...'')] @ reports @
      [Out (''CONFIG_ACCOUNT='' @ base58_encode (rh_libs D) config), success_line (length entries)]"
proof -
  obtain program path rest where args: "args = program # path # rest"
    using assms by (auto simp: register_commitments_def quiet_def split: list.splits)
  from assms obtain content entries t programs config reports where
    f: "files path = Some content" "parse_csv content = Inr entries" "program_ids_from (rh_libs D) (w_env w) files t = Inr programs"
    and loop: "run_each (register_entry E D programs t (length entries)) (enumerate 0 entries) w = (reports, Inr w')"
    and ls: "ls = [Err (''Registering '' @ decimal (length entries) @ '' identity commitments on-chain...'')] @ reports @
      [Out (''CONFIG_ACCOUNT='' @ base58_encode (rh_libs D) config), success_line (length entries)]"
    by (auto simp: register_commitments_def args run_bind_def quiet_def say_def Let_def split: option.splits sum.splits prod.splits)
  have "list_all2 (reports_entry E D programs t (length entries)) (enumerate 0 entries) reports"
    by (rule run_each_reports [OF loop]) (intro ballI allI impI register_entry_reports)
  then show ?thesis using args f ls by blast
qed

text \<open>One row whose transaction is accepted and never seen again.\<close>

definition silent_submit :: submit where
  "silent_submit = (\<lambda>tx w. Some ([], w))"

theorem bulk_registration_reports_witness:
  "\<exists>ls. register_commitments toy (demo_rln_host silent_submit)
      (demo_files(''commitments.csv'' \<mapsto> csv_text [((demo_C, 200), None, False)])) [''register_commitments'', ''commitments.csv'']
      (run_world demo_ready) = (ls, Inr (run_world demo_ready)) \<and>
     Err (''WARNING: leaf 0x'' @ toy_hex_encode (take 8 demo_leaf) @ '' not confirmed, continuing...'') \<in> set ls \<and>
     last ls = Err ''All 1 commitments registered successfully.''"
proof -
  let ?D = "demo_rln_host silent_submit" and ?files = "demo_files(''commitments.csv'' \<mapsto> csv_text [((demo_C, 200), None, False)])"
  have D: "rh_field ?D = toy_field" "rh_libs ?D = demo_libs" by (simp_all add: demo_rln_host_def)
  have ids: "resolve_payer demo_libs demo_hex_env = Inr demo_payer" "tree_id_from_env demo_libs demo_hex_env = Inr demo_T" by (rule demo_hex_ids)+
  have "length (record_path demo_libs demo_hex_env demo_T) > 20"
    by (simp add: record_path_def path_join_def home_dir_def demo_hex_env_def DATA_DIR_def)
  then have "record_path demo_libs demo_hex_env demo_T \<noteq> ''commitments.csv''" by auto
  then have p: "program_ids_from demo_libs demo_hex_env ?files demo_T = Inr demo_programs"
    using demo_program_ids by (simp add: program_ids_from_def)
  obtain rq where rq: "register_request toy toy_field (run_world demo_ready) demo_programs demo_T demo_C demo_payer 200 =
    Inr (rq, membership_leaf toy demo_C 200, None)" by (rule run_request [of 200]) simp
  have "fee_payer demo_libs demo_hex_env = Inr (Some demo_payer)"
    using ids(1) by (auto simp: resolve_payer_def result_simps split: option.splits)
  then have reg: "registered toy ?D demo_programs demo_T demo_C demo_payer 200 (run_world demo_ready) = Inr (None, run_world demo_ready)"
    by (simp add: registered_def register_identity_def rq send_metered_tx_def demo_hex_env_limits demo_rln_host_def silent_submit_def)
  have leaf: "compute_rate_commitment toy_field demo_C 200 = Inr demo_leaf"
    using run_leaf [of 200] demo_expect [OF demo_felt(1)] by (simp add: compute_rate_commitment_def registration_leaf_def demo_leaf_def)
  have "bytes32 demo_C" by simp
  then have csv: "parse_csv (csv_text [((demo_C, 200), None, False)]) = Inr [(demo_C, 200)]"
    using parse_entry_row [of demo_C 200 None False] row_text_trim [of demo_C 200 None False]
    by (simp add: parse_csv_def text_lines_csv)
  obtain config where config: "derive_config_account toy demo_R demo_T = Inr config"
    by (simp add: derive_config_account_def derive_pda_def)
  let ?w = "Err (''WARNING: leaf 0x'' @ toy_hex_encode (take 8 demo_leaf) @ '' not confirmed, continuing...'')"
  have enc: "hex_encode demo_libs = toy_hex_encode" by (simp add: toy_libs_hex_def toy_libs_def)
  have entry: "register_entry toy ?D demo_programs demo_T n (i, demo_C, 200) (run_world demo_ready) = ([?w], Inr (run_world demo_ready))" for n i
    by (simp add: register_entry_def D ids leaf reg entry_report_def enc)
  have one: "decimal (Suc 0) = ''1''" by code_simp
  let ?ls = "[Err (''Registering '' @ decimal 1 @ '' identity commitments on-chain...''), ?w,
      Out (''CONFIG_ACCOUNT='' @ base58_encode demo_libs config), success_line 1]"
  have run: "register_commitments toy ?D ?files [''register_commitments'', ''commitments.csv''] (run_world demo_ready) = (?ls, Inr (run_world demo_ready))"
    using csv p config entry [of 1 0] ids by (simp add: register_commitments_def D Let_def quiet_def run_bind_def say_def demo_programs_def)
  have "\<exists>entries reports config. ?ls = [Err (''Registering '' @ decimal (length entries) @ '' identity commitments on-chain...'')] @ reports @
      [Out (''CONFIG_ACCOUNT='' @ base58_encode (rh_libs ?D) config), success_line (length entries)] \<and> parse_csv (csv_text [((demo_C, 200), None, False)]) = Inr entries"
    using bulk_registration_reports [OF run] by fastforce
  then have "last ?ls = success_line 1" using csv by auto
  then show ?thesis using run by (auto simp: success_line_def one)
qed

end
