(* ===== verification/Interleaving.thy ===== *)
theory Interleaving
  imports RegistryProperties RegistrationRuns
begin

text \<open>
  Requests that meet a later state than the one they were built from. The client reads the chain, builds a
  transaction, and sends it; before it runs, other transactions may. What a request claims (the terms of the
  config, the index of a leaf) is stable under them, so the request stays good as long as the chain still
  has what it asks for.
\<close>

section \<open>Facts that others cannot disturb\<close>

text \<open>The moves of an environment, under an invariant they keep: what every move keeps, every run keeps.\<close>

locale environment =
  fixes moves :: "'s \<Rightarrow> 's \<Rightarrow> bool" and inv :: "'s \<Rightarrow> bool"
  assumes inv_move: "inv s \<Longrightarrow> moves s s' \<Longrightarrow> inv s'"
begin

lemma inv_run: "moves\<^sup>*\<^sup>* s s' \<Longrightarrow> inv s \<Longrightarrow> inv s'"
  by (induction rule: rtranclp_induct) (auto intro: inv_move)

lemma stable_run:
  assumes "moves\<^sup>*\<^sup>* s s'" and "inv s" and "P s" and "\<And>a b. inv a \<Longrightarrow> moves a b \<Longrightarrow> P a \<Longrightarrow> P b"
  shows "P s'"
  using assms(1)
proof (induction rule: rtranclp_induct)
  case base
  show ?case by (rule assms(3))
next
  case (step a b)
  then show ?case using assms(4) inv_run [OF step(1) assms(2)] by blast
qed

end

text \<open>The moves of a run, and those among them that leave a member a member.\<close>

definition member_step ::
  "external \<Rightarrow> account_id \<Rightarrow> account_id \<Rightarrow> bytes set \<Rightarrow> bytes set \<Rightarrow> bytes \<Rightarrow> bytes \<Rightarrow> shards \<Rightarrow> shards \<Rightarrow> bool" where
  "member_step E R M T C t c s s' \<longleftrightarrow> step E R M T C s s' \<and> shard s' (membership_sel E R t c) \<noteq> []"

interpretation others: environment "step E R M T C" "reachable E R M T C" for E R M T C
  by unfold_locales (rule reach_step)

interpretation others_keeping: environment "member_step E R M T C t c" "reachable E R M T C" for E R M T C t c
  by unfold_locales (auto simp: member_step_def intro: reach_step)

lemma member_run: "(member_step E R M T C t c)\<^sup>*\<^sup>* s s' \<Longrightarrow> (step E R M T C)\<^sup>*\<^sup>* s s'"
  by (erule rtranclp_mono [THEN predicate2D, rotated]) (auto simp: member_step_def)

section \<open>The tree under the steps of others\<close>

text \<open>The instruction for the tree that an instruction of the registration program sends.\<close>

fun tree_instruction :: "external \<Rightarrow> instruction \<Rightarrow> merkle_instruction option" where
  "tree_instruction E (InitializeMerkleTree t m) = Some MInitialize"
| "tree_instruction E (Register t c l m n p d g) = Some (MInsert (membership_leaf E c l))"
| "tree_instruction E (Slash t c s m i l) = Some (MRemove i (membership_leaf E c l))"
| "tree_instruction E (Erase t c m i l n) = Some (MRemove i (membership_leaf E c l))"
| "tree_instruction E _ = None"

lemma called_tree:
  assumes "separate E R M" and "tree_called E R M m t mi s1 s'"
    and "shard s1 (tree_sel E R M t) = shard s (tree_sel E R M t)"
  shows "shard s' (tree_sel E R M t) = shard s (tree_sel E R M t) \<or>
    merkle_run E mi (shard s (tree_sel E R M t)) = Inr (shard s' (tree_sel E R M t))"
  using assms by (auto simp: tree_called_def)

lemma own_tree:
  assumes sep: "separate E R M" and pc: "poseidon_canonical E" and ok: "instruction_ok ix"
    and run: "replay (Suc (Suc n)) E (deployed R M) s R caller metas (enc_instruction ix) = Inr s'"
  shows "shard s' (tree_sel E R M (tree_of ix)) = shard s (tree_sel E R M (tree_of ix)) \<or>
    (\<exists>mi. tree_instruction E ix = Some mi \<and>
       merkle_run E mi (shard s (tree_sel E R M (tree_of ix))) = Inr (shard s' (tree_sel E R M (tree_of ix))))"
proof (cases ix)
  case (Initialize m t p a x d g)
  then show ?thesis using registration_writes [OF sep pc ok run] sep by simp
next
  case (InitializeMerkleTree t m)
  then have "tree_called E R M m t MInitialize s s'"
    using run ok tx_initialize_tree [OF sep] by (auto simp del: replay.simps enc_instruction.simps)
  then show ?thesis using called_tree [OF sep] InitializeMerkleTree by fastforce
next
  case (Register t c l m now p d g)
  then obtain cfg mem where "tree_called E R M m t (MInsert (membership_leaf E c l))
      (s(config_sel E R t \<mapsto> cfg, membership_sel E R t c \<mapsto> mem)) s'"
    using run ok tx_register [OF sep pc] by (auto simp del: replay.simps enc_instruction.simps)
  from called_tree [OF sep this, of s] show ?thesis using sep Register by simp
next
  case (Slash t c sec m i l)
  then obtain cfg where "tree_called E R M m t (MRemove i (membership_leaf E c l))
      (s(config_sel E R t \<mapsto> cfg, membership_sel E R t c \<mapsto> [])) s'"
    using run ok tx_slash [OF sep pc] by (auto simp del: replay.simps enc_instruction.simps)
  from called_tree [OF sep this, of s] show ?thesis using sep Slash by simp
next
  case (Extend t c now p l)
  then show ?thesis using registration_writes [OF sep pc ok run] sep by simp
next
  case (Erase t c m i l now)
  then obtain cfg where "tree_called E R M m t (MRemove i (membership_leaf E c l))
      (s(config_sel E R t \<mapsto> cfg, membership_sel E R t c \<mapsto> [])) s'"
    using run ok tx_erase [OF sep pc] by (auto simp del: replay.simps enc_instruction.simps)
  from called_tree [OF sep this, of s] show ?thesis using sep Erase by simp
qed

text \<open>A step leaves the tree as it is, or is a transaction of its registry that changes it as its instruction says.\<close>

lemma tree_changed_by:
  assumes sep: "separate E R M" and pc: "poseidon_canonical E" and nc: "no_collision E R T C" and t: "t \<in> T"
    and step: "step E R M T C s s'" and new: "shard s' (tree_sel E R M t) \<noteq> shard s (tree_sel E R M t)"
  obtains ix caller metas mi where "instruction_ok ix" and "ids_in T C ix" and "tree_of ix = t"
    and "replay (Suc (Suc 0)) E (deployed R M) s R caller metas (enc_instruction ix) = Inr s'"
    and "tree_instruction E ix = Some mi" and "merkle_run E mi (shard s (tree_sel E R M t)) = Inr (shard s' (tree_sel E R M t))"
  using step
proof cases
  case (step_registration ix caller metas)
  note run = step_registration(3) [unfolded numeral_2_eq_2]
  have "tree_of ix = t"
    using new registration_writes [OF sep pc step_registration(1) run] other_tree_writes(2) [OF sep nc step_registration(2) t] by blast
  then show ?thesis
    using own_tree [OF sep pc step_registration(1) run] new that step_registration(1,2) run by blast
next
  case (step_merkle caller metas data)
  then obtain m d where m: "metas = [m]" "is_authorized m" "s' = s(meta_selector m \<mapsto> d)" "program_account_id m = M"
    unfolding numeral_2_eq_2 replay_merkle by blast
  then have "account_id m \<noteq> pda_main E R t" using step_merkle(2) t by simp
  then show ?thesis using new m by (auto simp: meta_selector_def tree_sel_def split: if_splits)
next
  case step_foreign
  then show ?thesis using new by (simp add: tree_sel_def)
qed

text \<open>A created tree is not created again, and its next index never goes back.\<close>

lemma initialize_live: "d \<noteq> [] \<Longrightarrow> initialize_tree d \<noteq> Inr d1"
  by (simp add: initialize_tree_def)

lemma tree_run_next:
  assumes "poseidon_ok E" and "tree_ok E d" and "merkle_run E mi d = Inr d1" and "tree_instruction E ix = Some mi"
  shows "tree_ok E d1 \<and> unat (hdr_next d) \<le> unat (hdr_next d1)"
proof -
  have leaf: "bytes32 (membership_leaf E c l)" for c l
    using assms(1) by (simp add: poseidon_ok_def membership_leaf_ok)
  show ?thesis
    using assms(3,4) initialize_live [OF tree_ok_not_Nil [OF assms(2)]]
      insert_leaf_view [OF assms(1,2) leaf] remove_leaf_view [OF assms(1,2)]
    by (cases ix) (auto simp: merkle_run_def)
qed

text \<open>What a later state still has of a tree: it is consistent, and its next index is no smaller.\<close>

definition tree_since :: "external \<Rightarrow> account_id \<Rightarrow> account_id \<Rightarrow> bytes \<Rightarrow> nat \<Rightarrow> shards \<Rightarrow> bool" where
  "tree_since E R M t n s \<longleftrightarrow>
     tree_ok E (shard s (tree_sel E R M t)) \<and> n \<le> unat (hdr_next (shard s (tree_sel E R M t)))"

lemma tree_since_step:
  assumes "separate E R M" and "poseidon_ok E" and "no_collision E R T C" and "t \<in> T"
    and "step E R M T C s s'" and "tree_since E R M t n s"
  shows "tree_since E R M t n s'"
proof (cases "shard s' (tree_sel E R M t) = shard s (tree_sel E R M t)")
  case True
  then show ?thesis using assms(6) by (simp add: tree_since_def)
next
  case False
  have pc: "poseidon_canonical E" using assms(2) by (simp add: poseidon_ok_def)
  show ?thesis
  proof (rule tree_changed_by [OF assms(1) pc assms(3-5) False])
    fix ix mi
    assume "tree_instruction E ix = Some mi" "merkle_run E mi (shard s (tree_sel E R M t)) = Inr (shard s' (tree_sel E R M t))"
    then show ?thesis using tree_run_next [OF assms(2)] assms(6) le_trans by (fastforce simp: tree_since_def)
  qed
qed

lemma tree_since_run:
  assumes "separate E R M" and "poseidon_ok E" and "no_collision E R T C" and "t \<in> T"
    and "(step E R M T C)\<^sup>*\<^sup>* s s'" and "reachable E R M T C s" and "tree_ok E (shard s (tree_sel E R M t))"
  shows "tree_since E R M t (unat (hdr_next (shard s (tree_sel E R M t)))) s'"
  by (rule others.stable_run [OF assms(5,6)])
    (use assms(7) tree_since_step [OF assms(1-4)] in \<open>auto simp: tree_since_def\<close>)

lemma terms_run:
  assumes "separate E R M" and "poseidon_ok E" and "no_collision E R T C" and "t \<in> T"
    and "(step E R M T C)\<^sup>*\<^sup>* s s'" and "reachable E R M T C s" and "has_config E R s t cfg"
  obtains cfg' where "has_config E R s' t cfg'" and "same_terms cfg cfg'"
proof -
  have pc: "poseidon_canonical E" using assms(2) by (simp add: poseidon_ok_def)
  have "\<exists>cfg'. has_config E R s' t cfg' \<and> same_terms cfg cfg'"
    by (rule others.stable_run [OF assms(5,6)])
      (use assms(7) terms_step [OF assms(1) pc assms(3,4)] same_terms_trans in \<open>auto, blast\<close>)
  then show ?thesis using that by blast
qed

lemma same_terms_sel:
  assumes "same_terms a b"
  shows "cs_merkle_program_id b = cs_merkle_program_id a" and "cs_price_per_unit b = cs_price_per_unit a"
    and "cs_treasury_account_id b = cs_treasury_account_id a" and "cs_active_duration_sec b = cs_active_duration_sec a"
    and "cs_grace_period_duration_sec b = cs_grace_period_duration_sec a"
  using assms by (cases a; cases b; simp add: same_terms_def)+

section \<open>A registration among others\<close>

text \<open>What a later state of a run still has of the registry a request was built for.\<close>

lemma later_registry:
  assumes "separate E R M" and "poseidon_ok E" and "no_collision E R T C" and "t \<in> T" and "reachable E R M T C s"
    and "(step E R M T C)\<^sup>*\<^sup>* s s1" and "has_config E R s t cfg0" and "cs_merkle_program_id cfg0 = M"
    and "shard s (tree_sel E R M t) \<noteq> []" and "has_config E R s1 t cfg"
  shows "same_terms cfg0 cfg" and "cs_merkle_program_id cfg = M" and "cs_tree_id cfg = t"
    and "tree_since E R M t (unat (hdr_next (shard s (tree_sel E R M t)))) s1"
    and "tree_ok E (shard s (tree_sel E R M t))"
proof -
  obtain cfg1 where "has_config E R s1 t cfg1" and "same_terms cfg0 cfg1"
    by (rule terms_run [OF assms(1-4,6,5,7)])
  then show terms: "same_terms cfg0 cfg" using has_config_unique assms(10) by blast
  show M: "cs_merkle_program_id cfg = M" using same_terms_sel(1) [OF terms] assms(8) by simp
  show "cs_tree_id cfg = t" by (rule reached_registry(1) [OF assms(1-4) others.inv_run [OF assms(6,5)] assms(10) M])
  show tree: "tree_ok E (shard s (tree_sel E R M t))" by (rule reached_registry(2) [OF assms(1-5,7,8,9)])
  show "tree_since E R M t (unat (hdr_next (shard s (tree_sel E R M t)))) s1" by (rule tree_since_run [OF assms(1-4,6,5) tree])
qed

lemma register_later:
  assumes "separate E R M" and "poseidon_ok E" and "same_poseidon E F" and "no_collision E R T C" and "t \<in> T"
    and "reachable E R M T C s" and "w_chain w = shard s" and "bytes32 t" and "bytes32 M"
    and "register_request E F w \<lparr>pi_registration = R, pi_merkle = M\<rparr> t c payer l = Inr (rq, leaf, before)"
    and "(step E R M T C)\<^sup>*\<^sup>* s s1" and "read_clock_ms E (shard s) = Inr now" and "clock_ok E s1 now"
    and "has_config E R s1 t cfg" and "can_register cfg l" and "MIN_RATE_LIMIT \<le> l" and "l \<le> MAX_RATE_LIMIT"
    and "c \<noteq> ZERO" and "shard s1 (membership_sel E R t c) = []"
    and "unat (hdr_next (shard s1 (tree_sel E R M t))) < 2 ^ TREE_DEPTH"
  shows "\<exists>s2. run_request E R M s1 rq = Inr s2 \<and> insert_leaf E (shard s1 (tree_sel E R M t)) leaf = Inr (shard s2 (tree_sel E R M t)) \<and>
    has_member E R s2 t c (new_membership c l now (cs_active_duration_sec cfg) (cs_grace_period_duration_sec cfg)) \<and>
    has_config E R s2 t (counted cfg l) \<and>
    landed leaf before (shard s2 (tree_sel E R M t)) = Inr (Some (unat (hdr_next (shard s1 (tree_sel E R M t)))))"
proof -
  have "\<exists>cfg0. has_config E R s t cfg0"
    using assms(7,10) by (auto simp: register_request_def fetch_tree_shard_def result_simps read_config_iff)
  then obtain cfg0 where cfg0: "has_config E R s t cfg0" by blast
  note k = register_request_registry [OF assms(10,7) cfg0]
  note later = later_registry [OF assms(1,2,4-6,11) cfg0 k assms(14)]
  note eq = same_terms_sel [OF later(1)] and M = later(2) and tid = later(3) and since = later(4) and tree0 = later(5)
  have tree: "tree_ok E (shard s1 (tree_sel E R M t))" using since by (simp add: tree_since_def)
  show ?thesis
  proof (rule register_content [OF assms(2,3,7) cfg0 assms(10)])
    fix now'
    assume now: "read_clock_ms E (shard s) = Inr now'" and at: "find_leaf_index (shard s (tree_sel E R M t)) leaf = Inr before"
      and v: "bytes32 c" "felt_valid E c" and leaf: "leaf = membership_leaf E c l"
      and q: "rq_program rq = R" "rq_signer rq = payer"
        "rq_selectors rq = [config_sel E R t, tree_sel E R M t, native_balance_selector E payer,
           native_balance_selector E (cs_treasury_account_id cfg0), clock_sel E, membership_sel E R t c]"
        "rq_instruction rq = Register t c l M now' (cs_price_per_unit cfg0)
           (cs_active_duration_sec cfg0) (cs_grace_period_duration_sec cfg0)"
    have q34: "rq_selectors rq = [config_sel E R t, tree_sel E R M t, native_balance_selector E payer,
           native_balance_selector E (cs_treasury_account_id cfg), clock_sel E, membership_sel E R t c]"
        "rq_instruction rq = Register t c l M now (cs_price_per_unit cfg)
           (cs_active_duration_sec cfg) (cs_grace_period_duration_sec cfg)"
      using q(3,4) eq now assms(12) by simp_all
    obtain d1 where r: "insert_leaf E (shard s1 (tree_sel E R M t)) (membership_leaf E c l) = Inr d1"
      "run_request E R M s1 rq = Inr (s1(config_sel E R t \<mapsto> enc_config (counted cfg l), membership_sel E R t c \<mapsto>
        enc_membership (new_membership c l now (cs_active_duration_sec cfg) (cs_grace_period_duration_sec cfg)), tree_sel E R M t \<mapsto> d1))"
      "membership_sel E R t c \<noteq> config_sel E R t"
      "membership_ok (new_membership c l now (cs_active_duration_sec cfg) (cs_grace_period_duration_sec cfg))"
      by (rule register_runs [OF assms(1-3,8,9) v q(1,2) q34 assms(14) tid assms(15) M assms(13,16-19) tree assms(20)])
    have "old < unat (hdr_next (shard s1 (tree_sel E R M t)))" if "before = Some old" for old
      using find_leaf_index_some(1) [OF tree0] at that since by (fastforce simp: tree_since_def)
    from register_leaves [OF assms(1,2,14) tree r(1,3,4) this] r(1,2) leaf show ?thesis using assms(1) by auto
  qed
qed

text \<open>
  C20. A register request outlives what runs before it. The client builds the request in one state; any
  transactions of anyone run; then the request runs. The guests accept it in the later state whenever that
  state can take a member of this rate: the claimed time is still within the clock's tolerance, there is
  capacity, a free slot of the tree, and the commitment is not yet a member. Price, treasury, durations and
  merkle program cannot have changed, the tree assigns the slot, and the leaf is one the client's wait, which
  knows only the tree it read at first, takes for its own.
\<close>

theorem register_request_outlives:
  assumes "separate E R M" and "poseidon_ok E" and "same_poseidon E F" and "no_collision E R T C" and "t \<in> T"
    and "reachable E R M T C s" and "w_chain w = shard s" and "bytes32 t" and "bytes32 M"
    and "register_request E F w \<lparr>pi_registration = R, pi_merkle = M\<rparr> t c payer l = Inr (rq, leaf, before)"
    and "(step E R M T C)\<^sup>*\<^sup>* s s1" and "read_clock_ms E (shard s) = Inr now" and "clock_ok E s1 now"
    and "has_config E R s1 t cfg" and "can_register cfg l" and "MIN_RATE_LIMIT \<le> l" and "l \<le> MAX_RATE_LIMIT"
    and "c \<noteq> ZERO" and "shard s1 (membership_sel E R t c) = []"
    and "unat (hdr_next (shard s1 (tree_sel E R M t))) < 2 ^ TREE_DEPTH"
  shows "\<exists>s2. run_request E R M s1 rq = Inr s2 \<and>
    has_member E R s2 t c (new_membership c l now (cs_active_duration_sec cfg) (cs_grace_period_duration_sec cfg)) \<and>
    has_config E R s2 t (counted cfg l) \<and>
    landed leaf before (shard s2 (tree_sel E R M t)) = Inr (Some (unat (hdr_next (shard s1 (tree_sel E R M t)))))"
  using register_later [OF assms] by blast

section \<open>A member's leaf among the steps of others\<close>

text \<open>What a transaction of a member does to it.\<close>

lemma concerned_member:
  assumes sep: "separate E R M" and pc: "poseidon_canonical E" and ok: "instruction_ok ix" and con: "concerns t c ix"
    and run: "replay (Suc (Suc n)) E (deployed R M) s R caller metas (enc_instruction ix) = Inr s'"
    and mem: "has_member E R s t c m"
  shows "shard s' (membership_sel E R t c) = [] \<or> tree_instruction E ix = None \<and> has_member E R s' t c (renewed m)"
proof -
  have tree: "tree_called E R M k t mi s1 s' \<Longrightarrow> shard s' (membership_sel E R t c) = shard s1 (membership_sel E R t c)" for k mi s1
    using tree_called_writes sel_other(4) [OF sep] by metis
  show ?thesis
  proof (cases ix)
    case (Register t' c' l k now p d g)
    then show ?thesis
      using run ok con mem tx_register [OF sep pc] by (auto simp: has_member_def simp del: replay.simps enc_instruction.simps)
  next
    case (Slash t' c' sec k i l)
    then obtain s1 mi where "tree_called E R M k t mi s1 s'" "shard s1 (membership_sel E R t c) = []"
      using run ok con tx_slash [OF sep pc, of t c sec k i l] by (auto simp del: replay.simps enc_instruction.simps)
    then show ?thesis using tree by simp
  next
    case (Extend t' c' now p l)
    then obtain m' where "has_member E R s t c m'" "s' = s(membership_sel E R t c \<mapsto> enc_membership (renewed m'))"
      using run ok con tx_extend [OF sep, of t c now p l] by (auto simp del: replay.simps enc_instruction.simps)
    then show ?thesis using has_member_unique [OF mem] Extend by (auto simp: has_member_def)
  next
    case (Erase t' c' k i l now)
    then obtain s1 mi where "tree_called E R M k t mi s1 s'" "shard s1 (membership_sel E R t c) = []"
      using run ok con tx_erase [OF sep pc, of t c k i l now] by (auto simp del: replay.simps enc_instruction.simps)
    then show ?thesis using tree by simp
  qed (use con in simp_all)
qed

text \<open>A member of the rate \<open>l\<close> with its leaf at \<open>i\<close>, in a registry on the merkle program with given terms.\<close>

definition member_at ::
  "external \<Rightarrow> account_id \<Rightarrow> account_id \<Rightarrow> bytes \<Rightarrow> bytes \<Rightarrow> config_state \<Rightarrow> u64 \<Rightarrow> nat \<Rightarrow> shards \<Rightarrow> bool" where
  "member_at E R M t c cfg l i s \<longleftrightarrow>
     (\<exists>cfg'. has_config E R s t cfg' \<and> same_terms cfg cfg') \<and>
     (\<exists>m. has_member E R s t c m \<and> ms_rate_limit m = l) \<and>
     tree_ok E (shard s (tree_sel E R M t)) \<and> leaf_at E R M s t c l i"

lemma member_keeps:
  assumes "separate E R M" and "poseidon_canonical E" and "no_collision E R T C" and "t \<in> T" and "c \<in> C"
    and "member_step E R M T C t c s s'" and "has_member E R s t c m"
  shows "\<exists>m'. has_member E R s' t c m' \<and> ms_rate_limit m' = ms_rate_limit m"
proof (cases "shard s' (membership_sel E R t c) = shard s (membership_sel E R t c)")
  case True
  then show ?thesis using assms(7) by (auto simp: has_member_def)
next
  case False
  have step: "step E R M T C s s'" "shard s' (membership_sel E R t c) \<noteq> []" using assms(6) by (simp_all add: member_step_def)
  show ?thesis
  proof (rule membership_changed_by [OF assms(1-5) step(1) False])
    fix ix caller metas
    assume "instruction_ok ix" "concerns t c ix" "replay (Suc (Suc 0)) E (deployed R M) s R caller metas (enc_instruction ix) = Inr s'"
    from concerned_member [OF assms(1,2) this assms(7)] show ?thesis using step(2) renewed_sel(1) by blast
  qed
qed

text \<open>The index of a leaf that no other commitment has stays its index while its member is one.\<close>

lemma leaf_stays:
  assumes sep: "separate E R M" and E: "poseidon_ok E" and nc: "no_collision E R T C" and t: "t \<in> T" "c \<in> C"
    and unique: "leaf_unique E C c l" and move: "member_step E R M T C t c s s'"
    and mem: "has_member E R s t c m"
    and tree: "tree_ok E (shard s (tree_sel E R M t))" and at: "leaf_at E R M s t c l i"
  shows "tree_ok E (shard s' (tree_sel E R M t)) \<and> leaf_at E R M s' t c l i"
proof (cases "shard s' (tree_sel E R M t) = shard s (tree_sel E R M t)")
  case True
  then show ?thesis using tree at by (simp add: leaf_at_def)
next
  case False
  let ?d = "shard s (tree_sel E R M t)" and ?d1 = "shard s' (tree_sel E R M t)"
  have pc: "poseidon_canonical E" using E by (simp add: poseidon_ok_def)
  have step: "step E R M T C s s'" "shard s' (membership_sel E R t c) \<noteq> []" using move by (simp_all add: member_step_def)
  have i: "i < 2 ^ TREE_DEPTH" using leaf_at_index [OF tree at] by simp
  have leaf: "tv_leaves (view ?d) ! i = membership_leaf E c l" "i < unat (hdr_next ?d)"
    using at i by (simp_all add: leaf_at_def)
  show ?thesis
  proof (rule tree_changed_by [OF sep pc nc t(1) step(1) False])
    fix ix caller metas mi
    assume ix: "instruction_ok ix" "ids_in T C ix" "tree_of ix = t"
      and run: "replay (Suc (Suc 0)) E (deployed R M) s R caller metas (enc_instruction ix) = Inr s'"
      and mi: "tree_instruction E ix = Some mi" and d1: "merkle_run E mi ?d = Inr ?d1"
    note next_ok = tree_run_next [OF E tree d1 mi]
    have other: "\<not> concerns t c ix"
      using concerned_member [OF sep pc ix(1) _ run mem] mi step(2) by fastforce
    have "tv_leaves (view ?d1) ! i = membership_leaf E c l"
    proof (cases mi)
      case MInitialize
      then show ?thesis using d1 initialize_live [OF tree_ok_not_Nil [OF tree]] by (simp add: merkle_run_def)
    next
      case (MInsert x)
      then obtain c' l' where "x = membership_leaf E c' l'" using mi by (cases ix) auto
      then have "bytes32 x" using membership_leaf_ok [OF pc] by simp
      then show ?thesis
        using insert_leaf_view(4) [OF E tree, of x ?d1] d1 MInsert leaf by (simp add: merkle_run_def)
    next
      case (MRemove j x)
      then obtain c' l' where x: "x = membership_leaf E c' l'" "c' \<in> C" "c' \<noteq> c"
        using mi ix(2,3) other by (cases ix) auto
      have "remove_leaf E ?d j x = Inr ?d1" using d1 MRemove by (simp add: merkle_run_def)
      note r = remove_leaf_view [OF E tree this]
      have "unat j \<noteq> i" using r(4) leaf(1) unique x by (auto simp: leaf_unique_def)
      then show ?thesis using r(5) leaf by simp
    next
      case (MSet j x)
      then show ?thesis using mi by (cases ix) auto
    qed
    then show ?thesis using next_ok leaf(2) i by (auto simp: leaf_at_def)
  qed
qed

lemma member_at_step:
  assumes "separate E R M" and "poseidon_ok E" and "no_collision E R T C" and "t \<in> T" and "c \<in> C"
    and "leaf_unique E C c l" and "member_step E R M T C t c s s'" and "member_at E R M t c cfg l i s"
  shows "member_at E R M t c cfg l i s'"
proof -
  have pc: "poseidon_canonical E" using assms(2) by (simp add: poseidon_ok_def)
  have step: "step E R M T C s s'" using assms(7) by (simp add: member_step_def)
  obtain cfg' m where s: "has_config E R s t cfg'" "same_terms cfg cfg'" "has_member E R s t c m" "ms_rate_limit m = l"
    "tree_ok E (shard s (tree_sel E R M t))" "leaf_at E R M s t c l i"
    using assms(8) by (auto simp: member_at_def)
  show ?thesis
    using terms_step [OF assms(1) pc assms(3,4) step s(1)] same_terms_trans [OF s(2)]
      member_keeps [OF assms(1) pc assms(3-5,7) s(3)] s(4) leaf_stays [OF assms(1-7) s(3,5,6)]
    unfolding member_at_def by blast
qed

lemma member_at_run:
  assumes "separate E R M" and "poseidon_ok E" and "no_collision E R T C" and "t \<in> T" and "c \<in> C"
    and "leaf_unique E C c l" and "(member_step E R M T C t c)\<^sup>*\<^sup>* s s'" and "reachable E R M T C s"
    and "member_at E R M t c cfg l i s"
  shows "member_at E R M t c cfg l i s'"
  by (rule others_keeping.stable_run [where P = "member_at E R M t c cfg l i", OF assms(7-9)]) (rule member_at_step [OF assms(1-6)])

lemma request_member_at:
  assumes "separate E R M" and "poseidon_ok E" and "no_collision E R T C" and "t \<in> T" and "c \<in> C"
    and "reachable E R M T C s" and "has_config E R s t cfg" and "cs_merkle_program_id cfg = M"
    and "shard s (tree_sel E R M t) \<noteq> []" and "has_member E R s t c m" and "leaf_at E R M s t c (ms_rate_limit m) i"
  shows "member_at E R M t c cfg (ms_rate_limit m) i s"
  using assms(7,10,11) reached_registry(2) [OF assms(1-4,6-9)] same_terms_counters(1) unfolding member_at_def by blast

lemma slash_later:
  assumes "separate E R M" and "poseidon_ok E" and "same_poseidon E F" and "no_collision E R T C" and "t \<in> T" and "c \<in> C"
    and "reachable E R M T C s" and "w_chain w = shard s" and "bytes32 t" and "bytes32 M" and "bytes32 c"
    and "slash_request E F w \<lparr>pi_registration = R, pi_merkle = M\<rparr> t secret c payer = Inr rq" and "compress1 E secret = c"
    and "has_member E R s t c m" and "leaf_unique E C c (ms_rate_limit m)" and "(member_step E R M T C t c)\<^sup>*\<^sup>* s s1"
  shows "\<exists>cfg s2. has_config E R s1 t cfg \<and> run_request E R M s1 rq = Inr s2 \<and> removed_from E R M t c cfg (ms_rate_limit m) s1 s2"
proof -
  obtain cfg where cfg: "has_config E R s t cfg"
    using assms(8,12) by (auto simp: slash_request_def result_simps read_config_iff)
  note k = slash_request_registry [OF assms(12,8) cfg]
  note r = reached_registry [OF assms(1,2,4,5,7) cfg k(1)]
  show ?thesis
  proof (rule slash_content [OF assms(2,3,8,12) cfg assms(14) r(3) [OF assms(6,14)] r(2) [OF k(2)]])
    fix i
    assume v: "bytes32 secret" "felt_valid E secret" "felt_valid E c" and at: "leaf_at E R M s t c (ms_rate_limit m) i"
      and q: "rq_program rq = R" "rq_selectors rq = [config_sel E R t, tree_sel E R M t, membership_sel E R t c]"
        "rq_instruction rq = Slash t c secret M (word_of_nat i) (ms_rate_limit m)"
    have "member_at E R M t c cfg (ms_rate_limit m) i s1"
      by (rule member_at_run [OF assms(1,2,4-6,15,16,7)])
        (rule request_member_at [OF assms(1,2,4-7) cfg k assms(14) at])
    then obtain cfg1 m1 where s1: "has_config E R s1 t cfg1" "same_terms cfg cfg1" "has_member E R s1 t c m1"
      "ms_rate_limit m1 = ms_rate_limit m" "tree_ok E (shard s1 (tree_sel E R M t))" "leaf_at E R M s1 t c (ms_rate_limit m) i"
      by (auto simp: member_at_def)
    have M1: "cs_merkle_program_id cfg1 = M" using same_terms_sel(1) [OF s1(2)] k(1) by simp
    note r1 = reached_registry [OF assms(1,2,4,5) others_keeping.inv_run [OF assms(16,7)] s1(1) M1]
    from slash_runs [OF assms(1-3,9-11) v assms(13) q(1,2) q(3) [folded s1(4)] s1(1) r1(1) M1 s1(3) r1(3) [OF assms(6) s1(3)] s1(5) s1(6) [folded s1(4)]]
    show ?thesis using s1(1,4) by metis
  qed
qed

lemma erase_later:
  assumes "separate E R M" and "poseidon_ok E" and "same_poseidon E F" and "no_collision E R T C" and "t \<in> T" and "c \<in> C"
    and "reachable E R M T C s" and "w_chain w = shard s" and "bytes32 t" and "bytes32 M"
    and "erase_request E F w \<lparr>pi_registration = R, pi_merkle = M\<rparr> t c payer = Inr rq"
    and "has_member E R s t c m" and "leaf_unique E C c (ms_rate_limit m)" and "(member_step E R M T C t c)\<^sup>*\<^sup>* s s1"
    and "read_clock_ms E (shard s) = Inr now" and "clock_ok E s1 now" and "has_member E R s1 t c m1"
    and "is_expired (ms_grace_period_start_timestamp_ms m1) (secs_to_millis (ms_grace_period_duration_sec m1)) now"
  shows "\<exists>cfg s2. has_config E R s1 t cfg \<and> run_request E R M s1 rq = Inr s2 \<and> removed_from E R M t c cfg (ms_rate_limit m) s1 s2"
proof -
  obtain cfg where cfg: "has_config E R s t cfg"
    using assms(8,11) by (auto simp: erase_request_def result_simps read_config_iff)
  note k = erase_request_registry [OF assms(11,8) cfg]
  note r = reached_registry [OF assms(1,2,4,5,7) cfg k(1)]
  show ?thesis
  proof (rule erase_content [OF assms(2,3,8,11) cfg assms(12) r(3) [OF assms(6,12)] r(2) [OF k(2)]])
    fix i now'
    assume now: "read_clock_ms E (shard s) = Inr now'" and v: "bytes32 c" "felt_valid E c"
      and at: "leaf_at E R M s t c (ms_rate_limit m) i"
      and q: "rq_program rq = R" "rq_selectors rq = [config_sel E R t, tree_sel E R M t, membership_sel E R t c, clock_sel E]"
        "rq_instruction rq = Erase t c M (word_of_nat i) (ms_rate_limit m) now'"
    have eq: "now' = now" using now assms(15) by simp
    have "member_at E R M t c cfg (ms_rate_limit m) i s1"
      by (rule member_at_run [OF assms(1,2,4-6,13,14,7)])
        (rule request_member_at [OF assms(1,2,4-7) cfg k assms(12) at])
    then obtain cfg1 where s1: "has_config E R s1 t cfg1" "same_terms cfg cfg1"
      "tree_ok E (shard s1 (tree_sel E R M t))" "leaf_at E R M s1 t c (ms_rate_limit m) i"
      and rate: "ms_rate_limit m1 = ms_rate_limit m"
      using has_member_unique [OF assms(17)] by (auto simp: member_at_def)
    have M1: "cs_merkle_program_id cfg1 = M" using same_terms_sel(1) [OF s1(2)] k(1) by simp
    note r1 = reached_registry [OF assms(1,2,4,5) others_keeping.inv_run [OF assms(14,7)] s1(1) M1]
    from erase_runs [OF assms(1-3,9,10) v q(1,2) q(3) [folded rate, unfolded eq] s1(1) r1(1) M1 assms(17) r1(3) [OF assms(6,17)]
        assms(16,18) s1(3) s1(4) [folded rate]]
    show ?thesis using s1(1) rate by metis
  qed
qed

lemma extend_later:
  assumes "separate E R M" and "poseidon_ok E" and "same_poseidon E F" and "no_collision E R T C" and "t \<in> T" and "c \<in> C"
    and "reachable E R M T C s" and "w_chain w = shard s" and "bytes32 t"
    and "extend_request E F w \<lparr>pi_registration = R, pi_merkle = M\<rparr> t c payer = Inr rq"
    and "has_config E R s t cfg" and "cs_merkle_program_id cfg = M"
    and "has_member E R s t c m" and "(member_step E R M T C t c)\<^sup>*\<^sup>* s s1"
    and "read_clock_ms E (shard s) = Inr now" and "clock_ok E s1 now" and "has_member E R s1 t c m1"
    and "is_in_grace_period (ms_grace_period_start_timestamp_ms m1) (secs_to_millis (ms_grace_period_duration_sec m1)) now"
  shows "\<exists>s2. run_request E R M s1 rq = Inr s2 \<and> has_member E R s2 t c (renewed m1)"
proof (rule extend_content [OF assms(3,8,10,11,13)])
  fix now'
  assume now: "read_clock_ms E (shard s) = Inr now'" and v: "bytes32 c" and q: "rq_program rq = R" "rq_signer rq = payer"
    "rq_selectors rq = [config_sel E R t, membership_sel E R t c, native_balance_selector E payer,
       native_balance_selector E (cs_treasury_account_id cfg), clock_sel E]"
    "rq_instruction rq = Extend t c now' (cs_price_per_unit cfg) (ms_rate_limit m)"
  have pc: "poseidon_canonical E" using assms(2) by (simp add: poseidon_ok_def)
  have run: "(step E R M T C)\<^sup>*\<^sup>* s s1" by (rule member_run [OF assms(14)])
  obtain cfg1 where s1: "has_config E R s1 t cfg1" "same_terms cfg cfg1"
    by (rule terms_run [OF assms(1,2,4,5) run assms(7,11)])
  note eq = same_terms_sel [OF s1(2)]
  have "\<exists>m'. has_member E R s1 t c m' \<and> ms_rate_limit m' = ms_rate_limit m"
    by (rule others_keeping.stable_run [OF assms(14,7)])
      (use assms(13) member_keeps [OF assms(1) pc assms(4-6)] in \<open>blast, metis\<close>)
  then have rate: "ms_rate_limit m1 = ms_rate_limit m" using has_member_unique [OF assms(17)] by auto
  have tid: "cs_tree_id cfg1 = t"
    using reached_registry(1) [OF assms(1,2,4,5) others.inv_run [OF run assms(7)] s1(1)] eq(1) assms(12) by simp
  have q34: "rq_selectors rq = [config_sel E R t, membership_sel E R t c, native_balance_selector E payer,
       native_balance_selector E (cs_treasury_account_id cfg1), clock_sel E]"
    "rq_instruction rq = Extend t c now (cs_price_per_unit cfg1) (ms_rate_limit m1)"
    using q(3,4) eq now assms(15) rate by simp_all
  show ?thesis by (rule extend_runs [OF assms(1,9) v q(1,2) q34 s1(1) tid assms(17,16,18)]) blast
qed

text \<open>
  C21. Requests for a member outlive what runs before them. The client builds a slash, erase or extend request
  in one state; any transactions of anyone run, among them renewals of this member, as long as it stays one.
  Then the guests accept the slash as it is; the erase, when the clock supports the claimed time and the member
  as it is by then has expired at it; the extend, when the claimed time is in the member's grace period as it is
  by then. In particular the index of the leaf that slash and erase carry stays right, whatever is registered
  or removed meanwhile.
\<close>

theorem member_requests_outlive:
  assumes "separate E R M" and "poseidon_ok E" and "same_poseidon E F" and "no_collision E R T C" and "t \<in> T" and "c \<in> C"
    and "reachable E R M T C s" and "w_chain w = shard s" and "bytes32 t" and "bytes32 M" and "bytes32 c"
    and "has_config E R s t cfg" and "cs_merkle_program_id cfg = M"
    and "has_member E R s t c m" and "leaf_unique E C c (ms_rate_limit m)" and "(member_step E R M T C t c)\<^sup>*\<^sup>* s s1"
    and "has_member E R s1 t c m1"
  defines "P \<equiv> \<lparr>pi_registration = R, pi_merkle = M\<rparr>"
  shows
    "(slash_request E F w P t secret c payer = Inr rq \<and> compress1 E secret = c \<longrightarrow>
       (\<exists>cfg1 s2. run_request E R M s1 rq = Inr s2 \<and> removed_from E R M t c cfg1 (ms_rate_limit m) s1 s2)) \<and>
     (erase_request E F w P t c payer = Inr rq \<and> read_clock_ms E (shard s) = Inr now \<and> clock_ok E s1 now \<and>
       is_expired (ms_grace_period_start_timestamp_ms m1) (secs_to_millis (ms_grace_period_duration_sec m1)) now \<longrightarrow>
       (\<exists>cfg1 s2. run_request E R M s1 rq = Inr s2 \<and> removed_from E R M t c cfg1 (ms_rate_limit m) s1 s2)) \<and>
     (extend_request E F w P t c payer = Inr rq \<and> read_clock_ms E (shard s) = Inr now \<and> clock_ok E s1 now \<and>
       is_in_grace_period (ms_grace_period_start_timestamp_ms m1) (secs_to_millis (ms_grace_period_duration_sec m1)) now \<longrightarrow>
       (\<exists>s2. run_request E R M s1 rq = Inr s2 \<and> has_member E R s2 t c (renewed m1)))"
proof (intro conjI impI; elim conjE)
  assume "slash_request E F w P t secret c payer = Inr rq" "compress1 E secret = c"
  from slash_later [OF assms(1-11) this [unfolded P_def] assms(14-16)]
  show "\<exists>cfg1 s2. run_request E R M s1 rq = Inr s2 \<and> removed_from E R M t c cfg1 (ms_rate_limit m) s1 s2" by blast
next
  assume "erase_request E F w P t c payer = Inr rq" and now: "read_clock_ms E (shard s) = Inr now" "clock_ok E s1 now"
    and exp: "is_expired (ms_grace_period_start_timestamp_ms m1) (secs_to_millis (ms_grace_period_duration_sec m1)) now"
  from erase_later [OF assms(1-10) this(1) [unfolded P_def] assms(14-16) now assms(17) exp]
  show "\<exists>cfg1 s2. run_request E R M s1 rq = Inr s2 \<and> removed_from E R M t c cfg1 (ms_rate_limit m) s1 s2" by blast
next
  assume "extend_request E F w P t c payer = Inr rq" and now: "read_clock_ms E (shard s) = Inr now" "clock_ok E s1 now"
    and grace: "is_in_grace_period (ms_grace_period_start_timestamp_ms m1) (secs_to_millis (ms_grace_period_duration_sec m1)) now"
  from extend_later [OF assms(1-9) this(1) [unfolded P_def] assms(12-14,16) now assms(17) grace]
  show "\<exists>s2. run_request E R M s1 rq = Inr s2 \<and> has_member E R s2 t c (renewed m1)" .
qed

section \<open>Witnesses: the clock moves between the request and its run\<close>

lemma demo_clock_moves:
  "step toy demo_R demo_M {demo_T} {demo_C} s (s(clock_sel toy \<mapsto> replicate 8 0 @ u64_le now))"
  by (rule step_foreign) (use demo_separate in \<open>auto simp: clock_sel_def separate_def\<close>)

lemma demo_at_moves: "(member_step toy demo_R demo_M {demo_T} {demo_C} demo_T demo_C)\<^sup>*\<^sup>* (demo_at now) (demo_at later)"
proof (rule r_into_rtranclp)
  have "demo_at later = (demo_at now)(clock_sel toy \<mapsto> replicate 8 0 @ u64_le later)" by (simp add: demo_at_def)
  then show "member_step toy demo_R demo_M {demo_T} {demo_C} demo_T demo_C (demo_at now) (demo_at later)"
    using demo_clock_moves demo_at_shards(3) [of later] by (simp add: member_step_def has_member_def)
qed

lemma late_clock:
  assumes "now \<le> later" and "0 < later" and "unat later \<le> unat now + 900000"
  shows "clock_ok toy (s(clock_sel toy \<mapsto> replicate 8 0 @ u64_le later)) now"
proof -
  have "clock_timestamp toy (replicate 8 0 @ u64_le later) = Some later" by (simp add: toy_def slice_def)
  then show ?thesis using assms by (simp add: clock_ok_def clock_iff)
qed

theorem register_request_outlives_witness:
  "\<exists>rq s2. register_request toy toy_field (demo_world demo_ready) demo_programs demo_T demo_C demo_payer 200 = Inr (rq, demo_leaf, None) \<and>
     run_request toy demo_R demo_M (demo_ready(clock_sel toy \<mapsto> replicate 8 0 @ u64_le 1060000)) rq = Inr s2 \<and>
     has_member toy demo_R s2 demo_T demo_C (new_membership demo_C 200 demo_now 100 50)"
proof -
  obtain rq where rq: "register_request toy toy_field (demo_world demo_ready) demo_programs demo_T demo_C demo_payer 200 =
    Inr (rq, demo_leaf, None)" by (rule demo_register_request)
  let ?s1 = "demo_ready(clock_sel toy \<mapsto> replicate 8 0 @ u64_le 1060000)"
  have now: "read_clock_ms toy (shard demo_ready) = Inr demo_now"
    using demo_clock_ok(2) demo_shards(5) by (simp add: read_clock_ms_def clock_selector_def clock_sel_def demo_now_def Let_def)
  have clock: "clock_ok toy ?s1 demo_now" by (rule late_clock) (simp_all add: demo_now_def)
  have same: "shard ?s1 k = shard demo_ready k" if "snd k = demo_R \<or> snd k = demo_M" for k
    using that demo_separate by (auto simp: clock_sel_def separate_def)
  have cfg: "has_config toy demo_R ?s1 demo_T demo_cfg"
    using demo_has_config(2) same [of "config_sel toy demo_R demo_T"] by (simp add: has_config_def config_sel_def)
  have "snd (tree_sel toy demo_R demo_M demo_T) = demo_M" by (simp add: tree_sel_def)
  then have "shard ?s1 (tree_sel toy demo_R demo_M demo_T) = fresh_tree" using same demo_shards(3) by simp
  then have tree: "unat (hdr_next (shard ?s1 (tree_sel toy demo_R demo_M demo_T))) < 2 ^ TREE_DEPTH"
    using fresh_tree_view(1) [OF toy_poseidon] by simp
  have free: "shard ?s1 (membership_sel toy demo_R demo_T demo_C) = []"
    using same [of "membership_sel toy demo_R demo_T demo_C"] demo_shards(4) by (simp add: membership_sel_def)
  have room: "can_register demo_cfg 200" "MIN_RATE_LIMIT \<le> 200" "200 \<le> MAX_RATE_LIMIT"
    by (simp_all add: can_register_def demo_cfg_def sat_add_def MIN_RATE_LIMIT_def MAX_RATE_LIMIT_def)
  show ?thesis
    using register_request_outlives [OF demo_separate toy_poseidon toy_same_poseidon demo_no_collision _ demo_reach_ready
        demo_world_chain _ _ rq [unfolded demo_programs_def] r_into_rtranclp [of "step toy demo_R demo_M {demo_T} {demo_C}", OF demo_clock_moves] now clock cfg room
        demo_felt(2) free tree] rq
    by (auto simp: demo_programs_def demo_cfg_def)
qed

theorem member_requests_outlive_witness:
  "\<exists>slash erase extend s2 s3 s4.
     slash_request toy toy_field (demo_world (demo_at 1200000)) demo_programs demo_T demo_secret demo_C demo_payer = Inr slash \<and>
     run_request toy demo_R demo_M (demo_at 1260000) slash = Inr s2 \<and> shard s2 (membership_sel toy demo_R demo_T demo_C) = [] \<and>
     erase_request toy toy_field (demo_world (demo_at 1200000)) demo_programs demo_T demo_C demo_payer = Inr erase \<and>
     run_request toy demo_R demo_M (demo_at 1260000) erase = Inr s3 \<and> shard s3 (membership_sel toy demo_R demo_T demo_C) = [] \<and>
     extend_request toy toy_field (demo_world (demo_at 1120000)) demo_programs demo_T demo_C demo_payer = Inr extend \<and>
     run_request toy demo_R demo_M (demo_at 1180000) extend = Inr s4 \<and> has_member toy demo_R s4 demo_T demo_C (renewed demo_member)"
proof -
  let ?P = "\<lparr>pi_registration = demo_R, pi_merkle = demo_M\<rparr>"
  note later = member_requests_outlive [OF demo_separate toy_poseidon toy_same_poseidon demo_no_collision _ _ demo_reach_at
      demo_world_chain _ _ _ demo_at_shards(2) _ demo_at_shards(3) demo_leaf_unique demo_at_moves demo_at_shards(3)]
  obtain slash where slash: "slash_request toy toy_field (demo_world (demo_at 1200000)) ?P demo_T demo_secret demo_C demo_payer = Inr slash"
    using demo_slash_request [of 1200000] unfolding demo_programs_def by blast
  obtain erase where erase: "erase_request toy toy_field (demo_world (demo_at 1200000)) ?P demo_T demo_C demo_payer = Inr erase"
    using demo_erase_request [of 1200000] unfolding demo_programs_def by auto
  obtain extend where extend: "extend_request toy toy_field (demo_world (demo_at 1120000)) ?P demo_T demo_C demo_payer = Inr extend"
    using demo_extend_request [of 1120000] unfolding demo_programs_def by auto
  have "is_expired 1100000 (secs_to_millis 50) 1200000" "is_in_grace_period 1100000 (secs_to_millis 50) 1120000"
    by (simp_all add: is_expired_def is_in_grace_period_def sat_add_def secs_to_millis_def MILLIS_PER_SECOND_def)
  moreover have "clock_ok toy (demo_at 1260000) 1200000" "clock_ok toy (demo_at 1180000) 1120000"
    using late_clock [of 1200000 1260000] late_clock [of 1120000 1180000] by (simp_all add: demo_at_def)
  moreover have "cs_merkle_program_id (counted demo_cfg 200) = demo_M" by simp
  ultimately show ?thesis
    using later [of 1200000 demo_secret demo_payer slash 1260000 1200000] later [of 1200000 demo_secret demo_payer erase 1260000 1200000]
      later [of 1120000 demo_secret demo_payer extend 1180000 1120000] slash erase extend demo_secret_ok(1)
      demo_read_clock [of 1200000] demo_read_clock [of 1120000]
    by (auto simp: demo_programs_def removed_from_def)
qed

end
