(* ===== verification/ShardTypes.thy ===== *)
theory ShardTypes
  imports TreeProperties RegistryProperties HostScenario
begin

text \<open>
  A type system for the shards of the two programs. A shard of the registration program is empty, a
  config or a membership; a shard of the merkle program is empty or a consistent tree. Each effect of a
  plan has a type, the records it takes and leaves, and a typed store stays typed under every transaction.
\<close>

section \<open>Records and their types\<close>

datatype shard_type = NoRecord | ConfigRecord | MembershipRecord | TreeRecord

fun has_type :: "external \<Rightarrow> bytes \<Rightarrow> shard_type \<Rightarrow> bool" where
  "has_type E d NoRecord \<longleftrightarrow> d = []"
| "has_type E d ConfigRecord \<longleftrightarrow> (\<exists>c. config_ok c \<and> d = enc_config c)"
| "has_type E d MembershipRecord \<longleftrightarrow> (\<exists>m. membership_ok m \<and> d = enc_membership m)"
| "has_type E d TreeRecord \<longleftrightarrow> tree_ok E d"

lemma record_typed:
  "config_ok c \<Longrightarrow> has_type E (enc_config c) ConfigRecord"
  "membership_ok m \<Longrightarrow> has_type E (enc_membership m) MembershipRecord"
  by auto

lemma type_size:
  "has_type E d ConfigRecord \<Longrightarrow> length d = CONFIG_STATE_SIZE"
  "has_type E d MembershipRecord \<Longrightarrow> length d = MEMBERSHIP_STATE_SIZE"
  "has_type E d TreeRecord \<Longrightarrow> OFFSET_TREE_DATA \<le> length d"
  by (auto simp: length_enc_config length_enc_membership tree_ok_def header_ok_def)

text \<open>The size of a shard tells its type: no record is of two types.\<close>

lemma type_unique:
  assumes "has_type E d a" and "has_type E d b"
  shows "a = b"
  using assms type_size [of E d]
  by (cases a; cases b) (auto simp: CONFIG_STATE_SIZE_def MEMBERSHIP_STATE_SIZE_def offset_tree_data simp del: has_type.simps(2-4))

section \<open>Types of effects\<close>

text \<open>The record an effect takes and the one it leaves; the clock is inspected, in whatever record it has.\<close>

fun effect_type :: "effect \<Rightarrow> (shard_type \<times> shard_type) option" where
  "effect_type (InitConfig c) = Some (NoRecord, ConfigRecord)"
| "effect_type (InitTreeGuard t m) = Some (ConfigRecord, ConfigRecord)"
| "effect_type (RegisterConfig t m p a l d g) = Some (ConfigRecord, ConfigRecord)"
| "effect_type (InitMembership m) = Some (NoRecord, MembershipRecord)"
| "effect_type (ClockIs n) = None"
| "effect_type (ReleaseConfig t m l) = Some (ConfigRecord, ConfigRecord)"
| "effect_type (SlashMembership c l) = Some (MembershipRecord, NoRecord)"
| "effect_type (ExtendConfig t p a) = Some (ConfigRecord, ConfigRecord)"
| "effect_type (ExtendMembership n l) = Some (MembershipRecord, MembershipRecord)"
| "effect_type (EraseMembership n l) = Some (MembershipRecord, NoRecord)"

fun effect_ok :: "effect \<Rightarrow> bool" where
  "effect_ok (InitConfig c) \<longleftrightarrow> config_ok c"
| "effect_ok (InitMembership m) \<longleftrightarrow> membership_ok m"
| "effect_ok _ \<longleftrightarrow> True"

definition after :: "bytes \<Rightarrow> bytes option \<Rightarrow> bytes" where
  "after d post = (case post of None \<Rightarrow> d | Some d' \<Rightarrow> d')"

lemma after_simps [simp]: "after d None = d" "after d (Some d') = d'"
  by (simp_all add: after_def)

lemma effect_typed:
  assumes "apply_effect E e d = Inr post" and "effect_ok e" and "effect_type e = Some (a, b)"
  shows "has_type E d a" and "has_type E (after d post) b"
  using assms by (cases e; auto simp: apply_simps simp del: has_type.simps(2,3) intro!: record_typed)+

lemma inspect_typed: "apply_effect E e d = Inr post \<Longrightarrow> effect_type e = None \<Longrightarrow> post = None"
  by (cases e) (auto simp: result_simps)

fun merkle_type :: "merkle_instruction \<Rightarrow> shard_type \<times> shard_type" where
  "merkle_type MInitialize = (NoRecord, TreeRecord)"
| "merkle_type _ = (TreeRecord, TreeRecord)"

lemma no_tree_no_set: "set_leaf E [] i leaf \<noteq> Inr d"
  by (simp add: set_leaf_def check_header_def)

lemma merkle_typed:
  assumes E: "poseidon_ok E" and ix: "merkle_instruction_ok ix" and run: "merkle_run E ix d = Inr d1"
    and d: "has_type E d NoRecord \<or> has_type E d TreeRecord"
  shows "has_type E d (fst (merkle_type ix))" and "has_type E d1 (snd (merkle_type ix))"
proof -
  obtain d0 where "initialize_tree [] = Inr d0" "tree_ok E d0" by (rule initialize_tree_correct [OF E])
  then have "tree_ok E d1" if "d = []" "ix = MInitialize" using run that by (simp add: merkle_run_def)
  moreover have "ix = MInitialize" if "d = []"
    using run that no_tree_no_leaf no_tree_no_set by (cases ix) (auto simp: merkle_run_def)
  moreover have "ix \<noteq> MInitialize" if "tree_ok E d"
    using run initialize_tree_correct that tree_ok_not_Nil [OF that] by (auto simp: merkle_run_def initialize_tree_def)
  ultimately show "has_type E d (fst (merkle_type ix))" "has_type E d1 (snd (merkle_type ix))"
    using d merkle_run_history(1) [OF E _ ix run] by (cases ix; auto)+
qed

section \<open>Typed stores\<close>

definition record_types :: "account_id \<Rightarrow> account_id \<Rightarrow> account_id \<Rightarrow> shard_type set" where
  "record_types R M owner =
     (if owner = R then {NoRecord, ConfigRecord, MembershipRecord}
      else if owner = M then {NoRecord, TreeRecord} else UNIV)"

definition store_typed :: "external \<Rightarrow> account_id \<Rightarrow> account_id \<Rightarrow> shards \<Rightarrow> bool" where
  "store_typed E R M s \<longleftrightarrow>
     (\<forall>k. snd k \<in> {R, M} \<longrightarrow> (\<exists>ty \<in> record_types R M (snd k). has_type E (shard s k) ty))"

lemma store_typedD:
  "store_typed E R M s \<Longrightarrow> snd k \<in> {R, M} \<Longrightarrow> \<exists>ty \<in> record_types R M (snd k). has_type E (shard s k) ty"
  unfolding store_typed_def by blast

lemma store_typed_upd:
  assumes "store_typed E R M s" and "snd k \<in> {R, M} \<Longrightarrow> \<exists>ty \<in> record_types R M (snd k). has_type E d ty"
  shows "store_typed E R M (s(k \<mapsto> d))"
  using assms by (auto simp: store_typed_def)

text \<open>A plan aims its writes at shards of its own program, and what it writes is well formed.\<close>

lemma plan_typed:
  assumes "plan_instruction E input ix = Inr p" and "instruction_ok ix" and "e \<in> set (effects p)"
  shows "effect_ok (effect_data e)"
    and "effect_type (effect_data e) \<noteq> None \<Longrightarrow> snd (effect_selector e) = self_account_id input"
  using assms
  by (cases ix; auto simp: plan_simps config_ok_def membership_ok_def config_sel_def membership_sel_def)+

lemma effect_records: "effect_type e = Some (a, b) \<Longrightarrow> b \<in> {NoRecord, ConfigRecord, MembershipRecord}"
  by (cases e) auto

lemma apply_typed:
  assumes "store_typed E R M s" and "apply_step E RegistrationGuest s \<lparr>effect_selector = k, effect_data = OfRegistration e\<rparr> = Inr s'"
    and "effect_ok e" and "effect_type e \<noteq> None \<Longrightarrow> snd k = R"
  shows "store_typed E R M s'"
proof -
  obtain post where post: "apply_effect E e (shard s k) = Inr post" "s' = (case post of None \<Rightarrow> s | Some d \<Rightarrow> s(k \<mapsto> d))"
    using assms(2) by (auto simp: result_simps)
  show ?thesis
  proof (cases post)
    case None
    then show ?thesis using post assms(1) by simp
  next
    case (Some d)
    then obtain a b where ab: "effect_type e = Some (a, b)" using inspect_typed [OF post(1)] by fastforce
    then have "has_type E d b" "b \<in> record_types R M (snd k)"
      using effect_typed(2) [OF post(1) assms(3) ab] effect_records [OF ab] assms(4) Some by (simp_all add: record_types_def)
    then show ?thesis using post Some by (auto intro: store_typed_upd [OF assms(1)])
  qed
qed

lemma merkle_store_typed:
  assumes "separate E R M" and "poseidon_ok E" and "store_typed E R M s"
    and "replay (Suc n) E (deployed R M) s M caller metas data = Inr s'"
  shows "store_typed E R M s'"
proof -
  obtain m ix d where m: "program_account_id m = M" "merkle_instruction_ok ix"
      "merkle_run E ix (shard s (meta_selector m)) = Inr d" "s' = s(meta_selector m \<mapsto> d)"
    using assms(4) unfolding replay_merkle by blast
  have owner: "snd (meta_selector m) = M" using m(1) by (simp add: meta_selector_def)
  have types: "record_types R M M = {NoRecord, TreeRecord}" using assms(1) by (auto simp: record_types_def separate_def)
  have "has_type E (shard s (meta_selector m)) NoRecord \<or> has_type E (shard s (meta_selector m)) TreeRecord"
    using store_typedD [OF assms(3), of "meta_selector m"] owner types by auto
  then have "has_type E d TreeRecord" using merkle_typed(2) [OF assms(2) m(2,3)] by (cases ix) simp_all
  then show ?thesis unfolding m(4) using owner types by (intro store_typed_upd [OF assms(3)]) auto
qed

section \<open>Every transaction keeps the types\<close>

lemma typed_transaction:
  assumes "separate E R M" and "poseidon_ok E" and "store_typed E R M s"
    and "replay n E (deployed R M) s pid caller metas data = Inr s'"
  shows "store_typed E R M s'"
  using assms(3,4)
proof (induction n arbitrary: s pid caller metas data s')
  case 0
  then show ?case by simp
next
  case (Suc n)
  consider "pid = M" | "pid = R" | "deployed R M pid = None" by (cases "pid = R"; cases "pid = M") simp_all
  then show ?case
  proof cases
    case 1
    then show ?thesis using merkle_store_typed [OF assms(1,2) Suc.prems(1)] Suc.prems(2) by blast
  next
    case 2
    then obtain ix q s1 where ix: "instruction_ok ix"
        "plan_instruction E \<lparr>self_account_id = R, caller_account_id = caller, accounts = metas, instruction_data = data\<rparr> ix = Inr q"
      and s1: "rfold (apply_step E RegistrationGuest) s (effects (map_plan OfRegistration q)) = Inr s1"
      and calls: "rfold (\<lambda>s2 call. if callee call = native_program E then Inr s2
          else replay n E (deployed R M) s2 (callee call) (Some R) (call_metas call) (call_data call))
        s1 (chained_calls (map_plan OfRegistration q)) = Inr s'"
      using Suc.prems(2) assms(1) by (auto simp: result_simps run_plan_registration)
    have "store_typed E R M s1"
    proof (rule rfold_invariant [of _ _ _ _ "store_typed E R M", OF s1 Suc.prems(1)])
      fix t x t'
      assume x: "x \<in> set (effects (map_plan OfRegistration q))" and t: "store_typed E R M t"
        and step: "apply_step E RegistrationGuest t x = Inr t'"
      from x obtain e where e: "e \<in> set (effects q)" "x = \<lparr>effect_selector = effect_selector e, effect_data = OfRegistration (effect_data e)\<rparr>"
        by (auto simp: map_plan_def)
      show "store_typed E R M t'"
        using apply_typed [OF t step [unfolded e(2)]] plan_typed [OF ix(2,1) e(1)] by simp
    qed
    then show ?thesis
      by (rule rfold_invariant [of _ _ _ _ "store_typed E R M", OF calls]) (auto split: if_splits intro: Suc.IH)
  next
    case 3
    then show ?thesis using Suc.prems(2) by simp
  qed
qed

section \<open>Reachable states\<close>

lemma reachable_typed:
  assumes "separate E R M" and "poseidon_ok E" and "reachable E R M T C s"
  shows "store_typed E R M s"
  using assms(3)
proof (induction rule: reachable.induct)
  case (reach_start s)
  then have "shard s k = []" if "snd k \<in> {R, M}" for k using that by blast
  then show ?case by (auto simp: store_typed_def record_types_def)
next
  case (reach_step s s')
  from reach_step(2) show ?case
  proof cases
    case (step_registration ix caller metas)
    then show ?thesis using typed_transaction [OF assms(1,2) reach_step(3)] by blast
  next
    case (step_merkle caller metas data)
    then show ?thesis using typed_transaction [OF assms(1,2) reach_step(3)] by blast
  next
    case step_foreign
    then show ?thesis using reach_step(3) unfolding store_typed_def by (metis insert_iff singletonD)
  qed
qed

lemma tree_address:
  assumes "separate E R M" and "poseidon_ok E" and "reachable E R M T C s"
  shows "shard s (tree_sel E R M t) = [] \<or> tree_ok E (shard s (tree_sel E R M t))"
proof -
  have "snd (tree_sel E R M t) = M" by (simp add: tree_sel_def)
  moreover have "record_types R M M = {NoRecord, TreeRecord}" using assms(1) by (auto simp: record_types_def separate_def)
  ultimately show ?thesis using store_typedD [OF reachable_typed [OF assms], of "tree_sel E R M t"] by auto
qed

text \<open>A transaction of a member leaves its address empty or with a membership.\<close>

lemma concerned_address:
  assumes sep: "separate E R M" and pc: "poseidon_canonical E" and ok: "instruction_ok ix" and con: "concerns t c ix"
    and run: "replay (Suc (Suc n)) E (deployed R M) s R caller metas (enc_instruction ix) = Inr s'"
  shows "shard s' (membership_sel E R t c) = [] \<or> (\<exists>m. has_member E R s' t c m)"
proof -
  have tree: "tree_called E R M k t mi s1 s' \<Longrightarrow> shard s' (membership_sel E R t c) = shard s1 (membership_sel E R t c)" for k mi s1
    using tree_called_writes sel_other(4) [OF sep] by metis
  show ?thesis
  proof (cases ix)
    case (Register t' c' l k now p d g)
    then obtain s1 mi where s1: "tree_called E R M k t mi s1 s'"
        "shard s1 (membership_sel E R t c) = enc_membership (new_membership c l now d g)"
      using run ok con tx_register [OF sep pc, of t c l k now p d g] by (auto simp del: replay.simps enc_instruction.simps)
    have "membership_ok (new_membership c l now d g)" using ok con Register by (simp add: new_membership_def membership_ok_def)
    then show ?thesis using tree [OF s1(1)] s1(2) by (auto simp: has_member_def)
  next
    case (Slash t' c' sec k i l)
    then obtain s1 mi where "tree_called E R M k t mi s1 s'" "shard s1 (membership_sel E R t c) = []"
      using run ok con tx_slash [OF sep pc, of t c sec k i l] by (auto simp del: replay.simps enc_instruction.simps)
    then show ?thesis using tree by simp
  next
    case (Extend t' c' now p l)
    then obtain m where "has_member E R s t c m" "s' = s(membership_sel E R t c \<mapsto> enc_membership (renewed m))"
      using run ok con tx_extend [OF sep, of t c now p l] by (auto simp del: replay.simps enc_instruction.simps)
    then have "has_member E R s' t c (renewed m)" by (simp add: has_member_def)
    then show ?thesis by blast
  next
    case (Erase t' c' k i l now)
    then obtain s1 mi where "tree_called E R M k t mi s1 s'" "shard s1 (membership_sel E R t c) = []"
      using run ok con tx_erase [OF sep pc, of t c k i l now] by (auto simp del: replay.simps enc_instruction.simps)
    then show ?thesis using tree by simp
  qed (use con in simp_all)
qed

lemma membership_address:
  assumes "separate E R M" and "poseidon_ok E" and "no_collision E R T C" and "t \<in> T" and "c \<in> C"
    and "reachable E R M T C s"
  shows "shard s (membership_sel E R t c) = [] \<or> (\<exists>m. has_member E R s t c m)"
  using assms(6)
proof (induction rule: reachable.induct)
  case (reach_start s)
  then show ?case by (simp add: membership_sel_def)
next
  case (reach_step s s')
  have pc: "poseidon_canonical E" using assms(2) by (simp add: poseidon_ok_def)
  show ?case
  proof (cases "shard s' (membership_sel E R t c) = shard s (membership_sel E R t c)")
    case True
    then show ?thesis using reach_step(3) by (auto simp: has_member_def)
  next
    case False
    show ?thesis
      by (rule membership_changed_by [OF assms(1) pc assms(3-5) reach_step(2) False]) (rule concerned_address [OF assms(1) pc])
  qed
qed

section \<open>Properties\<close>

text \<open>
  C9. The programs are well typed: every transaction, of any program and instruction bytes, by any caller
  and with any accounts, takes a typed store to a typed store. The registration program's shards hold
  nothing but empty data, configs and memberships, the merkle program's nothing but consistent trees.
\<close>

theorem transactions_keep_types:
  assumes "separate E R M" and "poseidon_ok E" and "store_typed E R M s"
    and "replay n E (deployed R M) s pid caller metas data = Inr s'"
  shows "store_typed E R M s'"
  using assms by (rule typed_transaction)

theorem transactions_keep_types_witness:
  "store_typed toy demo_R demo_M demo_registered"
proof -
  have "store_typed toy demo_R demo_M demo_ready"
    using reachable_typed [OF demo_separate toy_poseidon demo_reach_ready] .
  then show ?thesis
    using transactions_keep_types [OF demo_separate toy_poseidon _ demo_register_effect] by blast
qed

text \<open>
  C29. What is typed can be read: in every reachable state, whatever transactions led to it, the host's
  readers do not meet malformed bytes. The config of a tree is read, with the tree's id, unless its shard
  is empty; a membership is always read, as a record or as absent; on a tree that exists, searching a
  leaf, the accepted roots and the proof of every leaf index succeed.
\<close>

theorem reachable_states_are_readable:
  assumes "separate E R M" and "poseidon_ok E" and "no_collision E R T C" and "t \<in> T" and "c \<in> C"
    and "reachable E R M T C s" and "P = \<lparr>pi_registration = R, pi_merkle = M\<rparr>"
  shows "(shard s (config_sel E R t) = [] \<or> (\<exists>cfg. read_config E (shard s) P t = Inr cfg \<and> cs_tree_id cfg = t)) \<and>
    (\<exists>found. read_membership E (shard s) P t c = Inr found) \<and>
    (shard s (tree_sel E R M t) = [] \<or>
       (\<forall>leaf. \<exists>found. find_leaf_index (shard s (tree_sel E R M t)) leaf = Inr found) \<and>
       (\<exists>roots. fetch_root_history E (shard s) P t = Inr roots) \<and>
       (\<forall>i < 2 ^ TREE_DEPTH. \<exists>p. get_merkle_proof E (shard s) P t i = Inr p))"
proof (intro conjI)
  show "shard s (config_sel E R t) = [] \<or> (\<exists>cfg. read_config E (shard s) P t = Inr cfg \<and> cs_tree_id cfg = t)"
    using reachable_ok [OF assms(1-4,6)] by (auto simp: registry_ok_def assms(7) read_config_iff)
  show "\<exists>found. read_membership E (shard s) P t c = Inr found"
    using membership_address [OF assms(1-6)] read_membership_iff [of E s R M t c]
    by (auto simp: assms(7)) (auto simp: read_membership_def)
  show "shard s (tree_sel E R M t) = [] \<or>
       (\<forall>leaf. \<exists>found. find_leaf_index (shard s (tree_sel E R M t)) leaf = Inr found) \<and>
       (\<exists>roots. fetch_root_history E (shard s) P t = Inr roots) \<and>
       (\<forall>i < 2 ^ TREE_DEPTH. \<exists>p. get_merkle_proof E (shard s) P t i = Inr p)"
    using tree_address [OF assms(1,2,6), of t] find_leaf_index_ok fetch_root_history_ok [of E "shard s" R M t]
      merkle_proof_folds [of E "shard s (tree_sel E R M t)"]
    by (auto simp: assms(7) get_merkle_proof_def fetch_tree_shard_def) metis
qed

theorem reachable_states_are_readable_witness:
  "\<exists>found p. read_membership toy (shard demo_registered) \<lparr>pi_registration = demo_R, pi_merkle = demo_M\<rparr> demo_T demo_C = Inr found \<and>
     get_merkle_proof toy (shard demo_registered) \<lparr>pi_registration = demo_R, pi_merkle = demo_M\<rparr> demo_T 3 = Inr p"
  using reachable_states_are_readable [OF demo_separate toy_poseidon demo_no_collision _ _ demo_reachable(2) refl, of demo_T demo_C]
    tree_ok_not_Nil [OF demo_tree_ok] by (auto simp: TREE_DEPTH_def)

end
