(* ===== verification/Payments.thy ===== *)
theory Payments
  imports Interleaving ShardTypes
begin

text \<open>
  Payments. The harness skips native transfers; on the chain the native token program runs them. Here it
  is a parameter, of which only its documented behaviour is relied on (\<open>native_ok\<close>): it
  refuses an unauthorized sender, an insufficient balance and a receiver's balance past \<open>u128\<close>, and else
  moves the amount between the two balances. \<open>paid_replay\<close> is \<open>replay\<close> with the transfers run in their place among the calls.
\<close>

section \<open>The native token program\<close>

record native_token =
  native_run :: "shards \<Rightarrow> account_meta list \<Rightarrow> bytes \<Rightarrow> shards result"
  native_balance :: "bytes \<Rightarrow> nat"

definition balance :: "external \<Rightarrow> native_token \<Rightarrow> shards \<Rightarrow> account_id \<Rightarrow> nat" where
  "balance E N s a = native_balance N (shard s (native_sel E a))"

text \<open>An amount moved between two accounts: nothing is minted or burnt, also when they are the same.\<close>

definition moved :: "account_id \<Rightarrow> account_id \<Rightarrow> nat \<Rightarrow> (account_id \<Rightarrow> nat) \<Rightarrow> account_id \<Rightarrow> nat" where
  "moved a b n bal = (let less = bal(a := bal a - n) in less(b := less b + n))"

lemma moved_sel:
  "n \<le> bal a \<Longrightarrow> moved a b n bal b = (if a = b then bal b else bal b + n)"
  "a \<noteq> b \<Longrightarrow> moved a b n bal a = bal a - n"
  "x \<noteq> a \<Longrightarrow> x \<noteq> b \<Longrightarrow> moved a b n bal x = bal x"
  by (auto simp: moved_def Let_def)

lemma moved_total:
  assumes "finite A" and "a \<in> A" and "b \<in> A" and "n \<le> bal a"
  shows "sum (moved a b n bal) A = sum bal A"
proof -
  let ?less = "bal(a := bal a - n)"
  have "sum (moved a b n bal) A = (?less b + n) + sum ?less (A - {b})"
    using sum.remove [OF assms(1,3), of "moved a b n bal"] by (simp add: moved_def Let_def)
  also have "\<dots> = sum ?less A + n" using sum.remove [OF assms(1,3), of ?less] by simp
  also have "\<dots> = sum bal A"
    using sum.remove [OF assms(1,2), of ?less] sum.remove [OF assms(1,2), of bal] assms(4) by simp
  finally show ?thesis .
qed

text \<open>A transfer that the sender holds and that the receiver's \<open>u128\<close> can take.\<close>

definition affords :: "(account_id \<Rightarrow> nat) \<Rightarrow> account_id \<Rightarrow> account_id \<Rightarrow> nat \<Rightarrow> bool" where
  "affords bal a b n \<longleftrightarrow> n \<le> bal a \<and> moved a b n bal b < 2 ^ 128"

text \<open>It is enough that what the two accounts hold fits into a \<open>u128\<close>.\<close>

lemma affordsI:
  assumes "n \<le> bal a" and "sum bal {a, b} < 2 ^ 128"
  shows "affords bal a b n"
proof (cases "a = b")
  case True
  then show ?thesis using assms by (simp add: affords_def moved_sel)
next
  case False
  then have "bal a + bal b < 2 ^ 128" using assms(2) by simp
  then have "bal b + n < 2 ^ 128" using assms(1) by (rule_tac le_less_trans [of _ "bal a + bal b"]) simp_all
  then show ?thesis using assms(1) False by (simp add: affords_def moved_sel)
qed

definition native_metas :: "external \<Rightarrow> account_id \<Rightarrow> bool \<Rightarrow> account_id \<Rightarrow> bool \<Rightarrow> account_meta list" where
  "native_metas E a auth b other =
     [\<lparr>account_id = a, is_authorized = auth, program_account_id = native_program E\<rparr>,
      \<lparr>account_id = b, is_authorized = other, program_account_id = native_program E\<rparr>]"

definition same_elsewhere :: "external \<Rightarrow> shards \<Rightarrow> shards \<Rightarrow> bool" where
  "same_elsewhere E s s' \<longleftrightarrow> (\<forall>k. snd k \<noteq> native_program E \<longrightarrow> shard s' k = shard s k)"

definition native_ok :: "external \<Rightarrow> native_token \<Rightarrow> bool" where
  "native_ok E N \<longleftrightarrow>
     (\<forall>s a auth b other n.
        (auth \<and> affords (balance E N s) a b (unat n) \<longrightarrow>
           (\<exists>s'. native_run N s (native_metas E a auth b other) (native_transfer E n) = Inr s' \<and>
              balance E N s' = moved a b (unat n) (balance E N s) \<and> same_elsewhere E s s')) \<and>
        (\<not> auth \<or> \<not> affords (balance E N s) a b (unat n) \<longrightarrow>
           (\<exists>e. native_run N s (native_metas E a auth b other) (native_transfer E n) = Inl e)))"

lemma native_moves:
  assumes "native_ok E N" and "affords (balance E N s) a b (unat n)"
  shows "\<exists>s'. native_run N s (native_metas E a True b other) (native_transfer E n) = Inr s' \<and>
    balance E N s' = moved a b (unat n) (balance E N s) \<and> same_elsewhere E s s'"
  using assms unfolding native_ok_def by blast

lemma native_refuses:
  assumes "native_ok E N" and "\<not> auth \<or> \<not> affords (balance E N s) a b (unat n)"
  shows "\<exists>e. native_run N s (native_metas E a auth b other) (native_transfer E n) = Inl e"
  using assms unfolding native_ok_def by blast

section \<open>A transaction with its transfers\<close>

primrec paid_replay ::
  "nat \<Rightarrow> external \<Rightarrow> native_token \<Rightarrow> programs \<Rightarrow> shards \<Rightarrow> account_id \<Rightarrow> account_id option \<Rightarrow> account_meta list \<Rightarrow>
     bytes \<Rightarrow> shards result" where
  "paid_replay 0 E N programs s program_id caller metas data = Inl (Panic ''out of fuel'')"
| "paid_replay (Suc n) E N programs s program_id caller metas data =
     (case programs program_id of
        None \<Rightarrow> Inl (Panic ''no such program'')
      | Some g \<Rightarrow>
          rbind (run_plan E g \<lparr>self_account_id = program_id, caller_account_id = caller,
                               accounts = metas, instruction_data = data\<rparr>) (\<lambda>p.
          rbind (rfold (apply_step E g) s (effects p)) (\<lambda>s1.
          rfold (\<lambda>s2 call.
              if callee call = native_program E then native_run N s2 (call_metas call) (call_data call)
              else paid_replay n E N programs s2 (callee call) (Some program_id) (call_metas call) (call_data call))
            s1 (chained_calls p))))"

lemma payment_metas [simp]:
  "call_metas (payment E a b l p) = native_metas E a True b True"
  "call_data (payment E a b l p) = native_transfer E (calculate_payment_amount l p)"
  by (simp_all add: payment_def call_metas_def native_metas_def native_sel_def)

text \<open>What an instruction charges: a rate limit and a price per unit of it.\<close>

fun charged :: "instruction \<Rightarrow> (u64 \<times> u128) option" where
  "charged (Register t c l m n p d g) = Some (l, p)"
| "charged (Extend t c n p l) = Some (l, p)"
| "charged _ = None"

definition payments :: "external \<Rightarrow> account_meta list \<Rightarrow> instruction \<Rightarrow> chained_call list" where
  "payments E metas ix =
     (case charged ix of None \<Rightarrow> []
      | Some (l, p) \<Rightarrow> [payment E (account_id (metas ! 2)) (account_id (metas ! 3)) l p])"

definition tree_calls :: "external \<Rightarrow> account_id \<Rightarrow> instruction \<Rightarrow> chained_call list" where
  "tree_calls E R ix =
     (case (merkle_of ix, tree_instruction E ix) of
        (Some m, Some mi) \<Rightarrow> [to_merkle E R m (tree_of ix) mi] | _ \<Rightarrow> [])"

lemma plan_calls_shape:
  assumes "plan_instruction E input ix = Inr p"
  shows "chained_calls p = payments E (accounts input) ix @ tree_calls E (self_account_id input) ix"
    and "charged ix \<noteq> None \<Longrightarrow> is_authorized (accounts input ! 2)"
  using assms by (cases ix; auto simp: plan_simps payments_def tree_calls_def)+

lemma tree_instruction_ok: "poseidon_canonical E \<Longrightarrow> tree_instruction E ix = Some mi \<Longrightarrow> merkle_instruction_ok mi"
  using merkle_leaf_ix_ok by (cases ix) auto

text \<open>A call of the merkle program runs no transfer.\<close>

lemma paid_child:
  assumes "separate E R M" and "merkle_instruction_ok mi"
  shows "paid_replay (Suc n) E N (deployed R M) s m caller metas (enc_merkle_instruction mi) =
    replay (Suc n) E (deployed R M) s m caller metas (enc_merkle_instruction mi)"
proof -
  let ?in = "\<lparr>self_account_id = m, caller_account_id = caller, accounts = metas, instruction_data = enc_merkle_instruction mi\<rparr>"
  consider "m = R" | "m = M" | "deployed R M m = None" by (cases "m = R"; cases "m = M") simp_all
  then show ?thesis
  proof cases
    case 1
    then show ?thesis using assms merkle_data_not_registration by (simp add: run_plan.simps)
  next
    case 2
    then show ?thesis
      using merkle_calls_nothing [of E ?in] by (cases "run_plan E MerkleGuest ?in") simp_all
  next
    case 3
    then show ?thesis by simp
  qed
qed

section \<open>The calls of a transaction\<close>

definition tree_part :: "external \<Rightarrow> account_id \<Rightarrow> account_id \<Rightarrow> instruction \<Rightarrow> shards \<Rightarrow> shards \<Rightarrow> bool" where
  "tree_part E R M ix s s' \<longleftrightarrow>
     (case (merkle_of ix, tree_instruction E ix) of
        (Some m, Some mi) \<Rightarrow> tree_called E R M m (tree_of ix) mi s s' | _ \<Rightarrow> s' = s)"

lemma tree_calls_run:
  assumes "separate E R M" and "poseidon_canonical E"
  shows "rfold (\<lambda>s2 call. if callee call = native_program E then Inr s2
        else replay (Suc n) E (deployed R M) s2 (callee call) (Some R) (call_metas call) (call_data call))
      s (tree_calls E R ix) = Inr s' \<longleftrightarrow> tree_part E R M ix s s'"
proof (cases "merkle_of ix = None \<or> tree_instruction E ix = None")
  case True
  then show ?thesis by (auto simp: tree_calls_def tree_part_def split: option.splits)
next
  case False
  then obtain m mi where m: "merkle_of ix = Some m" "tree_instruction E ix = Some mi" by auto
  then show ?thesis
    using call_tree [OF assms(1) tree_instruction_ok [OF assms(2) m(2)], of m "tree_of ix" s n "Some R" s']
    by (auto simp: tree_calls_def tree_part_def result_simps simp del: replay.simps)
qed

lemma paid_tree_calls:
  assumes "separate E R M" and "poseidon_canonical E" and "merkle_of ix \<noteq> Some (native_program E)"
  shows "rfold (\<lambda>s2 call. if callee call = native_program E then native_run N s2 (call_metas call) (call_data call)
        else paid_replay (Suc n) E N (deployed R M) s2 (callee call) (Some R) (call_metas call) (call_data call))
      s (tree_calls E R ix) = Inr s' \<longleftrightarrow> tree_part E R M ix s s'"
proof -
  have "rfold (\<lambda>s2 call. if callee call = native_program E then native_run N s2 (call_metas call) (call_data call)
        else paid_replay (Suc n) E N (deployed R M) s2 (callee call) (Some R) (call_metas call) (call_data call))
      s (tree_calls E R ix) =
    rfold (\<lambda>s2 call. if callee call = native_program E then Inr s2
        else replay (Suc n) E (deployed R M) s2 (callee call) (Some R) (call_metas call) (call_data call))
      s (tree_calls E R ix)"
    by (rule rfold_cong)
      (use assms(3) paid_child [OF assms(1) tree_instruction_ok [OF assms(2)]] in
        \<open>auto simp: tree_calls_def split: option.splits simp del: replay.simps paid_replay.simps\<close>)
  then show ?thesis using tree_calls_run [OF assms(1,2)] by simp
qed

lemma native_not_tree: "separate E R M \<Longrightarrow> native_sel E a \<noteq> tree_sel E R M t"
  by (auto simp: native_sel_def tree_sel_def separate_def)

text \<open>The tree's part reads and writes the tree alone, so it does not see a transfer.\<close>

lemma tree_part_elsewhere:
  assumes "separate E R M" and "tree_part E R M ix s s'" and "same_elsewhere E s t" and "merkle_of ix \<noteq> Some (native_program E)"
  shows "\<exists>t'. tree_part E R M ix t t' \<and> same_elsewhere E s' t' \<and> balance E N t' = balance E N t"
proof (cases "s' = s \<and> (merkle_of ix = None \<or> tree_instruction E ix = None)")
  case True
  then show ?thesis using assms(3) by (auto simp: tree_part_def split: option.splits)
next
  case False
  then obtain m mi where m: "merkle_of ix = Some m" "tree_instruction E ix = Some mi"
    using assms(2) by (auto simp: tree_part_def split: option.splits)
  then obtain d where d: "m = M" "merkle_run E mi (shard s (tree_sel E R M (tree_of ix))) = Inr d" "s' = s(tree_sel E R M (tree_of ix) \<mapsto> d)"
    using assms(2,4) by (auto simp: tree_part_def tree_called_def)
  have "snd (tree_sel E R M (tree_of ix)) \<noteq> native_program E" using assms(1) by (simp add: tree_sel_def separate_def)
  then have "shard t (tree_sel E R M (tree_of ix)) = shard s (tree_sel E R M (tree_of ix))"
    using assms(3) unfolding same_elsewhere_def by blast
  then have "tree_part E R M ix t (t(tree_sel E R M (tree_of ix) \<mapsto> d))"
    using m d by (auto simp: tree_part_def tree_called_def)
  moreover have "same_elsewhere E s' (t(tree_sel E R M (tree_of ix) \<mapsto> d))" using assms(3) d(3) by (simp add: same_elsewhere_def)
  moreover have "balance E N (t(tree_sel E R M (tree_of ix) \<mapsto> d)) = balance E N t"
    using native_not_tree [OF assms(1)] by (auto simp: balance_def)
  ultimately show ?thesis by blast
qed

lemma tree_part_functional: "tree_part E R M ix s a \<Longrightarrow> tree_part E R M ix s b \<Longrightarrow> separate E R M \<Longrightarrow> a = b"
  by (auto simp: tree_part_def tree_called_def separate_def split: option.splits)

section \<open>Running a transaction with and without its transfer\<close>

definition own_part ::
  "external \<Rightarrow> account_id \<Rightarrow> account_id option \<Rightarrow> account_meta list \<Rightarrow> instruction \<Rightarrow> shards \<Rightarrow> shards \<Rightarrow> bool" where
  "own_part E R caller metas ix s s1 \<longleftrightarrow>
     (\<exists>p. plan_instruction E \<lparr>self_account_id = R, caller_account_id = caller, accounts = metas,
          instruction_data = enc_instruction ix\<rparr> ix = Inr p \<and>
        rfold (apply_step E RegistrationGuest) s (effects (map_plan OfRegistration p)) = Inr s1)"

lemma replay_parts:
  assumes "separate E R M" and "poseidon_canonical E" and "instruction_ok ix"
  shows "replay (Suc (Suc n)) E (deployed R M) s R caller metas (enc_instruction ix) = Inr s' \<longleftrightarrow>
    (\<exists>s1. own_part E R caller metas ix s s1 \<and> tree_part E R M ix s1 s')"
proof -
  let ?f = "\<lambda>s2 call. if callee call = native_program E then Inr s2
      else replay (Suc n) E (deployed R M) s2 (callee call) (Some R) (call_metas call) (call_data call)"
  have "rfold ?f s1 (payments E metas ix) = Inr s1" for s1 by (auto simp: payments_def split: option.splits)
  then have "rfold ?f s1 (chained_calls p) = Inr s' \<longleftrightarrow> tree_part E R M ix s1 s'"
    if "plan_instruction E \<lparr>self_account_id = R, caller_account_id = caller, accounts = metas,
          instruction_data = enc_instruction ix\<rparr> ix = Inr p" for p s1
    using plan_calls_shape(1) [OF that] tree_calls_run [OF assms(1,2), of n s1 ix s'] by (simp add: rfold_append)
  then show ?thesis unfolding replay_registration [OF assms(1,3)] own_part_def by blast
qed

definition pay_part :: "external \<Rightarrow> native_token \<Rightarrow> account_meta list \<Rightarrow> instruction \<Rightarrow> shards \<Rightarrow> shards \<Rightarrow> bool" where
  "pay_part E N metas ix s s' \<longleftrightarrow>
     (case charged ix of None \<Rightarrow> s' = s
      | Some (l, p) \<Rightarrow> native_run N s (native_metas E (account_id (metas ! 2)) True (account_id (metas ! 3)) True)
          (native_transfer E (calculate_payment_amount l p)) = Inr s')"

lemma paid_parts:
  assumes "separate E R M" and "poseidon_canonical E" and "instruction_ok ix" and "merkle_of ix \<noteq> Some (native_program E)"
  shows "paid_replay (Suc (Suc n)) E N (deployed R M) s R caller metas (enc_instruction ix) = Inr s' \<longleftrightarrow>
    (\<exists>s1 s2. own_part E R caller metas ix s s1 \<and> pay_part E N metas ix s1 s2 \<and> tree_part E R M ix s2 s')"
proof -
  let ?f = "\<lambda>s2 call. if callee call = native_program E then native_run N s2 (call_metas call) (call_data call)
      else paid_replay (Suc n) E N (deployed R M) s2 (callee call) (Some R) (call_metas call) (call_data call)"
  have pay: "rfold ?f s1 (payments E metas ix) = Inr s2 \<longleftrightarrow> pay_part E N metas ix s1 s2" for s1 s2
    by (auto simp: payments_def pay_part_def result_simps simp del: paid_replay.simps split: option.splits)
  have "rfold ?f s1 (chained_calls p) = Inr s' \<longleftrightarrow> (\<exists>s2. pay_part E N metas ix s1 s2 \<and> tree_part E R M ix s2 s')"
    if "plan_instruction E \<lparr>self_account_id = R, caller_account_id = caller, accounts = metas,
          instruction_data = enc_instruction ix\<rparr> ix = Inr p" for p s1
    using plan_calls_shape(1) [OF that] pay paid_tree_calls [OF assms(1,2,4), of N n _ s']
    by (simp add: rfold_append rbind_Inr_iff del: paid_replay.simps)
  moreover have "paid_replay (Suc (Suc n)) E N (deployed R M) s R caller metas (enc_instruction ix) = Inr s' \<longleftrightarrow>
    (\<exists>p s1. plan_instruction E \<lparr>self_account_id = R, caller_account_id = caller, accounts = metas,
        instruction_data = enc_instruction ix\<rparr> ix = Inr p \<and>
      rfold (apply_step E RegistrationGuest) s (effects (map_plan OfRegistration p)) = Inr s1 \<and>
      rfold ?f s1 (chained_calls p) = Inr s')"
    using assms(1,3) by (auto simp: run_plan.simps instruction_codec.from_slice_enc result_simps map_plan_def)
  ultimately show ?thesis unfolding own_part_def by blast
qed

lemma own_part_balance:
  assumes "separate E R M" and "instruction_ok ix" and "own_part E R caller metas ix s s1"
  shows "balance E N s1 = balance E N s"
proof -
  from assms(3) obtain p where p: "plan_instruction E \<lparr>self_account_id = R, caller_account_id = caller, accounts = metas,
        instruction_data = enc_instruction ix\<rparr> ix = Inr p"
      "rfold (apply_step E RegistrationGuest) s (effects (map_plan OfRegistration p)) = Inr s1"
    by (auto simp: own_part_def)
  show ?thesis
  proof (rule rfold_invariant [of _ _ _ _ "\<lambda>t. balance E N t = balance E N s", OF p(2)])
    fix t x t'
    assume x: "x \<in> set (effects (map_plan OfRegistration p))" and t: "balance E N t = balance E N s"
      and step: "apply_step E RegistrationGuest t x = Inr t'"
    from x obtain e where e: "e \<in> set (effects p)" "x = \<lparr>effect_selector = effect_selector e, effect_data = OfRegistration (effect_data e)\<rparr>"
      by (auto simp: map_plan_def)
    obtain post where post: "apply_effect E (effect_data e) (shard t (effect_selector e)) = Inr post"
        "t' = (case post of None \<Rightarrow> t | Some d \<Rightarrow> t(effect_selector e \<mapsto> d))"
      using step by (auto simp: e(2) result_simps)
    show "balance E N t' = balance E N s"
    proof (cases post)
      case (Some d)
      then have "snd (effect_selector e) = R"
        using plan_typed(2) [OF p(1) assms(2) e(1)] inspect_typed [OF post(1)] by fastforce
      then have "native_sel E a \<noteq> effect_selector e" for a
        using assms(1) by (cases "effect_selector e") (auto simp: native_sel_def separate_def)
      then have "balance E N (t(effect_selector e \<mapsto> d)) = balance E N t" by (simp add: balance_def fun_eq_iff)
      then show ?thesis using t post(2) Some by simp
    qed (use t post in simp)
  qed simp
qed

text \<open>What an accepted transaction charges is the config's price for the rate, to the config's treasury.\<close>

lemma charged_terms:
  assumes "separate E R M" and "poseidon_canonical E" and "instruction_ok ix" and "charged ix = Some (l, p)"
    and "replay (Suc (Suc n)) E (deployed R M) s R caller metas (enc_instruction ix) = Inr s'"
  shows "\<exists>cfg. has_config E R s (tree_of ix) cfg \<and> cs_price_per_unit cfg = p \<and> cs_treasury_account_id cfg = account_id (metas ! 3) \<and>
    is_authorized (metas ! 2)"
proof (cases ix)
  case (Register t c l' m now p' d g)
  then show ?thesis
    using assms(3-5) tx_register [OF assms(1,2), of t c l' m now p' d g] by (auto simp del: replay.simps enc_instruction.simps)
next
  case (Extend t c now p' l')
  then show ?thesis
    using assms(3-5) tx_extend [OF assms(1), of t c now p' l'] by (auto simp del: replay.simps enc_instruction.simps)
qed (use assms(4) in simp_all)

text \<open>The transfer of a transaction, from what is documented of the native program.\<close>

lemma pay_part_effect:
  assumes "native_ok E N" and "pay_part E N metas ix s s'"
  shows "same_elsewhere E s s'"
    and "case charged ix of None \<Rightarrow> s' = s
      | Some (l, p) \<Rightarrow> affords (balance E N s) (account_id (metas ! 2)) (account_id (metas ! 3)) (unat (calculate_payment_amount l p)) \<and>
          balance E N s' = moved (account_id (metas ! 2)) (account_id (metas ! 3)) (unat (calculate_payment_amount l p)) (balance E N s)"
proof -
  have "same_elsewhere E s s' \<and> (case charged ix of None \<Rightarrow> s' = s
      | Some (l, p) \<Rightarrow> affords (balance E N s) (account_id (metas ! 2)) (account_id (metas ! 3)) (unat (calculate_payment_amount l p)) \<and>
          balance E N s' = moved (account_id (metas ! 2)) (account_id (metas ! 3)) (unat (calculate_payment_amount l p)) (balance E N s))"
  proof (cases "charged ix")
    case None
    then show ?thesis using assms(2) by (simp add: pay_part_def same_elsewhere_def)
  next
    case (Some lp)
    obtain l p where lp: "lp = (l, p)" by (cases lp)
    let ?n = "calculate_payment_amount l p" and ?a = "account_id (metas ! 2)" and ?b = "account_id (metas ! 3)"
    have run: "native_run N s (native_metas E ?a True ?b True) (native_transfer E ?n) = Inr s'"
      using assms(2) Some lp by (simp add: pay_part_def)
    then have "affords (balance E N s) ?a ?b (unat ?n)"
      using native_refuses [OF assms(1), of True s ?a ?b ?n True] by (metis sum.distinct(1))
    then show ?thesis using native_moves [OF assms(1), of s ?a ?b ?n True] run Some lp by auto
  qed
  then show "same_elsewhere E s s'" and "case charged ix of None \<Rightarrow> s' = s
      | Some (l, p) \<Rightarrow> affords (balance E N s) (account_id (metas ! 2)) (account_id (metas ! 3)) (unat (calculate_payment_amount l p)) \<and>
          balance E N s' = moved (account_id (metas ! 2)) (account_id (metas ! 3)) (unat (calculate_payment_amount l p)) (balance E N s)"
    by simp_all
qed

text \<open>
  The balances after a transaction: with nothing charged they are as before, else the config's price for
  the rate limit has moved from the third account, which signed and held it, to the config's treasury.
\<close>

definition paid_as_charged ::
  "external \<Rightarrow> native_token \<Rightarrow> account_id \<Rightarrow> account_meta list \<Rightarrow> instruction \<Rightarrow> shards \<Rightarrow> shards \<Rightarrow> bool" where
  "paid_as_charged E N R metas ix s s' \<longleftrightarrow>
     (case charged ix of None \<Rightarrow> balance E N s' = balance E N s
      | Some (l, p) \<Rightarrow> is_authorized (metas ! 2) \<and>
          (\<exists>cfg. has_config E R s (tree_of ix) cfg \<and> cs_price_per_unit cfg = p \<and>
             affords (balance E N s) (account_id (metas ! 2)) (cs_treasury_account_id cfg)
               (unat (calculate_payment_amount l p)) \<and>
             balance E N s' = moved (account_id (metas ! 2)) (cs_treasury_account_id cfg)
               (unat (calculate_payment_amount l p)) (balance E N s)))"

lemma paid_outcome:
  assumes "separate E R M" and "poseidon_canonical E" and "native_ok E N" and "instruction_ok ix"
    and "merkle_of ix \<noteq> Some (native_program E)" and "own_part E R caller metas ix s s1"
    and "pay_part E N metas ix s1 s2" and "tree_part E R M ix s2 s'" and "balance E N s1 = balance E N s"
  shows "\<exists>s0. replay (Suc (Suc 0)) E (deployed R M) s R caller metas (enc_instruction ix) = Inr s0 \<and> same_elsewhere E s0 s' \<and>
        paid_as_charged E N R metas ix s s'"
proof -
  note pay = pay_part_effect [OF assms(3,7)]
  have sym: "same_elsewhere E a b \<Longrightarrow> same_elsewhere E b a" for a b by (simp add: same_elsewhere_def)
  obtain s0 where s0: "tree_part E R M ix s1 s0" "same_elsewhere E s' s0"
    using tree_part_elsewhere [OF assms(1,8) sym [OF pay(1)] assms(5), of N] by blast
  obtain s'' where "tree_part E R M ix s2 s''" "balance E N s'' = balance E N s2"
    using tree_part_elsewhere [OF assms(1) s0(1) pay(1) assms(5), of N] by blast
  then have bal: "balance E N s' = balance E N s2" using tree_part_functional [OF _ assms(8,1)] by blast
  have run: "replay (Suc (Suc 0)) E (deployed R M) s R caller metas (enc_instruction ix) = Inr s0"
    using replay_parts [OF assms(1,2,4)] assms(6) s0(1) by blast
  show ?thesis
    using run sym [OF s0(2)] pay(2) bal assms(9) charged_terms [OF assms(1,2,4) _ run]
    unfolding paid_as_charged_def by (cases "charged ix") fastforce+
qed

lemma paid_run_outcome:
  assumes "separate E R M" and "poseidon_canonical E" and "native_ok E N" and "instruction_ok ix"
    and "merkle_of ix \<noteq> Some (native_program E)"
    and "paid_replay (Suc (Suc 0)) E N (deployed R M) s R caller metas (enc_instruction ix) = Inr s'"
  shows "\<exists>s0. replay (Suc (Suc 0)) E (deployed R M) s R caller metas (enc_instruction ix) = Inr s0 \<and> same_elsewhere E s0 s' \<and>
        paid_as_charged E N R metas ix s s'"
proof -
  obtain s1 s2 where parts: "own_part E R caller metas ix s s1" "pay_part E N metas ix s1 s2" "tree_part E R M ix s2 s'"
    using assms(6) paid_parts [OF assms(1,2,4,5)] by blast
  show ?thesis by (rule paid_outcome [OF assms(1-5) parts own_part_balance [OF assms(1,4) parts(1)]])
qed

lemma paid_accepted:
  assumes "separate E R M" and "poseidon_canonical E" and "native_ok E N" and "instruction_ok ix"
    and "merkle_of ix \<noteq> Some (native_program E)"
    and "replay (Suc (Suc 0)) E (deployed R M) s R caller metas (enc_instruction ix) = Inr s0"
    and "\<And>l p. charged ix = Some (l, p) \<Longrightarrow>
      affords (balance E N s) (account_id (metas ! 2)) (account_id (metas ! 3)) (unat (calculate_payment_amount l p))"
  shows "\<exists>s'. paid_replay (Suc (Suc 0)) E N (deployed R M) s R caller metas (enc_instruction ix) = Inr s'"
proof -
  obtain s1 where s1: "own_part E R caller metas ix s s1" "tree_part E R M ix s1 s0"
    using assms(6) replay_parts [OF assms(1,2,4)] by blast
  note own = own_part_balance [OF assms(1,4) s1(1), of N]
  have "\<exists>s2. pay_part E N metas ix s1 s2"
  proof (cases "charged ix")
    case (Some lp)
    obtain l p where lp: "lp = (l, p)" by (cases lp)
    show ?thesis using native_moves [OF assms(3), of s1 _ _ "calculate_payment_amount l p" True] assms(7) own Some lp
      by (fastforce simp: pay_part_def)
  qed (simp add: pay_part_def)
  then obtain s2 where s2: "pay_part E N metas ix s1 s2" by blast
  obtain s' where "tree_part E R M ix s2 s'"
    using tree_part_elsewhere [OF assms(1) s1(2) pay_part_effect(1) [OF assms(3) s2] assms(5)] by blast
  then show ?thesis using paid_parts [OF assms(1,2,4,5)] s1(1) s2 by blast
qed

section \<open>Properties\<close>

text \<open>
  C3. A transaction on the chain is its replay and its transfer. When it is accepted, every shard but the
  native balances is as the replay without transfers leaves it, and the balances moved by exactly the
  config's price for the rate limit, from the payer, who signed and held it, to the config's treasury;
  with nothing to charge no balance changes. A payer who holds less is refused, as is a transfer that the
  treasury's \<open>u128\<close> could not take, and any other is not refused for the payment.
\<close>

theorem paid_transaction_charges:
  assumes "separate E R M" and "poseidon_canonical E" and "native_ok E N" and "instruction_ok ix"
    and "merkle_of ix \<noteq> Some (native_program E)"
  shows "(\<forall>s'. paid_replay 2 E N (deployed R M) s R caller metas (enc_instruction ix) = Inr s' \<longrightarrow>
      (\<exists>s0. replay 2 E (deployed R M) s R caller metas (enc_instruction ix) = Inr s0 \<and> same_elsewhere E s0 s' \<and>
        paid_as_charged E N R metas ix s s')) \<and>
    (\<forall>s0. replay 2 E (deployed R M) s R caller metas (enc_instruction ix) = Inr s0 \<longrightarrow>
      (\<forall>l p. charged ix = Some (l, p) \<longrightarrow>
         affords (balance E N s) (account_id (metas ! 2)) (account_id (metas ! 3)) (unat (calculate_payment_amount l p))) \<longrightarrow>
      (\<exists>s'. paid_replay 2 E N (deployed R M) s R caller metas (enc_instruction ix) = Inr s'))"
proof (intro conjI allI impI)
  fix s'
  assume "paid_replay 2 E N (deployed R M) s R caller metas (enc_instruction ix) = Inr s'"
  then show "\<exists>s0. replay 2 E (deployed R M) s R caller metas (enc_instruction ix) = Inr s0 \<and> same_elsewhere E s0 s' \<and>
        paid_as_charged E N R metas ix s s'"
    using paid_run_outcome [OF assms, of s caller metas s', folded numeral_2_eq_2] by blast
next
  fix s0
  assume run: "replay 2 E (deployed R M) s R caller metas (enc_instruction ix) = Inr s0"
    and funds: "\<forall>l p. charged ix = Some (l, p) \<longrightarrow>
         affords (balance E N s) (account_id (metas ! 2)) (account_id (metas ! 3)) (unat (calculate_payment_amount l p))"
  show "\<exists>s'. paid_replay 2 E N (deployed R M) s R caller metas (enc_instruction ix) = Inr s'"
    using paid_accepted [OF assms run [unfolded numeral_2_eq_2]] funds unfolding numeral_2_eq_2 by blast
qed

text \<open>A native program on the concrete externals: a balance is the length of its shard.\<close>

definition toy_native :: native_token where
  "toy_native = \<lparr>native_run = (\<lambda>s metas data.
       case metas of
         [p, q] \<Rightarrow>
           let n = unat (u128_of data); held = length (shard s (meta_selector p));
               s1 = s(meta_selector p \<mapsto> replicate (held - n) 0)
           in if is_authorized p \<and> n \<le> held \<and> length (shard s1 (meta_selector q)) + n < 2 ^ 128
              then Inr (s1(meta_selector q \<mapsto> replicate (length (shard s1 (meta_selector q)) + n) 0))
              else Inl (Panic ''transfer refused'')
       | _ \<Rightarrow> Inl (Panic ''transfer takes two accounts'')),
     native_balance = length\<rparr>"

definition toy_moved :: "account_id \<Rightarrow> account_id \<Rightarrow> nat \<Rightarrow> shards \<Rightarrow> shards" where
  "toy_moved a b n s =
     (let s1 = s(native_sel toy a \<mapsto> replicate (balance toy toy_native s a - n) 0)
      in s1(native_sel toy b \<mapsto> replicate (balance toy toy_native s1 b + n) 0))"

lemma toy_native_run:
  "native_run toy_native s (native_metas toy a auth b other) (native_transfer toy n) =
     (if auth \<and> affords (balance toy toy_native s) a b (unat n) then Inr (toy_moved a b (unat n) s)
      else Inl (Panic ''transfer refused''))"
proof -
  have "native_transfer toy n = u128_le n" by (simp add: toy_def)
  moreover have "meta_selector \<lparr>account_id = x, is_authorized = w, program_account_id = native_program toy\<rparr> = native_sel toy x" for x w
    by (simp add: meta_selector_def native_sel_def)
  moreover have "native_balance toy_native d = length d" for d by (simp add: toy_native_def)
  moreover have "native_sel toy x = native_sel toy y \<longleftrightarrow> x = y" for x y by (simp add: native_sel_def)
  ultimately show ?thesis
    by (auto simp: toy_native_def native_metas_def balance_def toy_moved_def affords_def moved_def Let_def)
qed

lemma toy_moved_balance: "balance toy toy_native (toy_moved a b n s) = moved a b n (balance toy toy_native s)"
proof -
  have "native_balance toy_native d = length d" for d by (simp add: toy_native_def)
  moreover have "native_sel toy x = native_sel toy y \<longleftrightarrow> x = y" for x y by (simp add: native_sel_def)
  ultimately show ?thesis by (auto simp: toy_moved_def moved_def balance_def Let_def)
qed

lemma toy_native_ok: "native_ok toy toy_native"
proof -
  have "same_elsewhere toy s (toy_moved a b n s)" for s a b n
    by (auto simp: same_elsewhere_def toy_moved_def Let_def native_sel_def)
  then show ?thesis by (auto simp: native_ok_def toy_native_run toy_moved_balance)
qed

definition demo_funded :: "nat \<Rightarrow> shards" where
  "demo_funded n = demo_ready(native_sel toy demo_payer \<mapsto> replicate n 0)"

lemma demo_native_apart [simp]:
  "native_sel toy a \<noteq> config_sel toy demo_R t" "native_sel toy a \<noteq> tree_sel toy demo_R demo_M t"
  "native_sel toy a \<noteq> membership_sel toy demo_R t c"
  "config_sel toy demo_R t \<noteq> native_sel toy a" "tree_sel toy demo_R demo_M t \<noteq> native_sel toy a"
  "membership_sel toy demo_R t c \<noteq> native_sel toy a"
  using demo_separate by (auto simp: native_sel_def config_sel_def tree_sel_def membership_sel_def separate_def)

lemma demo_native_clock [simp]: "native_sel toy a \<noteq> clock_sel toy" "clock_sel toy \<noteq> native_sel toy a"
proof -
  have "toy_sha (BUILTIN_PROGRAM_NAME_PREFIX @ ascii ''clock'') ! 0 = 88" by code_simp
  then have "toy_sha (BUILTIN_PROGRAM_NAME_PREFIX @ ascii ''clock'') \<noteq> replicate 32 9" by auto
  then show "native_sel toy a \<noteq> clock_sel toy" "clock_sel toy \<noteq> native_sel toy a"
    by (auto simp: native_sel_def clock_sel_def toy_def)
qed

lemma demo_no_native: "shard demo_ready (native_sel toy a) = []"
  by (simp add: demo_ready_def demo_configured_def demo_empty_def) (simp add: shard_def)

lemma demo_funded_ready:
  "shard (demo_funded n) (config_sel toy demo_R demo_T) = enc_config demo_cfg"
  "shard (demo_funded n) (tree_sel toy demo_R demo_M demo_T) = fresh_tree"
  "shard (demo_funded n) (membership_sel toy demo_R demo_T demo_C) = []"
  "balance toy toy_native (demo_funded n) demo_payer = n"
  "clock_ok toy (demo_funded n) demo_now" "has_config toy demo_R (demo_funded n) demo_T demo_cfg"
proof -
  show cfg: "shard (demo_funded n) (config_sel toy demo_R demo_T) = enc_config demo_cfg"
    using demo_has_config(2) by (simp add: demo_funded_def has_config_def)
  then show "has_config toy demo_R (demo_funded n) demo_T demo_cfg" by (simp add: has_config_def)
  show "clock_ok toy (demo_funded n) demo_now"
    using demo_clock_ok(1) by (simp add: demo_funded_def clock_ok_def demo_empty_def)
qed (simp_all add: demo_funded_def balance_def toy_native_def)

lemma demo_funded_register:
  "\<exists>s0. replay 2 toy (deployed demo_R demo_M) (demo_funded n) demo_R None demo_register_metas (enc_instruction demo_register) = Inr s0"
proof -
  let ?s1 = "(demo_funded n)(config_sel toy demo_R demo_T \<mapsto> enc_config (counted demo_cfg 200),
     membership_sel toy demo_R demo_T demo_C \<mapsto> enc_membership demo_member)"
  have call: "tree_called toy demo_R demo_M demo_M demo_T (MInsert (membership_leaf toy demo_C 200)) ?s1
      (?s1(tree_sel toy demo_R demo_M demo_T \<mapsto> demo_tree))"
    using demo_insert demo_funded_ready(2) by (simp add: tree_called_def merkle_run_def demo_leaf_def)
  have cfg: "cs_tree_id demo_cfg = demo_T" "cs_merkle_program_id demo_cfg = demo_M" "cs_price_per_unit demo_cfg = 10"
    "cs_treasury_account_id demo_cfg = demo_treasury" "cs_active_duration_sec demo_cfg = 100"
    "cs_grace_period_duration_sec demo_cfg = 50" by (simp_all add: demo_cfg_def)
  have cap: "can_register demo_cfg 200" "MIN_RATE_LIMIT \<le> 200" "200 \<le> MAX_RATE_LIMIT"
    by (simp_all add: can_register_def demo_cfg_def sat_add_def MIN_RATE_LIMIT_def MAX_RATE_LIMIT_def)
  have "fst (native_sel toy demo_treasury) = demo_treasury" by (simp add: native_sel_def)
  then have "replay 2 toy (deployed demo_R demo_M) (demo_funded n) demo_R None demo_register_metas (enc_instruction demo_register) =
      Inr (?s1(tree_sel toy demo_R demo_M demo_T \<mapsto> demo_tree))"
    unfolding numeral_2_eq_2 demo_register_def
    by (subst tx_register [OF demo_separate toy_canonical])
      (use call cfg cap demo_funded_ready(3,5,6) in
        \<open>auto simp: demo_register_metas_def demo_member_def demo_instructions_ok(3) [unfolded demo_register_def]\<close>)
  then show ?thesis by blast
qed

lemma demo_funded_affords:
  "balance toy toy_native (demo_funded n) demo_treasury = 0"
  "2000 \<le> n \<Longrightarrow> n < 2 ^ 128 \<Longrightarrow> affords (balance toy toy_native (demo_funded n)) demo_payer demo_treasury 2000"
proof -
  have ids: "demo_payer \<noteq> demo_treasury" by (simp add: demo_ids)
  then have "native_sel toy demo_treasury \<noteq> native_sel toy demo_payer" by (simp add: native_sel_def)
  then show empty: "balance toy toy_native (demo_funded n) demo_treasury = 0"
    using demo_no_native by (simp add: balance_def demo_funded_def toy_native_def)
  show "affords (balance toy toy_native (demo_funded n)) demo_payer demo_treasury 2000" if "2000 \<le> n" "n < 2 ^ 128"
    by (rule affordsI) (use that demo_funded_ready(4) [of n] empty ids in simp_all)
qed

theorem paid_transaction_charges_witness:
  "\<exists>s'. paid_replay 2 toy toy_native (deployed demo_R demo_M) (demo_funded 5000) demo_R None demo_register_metas
      (enc_instruction demo_register) = Inr s' \<and>
     balance toy toy_native s' demo_payer = 3000 \<and> balance toy toy_native s' demo_treasury = 2000"
proof -
  let ?pay = "paid_replay 2 toy toy_native (deployed demo_R demo_M) (demo_funded 5000) demo_R None demo_register_metas (enc_instruction demo_register)"
  have m: "merkle_of demo_register \<noteq> Some (native_program toy)" using demo_separate by (simp add: demo_register_def separate_def)
  have c: "charged demo_register = Some (200, 10)" by (simp add: demo_register_def)
  have payer: "account_id (demo_register_metas ! 2) = demo_payer"
    by (simp add: demo_register_metas_def native_sel_def)
  have amount: "unat (calculate_payment_amount 200 10) = 2000" using unat_payment [of 200 10] by simp
  have treasury: "account_id (demo_register_metas ! 3) = demo_treasury" by (simp add: demo_register_metas_def native_sel_def)
  note paid = paid_transaction_charges [OF demo_separate toy_canonical toy_native_ok demo_instructions_ok(3) m,
      where s = "demo_funded 5000" and caller = None and metas = demo_register_metas]
  obtain s' where s': "?pay = Inr s'"
    using paid demo_funded_register [of 5000] demo_funded_affords(2) [of 5000] by (auto simp: c payer treasury amount)
  obtain cfg where cfg: "has_config toy demo_R (demo_funded 5000) demo_T cfg"
    "balance toy toy_native s' = moved demo_payer (cs_treasury_account_id cfg) 2000 (balance toy toy_native (demo_funded 5000))"
    using paid s' by (auto simp: c payer amount paid_as_charged_def) (simp add: demo_register_def)
  have "cfg = demo_cfg" using has_config_unique [OF cfg(1) demo_funded_ready(6)] .
  then have "cs_treasury_account_id cfg = demo_treasury" by (simp add: demo_cfg_def)
  moreover have "demo_payer \<noteq> demo_treasury" by (simp add: demo_ids)
  ultimately show ?thesis
    using s' cfg(2) demo_funded_affords(1) demo_funded_ready(4) [of 5000] by (simp add: moved_sel)
qed

end
