(* ===== verification/Revenue.thy ===== *)
theory Revenue
  imports Payments
begin

text \<open>
  What is paid for. The client checks the payer's balance before it sends; on the chain that check is
  enough.
\<close>

section \<open>The client's check is enough\<close>

definition paid_request ::
  "external \<Rightarrow> native_token \<Rightarrow> account_id \<Rightarrow> account_id \<Rightarrow> shards \<Rightarrow> request \<Rightarrow> shards result" where
  "paid_request E N R M s rq =
     paid_replay 2 E N (deployed R M) s (rq_program rq) None (metas_of rq) (enc_instruction (rq_instruction rq))"

lemma afford_covers:
  assumes "assert_can_afford env quote balances payer price = Inr fee" and "unat (balances payer) < 2 ^ 128 - 1"
  shows "unat price + unat fee \<le> unat (balances payer)"
proof -
  have "sat_add price fee \<le> balances payer"
    using assms(1) by (auto simp: assert_can_afford_def result_simps Let_def split: prod.splits)
  then show ?thesis using assms(2) by (auto simp: word_le_nat_alt unat_sat_add min_def split: if_splits)
qed

lemma moved_keeps: "n \<le> bal a \<Longrightarrow> bal a - n \<le> moved a b n bal a"
  by (simp add: moved_def Let_def)

lemma request_paid:
  assumes "separate E R M" and "poseidon_canonical E" and "native_ok E N" and "instruction_ok (rq_instruction rq)"
    and "merkle_of (rq_instruction rq) \<noteq> Some (native_program E)" and "rq_program rq = R"
    and "run_request E R M s rq = Inr s0" and "charged (rq_instruction rq) = Some (l, p)"
    and "account_id (metas_of rq ! 2) = payer" and "has_config E R s (tree_of (rq_instruction rq)) cfg"
    and "unat (calculate_payment_amount l p) + fee \<le> balance E N s payer"
    and "sum (balance E N s) {payer, cs_treasury_account_id cfg} < 2 ^ 128"
  obtains s' where "paid_request E N R M s rq = Inr s'" and "same_elsewhere E s0 s'"
    and "balance E N s' = moved payer (cs_treasury_account_id cfg) (unat (calculate_payment_amount l p)) (balance E N s)"
    and "fee \<le> balance E N s' payer"
proof -
  have run: "replay 2 E (deployed R M) s R None (metas_of rq) (enc_instruction (rq_instruction rq)) = Inr s0"
    using assms(6,7) by (simp add: run_request_def del: replay.simps)
  have treasury: "account_id (metas_of rq ! 3) = cs_treasury_account_id cfg"
    using charged_terms [OF assms(1,2,4,8) run [unfolded numeral_2_eq_2]] has_config_unique assms(10) by metis
  have funds: "affords (balance E N s) payer (cs_treasury_account_id cfg) (unat (calculate_payment_amount l p))"
    by (rule affordsI) (use assms(11,12) in simp_all)
  have "affords (balance E N s) (account_id (metas_of rq ! 2)) (account_id (metas_of rq ! 3)) (unat (calculate_payment_amount l' p'))"
    if "charged (rq_instruction rq) = Some (l', p')" for l' p'
    using that funds treasury assms(8,9) by simp
  then obtain s' where s': "paid_replay 2 E N (deployed R M) s R None (metas_of rq) (enc_instruction (rq_instruction rq)) = Inr s'"
    using paid_accepted [OF assms(1-5) run [unfolded numeral_2_eq_2]] unfolding numeral_2_eq_2 by blast
  obtain cfg' where cfg': "has_config E R s (tree_of (rq_instruction rq)) cfg'" "same_elsewhere E s0 s'"
    "balance E N s' = moved payer (cs_treasury_account_id cfg') (unat (calculate_payment_amount l p)) (balance E N s)"
    using paid_run_outcome [OF assms(1-5) s' [unfolded numeral_2_eq_2]] run [unfolded numeral_2_eq_2] assms(8,9) by (auto simp: paid_as_charged_def)
  then have "cfg' = cfg" using has_config_unique assms(10) by blast
  then show ?thesis
    using that [of s'] s' cfg' assms(6,11) moved_keeps [of "unat (calculate_payment_amount l p)" "balance E N s" payer "cs_treasury_account_id cfg"]
    by (simp add: paid_request_def)
qed

lemma register_request_funded:
  assumes "register_request E F w \<lparr>pi_registration = R, pi_merkle = M\<rparr> t c payer l = Inr (rq, leaf, before)"
    and "w_chain w = shard s" and "has_config E R s t cfg"
    and "balance E N s payer = unat (w_balances w payer)" and "balance E N s payer < 2 ^ 128 - 1"
  shows "unat (calculate_payment_amount l (cs_price_per_unit cfg)) + unat (rq_max_fee rq) \<le> balance E N s payer"
proof -
  have "read_config E (shard s) \<lparr>pi_registration = R, pi_merkle = M\<rparr> t = Inr cfg" using assms(3) by (simp add: read_config_iff)
  then have "assert_can_afford (w_env w) (w_quote w) (w_balances w) payer
      (calculate_payment_amount l (cs_price_per_unit cfg)) = Inr (rq_max_fee rq)"
    using assms(1) by (auto simp: register_request_def fetch_tree_shard_def assms(2) result_simps calculate_payment_amount_def)
  from afford_covers [OF this] show ?thesis using assms(4,5) by simp
qed

text \<open>
  C22. A registration the client sends is one the payer can pay. When the client builds a register request
  against balances that are the chain's, what the payer and the treasury hold together is less than the
  largest \<open>u128\<close>, and the registry has room, the transaction with its transfer is
  accepted: the commitment is a member, the config's treasury has the price for its rate, and the payer,
  less that price, still holds the fee the request reserves.
\<close>

theorem registrations_are_affordable:
  assumes "separate E R M" and "poseidon_ok E" and "same_poseidon E F" and "no_collision E R T C" and "t \<in> T"
    and "reachable E R M T C s" and "w_chain w = shard s" and "bytes32 t" and "bytes32 M"
    and "register_request E F w \<lparr>pi_registration = R, pi_merkle = M\<rparr> t c payer l = Inr (rq, leaf, before)"
    and "has_config E R s t cfg" and "can_register cfg l" and "MIN_RATE_LIMIT \<le> l" and "l \<le> MAX_RATE_LIMIT"
    and "c \<noteq> ZERO" and "shard s (membership_sel E R t c) = []"
    and "unat (hdr_next (shard s (tree_sel E R M t))) < 2 ^ TREE_DEPTH"
    and "native_ok E N" and "unat (w_balances w payer) = balance E N s payer" 
    and "sum (balance E N s) {payer, cs_treasury_account_id cfg} < 2 ^ 128 - 1"
  shows "\<exists>s' now. paid_request E N R M s rq = Inr s' \<and>
    has_member E R s' t c (new_membership c l now (cs_active_duration_sec cfg) (cs_grace_period_duration_sec cfg)) \<and>
    balance E N s' = moved payer (cs_treasury_account_id cfg)
      (unat (calculate_payment_amount l (cs_price_per_unit cfg))) (balance E N s) \<and>
    unat (rq_max_fee rq) \<le> balance E N s' payer"
proof -
  have pc: "poseidon_canonical E" using assms(2) by (simp add: poseidon_ok_def)
  note k = register_request_registry [OF assms(10,7,11)]
  note r = reached_registry [OF assms(1,2,4-6,11) k(1)]
  have "balance E N s payer < 2 ^ 128 - 1"
    using assms(20) by (rule le_less_trans [rotated]) (rule member_le_sum, simp_all)
  note funds = register_request_funded [OF assms(10,7,11) assms(19) [symmetric] this]
  show ?thesis
  proof (rule register_accepted [OF assms(1-3,7-11) r(1) assms(12-16) r(2) [OF k(2)] assms(17)],
      rule register_content [OF assms(2,3,7,11,10)])
    fix s0 now now'
    assume run: "run_request E R M s rq = Inr s0"
      and mem: "has_member E R s0 t c (new_membership c l now (cs_active_duration_sec cfg) (cs_grace_period_duration_sec cfg))"
      and c: "bytes32 c" and q: "rq_program rq = R" "rq_signer rq = payer"
        "rq_selectors rq = [config_sel E R t, tree_sel E R M t, native_balance_selector E payer,
           native_balance_selector E (cs_treasury_account_id cfg), clock_sel E, membership_sel E R t c]"
        "rq_instruction rq = Register t c l M now' (cs_price_per_unit cfg)
           (cs_active_duration_sec cfg) (cs_grace_period_duration_sec cfg)"
    have ix: "instruction_ok (rq_instruction rq)" "merkle_of (rq_instruction rq) \<noteq> Some (native_program E)"
      "charged (rq_instruction rq) = Some (l, cs_price_per_unit cfg)" "tree_of (rq_instruction rq) = t"
      using assms(1,8,9) c by (simp_all add: q separate_def)
    have payer: "account_id (metas_of rq ! 2) = payer" by (simp add: metas_of_def q native_balance_selector_def)
    obtain s' where s': "paid_request E N R M s rq = Inr s'" "same_elsewhere E s0 s'"
      "balance E N s' = moved payer (cs_treasury_account_id cfg) (unat (calculate_payment_amount l (cs_price_per_unit cfg))) (balance E N s)"
      "unat (rq_max_fee rq) \<le> balance E N s' payer"
      by (rule request_paid [OF assms(1) pc assms(18) ix(1,2) q(1) run ix(3) payer _ funds, of cfg])
        (use assms(11,20) ix(4) in simp_all)
    have "snd (membership_sel E R t c) \<noteq> native_program E" using assms(1) by (simp add: membership_sel_def separate_def)
    then have "shard s' (membership_sel E R t c) = shard s0 (membership_sel E R t c)"
      using s'(2) unfolding same_elsewhere_def by blast
    then show ?thesis using s' mem by (auto simp: has_member_def)
  qed
qed

lemma demo_funded_like:
  "shard (demo_funded n) (clock_sel toy) = demo_clock" "same_elsewhere toy demo_ready (demo_funded n)"
  "reachable toy demo_R demo_M {demo_T} {demo_C} (demo_funded n)"
proof -
  show "shard (demo_funded n) (clock_sel toy) = demo_clock" by (simp add: demo_funded_def)
  show same: "same_elsewhere toy demo_ready (demo_funded n)"
    by (auto simp: same_elsewhere_def demo_funded_def native_sel_def)
  have "shard (demo_funded n) k = shard demo_ready k" if "snd k = demo_R \<or> snd k = demo_M" for k
    using same that demo_separate unfolding same_elsewhere_def separate_def by metis
  then show "reachable toy demo_R demo_M {demo_T} {demo_C} (demo_funded n)"
    by (intro reach_step [OF demo_reach_ready] step_foreign)
qed

theorem registrations_are_affordable_witness:
  "\<exists>rq s'. register_request toy toy_field (demo_world (demo_funded (10 ^ 12))) demo_programs demo_T demo_C demo_payer 200 =
       Inr (rq, demo_leaf, None) \<and>
     paid_request toy toy_native demo_R demo_M (demo_funded (10 ^ 12)) rq = Inr s' \<and>
     balance toy toy_native s' demo_payer = 10 ^ 12 - 2000"
proof -
  define s where "s = demo_funded (10 ^ 12)"
  have cfg: "has_config toy demo_R s demo_T demo_cfg" and tree: "shard s (tree_sel toy demo_R demo_M demo_T) = fresh_tree"
    and free: "shard s (membership_sel toy demo_R demo_T demo_C) = []" and funds: "balance toy toy_native s demo_payer = 10 ^ 12"
    and reach: "reachable toy demo_R demo_M {demo_T} {demo_C} s" and clock: "shard s (clock_sel toy) = demo_clock"
    unfolding s_def by (rule demo_funded_ready demo_funded_like)+
  obtain rq where rq: "register_request toy toy_field (demo_world s) demo_programs demo_T demo_C demo_payer 200 = Inr (rq, demo_leaf, None)"
    by (rule demo_register_request_in [OF cfg clock tree])
  have room: "can_register demo_cfg 200" "MIN_RATE_LIMIT \<le> 200" "200 \<le> MAX_RATE_LIMIT"
    "unat (hdr_next (shard s (tree_sel toy demo_R demo_M demo_T))) < 2 ^ TREE_DEPTH"
    using fresh_tree_view(1) [OF toy_poseidon]
    by (simp_all add: tree can_register_def demo_cfg_def sat_add_def MIN_RATE_LIMIT_def MAX_RATE_LIMIT_def)
  have other: "demo_payer \<noteq> demo_treasury" and treasury: "cs_treasury_account_id demo_cfg = demo_treasury"
    by (simp add: demo_ids, simp add: demo_cfg_def)
  have bal: "unat (w_balances (demo_world s) demo_payer) = balance toy toy_native s demo_payer"
    "sum (balance toy toy_native s) {demo_payer, cs_treasury_account_id demo_cfg} < 2 ^ 128 - 1"
    using other demo_funded_affords(1) [of "10 ^ 12", folded s_def] by (simp_all add: demo_world_def funds treasury)
  have "demo_payer \<noteq> cs_treasury_account_id demo_cfg" using other by (simp add: treasury)
  moreover have "unat (calculate_payment_amount 200 (cs_price_per_unit demo_cfg)) = 2000"
    using unat_payment [of 200 10] by (simp add: demo_cfg_def)
  ultimately show ?thesis
    unfolding s_def [symmetric]
    using registrations_are_affordable [OF demo_separate toy_poseidon toy_same_poseidon demo_no_collision _ reach
        demo_world_chain _ _ rq [unfolded demo_programs_def] cfg room(1-3) demo_felt(2) free room(4) toy_native_ok bal] rq funds
    by (auto simp: moved_sel demo_programs_def)
qed

end
