(* ===== verification/Refinement.thy ===== *)
theory Refinement
  imports Prelude
begin

text \<open>
  Data refinement of a component with fallible operations: what it takes to relate its steps to the
  steps of an abstract specification, and what follows for runs of any length. An implementation and its
  specification fail together; \<open>err\<close> is what the specification keeps of an error.
\<close>

section \<open>Runs that go on after a failure\<close>

text \<open>
  A run in which a failed step changes nothing and the next one is tried: how each step ended, \<open>None\<close> for
  success, and the last state.
\<close>

primrec history :: "('c \<Rightarrow> 'op \<Rightarrow> 'e + 'c) \<Rightarrow> 'c \<Rightarrow> 'op list \<Rightarrow> 'e option list \<times> 'c" where
  "history step c [] = ([], c)"
| "history step c (op # ops) =
     (case step c op of
        Inl e \<Rightarrow> (let (es, c') = history step c ops in (Some e # es, c'))
      | Inr c1 \<Rightarrow> (let (es, c') = history step c1 ops in (None # es, c')))"

lemma history_length [simp]: "length (fst (history step c ops)) = length ops"
  by (induction ops arbitrary: c) (simp_all add: case_prod_unfold Let_def split: sum.split)

lemma history_append:
  "history step c (xs @ ys) =
     (let (es, c1) = history step c xs; (fs, c2) = history step c1 ys in (es @ fs, c2))"
  by (induction xs arbitrary: c) (simp_all add: case_prod_unfold Let_def split: sum.split)

section \<open>One step\<close>

locale refinement =
  fixes invar :: "'c \<Rightarrow> bool" and abst :: "'c \<Rightarrow> 'a" and err :: "failure \<Rightarrow> 'e" and op_ok :: "'op \<Rightarrow> bool"
    and cstep :: "'c \<Rightarrow> 'op \<Rightarrow> 'c result" and astep :: "'a \<Rightarrow> 'op \<Rightarrow> 'e + 'a"
  assumes step_refines: "invar c \<Longrightarrow> op_ok op \<Longrightarrow> map_sum err abst (cstep c op) = astep (abst c) op"
    and step_preserves: "invar c \<Longrightarrow> op_ok op \<Longrightarrow> cstep c op = Inr c' \<Longrightarrow> invar c'"
begin

lemma step_ok: "invar c \<Longrightarrow> op_ok op \<Longrightarrow> cstep c op = Inr c' \<Longrightarrow> astep (abst c) op = Inr (abst c')"
  using step_refines by fastforce

lemma step_fails: "invar c \<Longrightarrow> op_ok op \<Longrightarrow> cstep c op = Inl e \<Longrightarrow> astep (abst c) op = Inl (err e)"
  using step_refines by fastforce

lemma run_preserves: "invar c \<Longrightarrow> list_all op_ok ops \<Longrightarrow> rfold cstep c ops = Inr c' \<Longrightarrow> invar c'"
  by (rule rfold_invariant [of cstep c ops c' invar]) (auto simp: list_all_iff intro: step_preserves)

lemma run_refines: "invar c \<Longrightarrow> list_all op_ok ops \<Longrightarrow> map_sum err abst (rfold cstep c ops) = rfold astep (abst c) ops"
proof (induction ops arbitrary: c)
  case Nil
  then show ?case by simp
next
  case (Cons op ops)
  then have ok: "op_ok op" "list_all op_ok ops" by simp_all
  show ?case
  proof (cases "cstep c op")
    case (Inl e)
    then show ?thesis using step_fails [OF Cons.prems(1) ok(1)] by simp
  next
    case (Inr c')
    then show ?thesis
      using step_ok [OF Cons.prems(1) ok(1)] Cons.IH [OF step_preserves [OF Cons.prems(1) ok(1) Inr] ok(2)] by simp
  qed
qed

lemma history_preserves: "invar c \<Longrightarrow> list_all op_ok ops \<Longrightarrow> invar (snd (history cstep c ops))"
  by (induction ops arbitrary: c) (auto simp: case_prod_unfold Let_def intro: step_preserves split: sum.split)

text \<open>Failures included, every step of a run ends as the specification's, and so does the run.\<close>

lemma history_refines:
  "invar c \<Longrightarrow> list_all op_ok ops \<Longrightarrow> map_prod (map (map_option err)) abst (history cstep c ops) = history astep (abst c) ops"
proof (induction ops arbitrary: c)
  case Nil
  then show ?case by simp
next
  case (Cons op ops)
  then have ok: "op_ok op" "list_all op_ok ops" by simp_all
  show ?case
  proof (cases "cstep c op")
    case (Inl e)
    then show ?thesis
      using step_fails [OF Cons.prems(1) ok(1) Inl] Cons.IH [OF Cons.prems(1) ok(2)]
      by (auto simp: case_prod_unfold prod_eq_iff Let_def)
  next
    case (Inr c')
    then show ?thesis
      using step_ok [OF Cons.prems(1) ok(1) Inr] Cons.IH [OF step_preserves [OF Cons.prems(1) ok(1) Inr] ok(2)]
      by (auto simp: case_prod_unfold prod_eq_iff Let_def)
  qed
qed

end

section \<open>From a start\<close>

locale data_refinement = refinement +
  fixes start :: "'a \<Rightarrow> bool" and astart :: 'b
  assumes start_invar: "start c \<Longrightarrow> invar c" and start_refines: "start c \<Longrightarrow> abst c = astart"
begin

text \<open>What the specification shows of every run holds of the implementation's.\<close>

lemma runs_refine: "start c \<Longrightarrow> list_all op_ok ops \<Longrightarrow> map_sum err abst (rfold cstep c ops) = rfold astep astart ops"
  using run_refines [OF start_invar] start_refines by metis

lemma transfer:
  assumes "start c" and "list_all op_ok ops" and "rfold cstep c ops = Inr c'" and "\<And>a. rfold astep astart ops = Inr a \<Longrightarrow> P a"
  shows "P (abst c')" and "invar c'"
  using runs_refine [OF assms(1,2)] assms(3,4) run_preserves [OF start_invar [OF assms(1)] assms(2,3)] by fastforce+

end

end
