(* ===== verification/TreeRefinement.thy ===== *)
theory TreeRefinement
  imports TreeProperties Refinement
begin

text \<open>
  The tree program refines its specification over whole runs: the locale of \<open>Refinement\<close> on the shard's
  operations, the view as abstraction and the consistency of the shard as invariant.
\<close>

section \<open>The specification's step\<close>

definition spec_run :: "external \<Rightarrow> tree_view \<Rightarrow> merkle_instruction \<Rightarrow> tree_view result" where
  "spec_run E v ix =
     (case ix of
        MInitialize \<Rightarrow> Inl (Panic ''tree already initialized'')
      | MInsert leaf \<Rightarrow> spec_insert E leaf v
      | MRemove i leaf \<Rightarrow> spec_remove E (unat i) leaf v
      | MSet i leaf \<Rightarrow> spec_set E (unat i) leaf v)"

definition empty_view :: tree_view where
  "empty_view = \<lparr>tv_next = 0, tv_leaves = replicate (2 ^ TREE_DEPTH) ZERO, tv_history = replicate 4 ZERO\<rparr>"

lemma initialized_view:
  assumes "poseidon_ok E" and "initialize_tree [] = Inr d"
  shows "tree_ok E d" and "view d = empty_view"
proof -
  obtain d' where d': "initialize_tree [] = Inr d'" "tree_ok E d'" "hdr_next d' = 0"
    "\<And>i. tree_leaf d' i = ZERO" "hdr_history d' = replicate ROOT_HISTORY_SIZE ZERO"
    using initialize_tree_correct [OF assms(1)] by metis
  have "tree_leaf d' = (\<lambda>i. ZERO)" using d'(4) by (rule ext)
  then show "tree_ok E d" "view d = empty_view"
    using d' assms(2) by (simp_all add: view_def empty_view_def map_replicate_const ROOT_HISTORY_SIZE_def)
qed

lemma merkle_run_refines:
  assumes E: "poseidon_ok E" and ok: "tree_ok E d" and ix: "merkle_instruction_ok ix"
  shows "map_sum id view (merkle_run E ix d) = spec_run E (view d) ix"
proof (cases ix)
  case MInitialize
  then show ?thesis using ok by (auto simp: merkle_run_def spec_run_def initialize_tree_def check_def tree_ok_def header_ok_def)
qed (use insert_leaf_cases [OF E ok] remove_leaf_cases [OF E ok] set_leaf_cases [OF E ok] ix in
      \<open>simp_all add: merkle_run_def spec_run_def\<close>)

interpretation tree: data_refinement "\<lambda>d. poseidon_ok E \<and> tree_ok E d" view id merkle_instruction_ok
    "\<lambda>d ix. merkle_run E ix d" "spec_run E" "\<lambda>d. poseidon_ok E \<and> initialize_tree [] = Inr d" empty_view for E
  using merkle_run_refines merkle_run_history(1) initialized_view by unfold_locales auto

section \<open>What every run of the specification keeps\<close>

definition view_ok :: "tree_view \<Rightarrow> bool" where
  "view_ok v \<longleftrightarrow> length (tv_leaves v) = 2 ^ TREE_DEPTH \<and> tv_next v \<le> 2 ^ TREE_DEPTH \<and>
     (\<forall>i < 2 ^ TREE_DEPTH. tv_next v \<le> i \<longrightarrow> tv_leaves v ! i = ZERO)"

lemma spec_run_next: "spec_run E v ix = Inr v1 \<Longrightarrow> tv_next v \<le> tv_next v1"
  by (cases ix) (auto simp: spec_run_def spec_insert_def spec_remove_def spec_set_def spec_put_def split: if_splits)

lemma spec_run_view_ok: "spec_run E v ix = Inr v1 \<Longrightarrow> view_ok v \<Longrightarrow> view_ok v1"
  by (cases ix)
    (auto simp: spec_run_def spec_insert_def spec_remove_def spec_set_def spec_put_def view_ok_def nth_list_update
      split: if_splits)

lemma spec_runs_view_ok: "rfold (spec_run E) v ixs = Inr v1 \<Longrightarrow> view_ok v \<Longrightarrow> view_ok v1"
  by (rule rfold_invariant [of "spec_run E" v ixs v1 view_ok]) (auto intro: spec_run_view_ok)

lemma empty_view_ok: "view_ok empty_view"
  by (simp add: view_ok_def empty_view_def)

section \<open>Property\<close>

text \<open>
  C12. Every run of the tree program refines the specification: from an initialized shard, any sequence
  of well formed instructions (initialize, insert, remove, set, in any order) has the outcome the
  specification has on the empty tree, with the same error when it fails; the shard stays consistent, no
  leaf is ever at or past the next index, and the next index stays within the tree's capacity.
\<close>

theorem tree_runs_refine:
  assumes "poseidon_ok E" and "initialize_tree [] = Inr d" and "list_all merkle_instruction_ok ixs"
  shows "map_sum id view (rfold (\<lambda>d ix. merkle_run E ix d) d ixs) = rfold (spec_run E) empty_view ixs \<and>
    (\<forall>d'. rfold (\<lambda>d ix. merkle_run E ix d) d ixs = Inr d' \<longrightarrow> tree_ok E d' \<and> view_ok (view d'))"
proof -
  have start: "poseidon_ok E \<and> initialize_tree [] = Inr d" using assms by simp
  have "tree_ok E d' \<and> view_ok (view d')" if run: "rfold (\<lambda>d ix. merkle_run E ix d) d ixs = Inr d'" for d'
    using tree.transfer [OF start assms(3) run, of view_ok] spec_runs_view_ok [OF _ empty_view_ok] by blast
  then show ?thesis using tree.runs_refine [OF start assms(3)] by blast
qed

theorem tree_runs_refine_witness:
  "rfold (\<lambda>d ix. merkle_run toy ix d) fresh_tree [MInsert leaf_a, MRemove 0 leaf_a, MSet 0 leaf_a, MRemove 1 leaf_a] =
     Inl (Halt EXIT_LEAF_MISMATCH ''Cannot remove leaf at index 1 when next_index is 1'')"
proof -
  let ?ixs = "[MInsert leaf_a, MRemove 0 leaf_a, MSet 0 leaf_a, MRemove 1 leaf_a]"
  have one: "decimal (Suc 0) = ''1''" by code_simp
  obtain d where d: "initialize_tree [] = Inr d" using initialize_tree_correct [OF toy_poseidon] by blast
  then have "fresh_tree = d" by (simp add: fresh_tree_def)
  moreover have "rfold (spec_run toy) empty_view ?ixs = Inl (Halt EXIT_LEAF_MISMATCH ''Cannot remove leaf at index 1 when next_index is 1'')"
    using one by (simp add: spec_run_def spec_insert_def spec_remove_def spec_set_def spec_put_def empty_view_def)
  moreover have "map_sum id view (rfold (\<lambda>d ix. merkle_run toy ix d) d ?ixs) = rfold (spec_run toy) empty_view ?ixs"
    using tree_runs_refine [OF toy_poseidon d, of ?ixs] by simp
  ultimately show ?thesis by (cases "rfold (\<lambda>d ix. merkle_run toy ix d) d ?ixs") simp_all
qed

end
