(* ===== verification/Ledger.thy ===== *)
theory Ledger
  imports Revenue TreeRefinement
begin

text \<open>
  The registry as an abstract machine. A ledger is what the chain means: per tree id a config and a tree
  of leaves, per commitment a membership, the clock, and the native balances, with no bytes, accounts or
  programs left. Each instruction is one function on ledgers that says when it is refused, with which
  exit code, and what it changes. \<open>LedgerSteps\<close> and \<open>LedgerRefinement\<close> show that the programs, run on the
  chain's shards with their transfers, do exactly this.
\<close>

section \<open>Ledgers\<close>

record ledger =
  ld_config :: "bytes \<Rightarrow> config_state option"
  ld_tree :: "bytes \<Rightarrow> tree_view option"
  ld_member :: "bytes \<Rightarrow> bytes \<Rightarrow> membership_state option"
  ld_clock :: "u64 option"
  ld_balance :: "account_id \<Rightarrow> nat"

text \<open>
  How a refused transaction ends: with an exit code, which the sequencer charges by the cycles that ran, or
  otherwise, by a panic or a refusal of the native program.
\<close>

type_synonym refusal = "u8 option"

fun code_of :: "failure \<Rightarrow> refusal" where
  "code_of (Halt k m) = Some k"
| "code_of (Panic m) = None"
| "code_of (Exit k) = None"

text \<open>What happens on the chain: transactions of the two programs, a new clock, and another balance.\<close>

datatype chain_op =
    Transact instruction "account_meta list"
  | CallTree merkle_instruction "account_meta list"
  | SetClock bytes
  | SetNative account_id bytes

section \<open>What a transaction is refused for without looking at the chain\<close>

text \<open>The accounts and arguments \<open>plan\<close> accepts.\<close>

fun acceptable :: "external \<Rightarrow> account_id \<Rightarrow> instruction \<Rightarrow> account_meta list \<Rightarrow> bool" where
  "acceptable E R (Initialize m t p a x d g) metas \<longleftrightarrow>
     map meta_selector metas = [config_sel E R t] \<and> 0 < x \<and> 0 < d"
| "acceptable E R (InitializeMerkleTree t m) metas \<longleftrightarrow> map meta_selector metas = [config_sel E R t, tree_sel E R m t]"
| "acceptable E R (Register t c l m now p d g) metas \<longleftrightarrow>
     length metas = 6 \<and> meta_selector (metas ! 0) = config_sel E R t \<and> meta_selector (metas ! 1) = tree_sel E R m t \<and>
     is_authorized (metas ! 2) \<and> meta_selector (metas ! 4) = clock_sel E \<and> meta_selector (metas ! 5) = membership_sel E R t c \<and>
     felt_valid E c \<and> c \<noteq> ZERO \<and> MIN_RATE_LIMIT \<le> l \<and> l \<le> MAX_RATE_LIMIT \<and> felt_valid E (rate_felt l)"
| "acceptable E R (Slash t c secret m i l) metas \<longleftrightarrow>
     map meta_selector metas = [config_sel E R t, tree_sel E R m t, membership_sel E R t c] \<and>
     felt_valid E secret \<and> compress1 E secret = c \<and> felt_valid E c \<and> felt_valid E (rate_felt l)"
| "acceptable E R (Extend t c now p l) metas \<longleftrightarrow>
     length metas = 5 \<and> meta_selector (metas ! 0) = config_sel E R t \<and> meta_selector (metas ! 1) = membership_sel E R t c \<and>
     is_authorized (metas ! 2) \<and> meta_selector (metas ! 4) = clock_sel E"
| "acceptable E R (Erase t c m i l now) metas \<longleftrightarrow>
     map meta_selector metas = [config_sel E R t, tree_sel E R m t, membership_sel E R t c, clock_sel E] \<and>
     felt_valid E c \<and> felt_valid E (rate_felt l)"

section \<open>What it is refused for on the ledger, and what it does\<close>

definition refuse :: "bool \<Rightarrow> refusal \<Rightarrow> refusal + unit" where
  "refuse b k = (if b then Inl k else Inr ())"

definition claims_time :: "u64 \<Rightarrow> ledger \<Rightarrow> refusal + unit" where
  "claims_time now l =
     (case ld_clock l of
        None \<Rightarrow> Inl None
      | Some ts \<Rightarrow>
          rbind (refuse (ts = 0) (Some EXIT_CLOCK_NOT_INITIALIZED)) (\<lambda>_.
          refuse (ts < now \<or> CLOCK_CLAIM_TOLERANCE_MS < ts - now) (Some EXIT_STALE_CLOCK)))"

definition the_config :: "bytes \<Rightarrow> ledger \<Rightarrow> refusal + config_state" where
  "the_config t l = (case ld_config l t of None \<Rightarrow> Inl None | Some cfg \<Rightarrow> Inr cfg)"

definition the_member :: "bytes \<Rightarrow> bytes \<Rightarrow> u64 \<Rightarrow> ledger \<Rightarrow> refusal + membership_state" where
  "the_member t c rate l =
     (case ld_member l t c of
        None \<Rightarrow> Inl (Some EXIT_MEMBERSHIP_MISSING)
      | Some m \<Rightarrow> rbind (refuse (ms_rate_limit m \<noteq> rate) (Some EXIT_STALE_RATE_LIMIT)) (\<lambda>_. Inr m))"

definition pay :: "account_id \<Rightarrow> account_id \<Rightarrow> u64 \<Rightarrow> u128 \<Rightarrow> ledger \<Rightarrow> refusal + ledger" where
  "pay payer treasury rate price l =
     (let n = unat (calculate_payment_amount rate price) in
      if \<not> affords (ld_balance l) payer treasury n then Inl None
      else Inr (l\<lparr>ld_balance := moved payer treasury n (ld_balance l)\<rparr>))"

definition change_tree :: "external \<Rightarrow> bytes \<Rightarrow> merkle_instruction \<Rightarrow> ledger \<Rightarrow> refusal + ledger" where
  "change_tree E t ix l =
     (case ld_tree l t of
        None \<Rightarrow> if ix = MInitialize then Inr (l\<lparr>ld_tree := (ld_tree l)(t \<mapsto> empty_view)\<rparr>) else Inl None
      | Some v \<Rightarrow> rbind (map_sum code_of id (spec_run E v ix)) (\<lambda>v1. Inr (l\<lparr>ld_tree := (ld_tree l)(t \<mapsto> v1)\<rparr>)))"

definition set_config :: "bytes \<Rightarrow> config_state \<Rightarrow> ledger \<Rightarrow> ledger" where
  "set_config t cfg l = l\<lparr>ld_config := (ld_config l)(t \<mapsto> cfg)\<rparr>"

definition set_member :: "bytes \<Rightarrow> bytes \<Rightarrow> membership_state option \<Rightarrow> ledger \<Rightarrow> ledger" where
  "set_member t c m l = l\<lparr>ld_member := (ld_member l)(t := (ld_member l t)(c := m))\<rparr>"

fun transact :: "external \<Rightarrow> instruction \<Rightarrow> account_meta list \<Rightarrow> ledger \<Rightarrow> refusal + ledger" where
  "transact E (Initialize m t p a x d g) metas l =
     rbind (refuse (ld_config l t \<noteq> None) None) (\<lambda>_.
     Inr (set_config t \<lparr>cs_merkle_program_id = m, cs_tree_id = t, cs_price_per_unit = p, cs_treasury_account_id = a,
       cs_total_registrations = 0, cs_max_total_rate_limit = x, cs_current_total_rate_limit = 0,
       cs_active_duration_sec = d, cs_grace_period_duration_sec = g\<rparr> l))"
| "transact E (InitializeMerkleTree t m) metas l =
     rbind (the_config t l) (\<lambda>cfg.
     rbind (refuse (cs_merkle_program_id cfg \<noteq> m) None) (\<lambda>_.
     change_tree E t MInitialize l))"
| "transact E (Register t c rate m now p d g) metas l =
     rbind (the_config t l) (\<lambda>cfg.
     rbind (refuse (cs_merkle_program_id cfg \<noteq> m) None) (\<lambda>_.
     rbind (refuse (cs_price_per_unit cfg \<noteq> p \<or> cs_treasury_account_id cfg \<noteq> account_id (metas ! 3) \<or>
       cs_active_duration_sec cfg \<noteq> d \<or> cs_grace_period_duration_sec cfg \<noteq> g) (Some EXIT_STALE_CONFIG)) (\<lambda>_.
     rbind (refuse (\<not> can_register cfg rate) (Some EXIT_RATE_LIMIT_FULL)) (\<lambda>_.
     rbind (claims_time now l) (\<lambda>_.
     rbind (refuse (ld_member l t c \<noteq> None) (Some EXIT_MEMBERSHIP_EXISTS)) (\<lambda>_.
     rbind (pay (account_id (metas ! 2)) (account_id (metas ! 3)) rate p
       (set_member t c (Some (new_membership c rate now d g)) (set_config t (counted cfg rate) l))) (\<lambda>l1.
     change_tree E t (MInsert (membership_leaf E c rate)) l1)))))))"
| "transact E (Slash t c secret m i rate) metas l =
     rbind (the_config t l) (\<lambda>cfg.
     rbind (refuse (cs_merkle_program_id cfg \<noteq> m) None) (\<lambda>_.
     rbind (the_member t c rate l) (\<lambda>_.
     change_tree E t (MRemove i (membership_leaf E c rate)) (set_member t c None (set_config t (released cfg rate) l)))))"
| "transact E (Extend t c now p rate) metas l =
     rbind (the_config t l) (\<lambda>cfg.
     rbind (refuse (cs_price_per_unit cfg \<noteq> p \<or> cs_treasury_account_id cfg \<noteq> account_id (metas ! 3))
       (Some EXIT_STALE_CONFIG)) (\<lambda>_.
     rbind (claims_time now l) (\<lambda>_.
     rbind (the_member t c rate l) (\<lambda>mem.
     rbind (refuse (\<not> is_in_grace_period (ms_grace_period_start_timestamp_ms mem)
       (secs_to_millis (ms_grace_period_duration_sec mem)) now) (Some EXIT_NOT_IN_GRACE_PERIOD)) (\<lambda>_.
     pay (account_id (metas ! 2)) (account_id (metas ! 3)) rate p (set_member t c (Some (renewed mem)) l))))))"
| "transact E (Erase t c m i rate now) metas l =
     rbind (the_config t l) (\<lambda>cfg.
     rbind (refuse (cs_merkle_program_id cfg \<noteq> m) None) (\<lambda>_.
     rbind (claims_time now l) (\<lambda>_.
     rbind (the_member t c rate l) (\<lambda>mem.
     rbind (refuse (\<not> is_expired (ms_grace_period_start_timestamp_ms mem)
       (secs_to_millis (ms_grace_period_duration_sec mem)) now) (Some EXIT_NOT_EXPIRED)) (\<lambda>_.
     change_tree E t (MRemove i (membership_leaf E c rate)) (set_member t c None (set_config t (released cfg rate) l)))))))"

text \<open>A direct call of the merkle program is refused: nobody signs for a derived account.\<close>

fun ledger_step :: "external \<Rightarrow> native_token \<Rightarrow> account_id \<Rightarrow> ledger \<Rightarrow> chain_op \<Rightarrow> refusal + ledger" where
  "ledger_step E N R l (Transact ix metas) =
     rbind (refuse (\<not> acceptable E R ix metas) None) (\<lambda>_. transact E ix metas l)"
| "ledger_step E N R l (CallTree ix metas) = Inl None"
| "ledger_step E N R l (SetClock b) = Inr (l\<lparr>ld_clock := clock_timestamp E b\<rparr>)"
| "ledger_step E N R l (SetNative a b) = Inr (l\<lparr>ld_balance := (ld_balance l)(a := native_balance N b)\<rparr>)"

section \<open>The chain's step\<close>

definition chain_step ::
  "external \<Rightarrow> native_token \<Rightarrow> programs \<Rightarrow> account_id \<Rightarrow> account_id \<Rightarrow> shards \<Rightarrow> chain_op \<Rightarrow> shards result" where
  "chain_step E N programs R M s op =
     (case op of
        Transact ix metas \<Rightarrow> paid_replay 2 E N programs s R None metas (enc_instruction ix)
      | CallTree ix metas \<Rightarrow> paid_replay 2 E N programs s M None metas (enc_merkle_instruction ix)
      | SetClock b \<Rightarrow> Inr (s(clock_sel E \<mapsto> b))
      | SetNative a b \<Rightarrow> Inr (s(native_sel E a \<mapsto> b)))"

section \<open>What the shards mean\<close>

definition ledger_of ::
  "external \<Rightarrow> native_token \<Rightarrow> account_id \<Rightarrow> account_id \<Rightarrow> bytes set \<Rightarrow> bytes set \<Rightarrow> shards \<Rightarrow> ledger" where
  "ledger_of E N R M T C s =
     \<lparr>ld_config = (\<lambda>t. if t \<in> T then from_slice dec_config (shard s (config_sel E R t)) else None),
      ld_tree = (\<lambda>t. if t \<in> T \<and> shard s (tree_sel E R M t) \<noteq> [] then Some (view (shard s (tree_sel E R M t))) else None),
      ld_member = (\<lambda>t c. if t \<in> T \<and> c \<in> C then from_slice dec_membership (shard s (membership_sel E R t c)) else None),
      ld_clock = clock_timestamp E (shard s (clock_sel E)),
      ld_balance = balance E N s\<rparr>"

text \<open>The shards of the registries are well formed, and every config names the merkle program \<open>M\<close>.\<close>

definition chain_ok :: "external \<Rightarrow> account_id \<Rightarrow> account_id \<Rightarrow> bytes set \<Rightarrow> bytes set \<Rightarrow> shards \<Rightarrow> bool" where
  "chain_ok E R M T C s \<longleftrightarrow>
     (\<forall>t \<in> T.
        (shard s (config_sel E R t) = [] \<or>
          (\<exists>cfg. has_config E R s t cfg \<and> cs_tree_id cfg = t \<and> cs_merkle_program_id cfg = M)) \<and>
        (shard s (tree_sel E R M t) = [] \<or> tree_ok E (shard s (tree_sel E R M t))) \<and>
        (\<forall>c \<in> C. shard s (membership_sel E R t c) = [] \<or>
          (\<exists>m. has_member E R s t c m \<and> ms_id_commitment m = c)))"

text \<open>The transactions considered: of registries in \<open>T\<close> and commitments in \<open>C\<close>, with the merkle program \<open>M\<close> in a new config.\<close>

definition op_ok :: "account_id \<Rightarrow> bytes set \<Rightarrow> bytes set \<Rightarrow> chain_op \<Rightarrow> bool" where
  "op_ok M T C op \<longleftrightarrow>
     (case op of
        Transact ix metas \<Rightarrow> instruction_ok ix \<and> ids_in T C ix \<and>
          (case ix of Initialize m t p a x d g \<Rightarrow> m = M | _ \<Rightarrow> True)
      | CallTree ix metas \<Rightarrow> merkle_instruction_ok ix \<and> list_all (\<lambda>m. \<not> is_authorized m) metas
      | SetClock b \<Rightarrow> True
      | SetNative a b \<Rightarrow> True)"

text \<open>Both programs are deployed; there may be others.\<close>

definition runs_both :: "programs \<Rightarrow> account_id \<Rightarrow> account_id \<Rightarrow> bool" where
  "runs_both programs R M \<longleftrightarrow> programs R = Some RegistrationGuest \<and> programs M = Some MerkleGuest"

text \<open>The native program runs outside the zkVM, so it never ends with a guest's exit code.\<close>

definition native_traps :: "native_token \<Rightarrow> bool" where
  "native_traps N \<longleftrightarrow> (\<forall>s metas data e. native_run N s metas data = Inl e \<longrightarrow> code_of e = None)"

end
