(* ===== verification/LedgerSteps.thy ===== *)
theory LedgerSteps
  imports Ledger
begin

text \<open>
  Every step of the chain is the ledger's: what \<open>plan\<close> refuses is a panic, the effects and calls of an
  accepted plan run in order, and each of them changes the part of the ledger the machine says.
\<close>

section \<open>A plan never ends with an exit code\<close>

definition traps :: "'a result \<Rightarrow> bool" where
  "traps r \<longleftrightarrow> (\<forall>e. r = Inl e \<longrightarrow> code_of e = None)"

lemma traps_simps [simp]:
  "traps (Inr x)" "traps (Inl (Panic m))" "traps (check b (Panic m))"
  by (simp_all add: traps_def check_def)

lemma traps_rbind [intro!]: "traps x \<Longrightarrow> (\<And>y. traps (f y)) \<Longrightarrow> traps (rbind x f)"
  by (cases x) (auto simp: traps_def)

lemma traps_write_slice [simp]: "traps (write_slice a b d)"
  by (simp add: write_slice_def)

lemma traps_parts [simp]:
  "traps (config_seed E t)" "traps (main_seed E t)" "traps (membership_seed E t c)" "traps (validate_field_element E b)"
  "traps (validate_rate_limit l)" "traps (require_own_pda E input m seed what)" "traps (require_tree_main E input m t p)"
  "traps (require_clock_account E m)" "traps (merkle_call E p m t ix)" "traps (hash_single E b)"
  "traps (compute_registration_leaf E c l)" "traps (wrong_accounts what n)"
  by (auto simp: require_own_pda_def require_tree_main_def require_clock_account_def merkle_call_def hash_single_def
      hash_pair_def compute_registration_leaf_def wrong_accounts_def validate_field_element_def validate_rate_limit_def)

lemma traps_plan: "traps (plan_instruction E input ix)"
  by (cases ix)
    (auto simp: plan_initialize_def plan_initialize_merkle_tree_def plan_register_def plan_slash_def plan_extend_def
      plan_erase_def Let_def split: list.split)

section \<open>Refusals\<close>

lemma map_sum_rbind: "map_sum f g (rbind x k) = rbind (map_sum f id x) (\<lambda>y. map_sum f g (k y))"
  by (cases x) simp_all

lemma code_check [simp]: "map_sum code_of id (check b (Panic m)) = refuse (\<not> b) None"
  by (simp add: check_def refuse_def)

lemma code_ensure [simp]: "map_sum code_of id (ensure b k m) = refuse (\<not> b) (Some k)"
  by (simp add: ensure_def fail_def refuse_def)

lemma refuse_simps [simp]: "refuse True k = Inl k" "refuse False k = Inr ()"
  by (simp_all add: refuse_def)

section \<open>Running a call\<close>

lemma paid_planned:
  assumes "runs_both programs R M" and "instruction_ok ix"
  shows "paid_replay (Suc n) E N programs s R caller metas (enc_instruction ix) =
    rbind (plan_instruction E (plan_input_of R caller metas ix) ix) (\<lambda>p.
    rbind (rfold (apply_step E RegistrationGuest) s (effects (map_plan OfRegistration p))) (\<lambda>s1.
    rfold (\<lambda>s2 call. if callee call = native_program E then native_run N s2 (call_metas call) (call_data call)
        else paid_replay n E N programs s2 (callee call) (Some R) (call_metas call) (call_data call))
      s1 (chained_calls p)))"
  using assms
  by (cases "plan_instruction E (plan_input_of R caller metas ix) ix")
    (simp_all add: runs_both_def run_plan.simps instruction_codec.from_slice_enc map_plan_def)

lemma paid_merkle_call:
  assumes "runs_both programs R M" and "merkle_instruction_ok ix"
  shows "paid_replay (Suc n) E N programs s M (Some R) (call_metas (to_merkle E R M t ix)) (enc_merkle_instruction ix) =
    rbind (merkle_run E ix (shard s (tree_sel E R M t))) (\<lambda>d. Inr (s(tree_sel E R M t \<mapsto> d)))"
  using assms
  by (simp add: runs_both_def run_plan.simps merkle_data merkle_plan_def plan_builders map_plan_def apply_step_merkle
      meta_selector_def tree_sel_def)

lemma plan_refused:
  assumes "runs_both programs R M" and "instruction_ok ix" and "\<And>p. plan_instruction E (plan_input_of R caller metas ix) ix \<noteq> Inr p"
  shows "map_sum code_of f (paid_replay (Suc n) E N programs s R caller metas (enc_instruction ix)) = Inl None"
proof -
  obtain e where "plan_instruction E (plan_input_of R caller metas ix) ix = Inl e" using assms(3) not_Inr_Inl by blast
  then show ?thesis
    using traps_plan [of E "plan_input_of R caller metas ix" ix] by (simp add: paid_planned [OF assms(1,2)] traps_def del: paid_replay.simps)
qed

section \<open>What an update of a shard means\<close>

definition apart :: "external \<Rightarrow> account_id \<Rightarrow> account_id \<Rightarrow> bytes set \<Rightarrow> bytes set \<Rightarrow> bool" where
  "apart E R M T C \<longleftrightarrow> separate E R M \<and> clock_account_id E \<noteq> native_program E \<and> no_collision E R T C"

lemma apart_sels:
  assumes "apart E R M T C"
  shows "native_sel E a \<noteq> config_sel E R t" "native_sel E a \<noteq> membership_sel E R t c" "native_sel E a \<noteq> tree_sel E R M t"
    "native_sel E a \<noteq> clock_sel E" "clock_sel E \<noteq> config_sel E R t" "clock_sel E \<noteq> membership_sel E R t c"
    "clock_sel E \<noteq> tree_sel E R M t" "tree_sel E R M t \<noteq> config_sel E R t'" "tree_sel E R M t \<noteq> membership_sel E R t' c"
  using assms by (auto simp: apart_def separate_def native_sel_def config_sel_def membership_sel_def tree_sel_def clock_sel_def)

lemmas apart_all = apart_sels apart_sels [symmetric]

lemma ledger_config:
  assumes "apart E R M T C" and "t \<in> T" and "config_ok cfg"
  shows "ledger_of E N R M T C (s(config_sel E R t \<mapsto> enc_config cfg)) = set_config t cfg (ledger_of E N R M T C s)"
proof -
  have N: "no_collision E R T C" using assms(1) by (simp add: apart_def)
  have member: "membership_sel E R t' c \<noteq> config_sel E R t" if "t' \<in> T" "c \<in> C" for t' c
    using sel_apart(4) [OF N assms(2) that(1,2,2)] .
  have config: "config_sel E R t' = config_sel E R t \<longleftrightarrow> t' = t" if "t' \<in> T" for t'
    using sel_apart_tree(1) [OF N that assms(2)] .
  show ?thesis
    using assms(2,3) by (auto simp: ledger_of_def set_config_def fun_eq_iff balance_def config_codec.from_slice_enc
        apart_all [OF assms(1)] member config)
qed

lemma ledger_member:
  assumes "apart E R M T C" and "t \<in> T" and "c \<in> C" and "from_slice dec_membership d = m"
  shows "ledger_of E N R M T C (s(membership_sel E R t c \<mapsto> d)) = set_member t c m (ledger_of E N R M T C s)"
proof -
  have N: "no_collision E R T C" using assms(1) by (simp add: apart_def)
  have config: "config_sel E R t' \<noteq> membership_sel E R t c" if "t' \<in> T" for t'
    using sel_apart(3) [OF N that assms(2,3,3)] .
  have member: "membership_sel E R t' c' = membership_sel E R t c \<longleftrightarrow> t' = t \<and> c' = c" if "t' \<in> T" "c' \<in> C" for t' c'
    using sel_apart(5) [OF N that(1) assms(2) that(2) assms(3)] .
  show ?thesis
    using assms(2-4) by (auto simp: ledger_of_def set_member_def fun_eq_iff balance_def apart_all [OF assms(1)] config member)
qed

lemma ledger_tree:
  assumes "apart E R M T C" and "t \<in> T" and "d \<noteq> []"
  shows "ledger_of E N R M T C (s(tree_sel E R M t \<mapsto> d)) =
    (ledger_of E N R M T C s)\<lparr>ld_tree := (ld_tree (ledger_of E N R M T C s))(t \<mapsto> view d)\<rparr>"
proof -
  have N: "no_collision E R T C" using assms(1) by (simp add: apart_def)
  show ?thesis
    using apart_all [OF assms(1)] sel_apart_tree(2) [OF N _ assms(2)] assms(2,3)
    by (auto simp: ledger_of_def fun_eq_iff balance_def)
qed

lemma ledger_clock:
  assumes "apart E R M T C"
  shows "ledger_of E N R M T C (s(clock_sel E \<mapsto> b)) = (ledger_of E N R M T C s)\<lparr>ld_clock := clock_timestamp E b\<rparr>"
  using apart_all [OF assms] by (auto simp: ledger_of_def fun_eq_iff balance_def)

lemma ledger_native:
  assumes "apart E R M T C"
  shows "ledger_of E N R M T C (s(native_sel E a \<mapsto> b)) =
    (ledger_of E N R M T C s)\<lparr>ld_balance := (ld_balance (ledger_of E N R M T C s))(a := native_balance N b)\<rparr>"
  using apart_all [OF assms] by (auto simp: ledger_of_def fun_eq_iff balance_def native_sel_def)

lemma elsewhere_sels:
  assumes "apart E R M T C" and "same_elsewhere E s s'"
  shows "shard s' (config_sel E R t) = shard s (config_sel E R t)" "shard s' (membership_sel E R t c) = shard s (membership_sel E R t c)"
    "shard s' (tree_sel E R M t) = shard s (tree_sel E R M t)" "shard s' (clock_sel E) = shard s (clock_sel E)"
  using assms by (auto simp: same_elsewhere_def apart_def separate_def config_sel_def membership_sel_def tree_sel_def clock_sel_def)

lemma ledger_paid:
  assumes "apart E R M T C" and "same_elsewhere E s s'"
  shows "ledger_of E N R M T C s' = (ledger_of E N R M T C s)\<lparr>ld_balance := balance E N s'\<rparr>"
  using elsewhere_sels [OF assms] by (auto simp: ledger_of_def fun_eq_iff)

end
