(* ===== verification/LedgerCalls.thy ===== *)
theory LedgerCalls
  imports LedgerSteps
begin

text \<open>
  What the parts of a transaction do to the ledger: reading a config, a membership or the clock, a call of
  the tree and a payment. The step of every instruction is put together from these.
\<close>

section \<open>Where the chain runs\<close>

definition deployment ::
  "external \<Rightarrow> native_token \<Rightarrow> programs \<Rightarrow> account_id \<Rightarrow> account_id \<Rightarrow> bytes set \<Rightarrow> bytes set \<Rightarrow> bool" where
  "deployment E N programs R M T C \<longleftrightarrow>
     apart E R M T C \<and> poseidon_ok E \<and> native_ok E N \<and> native_traps N \<and> runs_both programs R M"

lemma deployment_parts:
  assumes "deployment E N programs R M T C"
  shows "apart E R M T C" "poseidon_ok E" "native_ok E N" "native_traps N" "runs_both programs R M"
    "separate E R M" "poseidon_canonical E" "M \<noteq> native_program E" "no_collision E R T C"
  using assms by (simp_all add: deployment_def apart_def poseidon_ok_def separate_def)

section \<open>Reading\<close>

lemma config_cases:
  assumes "chain_ok E R M T C s" and "t \<in> T"
  obtains (none) "shard s (config_sel E R t) = []" and "the_config t (ledger_of E N R M T C s) = Inl None"
      and "ld_config (ledger_of E N R M T C s) t = None"
    | (config) cfg where "shard s (config_sel E R t) = enc_config cfg" and "config_ok cfg" and "cs_tree_id cfg = t"
      and "cs_merkle_program_id cfg = M" and "the_config t (ledger_of E N R M T C s) = Inr cfg"
      and "ld_config (ledger_of E N R M T C s) t = Some cfg"
proof (cases "shard s (config_sel E R t) = []")
  case True
  moreover have "from_slice dec_config [] = None"
    using config_codec.from_slice_iff [of "[]"] by (cases "from_slice dec_config []") auto
  ultimately show thesis using none assms(2) by (simp add: the_config_def ledger_of_def)
next
  case False
  then obtain cfg where "has_config E R s t cfg" "cs_tree_id cfg = t" "cs_merkle_program_id cfg = M"
    using assms by (auto simp: chain_ok_def)
  then show thesis using config [of cfg] assms(2)
    by (auto simp: the_config_def ledger_of_def has_config_def config_codec.from_slice_enc)
qed

lemma member_cases:
  assumes "chain_ok E R M T C s" and "t \<in> T" and "c \<in> C"
  obtains (none) "shard s (membership_sel E R t c) = []" and "ld_member (ledger_of E N R M T C s) t c = None"
    | (member) m where "shard s (membership_sel E R t c) = enc_membership m" and "membership_ok m"
      and "ms_id_commitment m = c" and "ld_member (ledger_of E N R M T C s) t c = Some m"
proof (cases "shard s (membership_sel E R t c) = []")
  case True
  moreover have "from_slice dec_membership [] = None"
    using membership_codec.from_slice_iff [of "[]"] by (cases "from_slice dec_membership []") auto
  ultimately show thesis using none assms(2,3) by (simp add: ledger_of_def)
next
  case False
  then obtain m where "has_member E R s t c m" "ms_id_commitment m = c" using assms unfolding chain_ok_def by blast
  then show thesis using member [of m] assms(2,3) by (auto simp: ledger_of_def has_member_def membership_codec.from_slice_enc)
qed

lemma clock_claim: "map_sum code_of id (assert_clock_is E (shard s (clock_sel E)) now) = claims_time now (ledger_of E N R M T C s)"
  by (auto simp: assert_clock_is_def claims_time_def ledger_of_def ensure_def fail_def refuse_def word_gt_0 not_le
      split: option.split)

section \<open>Writing\<close>

lemma chain_ok_config:
  assumes "deployment E N programs R M T C" and "chain_ok E R M T C s" and "t \<in> T" and "config_ok cfg"
    and "cs_tree_id cfg = t" and "cs_merkle_program_id cfg = M"
  shows "chain_ok E R M T C (s(config_sel E R t \<mapsto> enc_config cfg))"
proof -
  note D = deployment_parts [OF assms(1)]
  have member: "membership_sel E R t' c \<noteq> config_sel E R t" if "t' \<in> T" "c \<in> C" for t' c
    using sel_apart(4) [OF D(9) assms(3) that(1,2,2)] .
  have config: "config_sel E R t' = config_sel E R t \<longleftrightarrow> t' = t" if "t' \<in> T" for t'
    using sel_apart_tree(1) [OF D(9) that assms(3)] .
  show ?thesis
    using assms(2,4-6) unfolding chain_ok_def
    by (auto simp: has_config_def has_member_def apart_all [OF D(1)] member config)
qed

lemma chain_ok_member:
  assumes "deployment E N programs R M T C" and "chain_ok E R M T C s" and "t \<in> T" and "c \<in> C"
    and "d = [] \<or> (\<exists>m. d = enc_membership m \<and> membership_ok m \<and> ms_id_commitment m = c)"
  shows "chain_ok E R M T C (s(membership_sel E R t c \<mapsto> d))"
proof -
  note D = deployment_parts [OF assms(1)]
  have config: "config_sel E R t' \<noteq> membership_sel E R t c" if "t' \<in> T" for t'
    using sel_apart(3) [OF D(9) that assms(3,4,4)] .
  have member: "membership_sel E R t' c' = membership_sel E R t c \<longleftrightarrow> t' = t \<and> c' = c" if "t' \<in> T" "c' \<in> C" for t' c'
    using sel_apart(5) [OF D(9) that(1) assms(3) that(2) assms(4)] .
  show ?thesis
    using assms(2,5) unfolding chain_ok_def
    by (auto simp: has_config_def has_member_def apart_all [OF D(1)] config member)
qed

lemma chain_ok_tree:
  assumes "deployment E N programs R M T C" and "chain_ok E R M T C s" and "t \<in> T" and "tree_ok E d"
  shows "chain_ok E R M T C (s(tree_sel E R M t \<mapsto> d))"
proof -
  note D = deployment_parts [OF assms(1)]
  have tree: "tree_sel E R M t' = tree_sel E R M t \<longleftrightarrow> t' = t" if "t' \<in> T" for t'
    using sel_apart_tree(2) [OF D(9) that assms(3)] .
  show ?thesis
    using assms(2,4) unfolding chain_ok_def
    by (auto simp: has_config_def has_member_def apart_all [OF D(1)] tree)
qed

lemma chain_ok_elsewhere:
  assumes "deployment E N programs R M T C" and "chain_ok E R M T C s" and "same_elsewhere E s s'"
  shows "chain_ok E R M T C s'"
  using assms(2) elsewhere_sels [OF deployment_parts(1) [OF assms(1)] assms(3)]
  by (simp add: chain_ok_def has_config_def has_member_def)

section \<open>A result of the chain and one of the ledger\<close>

definition simulates ::
  "external \<Rightarrow> native_token \<Rightarrow> account_id \<Rightarrow> account_id \<Rightarrow> bytes set \<Rightarrow> bytes set \<Rightarrow> shards result \<Rightarrow> refusal + ledger \<Rightarrow> bool" where
  "simulates E N R M T C r a \<longleftrightarrow>
     map_sum code_of (ledger_of E N R M T C) r = a \<and> (\<forall>s. r = Inr s \<longrightarrow> chain_ok E R M T C s)"

lemma simulates_Inr: "chain_ok E R M T C s \<Longrightarrow> ledger_of E N R M T C s = l \<Longrightarrow> simulates E N R M T C (Inr s) (Inr l)"
  by (simp add: simulates_def)

lemma simulates_Inl: "code_of e = k \<Longrightarrow> simulates E N R M T C (Inl e) (Inl k)"
  by (simp add: simulates_def)

lemma simulates_check:
  assumes "map_sum code_of id chk = g" and "chk = Inr () \<Longrightarrow> simulates E N R M T C k a"
  shows "simulates E N R M T C (rbind chk (\<lambda>_. k)) (rbind g (\<lambda>_. a))"
  using assms by (cases chk) (auto simp: simulates_def)

lemma simulates_rbind:
  assumes "simulates E N R M T C r a" and "\<And>s. chain_ok E R M T C s \<Longrightarrow> simulates E N R M T C (k s) (k' (ledger_of E N R M T C s))"
  shows "simulates E N R M T C (rbind r k) (rbind a k')"
  using assms by (cases r) (auto simp: simulates_def)

section \<open>A call of the tree\<close>

lemma tree_starts_empty:
  assumes "poseidon_ok E"
  obtains d where "merkle_run E MInitialize [] = Inr d" and "tree_ok E d" and "view d = empty_view" and "d \<noteq> []"
proof -
  obtain d where d: "initialize_tree [] = Inr d" using initialize_tree_correct [OF assms] by metis
  show thesis
    using that [of d] d initialized_view [OF assms d] tree_ok_not_Nil by (auto simp: merkle_run_def)
qed

lemma no_tree_traps: "ix \<noteq> MInitialize \<Longrightarrow> map_sum code_of f (merkle_run E ix []) = Inl None"
  by (cases ix) (simp_all add: merkle_run_def insert_leaf_def remove_leaf_def set_leaf_def check_header_def check_def OFFSET_TREE_DATA_def)

text \<open>What the merkle program does to a tree's shard is what the specification does to the ledger's tree.\<close>

lemma tree_call_step:
  assumes "deployment E N programs R M T C" and "chain_ok E R M T C s" and "t \<in> T" and "merkle_instruction_ok ix"
  shows "simulates E N R M T C (rbind (merkle_run E ix (shard s (tree_sel E R M t))) (\<lambda>d. Inr (s(tree_sel E R M t \<mapsto> d))))
    (change_tree E t ix (ledger_of E N R M T C s))"
proof -
  note D = deployment_parts [OF assms(1)]
  let ?d = "shard s (tree_sel E R M t)"
  note tree = ledger_tree [OF D(1) assms(3)] chain_ok_tree [OF assms(1-3)]
  show ?thesis
  proof (cases "?d = []")
    case True
    then have none: "ld_tree (ledger_of E N R M T C s) t = None" by (simp add: ledger_of_def)
    show ?thesis
    proof (cases "ix = MInitialize")
      case init: True
      obtain d where "merkle_run E MInitialize [] = Inr d" "tree_ok E d" "view d = empty_view" "d \<noteq> []"
        by (rule tree_starts_empty [OF D(2)])
      then show ?thesis using True init tree none by (simp add: change_tree_def simulates_def)
    next
      case False
      then show ?thesis using True none no_tree_traps [OF False, of id E]
        by (cases "merkle_run E ix []") (simp_all add: change_tree_def simulates_def)
    qed
  next
    case False
    then have ok: "tree_ok E ?d" using assms(2,3) by (auto simp: chain_ok_def)
    have some: "ld_tree (ledger_of E N R M T C s) t = Some (view ?d)" using False assms(3) by (simp add: ledger_of_def)
    have run: "spec_run E (view ?d) ix = map_sum id view (merkle_run E ix ?d)" using merkle_run_refines [OF D(2) ok assms(4)] by simp
    have kept: "tree_ok E d" if "merkle_run E ix ?d = Inr d" for d
      using tree.step_preserves [of E ?d ix d] ok D(2) assms(4) that by blast
    show ?thesis
      using kept tree tree_ok_not_Nil
      by (cases "merkle_run E ix ?d") (auto simp: change_tree_def some run simulates_def)
  qed
qed

section \<open>A payment\<close>

lemma pay_step:
  assumes "deployment E N programs R M T C" and "chain_ok E R M T C s"
  shows "simulates E N R M T C (native_run N s (native_metas E a True b True)
      (native_transfer E (calculate_payment_amount l p))) (pay a b l p (ledger_of E N R M T C s))"
proof -
  note D = deployment_parts [OF assms(1)]
  let ?n = "calculate_payment_amount l p"
  have bal: "ld_balance (ledger_of E N R M T C s) = balance E N s" by (simp add: ledger_of_def)
  show ?thesis
  proof (cases "affords (balance E N s) a b (unat ?n)")
    case True
    then obtain s' where s': "native_run N s (native_metas E a True b True) (native_transfer E ?n) = Inr s'"
      "balance E N s' = moved a b (unat ?n) (balance E N s)" "same_elsewhere E s s'"
      using native_moves [OF D(3)] by blast
    then show ?thesis using True ledger_paid [OF D(1) s'(3)] chain_ok_elsewhere [OF assms s'(3)]
      by (simp add: pay_def Let_def bal simulates_def)
  next
    case False
    then obtain e where e: "native_run N s (native_metas E a True b True) (native_transfer E ?n) = Inl e"
      using native_refuses [OF D(3), of True s a b ?n True] by auto
    then have "code_of e = None" using D(4) unfolding native_traps_def by blast
    then show ?thesis using False e by (simp add: pay_def bal simulates_def)
  qed
qed

section \<open>The calls of a transaction\<close>

definition run_call :: "external \<Rightarrow> native_token \<Rightarrow> programs \<Rightarrow> account_id \<Rightarrow> shards \<Rightarrow> chained_call \<Rightarrow> shards result" where
  "run_call E N programs R s call =
     (if callee call = native_program E then native_run N s (call_metas call) (call_data call)
      else paid_replay (Suc 0) E N programs s (callee call) (Some R) (call_metas call) (call_data call))"

lemma to_merkle_step:
  assumes "deployment E N programs R M T C" and "chain_ok E R M T C s" and "t \<in> T" and "merkle_instruction_ok ix"
  shows "simulates E N R M T C (run_call E N programs R s (to_merkle E R M t ix)) (change_tree E t ix (ledger_of E N R M T C s))"
proof -
  note D = deployment_parts [OF assms(1)]
  have "callee (to_merkle E R M t ix) = M" "call_data (to_merkle E R M t ix) = enc_merkle_instruction ix"
    by (simp_all add: to_merkle_def)
  then have "run_call E N programs R s (to_merkle E R M t ix) =
      rbind (merkle_run E ix (shard s (tree_sel E R M t))) (\<lambda>d. Inr (s(tree_sel E R M t \<mapsto> d)))"
    using D(8) paid_merkle_call [OF D(5) assms(4), of 0 E N s t] by (simp add: run_call_def del: paid_replay.simps)
  then show ?thesis using tree_call_step [OF assms] by simp
qed

lemma payment_step:
  assumes "deployment E N programs R M T C" and "chain_ok E R M T C s"
  shows "simulates E N R M T C (run_call E N programs R s (payment E a b l p)) (pay a b l p (ledger_of E N R M T C s))"
proof -
  have "callee (payment E a b l p) = native_program E" by (simp add: payment_def)
  then show ?thesis using pay_step [OF assms] by (simp add: run_call_def)
qed

end
