(* ===== verification/LedgerRefinement.thy ===== *)
theory LedgerRefinement
  imports LedgerCalls
begin

text \<open>
  The chain refines the ledger machine: every transaction ends on the chain as it does on the ledger, with
  the same exit code, and a whole history of transactions, clock updates and fundings does.
\<close>

section \<open>What is planned\<close>

lemma list6: "length xs = 6 \<longleftrightarrow> (\<exists>a b c d e f. xs = [a, b, c, d, e, f])"
  by (auto simp: length_Suc_conv numeral_eq_Suc)

lemma list5: "length xs = 5 \<longleftrightarrow> (\<exists>a b c d e. xs = [a, b, c, d, e])"
  by (auto simp: length_Suc_conv numeral_eq_Suc)

lemma acceptable_plans: "(\<exists>p. plan_instruction E (plan_input_of R caller metas ix) ix = Inr p) \<longleftrightarrow> acceptable E R ix metas"
  by (cases ix) (auto simp: plan_simps map_eq_Cons_conv Cons_eq_map_conv list6 list5)

text \<open>A transaction whose plan is accepted: its effects in order, then its calls.\<close>

definition run_effects :: "external \<Rightarrow> shards \<Rightarrow> (selector \<times> effect) list \<Rightarrow> shards result" where
  "run_effects E = rfold (\<lambda>s (k, e). rbind (apply_effect E e (shard s k)) (\<lambda>post. Inr (case post of None \<Rightarrow> s | Some d \<Rightarrow> s(k \<mapsto> d))))"

lemma run_effects_simps [simp]:
  "run_effects E s [] = Inr s"
  "run_effects E s ((k, e) # es) =
     rbind (apply_effect E e (shard s k)) (\<lambda>post. run_effects E (case post of None \<Rightarrow> s | Some d \<Rightarrow> s(k \<mapsto> d)) es)"
  by (simp_all add: run_effects_def rbind_assoc)

lemma run_effects_steps:
  "rfold (apply_step E RegistrationGuest) s (effects (map_plan OfRegistration (planned es cs))) = run_effects E s es"
  by (induction es arbitrary: s) (auto simp: map_plan_def rbind_assoc cong: option.case_cong)

lemma planned_runs:
  assumes "deployment E N programs R M T C" and "instruction_ok ix"
    and "plan_instruction E (plan_input_of R None metas ix) ix = Inr (planned es cs)"
  shows "paid_replay 2 E N programs s R None metas (enc_instruction ix) =
    rbind (run_effects E s es) (\<lambda>s1. rfold (run_call E N programs R) s1 cs)"
  unfolding numeral_2_eq_2 paid_planned [OF deployment_parts(5) [OF assms(1)] assms(2)] assms(3)
  by (simp only: rbind.simps run_effects_steps run_call_def [abs_def] plan.simps)

section \<open>The steps of the instructions\<close>

abbreviation ran :: "external \<Rightarrow> native_token \<Rightarrow> programs \<Rightarrow> account_id \<Rightarrow> account_meta list \<Rightarrow> instruction \<Rightarrow> shards \<Rightarrow> shards result" where
  "ran E N programs R metas ix s \<equiv> paid_replay 2 E N programs s R None metas (enc_instruction ix)"

lemma initialize_step:
  fixes t :: bytes
  assumes D: "deployment E N programs R M T C" and S: "chain_ok E R M T C s" and ix: "ix = Initialize M t p a x d g"
    and ok: "instruction_ok ix" "t \<in> T" and acc: "acceptable E R ix metas"
  shows "simulates E N R M T C (ran E N programs R metas ix s) (transact E ix metas (ledger_of E N R M T C s))"
proof -
  note P = deployment_parts [OF D]
  let ?cfg = "\<lparr>cs_merkle_program_id = M, cs_tree_id = t, cs_price_per_unit = p, cs_treasury_account_id = a,
       cs_total_registrations = 0, cs_max_total_rate_limit = x, cs_current_total_rate_limit = 0,
       cs_active_duration_sec = d, cs_grace_period_duration_sec = g\<rparr>"
  have pl: "plan_instruction E (plan_input_of R None metas ix) ix = Inr (planned [(config_sel E R t, InitConfig ?cfg)] [])"
    using acc acceptable_plans [of E R None metas ix] unfolding ix by (auto simp: plan_simps)
  have cfg: "config_ok ?cfg" "cs_tree_id ?cfg = t" "cs_merkle_program_id ?cfg = M" using ok by (simp_all add: ix config_ok_def)
  note new = ledger_config [OF P(1) ok(2) cfg(1), of N s] chain_ok_config [OF D S ok(2) cfg]
  note run = planned_runs [OF D ok(1) pl, of s]
  show ?thesis using S ok(2)
  proof (cases rule: config_cases [where N = N])
    case none
    then show ?thesis unfolding run using new by (simp add: ix apply_init_config_def simulates_Inr)
  next
    case (config cfg)
    then show ?thesis unfolding run by (simp add: ix apply_init_config_def simulates_Inl)
  qed
qed

lemma no_config [simp]: "decode_config [] = Inl (Panic ''decode ConfigState'')"
  using config_codec.from_slice_iff [of "[]"] by (cases "from_slice dec_config []") (auto simp: decode_config_def)

lemma the_config_decoded [simp]: "config_ok cfg \<Longrightarrow> decode_config (enc_config cfg) = Inr cfg"
  by (simp add: decode_config_def config_codec.from_slice_enc)

lemma no_member [simp]: "decode_membership [] msg = Inl (Halt EXIT_MEMBERSHIP_MISSING msg)"
  by (simp add: decode_membership_def rbind_ensure)

lemma the_member_decoded [simp]: "membership_ok m \<Longrightarrow> decode_membership (enc_membership m) msg = Inr m"
  by (simp add: decode_membership_def rbind_ensure membership_codec.from_slice_enc)

lemma tree_step:
  fixes t :: bytes
  assumes D: "deployment E N programs R M T C" and S: "chain_ok E R M T C s" and ix: "ix = InitializeMerkleTree t m"
    and ok: "instruction_ok ix" "t \<in> T" and acc: "acceptable E R ix metas"
  shows "simulates E N R M T C (ran E N programs R metas ix s) (transact E ix metas (ledger_of E N R M T C s))"
proof -
  have pl: "plan_instruction E (plan_input_of R None metas ix) ix =
      Inr (planned [(config_sel E R t, InitTreeGuard t m)] [to_merkle E R m t MInitialize])"
    using acc acceptable_plans [of E R None metas ix] unfolding ix by (auto simp: plan_simps)
  note run = planned_runs [OF D ok(1) pl, of s]
  show ?thesis using S ok(2)
  proof (cases rule: config_cases [where N = N])
    case none
    then show ?thesis unfolding run by (simp add: ix apply_init_tree_guard_def simulates_Inl)
  next
    case (config cfg)
    then show ?thesis unfolding run using to_merkle_step [OF D S ok(2), of MInitialize]
      by (cases "m = M") (simp_all add: ix apply_init_tree_guard_def assert_config_ids_def simulates_Inl)
  qed
qed

text \<open>The states between the effects.\<close>

lemma config_written:
  assumes "deployment E N programs R M T C" and "chain_ok E R M T C s" and "t \<in> T" and "config_ok cfg"
    and "cs_tree_id cfg = t" and "cs_merkle_program_id cfg = M"
  shows "ledger_of E N R M T C (s(config_sel E R t \<mapsto> enc_config cfg)) = set_config t cfg (ledger_of E N R M T C s)"
    and "chain_ok E R M T C (s(config_sel E R t \<mapsto> enc_config cfg))"
  using ledger_config [OF deployment_parts(1) [OF assms(1)] assms(3,4)] chain_ok_config [OF assms] by auto

lemma member_written:
  assumes "deployment E N programs R M T C" and "chain_ok E R M T C s" and "t \<in> T" and "c \<in> C"
    and "membership_ok m" and "ms_id_commitment m = c"
  shows "ledger_of E N R M T C (s(membership_sel E R t c \<mapsto> enc_membership m)) = set_member t c (Some m) (ledger_of E N R M T C s)"
    and "chain_ok E R M T C (s(membership_sel E R t c \<mapsto> enc_membership m))"
  by (rule ledger_member [OF deployment_parts(1) [OF assms(1)] assms(3,4)] membership_codec.from_slice_enc assms(5))+
    (use chain_ok_member [OF assms(1-4)] assms(5,6) in blast)

lemma member_cleared:
  assumes "deployment E N programs R M T C" and "chain_ok E R M T C s" and "t \<in> T" and "c \<in> C"
  shows "ledger_of E N R M T C (s(membership_sel E R t c \<mapsto> [])) = set_member t c None (ledger_of E N R M T C s)"
    and "chain_ok E R M T C (s(membership_sel E R t c \<mapsto> []))"
proof -
  have "from_slice dec_membership [] = None"
    using membership_codec.from_slice_iff [of "[]"] by (cases "from_slice dec_membership []") auto
  then show "ledger_of E N R M T C (s(membership_sel E R t c \<mapsto> [])) = set_member t c None (ledger_of E N R M T C s)"
    "chain_ok E R M T C (s(membership_sel E R t c \<mapsto> []))"
    using ledger_member [OF deployment_parts(1) [OF assms(1)] assms(3,4)] chain_ok_member [OF assms] by auto
qed

lemma effect_sels:
  assumes "deployment E N programs R M T C" and "t \<in> T" and "c \<in> C"
  shows "clock_sel E \<noteq> config_sel E R t" "membership_sel E R t c \<noteq> config_sel E R t"
  using apart_all [OF deployment_parts(1) [OF assms(1)]] sel_apart(4) [OF deployment_parts(9) [OF assms(1)] assms(2,2,3,3)] by auto

text \<open>A new membership, paid for, and its leaf.\<close>

lemma new_member_step:
  assumes D: "deployment E N programs R M T C" and S: "chain_ok E R M T C s" and tc: "t \<in> T" "c \<in> C"
    and m: "membership_ok m" "ms_id_commitment m = c" and ix: "merkle_instruction_ok ix"
  shows "simulates E N R M T C
      (rbind (apply_init_membership m (shard s (membership_sel E R t c))) (\<lambda>post.
       rbind (run_call E N programs R (case post of None \<Rightarrow> s | Some d \<Rightarrow> s(membership_sel E R t c \<mapsto> d)) (payment E a b l p)) (\<lambda>s2.
       run_call E N programs R s2 (to_merkle E R M t ix))))
    (rbind (refuse (ld_member (ledger_of E N R M T C s) t c \<noteq> None) (Some EXIT_MEMBERSHIP_EXISTS)) (\<lambda>_.
     rbind (pay a b l p (set_member t c (Some m) (ledger_of E N R M T C s))) (\<lambda>l1. change_tree E t ix l1)))"
  using S tc
proof (cases rule: member_cases [where N = N])
  case none
  note s1 = member_written [OF D S tc m]
  have "simulates E N R M T C
      (rbind (run_call E N programs R (s(membership_sel E R t c \<mapsto> enc_membership m)) (payment E a b l p))
        (\<lambda>s2. run_call E N programs R s2 (to_merkle E R M t ix)))
      (rbind (pay a b l p (set_member t c (Some m) (ledger_of E N R M T C s))) (\<lambda>l1. change_tree E t ix l1))"
    unfolding s1(1) [symmetric]
    by (rule simulates_rbind [OF payment_step [OF D s1(2)]]) (rule to_merkle_step [OF D _ tc(1) ix])
  then show ?thesis using none by (simp add: apply_init_membership_def rbind_ensure)
next
  case (member mem)
  then show ?thesis by (simp add: apply_init_membership_def rbind_ensure simulates_Inl)
qed

lemma register_step:
  fixes t c :: bytes and l now :: u64
  assumes D: "deployment E N programs R M T C" and S: "chain_ok E R M T C s" and ix: "ix = Register t c l m now p d g"
    and ok: "instruction_ok ix" "t \<in> T" "c \<in> C" and acc: "acceptable E R ix metas"
  shows "simulates E N R M T C (ran E N programs R metas ix s) (transact E ix metas (ledger_of E N R M T C s))"
proof -
  let ?new = "new_membership c l now d g" and ?insert = "MInsert (membership_leaf E c l)"
  have pl: "plan_instruction E (plan_input_of R None metas ix) ix =
      Inr (planned [(config_sel E R t, RegisterConfig t m p (account_id (metas ! 3)) l d g), (clock_sel E, ClockIs now),
          (membership_sel E R t c, InitMembership ?new)]
        [payment E (account_id (metas ! 2)) (account_id (metas ! 3)) l p, to_merkle E R m t ?insert])"
    using acc acceptable_plans [of E R None metas ix] unfolding ix by (auto simp: plan_simps new_membership_def)
  have leaf: "merkle_instruction_ok ?insert" using membership_leaf_ok [OF deployment_parts(7) [OF D]] by simp
  have new: "membership_ok ?new" "ms_id_commitment ?new = c" using ok(1) by (simp_all add: ix new_membership_def membership_ok_def)
  note run = planned_runs [OF D ok(1) pl, of s] and sels = effect_sels [OF D ok(2,3)]
  show ?thesis using S ok(2)
  proof (cases rule: config_cases [where N = N])
    case none
    then show ?thesis unfolding run by (simp add: ix apply_register_config_def simulates_Inl)
  next
    case (config cfg)
    have applied: "apply_register_config t m p (account_id (metas ! 3)) l d g (enc_config cfg) =
        (if m \<noteq> M then Inl (Panic ''merkle_program_id claim must match config'')
         else if cs_price_per_unit cfg \<noteq> p \<or> cs_treasury_account_id cfg \<noteq> account_id (metas ! 3) \<or>
           cs_active_duration_sec cfg \<noteq> d \<or> cs_grace_period_duration_sec cfg \<noteq> g then Inl (Halt EXIT_STALE_CONFIG (stale_claim cfg p (account_id (metas ! 3)) d))
         else if \<not> can_register cfg l then Inl (Halt EXIT_RATE_LIMIT_FULL ''Would exceed max total rate limit'') else Inr (Some (enc_config (counted cfg l))))"
      using config by (simp add: apply_register_config_def assert_config_ids_def rbind_ensure stale_claim_def counted_def)
    have "config_ok (counted cfg l)" "cs_tree_id (counted cfg l) = t" "cs_merkle_program_id (counted cfg l) = M"
      using config by (simp_all add: counted_def)
    note s1 = config_written [OF D S ok(2) this]
    show ?thesis
      using config sels simulates_check [OF clock_claim [where s = s and N = N] new_member_step [OF D s1(2) ok(2,3) new leaf]]
      unfolding run by (simp add: ix applied simulates_Inl rbind_assoc s1(1) set_config_def cong: option.case_cong)
  qed
qed

lemma read_after_config [simp]:
  "the_member t' c rate (set_config t cfg l) = the_member t' c rate l"
  "claims_time now (set_config t cfg l) = claims_time now l" "ld_member (set_config t cfg l) = ld_member l"
  by (simp_all add: the_member_def claims_time_def set_config_def)

text \<open>A membership cleared, by a slash or an erasure, and its leaf.\<close>

lemma old_member_step:
  assumes D: "deployment E N programs R M T C" and S: "chain_ok E R M T C s" and tc: "t \<in> T" "c \<in> C"
    and ix: "merkle_instruction_ok ix"
    and cleared: "\<And>m. membership_ok m \<Longrightarrow> ms_id_commitment m = c \<Longrightarrow> clear (enc_membership m) =
      (if ms_rate_limit m \<noteq> l then Inl (Halt EXIT_STALE_RATE_LIMIT msga) else if \<not> may m then Inl (Halt k msgb) else Inr (Some []))"
    and missing: "clear [] = Inl (Halt EXIT_MEMBERSHIP_MISSING msgc)"
  shows "simulates E N R M T C
      (rbind (clear (shard s (membership_sel E R t c))) (\<lambda>post.
       run_call E N programs R (case post of None \<Rightarrow> s | Some d \<Rightarrow> s(membership_sel E R t c \<mapsto> d)) (to_merkle E R M t ix)))
    (rbind (the_member t c l (ledger_of E N R M T C s)) (\<lambda>m.
     rbind (refuse (\<not> may m) (Some k)) (\<lambda>_.
     change_tree E t ix (set_member t c None (ledger_of E N R M T C s)))))"
  using S tc
proof (cases rule: member_cases [where N = N])
  case none
  then show ?thesis by (simp add: missing the_member_def simulates_Inl)
next
  case (member m)
  note s1 = member_cleared [OF D S tc]
  have "simulates E N R M T C (run_call E N programs R (s(membership_sel E R t c \<mapsto> [])) (to_merkle E R M t ix))
      (change_tree E t ix (set_member t c None (ledger_of E N R M T C s)))"
    unfolding s1(1) [symmetric] by (rule to_merkle_step [OF D s1(2) tc(1) ix])
  then show ?thesis using member cleared [of m] by (simp add: the_member_def simulates_Inl)
qed

lemma remove_ok: "poseidon_canonical E \<Longrightarrow> merkle_instruction_ok (MRemove i (membership_leaf E c l))"
  using membership_leaf_ok by simp

lemma released_config:
  assumes "config_ok cfg" and "cs_tree_id cfg = t" and "cs_merkle_program_id cfg = M"
  shows "apply_release_config t m l (enc_config cfg) =
      (if m \<noteq> M then Inl (Panic ''merkle_program_id claim must match config'') else Inr (Some (enc_config (released cfg l))))"
    and "config_ok (released cfg l)" "cs_tree_id (released cfg l) = t" "cs_merkle_program_id (released cfg l) = M"
  using assms by (simp_all add: apply_release_config_def assert_config_ids_def released_def)

lemma slash_step:
  fixes t c :: bytes and l :: u64
  assumes D: "deployment E N programs R M T C" and S: "chain_ok E R M T C s" and ix: "ix = Slash t c secret m i l"
    and ok: "instruction_ok ix" "t \<in> T" "c \<in> C" and acc: "acceptable E R ix metas"
  shows "simulates E N R M T C (ran E N programs R metas ix s) (transact E ix metas (ledger_of E N R M T C s))"
proof -
  have pl: "plan_instruction E (plan_input_of R None metas ix) ix =
      Inr (planned [(config_sel E R t, ReleaseConfig t m l), (membership_sel E R t c, SlashMembership c l)]
        [to_merkle E R m t (MRemove i (membership_leaf E c l))])"
    using acc acceptable_plans [of E R None metas ix] unfolding ix by (auto simp: plan_simps)
  note run = planned_runs [OF D ok(1) pl, of s] and sels = effect_sels [OF D ok(2,3)]
  show ?thesis using S ok(2)
  proof (cases rule: config_cases [where N = N])
    case none
    then show ?thesis unfolding run by (simp add: ix apply_release_config_def simulates_Inl)
  next
    case (config cfg)
    note rel = released_config [OF config(2-4), where l = l]
    note s1 = config_written [OF D S ok(2) rel(2-4)]
    have "simulates E N R M T C
      (rbind (apply_slash_membership c l (shard s (membership_sel E R t c))) (\<lambda>post.
        run_call E N programs R (case post of None \<Rightarrow> s(config_sel E R t \<mapsto> enc_config (released cfg l))
          | Some d \<Rightarrow> s(config_sel E R t \<mapsto> enc_config (released cfg l), membership_sel E R t c \<mapsto> d))
          (to_merkle E R M t (MRemove i (membership_leaf E c l)))))
      (rbind (the_member t c l (ledger_of E N R M T C s)) (\<lambda>_. change_tree E t (MRemove i (membership_leaf E c l))
        (set_member t c None (set_config t (released cfg l) (ledger_of E N R M T C s)))))"
      using old_member_step [OF D s1(2) ok(2,3) remove_ok [OF deployment_parts(7) [OF D]],
          where clear = "apply_slash_membership c l" and l = l and may = "\<lambda>_. True" and msga = "''rate_limit claim must match membership''"
            and msgc = "''Membership account is empty - member doesn't exist or already slashed''"] sels
      by (simp add: apply_slash_membership_def rbind_ensure s1(1))
    then show ?thesis using config sels unfolding run by (simp add: ix rel(1) simulates_Inl rbind_assoc cong: option.case_cong)
  qed
qed

lemma erase_step:
  fixes t c :: bytes and l now :: u64
  assumes D: "deployment E N programs R M T C" and S: "chain_ok E R M T C s" and ix: "ix = Erase t c m i l now"
    and ok: "instruction_ok ix" "t \<in> T" "c \<in> C" and acc: "acceptable E R ix metas"
  shows "simulates E N R M T C (ran E N programs R metas ix s) (transact E ix metas (ledger_of E N R M T C s))"
proof -
  have pl: "plan_instruction E (plan_input_of R None metas ix) ix =
      Inr (planned [(config_sel E R t, ReleaseConfig t m l), (clock_sel E, ClockIs now), (membership_sel E R t c, EraseMembership now l)]
        [to_merkle E R m t (MRemove i (membership_leaf E c l))])"
    using acc acceptable_plans [of E R None metas ix] unfolding ix by (auto simp: plan_simps)
  note run = planned_runs [OF D ok(1) pl, of s] and sels = effect_sels [OF D ok(2,3)]
  let ?may = "\<lambda>mem. is_expired (ms_grace_period_start_timestamp_ms mem) (secs_to_millis (ms_grace_period_duration_sec mem)) now"
  show ?thesis using S ok(2)
  proof (cases rule: config_cases [where N = N])
    case none
    then show ?thesis unfolding run by (simp add: ix apply_release_config_def simulates_Inl)
  next
    case (config cfg)
    note rel = released_config [OF config(2-4), where l = l]
    note s1 = config_written [OF D S ok(2) rel(2-4)]
    have "simulates E N R M T C
      (rbind (apply_erase_membership now l (shard s (membership_sel E R t c))) (\<lambda>post.
        run_call E N programs R (case post of None \<Rightarrow> s(config_sel E R t \<mapsto> enc_config (released cfg l))
          | Some d \<Rightarrow> s(config_sel E R t \<mapsto> enc_config (released cfg l), membership_sel E R t c \<mapsto> d))
          (to_merkle E R M t (MRemove i (membership_leaf E c l)))))
      (rbind (the_member t c l (ledger_of E N R M T C s)) (\<lambda>mem. rbind (refuse (\<not> ?may mem) (Some EXIT_NOT_EXPIRED)) (\<lambda>_.
        change_tree E t (MRemove i (membership_leaf E c l))
        (set_member t c None (set_config t (released cfg l) (ledger_of E N R M T C s))))))"
      using old_member_step [OF D s1(2) ok(2,3) remove_ok [OF deployment_parts(7) [OF D]],
          where clear = "apply_erase_membership now l" and l = l and may = ?may and k = EXIT_NOT_EXPIRED and msga = "''rate_limit claim must match membership''"
            and msgb = "''CannotEraseUnexpiredMembership: membership has not expired yet''"
            and msgc = "''Membership account is empty - nothing to erase''"] sels
      by (simp add: apply_erase_membership_def rbind_ensure s1(1))
    from simulates_check [OF clock_claim [where s = s and N = N] this] show ?thesis
      using config sels unfolding run by (simp add: ix rel(1) simulates_Inl rbind_assoc cong: option.case_cong)
  qed
qed

lemma extend_step:
  fixes t c :: bytes and l now :: u64
  assumes D: "deployment E N programs R M T C" and S: "chain_ok E R M T C s" and ix: "ix = Extend t c now p l"
    and ok: "instruction_ok ix" "t \<in> T" "c \<in> C" and acc: "acceptable E R ix metas"
  shows "simulates E N R M T C (ran E N programs R metas ix s) (transact E ix metas (ledger_of E N R M T C s))"
proof -
  have pl: "plan_instruction E (plan_input_of R None metas ix) ix =
      Inr (planned [(config_sel E R t, ExtendConfig t p (account_id (metas ! 3))), (clock_sel E, ClockIs now),
          (membership_sel E R t c, ExtendMembership now l)]
        [payment E (account_id (metas ! 2)) (account_id (metas ! 3)) l p])"
    using acc acceptable_plans [of E R None metas ix] unfolding ix by (auto simp: plan_simps)
  note run = planned_runs [OF D ok(1) pl, of s]
  let ?may = "\<lambda>mem. is_in_grace_period (ms_grace_period_start_timestamp_ms mem) (secs_to_millis (ms_grace_period_duration_sec mem)) now"
  have member: "simulates E N R M T C
      (rbind (apply_extend_membership now l (shard s (membership_sel E R t c))) (\<lambda>post.
        run_call E N programs R (case post of None \<Rightarrow> s | Some d \<Rightarrow> s(membership_sel E R t c \<mapsto> d)) (payment E a b l p)))
      (rbind (the_member t c l (ledger_of E N R M T C s)) (\<lambda>mem. rbind (refuse (\<not> ?may mem) (Some EXIT_NOT_IN_GRACE_PERIOD)) (\<lambda>_.
        pay a b l p (set_member t c (Some (renewed mem)) (ledger_of E N R M T C s)))))" for a b
    using S ok(2,3)
  proof (cases rule: member_cases [where N = N])
    case none
    then show ?thesis by (simp add: apply_extend_membership_def the_member_def simulates_Inl)
  next
    case (member m)
    note s1 = member_written [OF D S ok(2,3), of "renewed m"]
    show ?thesis using member s1 payment_step [OF D s1(2)]
      by (simp add: apply_extend_membership_def the_member_def rbind_ensure simulates_Inl renewed_def [symmetric])
  qed
  show ?thesis using S ok(2)
  proof (cases rule: config_cases [where N = N])
    case none
    then show ?thesis unfolding run by (simp add: ix apply_extend_config_def simulates_Inl)
  next
    case (config cfg)
    then show ?thesis using simulates_check [OF clock_claim [where s = s and N = N] member]
      unfolding run by (simp add: ix apply_extend_config_def rbind_ensure simulates_Inl rbind_assoc cong: option.case_cong)
  qed
qed

section \<open>Every step\<close>

lemma transact_step:
  assumes D: "deployment E N programs R M T C" and S: "chain_ok E R M T C s" and ok: "op_ok M T C (Transact ix metas)"
  shows "simulates E N R M T C (ran E N programs R metas ix s) (ledger_step E N R (ledger_of E N R M T C s) (Transact ix metas))"
proof (cases "acceptable E R ix metas")
  case False
  have ix: "instruction_ok ix" using ok by (simp add: op_ok_def)
  have "plan_instruction E (plan_input_of R None metas ix) ix \<noteq> Inr p" for p using False acceptable_plans by blast
  from plan_refused [OF deployment_parts(5) [OF D] ix this]
  have "map_sum code_of (ledger_of E N R M T C) (ran E N programs R metas ix s) = Inl None" by (simp add: numeral_2_eq_2)
  then show ?thesis using False by (cases "ran E N programs R metas ix s") (simp_all add: simulates_def del: paid_replay.simps)
next
  case True
  have "simulates E N R M T C (ran E N programs R metas ix s) (transact E ix metas (ledger_of E N R M T C s))"
  proof (cases ix)
    case (Initialize m t p a x d g)
    then have "ix = Initialize M t p a x d g" using ok by (simp add: op_ok_def)
    from initialize_step [OF D S this _ _ True] show ?thesis using ok unfolding Initialize op_ok_def by (auto simp del: paid_replay.simps enc_instruction.simps acceptable.simps transact.simps)
  next
    case (InitializeMerkleTree t m)
    from tree_step [OF D S this _ _ True] show ?thesis using ok by (simp add: op_ok_def InitializeMerkleTree)
  next
    case (Register t c l m now p d g)
    from register_step [OF D S this _ _ _ True] show ?thesis using ok by (simp add: op_ok_def Register)
  next
    case (Slash t c secret m i l)
    from slash_step [OF D S this _ _ _ True] show ?thesis using ok by (simp add: op_ok_def Slash)
  next
    case (Extend t c now p l)
    from extend_step [OF D S this _ _ _ True] show ?thesis using ok by (simp add: op_ok_def Extend)
  next
    case (Erase t c m i l now)
    from erase_step [OF D S this _ _ _ True] show ?thesis using ok by (simp add: op_ok_def Erase)
  qed
  then show ?thesis using True by simp
qed

text \<open>The merkle program wants its account authorized, and nobody can sign for a derived account.\<close>

lemma direct_call_refused:
  assumes "deployment E N programs R M T C" and "merkle_instruction_ok ix" and "list_all (\<lambda>m. \<not> is_authorized m) metas"
  shows "simulates E N R M T C (paid_replay 2 E N programs s M None metas (enc_merkle_instruction ix)) (Inl None)"
proof -
  have "programs M = Some MerkleGuest" using deployment_parts(5) [OF assms(1)] by (simp add: runs_both_def)
  moreover obtain msg where "merkle_plan \<lparr>self_account_id = M, caller_account_id = None, accounts = metas,
      instruction_data = enc_merkle_instruction ix\<rparr> ix = Inl (Panic msg)"
    using assms(3) by (cases metas; cases "tl metas") (auto simp: merkle_plan_def check_def)
  ultimately show ?thesis
    using assms(2) by (simp add: numeral_2_eq_2 run_plan.simps merkle_data map_plan_def simulates_Inl)
qed

lemma chain_step_simulates:
  assumes D: "deployment E N programs R M T C" and S: "chain_ok E R M T C s" and ok: "op_ok M T C op"
  shows "simulates E N R M T C (chain_step E N programs R M s op) (ledger_step E N R (ledger_of E N R M T C s) op)"
proof (cases op)
  case (Transact ix metas)
  then show ?thesis using transact_step [OF D S] ok by (simp add: chain_step_def del: paid_replay.simps)
next
  case (CallTree ix metas)
  then show ?thesis using direct_call_refused [OF D] ok by (simp add: chain_step_def op_ok_def del: paid_replay.simps)
next
  case (SetClock b)
  have "chain_ok E R M T C (s(clock_sel E \<mapsto> b))"
    using S apart_all [OF deployment_parts(1) [OF D]] by (simp add: chain_ok_def has_config_def has_member_def)
  then show ?thesis using ledger_clock [OF deployment_parts(1) [OF D]] by (simp add: SetClock chain_step_def simulates_Inr)
next
  case (SetNative a b)
  have "chain_ok E R M T C (s(native_sel E a \<mapsto> b))"
    using S apart_all [OF deployment_parts(1) [OF D]] by (simp add: chain_ok_def has_config_def has_member_def)
  then show ?thesis using ledger_native [OF deployment_parts(1) [OF D]] by (simp add: SetNative chain_step_def simulates_Inr)
qed

interpretation chain: refinement "\<lambda>s. deployment E N programs R M T C \<and> chain_ok E R M T C s" "ledger_of E N R M T C" code_of
    "op_ok M T C" "chain_step E N programs R M" "ledger_step E N R" for E N programs R M T C
  using chain_step_simulates unfolding simulates_def by unfold_locales blast+

section \<open>From an empty chain\<close>

definition genesis :: "external \<Rightarrow> native_token \<Rightarrow> shards \<Rightarrow> ledger" where
  "genesis E N s =
     \<lparr>ld_config = Map.empty, ld_tree = Map.empty, ld_member = (\<lambda>t. Map.empty),
      ld_clock = clock_timestamp E (shard s (clock_sel E)), ld_balance = balance E N s\<rparr>"

definition unused :: "account_id \<Rightarrow> account_id \<Rightarrow> shards \<Rightarrow> bool" where
  "unused R M s \<longleftrightarrow> (\<forall>k. snd k = R \<or> snd k = M \<longrightarrow> shard s k = [])"

lemma unused_start:
  assumes "unused R M s"
  shows "chain_ok E R M T C s" and "ledger_of E N R M T C s = genesis E N s"
proof -
  have none: "shard s (config_sel E R t) = []" "shard s (tree_sel E R M t) = []" "shard s (membership_sel E R t c) = []" for t c
    using assms by (simp_all add: unused_def config_sel_def tree_sel_def membership_sel_def)
  have "from_slice dec_config [] = None" "from_slice dec_membership [] = None"
    using config_codec.from_slice_iff [of "[]"] membership_codec.from_slice_iff [of "[]"]
    by (cases "from_slice dec_config []"; cases "from_slice dec_membership []"; auto)+
  then show "ledger_of E N R M T C s = genesis E N s" by (simp add: ledger_of_def genesis_def none fun_eq_iff)
  show "chain_ok E R M T C s" by (simp add: chain_ok_def none)
qed

end
