(* ===== verification/LedgerProperties.thy ===== *)
theory LedgerProperties
  imports LedgerRefinement
begin

text \<open>
  What the ledger machine shows of every history on the chain: the concrete history of one membership, from
  the config to its removal, and that no transaction mints or burns native tokens.
\<close>

section \<open>A history of one membership\<close>

lemma toy_native_traps: "native_traps toy_native"
  by (auto simp: native_traps_def toy_native_def Let_def split: list.split if_splits)

lemma demo_deployment: "deployment toy toy_native (deployed demo_R demo_M) demo_R demo_M {demo_T} {demo_C}"
proof -
  have "native_sel toy [] \<noteq> clock_sel toy" by simp
  have "clock_account_id toy \<noteq> native_program toy"
    using demo_native_clock(1) [of "fst (clock_sel toy)"] by (auto simp: native_sel_def clock_sel_def)
  then have "apart toy demo_R demo_M {demo_T} {demo_C}" using demo_separate demo_no_collision by (simp add: apart_def)
  moreover have "runs_both (deployed demo_R demo_M) demo_R demo_M" using demo_separate by (simp add: runs_both_def)
  ultimately show ?thesis using toy_poseidon toy_native_ok toy_native_traps by (simp add: deployment_def)
qed

definition demo_history :: "chain_op list" where
  "demo_history =
     [SetClock demo_clock, SetNative demo_payer (replicate 5000 0),
      Transact (Initialize demo_M demo_T 10 demo_treasury 1000 100 50) [meta_for False (config_sel toy demo_R demo_T)],
      Transact (InitializeMerkleTree demo_T demo_M)
        [meta_for False (config_sel toy demo_R demo_T), meta_for False (tree_sel toy demo_R demo_M demo_T)],
      CallTree MInitialize [meta_for False (tree_sel toy demo_R demo_M demo_T)],
      Transact demo_register demo_register_metas,
      Transact demo_register demo_register_metas,
      Transact (Extend demo_T demo_C demo_now 10 200) demo_extend_metas,
      SetClock (replicate 8 0 @ u64_le 1120000),
      Transact (Extend demo_T demo_C 1120000 10 200) demo_extend_metas,
      Transact (Slash demo_T demo_C demo_secret demo_M 0 200) demo_config_metas,
      Transact demo_register demo_register_metas]"

lemma demo_history_ok: "list_all (op_ok demo_M {demo_T} {demo_C}) demo_history"
  by (simp add: demo_history_def op_ok_def meta_for_def demo_register_def)

lemma demo_acceptable [simp]:
  "acceptable toy demo_R (Initialize demo_M demo_T 10 demo_treasury 1000 100 50) [meta_for False (config_sel toy demo_R demo_T)]"
  "acceptable toy demo_R (InitializeMerkleTree demo_T demo_M)
     [meta_for False (config_sel toy demo_R demo_T), meta_for False (tree_sel toy demo_R demo_M demo_T)]"
  "acceptable toy demo_R demo_register demo_register_metas"
  "acceptable toy demo_R (Extend demo_T demo_C n 10 200) demo_extend_metas"
  "acceptable toy demo_R (Slash demo_T demo_C demo_secret demo_M 0 200) demo_config_metas"
  using demo_secret_ok
  by (simp_all add: meta_for_def meta_selector_def demo_register_def demo_register_metas_def demo_extend_metas_def
      demo_config_metas_def MIN_RATE_LIMIT_def MAX_RATE_LIMIT_def)

text \<open>A ledger with one registry, and what the parts of a transaction do to it.\<close>

definition one_tree ::
  "bytes \<Rightarrow> config_state option \<Rightarrow> tree_view option \<Rightarrow> (bytes \<Rightarrow> membership_state option) \<Rightarrow> u64 option \<Rightarrow>
     (account_id \<Rightarrow> nat) \<Rightarrow> ledger" where
  "one_tree t cfg v mem clk bal =
     \<lparr>ld_config = (\<lambda>t'. if t' = t then cfg else None), ld_tree = (\<lambda>t'. if t' = t then v else None),
      ld_member = (\<lambda>t'. if t' = t then mem else Map.empty), ld_clock = clk, ld_balance = bal\<rparr>"

lemma one_tree_reads [simp]:
  "ld_config (one_tree t cfg v mem clk bal) t = cfg" "ld_tree (one_tree t cfg v mem clk bal) t = v"
  "ld_member (one_tree t cfg v mem clk bal) t = mem" "ld_clock (one_tree t cfg v mem clk bal) = clk"
  "ld_balance (one_tree t cfg v mem clk bal) = bal"
  "the_config t (one_tree t (Some c) v mem clk bal) = Inr c"
  by (simp_all add: one_tree_def the_config_def)

lemma one_tree_writes [simp]:
  "set_config t cfg1 (one_tree t cfg v mem clk bal) = one_tree t (Some cfg1) v mem clk bal"
  "set_member t c m (one_tree t cfg v mem clk bal) = one_tree t cfg v (mem(c := m)) clk bal"
  "(one_tree t cfg v mem clk bal)\<lparr>ld_clock := k\<rparr> = one_tree t cfg v mem k bal"
  "(one_tree t cfg v mem clk bal)\<lparr>ld_balance := b\<rparr> = one_tree t cfg v mem clk b"
  "(one_tree t cfg v mem clk bal)\<lparr>ld_tree := (ld_tree (one_tree t cfg v mem clk bal))(t \<mapsto> v1)\<rparr> = one_tree t cfg (Some v1) mem clk bal"
  by (simp_all add: one_tree_def set_config_def set_member_def fun_eq_iff)

lemma one_tree_pay [simp]:
  "pay a b l p (one_tree t cfg v mem clk bal) =
     (if \<not> affords bal a b (unat (calculate_payment_amount l p)) then Inl None
      else Inr (one_tree t cfg v mem clk (moved a b (unat (calculate_payment_amount l p)) bal)))"
  by (simp add: pay_def Let_def)

lemma one_tree_change [simp]:
  "change_tree E t ix (one_tree t cfg (Some v) mem clk bal) =
     rbind (map_sum code_of id (spec_run E v ix)) (\<lambda>v1. Inr (one_tree t cfg (Some v1) mem clk bal))"
  "change_tree E t MInitialize (one_tree t cfg None mem clk bal) = Inr (one_tree t cfg (Some empty_view) mem clk bal)"
  by (simp_all add: change_tree_def del: fun_upd_apply)

lemma one_tree_clock [simp]:
  "claims_time now (one_tree t cfg v mem (Some ts) bal) =
     (if ts = 0 then Inl (Some EXIT_CLOCK_NOT_INITIALIZED)
      else if ts < now \<or> CLOCK_CLAIM_TOLERANCE_MS < ts - now then Inl (Some EXIT_STALE_CLOCK) else Inr ())"
  by (simp add: claims_time_def refuse_def)

lemma one_tree_member [simp]:
  "the_member t c rate (one_tree t cfg v mem clk bal) =
     (case mem c of None \<Rightarrow> Inl (Some EXIT_MEMBERSHIP_MISSING)
      | Some m \<Rightarrow> if ms_rate_limit m \<noteq> rate then Inl (Some EXIT_STALE_RATE_LIMIT) else Inr m)"
  by (simp add: the_member_def refuse_def split: option.split)

lemma genesis_one_tree: "genesis E N s = one_tree t None None Map.empty (clock_timestamp E (shard s (clock_sel E))) (balance E N s)"
  by (simp add: genesis_def one_tree_def fun_eq_iff)

lemma demo_clock_reads: "clock_timestamp toy (replicate 8 0 @ u64_le t) = Some t"
  by (simp add: toy_def slice_def)

text \<open>The states of the history.\<close>

definition demo_ledger :: "config_state option \<Rightarrow> tree_view option \<Rightarrow> membership_state option \<Rightarrow> u64 \<Rightarrow> nat \<Rightarrow> nat \<Rightarrow> ledger" where
  "demo_ledger cfg v m clk payer treasury =
     one_tree demo_T cfg v (Map.empty(demo_C := m)) (Some clk) ((\<lambda>_. 0)(demo_payer := payer, demo_treasury := treasury))"

definition demo_view :: tree_view where
  "demo_view = (spec_put toy 0 demo_leaf empty_view)\<lparr>tv_next := 1\<rparr>"

lemma demo_view_steps:
  "spec_run toy empty_view (MInsert demo_leaf) = Inr demo_view"
  "spec_run toy demo_view (MRemove 0 demo_leaf) = Inr (spec_put toy 0 ZERO demo_view)"
  using demo_leaf_ok
  by (simp_all add: demo_view_def spec_run_def spec_insert_def spec_remove_def spec_put_def empty_view_def node_ok_def)

lemma demo_amount: "unat (calculate_payment_amount 200 10) = 2000"
  using unat_payment [of 200 10] by simp

lemma demo_moved: "2000 \<le> a \<Longrightarrow> moved demo_payer demo_treasury 2000 ((\<lambda>_. 0)(demo_payer := a, demo_treasury := b)) =
    (\<lambda>_. 0)(demo_payer := a - 2000, demo_treasury := b + 2000)"
  by (auto simp: moved_def demo_ids fun_eq_iff)

lemma demo_affords [simp]:
  "affords ((\<lambda>_. 0)(demo_payer := 5000, demo_treasury := 0)) demo_payer demo_treasury 2000"
  "affords ((\<lambda>_. 0)(demo_payer := 3000, demo_treasury := 2000)) demo_payer demo_treasury 2000"
  "\<not> affords ((\<lambda>_. 0)(demo_payer := 1000, demo_treasury := 4000)) demo_payer demo_treasury 2000"
  using demo_moved [of 5000 0] demo_moved [of 3000 2000] by (simp_all add: affords_def) (simp_all add: demo_ids)

lemma demo_steps:
  "ledger_step toy toy_native demo_R (genesis toy toy_native Map.empty) (SetClock demo_clock) = Inr (demo_ledger None None None demo_now 0 0)"
  "ledger_step toy toy_native demo_R (demo_ledger None None None demo_now 0 0) (SetNative demo_payer (replicate 5000 0)) =
     Inr (demo_ledger None None None demo_now 5000 0)"
  "ledger_step toy toy_native demo_R (demo_ledger None None None demo_now 5000 0)
     (Transact (Initialize demo_M demo_T 10 demo_treasury 1000 100 50) [meta_for False (config_sel toy demo_R demo_T)]) =
     Inr (demo_ledger (Some demo_cfg) None None demo_now 5000 0)"
  "ledger_step toy toy_native demo_R (demo_ledger (Some demo_cfg) None None demo_now 5000 0)
     (Transact (InitializeMerkleTree demo_T demo_M)
        [meta_for False (config_sel toy demo_R demo_T), meta_for False (tree_sel toy demo_R demo_M demo_T)]) =
     Inr (demo_ledger (Some demo_cfg) (Some empty_view) None demo_now 5000 0)"
proof -
  have bal: "native_balance toy_native (replicate n 0) = n" for n by (simp add: toy_native_def)
  have none: "balance toy toy_native Map.empty = (\<lambda>_. 0)" by (simp add: balance_def toy_native_def shard_def fun_eq_iff)
  show "ledger_step toy toy_native demo_R (genesis toy toy_native Map.empty) (SetClock demo_clock) = Inr (demo_ledger None None None demo_now 0 0)"
    by (simp add: genesis_one_tree [where t = demo_T] demo_clock_def demo_clock_reads none fun_upd_idem demo_ledger_def)
  show "ledger_step toy toy_native demo_R (demo_ledger None None None demo_now 0 0) (SetNative demo_payer (replicate 5000 0)) =
     Inr (demo_ledger None None None demo_now 5000 0)" by (simp add: bal fun_upd_twist demo_ids demo_ledger_def)
qed (simp_all add: demo_cfg_def demo_ledger_def del: acceptable.simps)

lemma demo_register_steps:
  "ledger_step toy toy_native demo_R (demo_ledger (Some demo_cfg) (Some empty_view) None demo_now 5000 0)
     (Transact demo_register demo_register_metas) =
     Inr (demo_ledger (Some (counted demo_cfg 200)) (Some demo_view) (Some demo_member) demo_now 3000 2000)"
  "ledger_step toy toy_native demo_R (demo_ledger (Some (counted demo_cfg 200)) (Some demo_view) (Some demo_member) demo_now 3000 2000)
     (Transact demo_register demo_register_metas) = Inl (Some EXIT_MEMBERSHIP_EXISTS)"
proof -
  have cfg: "cs_merkle_program_id demo_cfg = demo_M" "cs_price_per_unit demo_cfg = 10" "cs_treasury_account_id demo_cfg = demo_treasury"
    "cs_active_duration_sec demo_cfg = 100" "cs_grace_period_duration_sec demo_cfg = 50" by (simp_all add: demo_cfg_def)
  have room: "can_register demo_cfg 200" "can_register (counted demo_cfg 200) 200"
    by (simp_all add: can_register_def demo_cfg_def sat_add_def counted_def)
  have metas: "account_id (demo_register_metas ! 2) = demo_payer" "account_id (demo_register_metas ! 3) = demo_treasury"
    by (simp_all add: demo_register_metas_def native_sel_def)
  have kept: "cs_merkle_program_id (counted demo_cfg 200) = demo_M" "cs_price_per_unit (counted demo_cfg 200) = 10"
    "cs_treasury_account_id (counted demo_cfg 200) = demo_treasury" "cs_active_duration_sec (counted demo_cfg 200) = 100"
    "cs_grace_period_duration_sec (counted demo_cfg 200) = 50" by (simp_all add: cfg counted_def)
  have now: "demo_now \<noteq> 0" "demo_payer \<noteq> demo_treasury" by (simp_all add: demo_now_def demo_ids)
  show "ledger_step toy toy_native demo_R (demo_ledger (Some demo_cfg) (Some empty_view) None demo_now 5000 0)
     (Transact demo_register demo_register_metas) =
     Inr (demo_ledger (Some (counted demo_cfg 200)) (Some demo_view) (Some demo_member) demo_now 3000 2000)"
    using cfg room(1) metas now demo_moved [of 5000 0]
    by (simp add: demo_acceptable(3) demo_ledger_def) (simp add: demo_register_def demo_amount demo_view_steps demo_leaf_def [symmetric] demo_member_def)
  show "ledger_step toy toy_native demo_R (demo_ledger (Some (counted demo_cfg 200)) (Some demo_view) (Some demo_member) demo_now 3000 2000)
     (Transact demo_register demo_register_metas) = Inl (Some EXIT_MEMBERSHIP_EXISTS)"
    using kept room(2) metas now by (simp add: demo_acceptable(3) demo_ledger_def) (simp add: demo_register_def)
qed

lemma demo_later_steps:
  "ledger_step toy toy_native demo_R (demo_ledger (Some (counted demo_cfg 200)) (Some demo_view) (Some demo_member) demo_now 3000 2000)
     (Transact (Extend demo_T demo_C demo_now 10 200) demo_extend_metas) = Inl (Some EXIT_NOT_IN_GRACE_PERIOD)"
  "ledger_step toy toy_native demo_R (demo_ledger (Some (counted demo_cfg 200)) (Some demo_view) (Some demo_member) demo_now 3000 2000)
     (SetClock (replicate 8 0 @ u64_le 1120000)) =
     Inr (demo_ledger (Some (counted demo_cfg 200)) (Some demo_view) (Some demo_member) 1120000 3000 2000)"
  "ledger_step toy toy_native demo_R (demo_ledger (Some (counted demo_cfg 200)) (Some demo_view) (Some demo_member) 1120000 3000 2000)
     (Transact (Extend demo_T demo_C 1120000 10 200) demo_extend_metas) =
     Inr (demo_ledger (Some (counted demo_cfg 200)) (Some demo_view) (Some (renewed demo_member)) 1120000 1000 4000)"
  "ledger_step toy toy_native demo_R (demo_ledger (Some (counted demo_cfg 200)) (Some demo_view) (Some (renewed demo_member)) 1120000 1000 4000)
     (Transact (Slash demo_T demo_C demo_secret demo_M 0 200) demo_config_metas) =
     Inr (demo_ledger (Some demo_cfg) (Some (spec_put toy 0 ZERO demo_view)) None 1120000 1000 4000)"
  "ledger_step toy toy_native demo_R (demo_ledger (Some demo_cfg) (Some (spec_put toy 0 ZERO demo_view)) None 1120000 1000 4000)
     (Transact demo_register demo_register_metas) = Inl None"
proof -
  have cfg: "cs_merkle_program_id (counted demo_cfg 200) = demo_M" "cs_price_per_unit (counted demo_cfg 200) = 10"
    "cs_treasury_account_id (counted demo_cfg 200) = demo_treasury" "released (counted demo_cfg 200) 200 = demo_cfg"
    by (simp_all add: demo_cfg_def counted_def released_def sat_add_def sat_sub_def)
  have metas: "account_id (demo_extend_metas ! 2) = demo_payer" "account_id (demo_extend_metas ! 3) = demo_treasury"
    "account_id (demo_register_metas ! 2) = demo_payer" "account_id (demo_register_metas ! 3) = demo_treasury"
    by (simp_all add: demo_extend_metas_def demo_register_metas_def native_sel_def)
  have time: "\<not> is_in_grace_period (ms_grace_period_start_timestamp_ms demo_member) (secs_to_millis (ms_grace_period_duration_sec demo_member)) demo_now"
    "is_in_grace_period (ms_grace_period_start_timestamp_ms demo_member) (secs_to_millis (ms_grace_period_duration_sec demo_member)) 1120000"
    "demo_now \<noteq> 0" "demo_now \<le> 1120000" "1120000 - demo_now \<le> CLOCK_CLAIM_TOLERANCE_MS"
    by (simp_all add: is_in_grace_period_def demo_member_def new_membership_def sat_add_def secs_to_millis_def demo_now_def
        CLOCK_CLAIM_TOLERANCE_MS_def MILLIS_PER_SECOND_def)
  have rate: "ms_rate_limit demo_member = 200" by (simp add: demo_member_def new_membership_def)
  have ids: "demo_payer \<noteq> demo_treasury" by (simp add: demo_ids)
  show "ledger_step toy toy_native demo_R (demo_ledger (Some (counted demo_cfg 200)) (Some demo_view) (Some demo_member) demo_now 3000 2000)
     (Transact (Extend demo_T demo_C demo_now 10 200) demo_extend_metas) = Inl (Some EXIT_NOT_IN_GRACE_PERIOD)"
    using cfg metas time rate by (simp add: demo_ledger_def del: acceptable.simps)
  show "ledger_step toy toy_native demo_R (demo_ledger (Some (counted demo_cfg 200)) (Some demo_view) (Some demo_member) demo_now 3000 2000)
     (SetClock (replicate 8 0 @ u64_le 1120000)) =
     Inr (demo_ledger (Some (counted demo_cfg 200)) (Some demo_view) (Some demo_member) 1120000 3000 2000)"
    by (simp add: demo_clock_reads demo_ledger_def)
  show "ledger_step toy toy_native demo_R (demo_ledger (Some (counted demo_cfg 200)) (Some demo_view) (Some demo_member) 1120000 3000 2000)
     (Transact (Extend demo_T demo_C 1120000 10 200) demo_extend_metas) =
     Inr (demo_ledger (Some (counted demo_cfg 200)) (Some demo_view) (Some (renewed demo_member)) 1120000 1000 4000)"
    using cfg metas time rate ids demo_moved [of 3000 2000] by (simp add: demo_amount demo_ledger_def del: acceptable.simps)
  show "ledger_step toy toy_native demo_R (demo_ledger (Some (counted demo_cfg 200)) (Some demo_view) (Some (renewed demo_member)) 1120000 1000 4000)
     (Transact (Slash demo_T demo_C demo_secret demo_M 0 200) demo_config_metas) =
     Inr (demo_ledger (Some demo_cfg) (Some (spec_put toy 0 ZERO demo_view)) None 1120000 1000 4000)"
    using cfg rate by (simp add: demo_ledger_def demo_view_steps demo_leaf_def [symmetric] del: acceptable.simps)
  have room: "can_register demo_cfg 200" "cs_merkle_program_id demo_cfg = demo_M" "cs_price_per_unit demo_cfg = 10"
    "cs_treasury_account_id demo_cfg = demo_treasury" "cs_active_duration_sec demo_cfg = 100" "cs_grace_period_duration_sec demo_cfg = 50"
    by (simp_all add: can_register_def demo_cfg_def sat_add_def)
  show "ledger_step toy toy_native demo_R (demo_ledger (Some demo_cfg) (Some (spec_put toy 0 ZERO demo_view)) None 1120000 1000 4000)
     (Transact demo_register demo_register_metas) = Inl None"
    using room metas time ids by (simp add: demo_acceptable(3) demo_ledger_def) (simp add: demo_register_def demo_amount not_less)
qed

lemma demo_history_on_ledger:
  "history (ledger_step toy toy_native demo_R) (genesis toy toy_native Map.empty) demo_history =
     ([None, None, None, None, Some None, None, Some (Some EXIT_MEMBERSHIP_EXISTS), Some (Some EXIT_NOT_IN_GRACE_PERIOD),
       None, None, None, Some None],
      demo_ledger (Some demo_cfg) (Some (spec_put toy 0 ZERO demo_view)) None 1120000 1000 4000)"
  by (simp add: demo_history_def demo_steps demo_register_steps demo_later_steps del: ledger_step.simps(1,3,4) fun_upd_apply)

text \<open>
  C4. The programs implement the ledger machine. From a chain where they hold nothing yet, every history of
  transactions, direct calls of the merkle program, clock updates and fundings, refused ones included, ends
  at every step as on the ledger: accepted on both or refused on both, with the same exit code; and it
  leaves the chain with the configs, trees, members, clock and balances of the ledger. The programs run
  with their transfers, among any other programs.
\<close>

theorem chain_refines_ledger:
  assumes "deployment E N programs R M T C" and "unused R M s" and "list_all (op_ok M T C) ops"
  shows "map_prod (map (map_option code_of)) (ledger_of E N R M T C) (history (chain_step E N programs R M) s ops) =
    history (ledger_step E N R) (genesis E N s) ops"
  using chain.history_refines [of E N programs R M T C s ops] assms unused_start [OF assms(2)] by simp

theorem chain_refines_ledger_witness:
  "map (map_option code_of) (fst (history (chain_step toy toy_native (deployed demo_R demo_M) demo_R demo_M) Map.empty demo_history)) =
     [None, None, None, None, Some None, None, Some (Some EXIT_MEMBERSHIP_EXISTS), Some (Some EXIT_NOT_IN_GRACE_PERIOD),
      None, None, None, Some None] \<and>
   balance toy toy_native (snd (history (chain_step toy toy_native (deployed demo_R demo_M) demo_R demo_M) Map.empty demo_history))
     demo_treasury = 4000"
proof -
  let ?h = "history (chain_step toy toy_native (deployed demo_R demo_M) demo_R demo_M) Map.empty demo_history"
  let ?L = "ledger_of toy toy_native demo_R demo_M {demo_T} {demo_C}"
  have "unused demo_R demo_M Map.empty" by (simp add: unused_def shard_def)
  from chain_refines_ledger [OF demo_deployment this demo_history_ok]
  have h: "map (map_option code_of) (fst ?h) = fst (history (ledger_step toy toy_native demo_R) (genesis toy toy_native Map.empty) demo_history)"
    "?L (snd ?h) = snd (history (ledger_step toy toy_native demo_R) (genesis toy toy_native Map.empty) demo_history)"
    by (metis fst_map_prod, metis snd_map_prod)
  have "balance toy toy_native (snd ?h) = ld_balance (?L (snd ?h))" by (simp add: ledger_of_def)
  then show ?thesis unfolding h demo_history_on_ledger by (simp add: demo_ledger_def)
qed

section \<open>Native tokens are conserved\<close>

text \<open>The accounts a transaction may move tokens between, and the operations that are transactions.\<close>

definition moves_within :: "account_id set \<Rightarrow> chain_op \<Rightarrow> bool" where
  "moves_within A op \<longleftrightarrow>
     (case op of
        Transact ix metas \<Rightarrow> charged ix \<noteq> None \<longrightarrow> account_id (metas ! 2) \<in> A \<and> account_id (metas ! 3) \<in> A
      | SetNative a b \<Rightarrow> False
      | _ \<Rightarrow> True)"

lemma refuse_Inr: "rbind (refuse b k) f = Inr y \<longleftrightarrow> \<not> b \<and> f () = Inr y"
  by (simp add: refuse_def)

lemma change_tree_balance: "change_tree E t ix l = Inr l1 \<Longrightarrow> ld_balance l1 = ld_balance l"
  by (auto simp: change_tree_def result_simps split: option.splits if_splits)

lemma pay_balance:
  "pay a b l p ld = Inr l1 \<Longrightarrow> finite A \<Longrightarrow> a \<in> A \<Longrightarrow> b \<in> A \<Longrightarrow> sum (ld_balance l1) A = sum (ld_balance ld) A"
  using moved_total [of A a b "unat (calculate_payment_amount l p)" "ld_balance ld"]
  by (auto simp: pay_def affords_def Let_def split: if_splits)

lemma written_balance [simp]: "ld_balance (set_config t cfg l) = ld_balance l" "ld_balance (set_member t c m l) = ld_balance l"
  by (simp_all add: set_config_def set_member_def)

lemma transact_pays:
  assumes "transact E ix metas l = Inr l1"
  shows "case charged ix of None \<Rightarrow> ld_balance l1 = ld_balance l
    | Some (rate, price) \<Rightarrow> \<exists>l2 l3. ld_balance l2 = ld_balance l \<and> ld_balance l1 = ld_balance l3 \<and>
        pay (account_id (metas ! 2)) (account_id (metas ! 3)) rate price l2 = Inr l3"
proof (cases ix)
  case (Register t c rate m now p d g)
  then obtain cfg l3 where "pay (account_id (metas ! 2)) (account_id (metas ! 3)) rate p
      (set_member t c (Some (new_membership c rate now d g)) (set_config t (counted cfg rate) l)) = Inr l3"
    "change_tree E t (MInsert (membership_leaf E c rate)) l3 = Inr l1"
    using assms by (simp only: transact.simps refuse_Inr rbind_Inr_iff) blast
  then show ?thesis using change_tree_balance [of E t _ l3 l1]
    by (simp only: Register charged.simps option.case prod.case) (metis written_balance)
next
  case (Extend t c now p rate)
  then obtain mem where "pay (account_id (metas ! 2)) (account_id (metas ! 3)) rate p (set_member t c (Some (renewed mem)) l) = Inr l1"
    using assms by (simp only: transact.simps refuse_Inr rbind_Inr_iff) blast
  then show ?thesis by (simp only: Extend charged.simps option.case prod.case) (metis written_balance)
qed (use assms in \<open>simp_all only: transact.simps refuse_Inr rbind_Inr_iff charged.simps option.case\<close>,
    (fastforce dest: change_tree_balance)+)

lemma ledger_step_conserves:
  assumes "ledger_step E N R l op = Inr l1" and "finite A" and "moves_within A op"
  shows "sum (ld_balance l1) A = sum (ld_balance l) A"
proof (cases op)
  case (Transact ix metas)
  have "transact E ix metas l = Inr l1" using assms(1) by (simp add: Transact refuse_Inr)
  from transact_pays [OF this] show ?thesis
    using assms(2,3) pay_balance by (cases "charged ix") (auto simp: Transact moves_within_def)
qed (use assms in \<open>auto simp: moves_within_def\<close>)

lemma ledger_history_conserves:
  "finite A \<Longrightarrow> list_all (moves_within A) ops \<Longrightarrow>
     sum (ld_balance (snd (history (ledger_step E N R) l ops))) A = sum (ld_balance l) A"
proof (induction ops arbitrary: l)
  case (Cons op ops)
  then show ?case
    by (cases "ledger_step E N R l op") (simp_all add: case_prod_unfold Let_def ledger_step_conserves)
qed simp

text \<open>
  C5. Transactions mint and burn nothing. Along every history of transactions and clock updates on the
  chain, refused ones included, the native tokens of any set of accounts that holds the payers and the
  treasuries of the transactions that charge stay the same in total: what a registration or a renewal
  takes from its payer is what its treasury receives, and a refused transaction takes nothing.
\<close>

theorem history_conserves_tokens:
  assumes "deployment E N programs R M T C" and "unused R M s" and "list_all (op_ok M T C) ops"
    and "finite A" and "list_all (moves_within A) ops"
  shows "sum (balance E N (snd (history (chain_step E N programs R M) s ops))) A = sum (balance E N s) A"
proof -
  let ?s' = "snd (history (chain_step E N programs R M) s ops)"
  have "map_prod (map (map_option code_of)) (ledger_of E N R M T C) (history (chain_step E N programs R M) s ops) =
      history (ledger_step E N R) (genesis E N s) ops"
    using chain.history_refines [of E N programs R M T C s ops] assms(1,3) unused_start [OF assms(2)] by simp
  then have "ledger_of E N R M T C ?s' = snd (history (ledger_step E N R) (genesis E N s) ops)" by (metis snd_map_prod)
  moreover have "ld_balance (ledger_of E N R M T C ?s') = balance E N ?s'" by (simp add: ledger_of_def)
  moreover have "ld_balance (genesis E N s) = balance E N s" by (simp add: genesis_def)
  ultimately show ?thesis using ledger_history_conserves [OF assms(4,5), of E N R "genesis E N s"] by simp
qed

theorem history_conserves_tokens_witness:
  "(\<Sum>a \<in> {demo_payer, demo_treasury}. balance toy toy_native
     (snd (history (chain_step toy toy_native (deployed demo_R demo_M) demo_R demo_M) [native_sel toy demo_payer \<mapsto> replicate 5000 0]
       (filter (\<lambda>op. case op of SetNative a b \<Rightarrow> False | _ \<Rightarrow> True) demo_history))) a) = 5000"
proof -
  let ?ops = "filter (\<lambda>op. case op of SetNative a b \<Rightarrow> False | _ \<Rightarrow> True) demo_history"
  let ?s = "[native_sel toy demo_payer \<mapsto> replicate 5000 0] :: shards"
  have ok: "list_all (op_ok demo_M {demo_T} {demo_C}) ?ops" using demo_history_ok by (simp add: list_all_iff)
  have "list_all (moves_within {demo_payer, demo_treasury}) ?ops"
    by (simp add: demo_history_def moves_within_def demo_register_def demo_register_metas_def demo_extend_metas_def native_sel_def)
  moreover have "unused demo_R demo_M ?s"
    using demo_separate by (auto simp: unused_def shard_def native_sel_def separate_def)
  moreover have "sum (balance toy toy_native ?s) {demo_payer, demo_treasury} = 5000"
    by (simp add: balance_def shard_def toy_native_def native_sel_def demo_ids)
  ultimately show ?thesis using history_conserves_tokens [OF demo_deployment _ ok, of ?s "{demo_payer, demo_treasury}"] by simp
qed

section \<open>A leaf is used once\<close>

definition registers :: "bytes \<Rightarrow> chain_op \<Rightarrow> bool" where
  "registers t op \<longleftrightarrow> (case op of Transact (Register t' c l m now p d g) metas \<Rightarrow> t' = t | _ \<Rightarrow> False)"

text \<open>How many registrations of a tree a history accepted, and how many leaves a tree has given out.\<close>

definition accepted :: "bytes \<Rightarrow> chain_op list \<Rightarrow> 'e option list \<Rightarrow> nat" where
  "accepted t ops outcomes = length (filter (\<lambda>(op, r). registers t op \<and> r = None) (zip ops outcomes))"

definition leaves_given :: "bytes \<Rightarrow> nat" where
  "leaves_given d = (if d = [] then 0 else unat (hdr_next d))"

definition ledger_leaves :: "bytes \<Rightarrow> ledger \<Rightarrow> nat" where
  "ledger_leaves t l = (case ld_tree l t of None \<Rightarrow> 0 | Some v \<Rightarrow> tv_next v)"

lemma written_leaves [simp]:
  "ledger_leaves t (set_config t' cfg l) = ledger_leaves t l" "ledger_leaves t (set_member t' c m l) = ledger_leaves t l"
  "ledger_leaves t (l\<lparr>ld_clock := k\<rparr>) = ledger_leaves t l" "ledger_leaves t (l\<lparr>ld_balance := b\<rparr>) = ledger_leaves t l"
  by (simp_all add: ledger_leaves_def set_config_def set_member_def)

lemma pay_leaves: "pay a b l p ld = Inr l1 \<Longrightarrow> ledger_leaves t l1 = ledger_leaves t ld"
  by (auto simp: pay_def Let_def split: if_splits)

lemma spec_run_leaves:
  "spec_run E v ix = Inr v1 \<Longrightarrow> tv_next v1 = tv_next v + (case ix of MInsert leaf \<Rightarrow> 1 | _ \<Rightarrow> 0)"
  by (cases ix) (auto simp: spec_run_def spec_insert_def spec_remove_def spec_set_def spec_put_def split: if_splits)

lemma change_tree_leaves:
  assumes "change_tree E t' ix l = Inr l1"
  shows "ledger_leaves t l1 = ledger_leaves t l + (if t' = t then (case ix of MInsert leaf \<Rightarrow> 1 | _ \<Rightarrow> 0) else 0)"
proof (cases "ld_tree l t'")
  case None
  then show ?thesis using assms by (auto simp: change_tree_def ledger_leaves_def empty_view_def split: if_splits)
next
  case (Some v)
  then obtain v1 where "spec_run E v ix = Inr v1" "l1 = l\<lparr>ld_tree := (ld_tree l)(t' \<mapsto> v1)\<rparr>"
    using assms by (cases "spec_run E v ix") (auto simp: change_tree_def)
  then show ?thesis using Some spec_run_leaves [of E v ix v1] by (auto simp: ledger_leaves_def)
qed

lemma transact_leaves:
  assumes "transact E ix metas l = Inr l1"
  shows "ledger_leaves t l1 = ledger_leaves t l + (if registers t (Transact ix metas) then 1 else 0)"
proof (cases ix)
  case (Register t' c rate m now p d g)
  then obtain cfg l3 where "pay (account_id (metas ! 2)) (account_id (metas ! 3)) rate p
      (set_member t' c (Some (new_membership c rate now d g)) (set_config t' (counted cfg rate) l)) = Inr l3"
    "change_tree E t' (MInsert (membership_leaf E c rate)) l3 = Inr l1"
    using assms by (simp only: transact.simps refuse_Inr rbind_Inr_iff) blast
  from pay_leaves [OF this(1), of t] change_tree_leaves [OF this(2), of t] show ?thesis
    by (simp add: Register registers_def)
next
  case (Extend t' c now p rate)
  then obtain mem where "pay (account_id (metas ! 2)) (account_id (metas ! 3)) rate p (set_member t' c (Some (renewed mem)) l) = Inr l1"
    using assms by (simp only: transact.simps refuse_Inr rbind_Inr_iff) blast
  from pay_leaves [OF this, of t] show ?thesis by (simp add: Extend registers_def)
next
  case (Initialize m t' p a x d g)
  then show ?thesis using assms by (auto simp: refuse_Inr registers_def)
next
  case (InitializeMerkleTree t' m)
  then have "change_tree E t' MInitialize l = Inr l1"
    using assms by (simp only: transact.simps refuse_Inr rbind_Inr_iff) blast
  from change_tree_leaves [OF this, of t] show ?thesis by (simp add: InitializeMerkleTree registers_def)
next
  case (Slash t' c secret m i rate)
  then obtain cfg where "change_tree E t' (MRemove i (membership_leaf E c rate))
      (set_member t' c None (set_config t' (released cfg rate) l)) = Inr l1"
    using assms by (simp only: transact.simps refuse_Inr rbind_Inr_iff) blast
  from change_tree_leaves [OF this, of t] show ?thesis by (simp add: Slash registers_def)
next
  case (Erase t' c m i rate now)
  then obtain cfg where "change_tree E t' (MRemove i (membership_leaf E c rate))
      (set_member t' c None (set_config t' (released cfg rate) l)) = Inr l1"
    using assms by (simp only: transact.simps refuse_Inr rbind_Inr_iff) blast
  from change_tree_leaves [OF this, of t] show ?thesis by (simp add: Erase registers_def)
qed

lemma ledger_step_leaves:
  assumes "ledger_step E N R l op = Inr l1"
  shows "ledger_leaves t l1 = ledger_leaves t l + (if registers t op then 1 else 0)"
proof (cases op)
  case (Transact ix metas)
  then have "transact E ix metas l = Inr l1" using assms by (simp add: refuse_Inr)
  from transact_leaves [OF this] show ?thesis by (simp add: Transact)
qed (use assms in \<open>auto simp: registers_def\<close>)

lemma ledger_history_leaves:
  "ledger_leaves t (snd (history (ledger_step E N R) l ops)) =
     ledger_leaves t l + accepted t ops (fst (history (ledger_step E N R) l ops))"
proof (induction ops arbitrary: l)
  case Nil
  then show ?case by (simp add: accepted_def)
next
  case (Cons op ops)
  show ?case
  proof (cases "ledger_step E N R l op")
    case (Inl e)
    then show ?thesis using Cons.IH [of l] by (simp add: accepted_def case_prod_unfold Let_def)
  next
    case (Inr l1)
    then show ?thesis using Cons.IH [of l1] ledger_step_leaves [OF Inr, of t]
      by (simp add: accepted_def case_prod_unfold Let_def)
  qed
qed

lemma accepted_outcomes: "accepted t ops (map (map_option f) rs) = accepted t ops rs"
  by (induction ops rs rule: list_induct2') (auto simp: accepted_def)

text \<open>
  C7. A leaf is given out once. Along every history on the chain the number of registrations accepted
  for a tree is the tree's next index, so it is never more than its 512 leaves: slashes and erasures free
  capacity, but no index is ever used again, and a registry takes at most 512 registrations in its life.
\<close>

theorem registrations_use_up_leaves:
  assumes "deployment E N programs R M T C" and "unused R M s" and "list_all (op_ok M T C) ops" and "t \<in> T"
  shows "accepted t ops (fst (history (chain_step E N programs R M) s ops)) =
      leaves_given (shard (snd (history (chain_step E N programs R M) s ops)) (tree_sel E R M t)) \<and>
    accepted t ops (fst (history (chain_step E N programs R M) s ops)) \<le> 2 ^ TREE_DEPTH"
proof -
  let ?h = "history (chain_step E N programs R M) s ops"
  have "map_prod (map (map_option code_of)) (ledger_of E N R M T C) ?h = history (ledger_step E N R) (genesis E N s) ops"
    using chain.history_refines [of E N programs R M T C s ops] assms(1,3) unused_start [OF assms(2)] by simp
  then have h: "map (map_option code_of) (fst ?h) = fst (history (ledger_step E N R) (genesis E N s) ops)"
    "ledger_of E N R M T C (snd ?h) = snd (history (ledger_step E N R) (genesis E N s) ops)"
    by (metis fst_map_prod, metis snd_map_prod)
  have end_leaves: "ledger_leaves t (ledger_of E N R M T C (snd ?h)) = leaves_given (shard (snd ?h) (tree_sel E R M t))"
    using assms(4) by (simp add: ledger_leaves_def ledger_of_def leaves_given_def view_def)
  have start: "ledger_leaves t (genesis E N s) = 0" by (simp add: ledger_leaves_def genesis_def)
  have eq: "accepted t ops (fst ?h) = leaves_given (shard (snd ?h) (tree_sel E R M t))"
    using ledger_history_leaves [of t E N R "genesis E N s" ops] start end_leaves h accepted_outcomes [of t ops code_of "fst ?h"]
    by simp
  have "chain_ok E R M T C (snd ?h)"
    using chain.history_preserves [of E N programs R M T C s ops] assms(1,3) unused_start [OF assms(2)] by simp
  then have "leaves_given (shard (snd ?h) (tree_sel E R M t)) \<le> 2 ^ TREE_DEPTH"
    using assms(4) by (auto simp: chain_ok_def leaves_given_def tree_ok_def)
  then show ?thesis using eq by simp
qed

theorem registrations_use_up_leaves_witness:
  "accepted demo_T demo_history
     (fst (history (chain_step toy toy_native (deployed demo_R demo_M) demo_R demo_M) Map.empty demo_history)) = 1 \<and>
   leaves_given (shard (snd (history (chain_step toy toy_native (deployed demo_R demo_M) demo_R demo_M) Map.empty demo_history))
     (tree_sel toy demo_R demo_M demo_T)) = 1"
proof -
  let ?h = "history (chain_step toy toy_native (deployed demo_R demo_M) demo_R demo_M) Map.empty demo_history"
  have start: "unused demo_R demo_M Map.empty" by (simp add: unused_def shard_def)
  have "map_prod (map (map_option code_of)) (ledger_of toy toy_native demo_R demo_M {demo_T} {demo_C}) ?h =
      history (ledger_step toy toy_native demo_R) (genesis toy toy_native Map.empty) demo_history"
    using chain.history_refines [of toy toy_native "deployed demo_R demo_M" demo_R demo_M "{demo_T}" "{demo_C}" Map.empty demo_history]
      demo_deployment demo_history_ok unused_start [OF start] by simp
  then have "map (map_option code_of) (fst ?h) = fst (history (ledger_step toy toy_native demo_R) (genesis toy toy_native Map.empty) demo_history)"
    by (metis fst_map_prod)
  then have "accepted demo_T demo_history (fst ?h) = 1"
    unfolding demo_history_on_ledger
    by (subst accepted_outcomes [of demo_T demo_history code_of, symmetric])
      (simp add: accepted_def demo_history_def registers_def demo_register_def)
  then show ?thesis using registrations_use_up_leaves [OF demo_deployment start demo_history_ok, of demo_T] by simp
qed

end
