(* ===== verification/Treasury.thy ===== *)
theory Treasury
  imports LedgerProperties
begin

text \<open>
  What a treasury has earned. Along every history on the chain the balance of a treasury has grown by at
  least what the current members of its registries paid for their rates.
\<close>

section \<open>What the members of a registry are worth to its treasury\<close>

text \<open>
  The price of a config's current rates, counted for its treasury; zero where the price of the largest rate
  limit, 600, would saturate.
\<close>

definition worth :: "account_id \<Rightarrow> config_state \<Rightarrow> nat" where
  "worth a cfg =
     (if cs_treasury_account_id cfg = a \<and> unat (cs_price_per_unit cfg) * 600 < 2 ^ 128
      then unat (cs_price_per_unit cfg) * unat (cs_current_total_rate_limit cfg) else 0)"

definition worth_of :: "account_id \<Rightarrow> config_state option \<Rightarrow> nat" where
  "worth_of a c = (case c of None \<Rightarrow> 0 | Some cfg \<Rightarrow> worth a cfg)"

lemma worth_of_simps [simp]: "worth_of a None = 0" "worth_of a (Some cfg) = worth a cfg"
  by (simp_all add: worth_of_def)

definition owed :: "bytes set \<Rightarrow> account_id \<Rightarrow> ledger \<Rightarrow> nat" where
  "owed T a l = (\<Sum>t \<in> T. worth_of a (ld_config l t))"

text \<open>A step that changes the config of one tree.\<close>

lemma owed_step:
  assumes "finite T" and "\<And>t'. t' \<noteq> t \<Longrightarrow> ld_config l1 t' = ld_config l t'" and "n \<le> m"
    and "worth_of a (ld_config l1 t) + n \<le> worth_of a (ld_config l t) + m"
  shows "owed T a l1 + n \<le> owed T a l + m"
proof (cases "t \<in> T")
  case True
  have "(\<Sum>t' \<in> T - {t}. worth_of a (ld_config l1 t')) = (\<Sum>t' \<in> T - {t}. worth_of a (ld_config l t'))"
    using assms(2) by (intro sum.cong) auto
  then show ?thesis
    using assms(4) sum.remove [OF assms(1) True, of "\<lambda>t'. worth_of a (ld_config l1 t')"]
      sum.remove [OF assms(1) True, of "\<lambda>t'. worth_of a (ld_config l t')"] by (simp add: owed_def)
next
  case False
  then have "ld_config l1 x = ld_config l x" if "x \<in> T" for x using assms(2) [of x] that by metis
  then have "owed T a l1 = owed T a l" unfolding owed_def by (intro sum.cong) simp_all
  then show ?thesis using assms(3) by simp
qed

section \<open>One transaction\<close>

lemma pay_Inr:
  "pay a b rate price l = Inr l1 \<longleftrightarrow>
     affords (ld_balance l) a b (unat (calculate_payment_amount rate price)) \<and>
     l1 = l\<lparr>ld_balance := moved a b (unat (calculate_payment_amount rate price)) (ld_balance l)\<rparr>"
  by (auto simp: pay_def Let_def)

lemma change_tree_config: "change_tree E t ix l = Inr l1 \<Longrightarrow> ld_config l1 = ld_config l"
  by (cases "ld_tree l t") (auto simp: change_tree_def result_simps split: if_splits)

lemma refuse_done: "refuse b k = Inr u \<longleftrightarrow> \<not> b"
  by (simp add: refuse_def)

lemma the_config_Inr: "the_config t l = Inr cfg \<longleftrightarrow> ld_config l t = Some cfg"
  by (auto simp: the_config_def split: option.splits)

text \<open>Who pays: the treasury \<open>a\<close> is not among the payers, and its balance is not set from outside.\<close>

definition leaves_to :: "account_id \<Rightarrow> chain_op \<Rightarrow> bool" where
  "leaves_to a op \<longleftrightarrow>
     (case op of
        Transact ix metas \<Rightarrow> charged ix = None \<or> account_id (metas ! 2) \<noteq> a
      | SetNative b d \<Rightarrow> b \<noteq> a
      | _ \<Rightarrow> True)"

lemma moved_grows: "a \<noteq> p \<Longrightarrow> bal a \<le> moved p b n bal a"
  by (simp add: moved_def Let_def)

lemma counted_worth:
  assumes "rate \<le> MAX_RATE_LIMIT"
  shows "worth a (counted cfg rate) \<le> worth a cfg +
    (if cs_treasury_account_id cfg = a then unat (calculate_payment_amount rate (cs_price_per_unit cfg)) else 0)"
proof (cases "cs_treasury_account_id cfg = a \<and> unat (cs_price_per_unit cfg) * 600 < 2 ^ 128")
  case True
  let ?p = "unat (cs_price_per_unit cfg)"
  have "unat rate \<le> 600" using assms MAX_RATE_600 by auto
  then have "?p * unat rate \<le> ?p * 600" by (rule mult_le_mono2)
  then have "?p * unat rate < 2 ^ 128" using True by (meson le_less_trans)
  then have "unat (calculate_payment_amount rate (cs_price_per_unit cfg)) = ?p * unat rate"
    unfolding unat_payment by (intro min_absorb1) simp
  moreover have "unat (cs_current_total_rate_limit (counted cfg rate)) \<le> unat (cs_current_total_rate_limit cfg) + unat rate"
    by (simp add: counted_def unat_sat_add)
  then have "?p * unat (cs_current_total_rate_limit (counted cfg rate)) \<le> ?p * unat (cs_current_total_rate_limit cfg) + ?p * unat rate"
    by (metis add_mult_distrib2 mult_le_mono2)
  ultimately show ?thesis using True by (simp add: worth_def counted_def)
next
  case False
  then show ?thesis by (auto simp: worth_def counted_def)
qed

lemma released_worth: "worth a (released cfg rate) \<le> worth a cfg"
  by (simp add: worth_def released_def unat_sat_sub)

text \<open>The parts of an accepted transaction that matter to the treasury.\<close>

lemma transact_earns:
  assumes "transact E ix metas l = Inr l1" and "acceptable E R ix metas" and "leaves_to a (Transact ix metas)" and "finite T"
  shows "owed T a l1 + ld_balance l a \<le> owed T a l + ld_balance l1 a"
proof (cases ix)
  case (Register t c rate m now p d g)
  from assms(1)[unfolded Register] obtain cfg l3 where cfg: "ld_config l t = Some cfg" "cs_price_per_unit cfg = p"
      "cs_treasury_account_id cfg = account_id (metas ! 3)"
    and pay: "pay (account_id (metas ! 2)) (account_id (metas ! 3)) rate p
      (set_member t c (Some (new_membership c rate now d g)) (set_config t (counted cfg rate) l)) = Inr l3"
    and tree: "change_tree E t (MInsert (membership_leaf E c rate)) l3 = Inr l1"
    by (simp only: transact.simps rbind_Inr_iff refuse_done the_config_Inr de_Morgan_disj not_not) blast
  let ?n = "unat (calculate_payment_amount rate p)"
  have l1: "ld_config l1 = (ld_config l)(t \<mapsto> counted cfg rate)"
      "ld_balance l1 = moved (account_id (metas ! 2)) (account_id (metas ! 3)) ?n (ld_balance l)"
      and funds: "?n \<le> ld_balance l (account_id (metas ! 2))"
    using pay change_tree_config [OF tree] change_tree_balance [OF tree]
    by (auto simp: pay_Inr affords_def) (simp_all add: set_config_def set_member_def)
  have payer: "account_id (metas ! 2) \<noteq> a" using assms(3) by (simp add: leaves_to_def Register)
  have "worth a (counted cfg rate) + ld_balance l a \<le> worth a cfg + ld_balance l1 a"
    using counted_worth [of rate a cfg] assms(2) payer funds cfg moved_grows [of a "account_id (metas ! 2)"] l1(2)
    by (cases "cs_treasury_account_id cfg = a") (auto simp: Register moved_sel)
  then show ?thesis
    using assms(4) cfg l1 moved_grows [of a "account_id (metas ! 2)"] payer by (intro owed_step [where t = t]) auto
next
  case (Extend t c now p rate)
  from assms(1)[unfolded Extend] obtain mem where
    "pay (account_id (metas ! 2)) (account_id (metas ! 3)) rate p (set_member t c (Some (renewed mem)) l) = Inr l1"
    by (simp only: transact.simps refuse_Inr rbind_Inr_iff) blast
  then have "ld_config l1 = ld_config l" "ld_balance l a \<le> ld_balance l1 a"
    using assms(3) by (auto simp: pay_Inr leaves_to_def Extend set_member_def moved_grows)
  then show ?thesis by (simp add: owed_def)
next
  case (Initialize m t p b x d g)
  then show ?thesis
    using assms(1,4) by (auto simp: refuse_Inr set_config_def worth_def intro!: owed_step [where t = t])
next
  case (InitializeMerkleTree t m)
  then have "change_tree E t MInitialize l = Inr l1"
    using assms(1) by (simp only: transact.simps refuse_Inr rbind_Inr_iff) blast
  from change_tree_config [OF this] change_tree_balance [OF this] show ?thesis by (simp add: owed_def)
next
  case (Slash t c secret m i rate)
  from assms(1)[unfolded Slash] obtain cfg where cfg: "ld_config l t = Some cfg"
    and tree: "change_tree E t (MRemove i (membership_leaf E c rate)) (set_member t c None (set_config t (released cfg rate) l)) = Inr l1"
    by (simp only: transact.simps rbind_Inr_iff refuse_done the_config_Inr de_Morgan_disj not_not) blast
  show ?thesis
    using assms(4) cfg change_tree_config [OF tree] change_tree_balance [OF tree] released_worth [of a cfg rate]
    by (intro owed_step [where t = t]) (auto simp: set_config_def set_member_def)
next
  case (Erase t c m i rate now)
  from assms(1)[unfolded Erase] obtain cfg where cfg: "ld_config l t = Some cfg"
    and tree: "change_tree E t (MRemove i (membership_leaf E c rate)) (set_member t c None (set_config t (released cfg rate) l)) = Inr l1"
    by (simp only: transact.simps rbind_Inr_iff refuse_done the_config_Inr de_Morgan_disj not_not) blast
  show ?thesis
    using assms(4) cfg change_tree_config [OF tree] change_tree_balance [OF tree] released_worth [of a cfg rate]
    by (intro owed_step [where t = t]) (auto simp: set_config_def set_member_def)
qed

lemma ledger_step_earns:
  assumes "ledger_step E N R l op = Inr l1" and "leaves_to a op" and "finite T"
  shows "owed T a l1 + ld_balance l a \<le> owed T a l + ld_balance l1 a"
proof (cases op)
  case (Transact ix metas)
  then have "transact E ix metas l = Inr l1" "acceptable E R ix metas" using assms(1) by (simp_all add: refuse_Inr)
  from transact_earns [OF this _ assms(3)] show ?thesis using assms(2) Transact by simp
next
  case (SetNative b d)
  then show ?thesis using assms(1,2) by (auto simp: leaves_to_def owed_def)
qed (use assms(1) in \<open>auto simp: owed_def\<close>)

section \<open>A history\<close>

lemma ledger_history_earns:
  "list_all (leaves_to a) ops \<Longrightarrow> finite T \<Longrightarrow>
     owed T a (snd (history (ledger_step E N R) l ops)) + ld_balance l a \<le>
     owed T a l + ld_balance (snd (history (ledger_step E N R) l ops)) a"
proof (induction ops arbitrary: l)
  case (Cons op ops)
  show ?case
  proof (cases "ledger_step E N R l op")
    case (Inl e)
    then show ?thesis using Cons by (simp add: case_prod_unfold Let_def)
  next
    case (Inr l1)
    then show ?thesis using Cons.IH [of l1] Cons.prems ledger_step_earns [OF Inr, of a T]
      by (simp add: case_prod_unfold Let_def)
  qed
qed simp

definition rates_worth :: "external \<Rightarrow> account_id \<Rightarrow> bytes set \<Rightarrow> account_id \<Rightarrow> shards \<Rightarrow> nat" where
  "rates_worth E R T a s = (\<Sum>t \<in> T. worth_of a (from_slice dec_config (shard s (config_sel E R t))))"

lemma owed_on_chain: "owed T a (ledger_of E N R M T C s) = rates_worth E R T a s"
  unfolding owed_def rates_worth_def by (intro sum.cong) (simp_all add: ledger_of_def)

text \<open>
  C8. A treasury's balance covers its members. Along every history on the chain of registrations, renewals,
  slashes, erasures, clock updates and fundings of other accounts, refused transactions included, the native
  balance of an account that pays for none of them has grown by at least the price of the current rate
  limits of all members of all the registries whose treasury it is. Registries where the price of the
  largest rate limit would saturate count as nothing.
\<close>

theorem treasury_covers_rates:
  assumes "deployment E N programs R M T C" and "unused R M s" and "list_all (op_ok M T C) ops"
    and "finite T" and "list_all (leaves_to a) ops"
  shows "rates_worth E R T a (snd (history (chain_step E N programs R M) s ops)) + balance E N s a \<le>
    balance E N (snd (history (chain_step E N programs R M) s ops)) a"
proof -
  let ?h = "history (chain_step E N programs R M) s ops"
  have "map_prod (map (map_option code_of)) (ledger_of E N R M T C) ?h = history (ledger_step E N R) (genesis E N s) ops"
    using chain.history_refines [of E N programs R M T C s ops] assms(1,3) unused_start [OF assms(2)] by simp
  then have "ledger_of E N R M T C (snd ?h) = snd (history (ledger_step E N R) (genesis E N s) ops)" by (metis snd_map_prod)
  moreover have "owed T a (genesis E N s) = 0" by (simp add: owed_def genesis_def)
  moreover have "ld_balance (genesis E N s) = balance E N s" "ld_balance (ledger_of E N R M T C (snd ?h)) = balance E N (snd ?h)"
    by (simp_all add: genesis_def ledger_of_def)
  ultimately show ?thesis
    using ledger_history_earns [OF assms(5,4), of E N R "genesis E N s"] owed_on_chain [of T a E N R M C "snd ?h"] by simp
qed

lemma demo_member_on_ledger:
  "snd (history (ledger_step toy toy_native demo_R) (genesis toy toy_native Map.empty) (take 6 demo_history)) =
     demo_ledger (Some (counted demo_cfg 200)) (Some demo_view) (Some demo_member) demo_now 3000 2000"
proof -
  have "ledger_step toy toy_native demo_R (demo_ledger (Some demo_cfg) (Some empty_view) None demo_now 5000 0)
      (CallTree MInitialize [meta_for False (tree_sel toy demo_R demo_M demo_T)]) = Inl None" by simp
  then show ?thesis
    by (simp add: demo_history_def demo_steps demo_register_steps take_Cons' del: ledger_step.simps fun_upd_apply)
qed

theorem treasury_covers_rates_witness:
  "rates_worth toy demo_R {demo_T} demo_treasury
     (snd (history (chain_step toy toy_native (deployed demo_R demo_M) demo_R demo_M) Map.empty (take 6 demo_history))) = 2000 \<and>
   2000 \<le> balance toy toy_native
     (snd (history (chain_step toy toy_native (deployed demo_R demo_M) demo_R demo_M) Map.empty (take 6 demo_history))) demo_treasury"
proof -
  let ?h = "history (chain_step toy toy_native (deployed demo_R demo_M) demo_R demo_M) Map.empty (take 6 demo_history)"
  let ?L = "ledger_of toy toy_native demo_R demo_M {demo_T} {demo_C}"
  have start: "unused demo_R demo_M Map.empty" by (simp add: unused_def shard_def)
  have ok: "list_all (op_ok demo_M {demo_T} {demo_C}) (take 6 demo_history)"
    using demo_history_ok by (auto simp: list_all_iff dest: in_set_takeD)
  have apart: "demo_payer \<noteq> demo_treasury" by (simp add: demo_ids)
  have pays: "list_all (leaves_to demo_treasury) (take 6 demo_history)"
    using apart by (simp add: demo_history_def leaves_to_def demo_register_def demo_register_metas_def native_sel_def take_Cons')
  have "map_prod (map (map_option code_of)) ?L ?h = history (ledger_step toy toy_native demo_R) (genesis toy toy_native Map.empty) (take 6 demo_history)"
    using chain.history_refines [of toy toy_native "deployed demo_R demo_M" demo_R demo_M "{demo_T}" "{demo_C}" Map.empty "take 6 demo_history"]
      demo_deployment ok unused_start [OF start] by simp
  then have "?L (snd ?h) = demo_ledger (Some (counted demo_cfg 200)) (Some demo_view) (Some demo_member) demo_now 3000 2000"
    using demo_member_on_ledger by (metis snd_map_prod)
  then have "rates_worth toy demo_R {demo_T} demo_treasury (snd ?h) = worth demo_treasury (counted demo_cfg 200)"
    using owed_on_chain [of "{demo_T}" demo_treasury toy toy_native demo_R demo_M "{demo_C}" "snd ?h"]
    by (simp add: owed_def demo_ledger_def one_tree_def)
  also have "\<dots> = 2000" by (simp add: worth_def counted_def demo_cfg_def sat_add_def)
  finally show ?thesis using treasury_covers_rates [OF demo_deployment start ok _ pays] by simp
qed

section \<open>Tokens leave an account only when it signs\<close>

definition unsigned_by :: "account_id \<Rightarrow> chain_op \<Rightarrow> bool" where
  "unsigned_by a op \<longleftrightarrow>
     (case op of
        Transact ix metas \<Rightarrow> list_all (\<lambda>m. account_id m = a \<longrightarrow> \<not> is_authorized m) metas
      | SetNative b d \<Rightarrow> b \<noteq> a
      | _ \<Rightarrow> True)"

lemma charged_signed:
  assumes "acceptable E R ix metas" and "charged ix \<noteq> None"
  shows "metas ! 2 \<in> set metas \<and> is_authorized (metas ! 2)"
  using assms by (cases ix) auto

lemma ledger_step_keeps:
  assumes "ledger_step E N R l op = Inr l1" and "unsigned_by a op"
  shows "ld_balance l a \<le> ld_balance l1 a"
proof (cases op)
  case (Transact ix metas)
  then have run: "transact E ix metas l = Inr l1" "acceptable E R ix metas" using assms(1) by (simp_all add: refuse_Inr)
  show ?thesis
  proof (cases "charged ix")
    case None
    then show ?thesis using transact_pays [OF run(1)] by simp
  next
    case (Some rp)
    have "account_id (metas ! 2) \<noteq> a"
      using charged_signed [OF run(2)] Some assms(2) by (auto simp: unsigned_by_def Transact list_all_iff)
    then show ?thesis using transact_pays [OF run(1)] Some by (auto simp: pay_Inr moved_grows split: prod.splits)
  qed
qed (use assms in \<open>auto simp: unsigned_by_def\<close>)

lemma ledger_history_keeps:
  "list_all (unsigned_by a) ops \<Longrightarrow> ld_balance l a \<le> ld_balance (snd (history (ledger_step E N R) l ops)) a"
proof (induction ops arbitrary: l)
  case (Cons op ops)
  show ?case
  proof (cases "ledger_step E N R l op")
    case (Inl e)
    then show ?thesis using Cons by (simp add: case_prod_unfold Let_def)
  next
    case (Inr l1)
    then show ?thesis using Cons.IH [of l1] Cons.prems ledger_step_keeps [OF Inr, of a]
      by (simp add: case_prod_unfold Let_def)
  qed
qed simp

text \<open>
  C13. Nobody pays without signing. Along every history of transactions of the two programs, clock updates
  and fundings of other accounts, the native balance of an account never falls unless the account is an
  authorized account of a transaction: whatever accounts and claims a transaction names, the programs
  charge no one who did not sign it.
\<close>

theorem tokens_leave_only_when_signed:
  assumes "deployment E N programs R M T C" and "unused R M s" and "list_all (op_ok M T C) ops"
    and "list_all (unsigned_by a) ops"
  shows "balance E N s a \<le> balance E N (snd (history (chain_step E N programs R M) s ops)) a"
proof -
  let ?h = "history (chain_step E N programs R M) s ops"
  have "map_prod (map (map_option code_of)) (ledger_of E N R M T C) ?h = history (ledger_step E N R) (genesis E N s) ops"
    using chain.history_refines [of E N programs R M T C s ops] assms(1,3) unused_start [OF assms(2)] by simp
  then have "ledger_of E N R M T C (snd ?h) = snd (history (ledger_step E N R) (genesis E N s) ops)" by (metis snd_map_prod)
  moreover have "ld_balance (genesis E N s) = balance E N s" "ld_balance (ledger_of E N R M T C (snd ?h)) = balance E N (snd ?h)"
    by (simp_all add: genesis_def ledger_of_def)
  ultimately show ?thesis using ledger_history_keeps [OF assms(4), of "genesis E N s" E N R] by simp
qed

theorem tokens_leave_only_when_signed_witness:
  "10 \<le> balance toy toy_native
     (snd (history (chain_step toy toy_native (deployed demo_R demo_M) demo_R demo_M)
       [native_sel toy demo_treasury \<mapsto> replicate 10 0] demo_history)) demo_treasury"
proof -
  let ?s = "[native_sel toy demo_treasury \<mapsto> replicate 10 0] :: shards"
  have start: "unused demo_R demo_M ?s"
    using demo_separate by (auto simp: unused_def shard_def native_sel_def separate_def)
  have apart: "demo_payer \<noteq> demo_treasury" by (simp add: demo_ids)
  have none: "list_all (unsigned_by demo_treasury) demo_history"
    using apart by (simp add: demo_history_def unsigned_by_def demo_register_metas_def demo_extend_metas_def
        demo_config_metas_def meta_for_def native_sel_def)
  have "balance toy toy_native ?s demo_treasury = 10" by (simp add: balance_def shard_def toy_native_def)
  then show ?thesis using tokens_leave_only_when_signed [OF demo_deployment start demo_history_ok none] by simp
qed

end
