(* ===== verification/Endings.thy ===== *)
theory Endings
  imports EndToEnd RegistryProperties HostScenario
begin

text \<open>
  No membership is stuck in the registry: whatever a run did, every member can be removed once its time
  is over, by anyone, and nobody has to sign for it.
\<close>

section \<open>A member's fields stay valid\<close>

definition member_felts :: "external \<Rightarrow> account_id \<Rightarrow> shards \<Rightarrow> bytes \<Rightarrow> bytes \<Rightarrow> bool" where
  "member_felts E R s t c \<longleftrightarrow>
     shard s (membership_sel E R t c) = [] \<or>
     (\<exists>m. has_member E R s t c m \<and> felt_valid E c \<and> felt_valid E (rate_felt (ms_rate_limit m)))"

lemma member_felts_reachable:
  assumes "separate E R M" and "poseidon_canonical E" and "no_collision E R T C" and "t \<in> T" and "c \<in> C"
    and "reachable E R M T C s"
  shows "member_felts E R s t c"
  using assms(6)
proof (induction rule: reachable.induct)
  case (reach_start s)
  then show ?case by (simp add: member_felts_def membership_sel_def)
next
  case (reach_step s s')
  have tree: "tree_called E R M m t x s1 s' \<Longrightarrow> shard s' (membership_sel E R t c) = shard s1 (membership_sel E R t c)" for m x s1
    using tree_called_writes sel_other(4) [OF assms(1)] by metis
  show ?case
  proof (cases "shard s' (membership_sel E R t c) = shard s (membership_sel E R t c)")
    case True
    then show ?thesis using reach_step(3) by (simp add: member_felts_def has_member_def)
  next
    case False
    then obtain ix caller metas where ix: "instruction_ok ix" "concerns t c ix"
      and run: "replay (Suc (Suc 0)) E (deployed R M) s R caller metas (enc_instruction ix) = Inr s'"
      using membership_changed_by [OF assms(1-5) reach_step(2)] by blast
    show ?thesis
    proof (cases ix)
      case (Register t' c' l m now p d g)
      then have ok: "instruction_ok (Register t c l m now p d g)"
        and r: "replay (Suc (Suc 0)) E (deployed R M) s R caller metas (enc_instruction (Register t c l m now p d g)) = Inr s'"
        using ix run by (simp_all del: replay.simps enc_instruction.simps)
      obtain cfg where felts: "felt_valid E c" "felt_valid E (rate_felt l)"
        and new: "tree_called E R M m t (MInsert (membership_leaf E c l))
          (s(config_sel E R t \<mapsto> enc_config (counted cfg l), membership_sel E R t c \<mapsto> enc_membership (new_membership c l now d g))) s'"
        using tx_register [OF assms(1,2) ok, THEN iffD1, OF r] by blast
      have "has_member E R s' t c (new_membership c l now d g)"
        using tree [OF new] ok by (simp add: has_member_def membership_ok_def new_membership_def)
      moreover have "ms_rate_limit (new_membership c l now d g) = l" by (simp add: new_membership_def)
      ultimately show ?thesis using felts by (auto simp: member_felts_def)
    next
      case (Slash t' c' secret m i l)
      then have ok: "instruction_ok (Slash t c secret m i l)"
        and r: "replay (Suc (Suc 0)) E (deployed R M) s R caller metas (enc_instruction (Slash t c secret m i l)) = Inr s'"
        using ix run by (simp_all del: replay.simps enc_instruction.simps)
      obtain cfg where "tree_called E R M m t (MRemove i (membership_leaf E c l))
          (s(config_sel E R t \<mapsto> enc_config (released cfg l), membership_sel E R t c \<mapsto> [])) s'"
        using tx_slash [OF assms(1,2) ok, THEN iffD1, OF r] by blast
      then show ?thesis using tree by (simp add: member_felts_def)
    next
      case (Extend t' c' now p l)
      then have ok: "instruction_ok (Extend t c now p l)"
        and r: "replay (Suc (Suc 0)) E (deployed R M) s R caller metas (enc_instruction (Extend t c now p l)) = Inr s'"
        using ix run by (simp_all del: replay.simps enc_instruction.simps)
      obtain mem where mem: "has_member E R s t c mem" "s' = s(membership_sel E R t c \<mapsto> enc_membership (renewed mem))"
        using tx_extend [OF assms(1) ok, THEN iffD1, OF r] by blast
      then have "felt_valid E c" "felt_valid E (rate_felt (ms_rate_limit mem))"
        using reach_step(3) has_member_unique [OF mem(1)] by (auto simp: member_felts_def has_member_def)
      moreover have "has_member E R s' t c (renewed mem)" using mem by (simp add: has_member_def)
      ultimately show ?thesis by (auto simp: member_felts_def)
    next
      case (Erase t' c' m i l now)
      then have ok: "instruction_ok (Erase t c m i l now)"
        and r: "replay (Suc (Suc 0)) E (deployed R M) s R caller metas (enc_instruction (Erase t c m i l now)) = Inr s'"
        using ix run by (simp_all del: replay.simps enc_instruction.simps)
      obtain cfg where "tree_called E R M m t (MRemove i (membership_leaf E c l))
          (s(config_sel E R t \<mapsto> enc_config (released cfg l), membership_sel E R t c \<mapsto> [])) s'"
        using tx_erase [OF assms(1,2) ok, THEN iffD1, OF r] by blast
      then show ?thesis using tree by (simp add: member_felts_def)
    qed (use ix in simp_all)
  qed
qed

section \<open>A member's leaf is in the tree\<close>

lemma count_nonzero:
  assumes "length ls = n" and "k \<le> n" and "\<And>i. i < k \<Longrightarrow> ls ! i \<noteq> z" and "\<And>i. k \<le> i \<Longrightarrow> i < n \<Longrightarrow> ls ! i = z"
  shows "size (filter_mset (\<lambda>x. x \<noteq> z) (mset ls)) = k"
proof -
  have split: "ls = take k ls @ replicate (n - k) z"
    using assms(1,2,4) by (intro nth_equalityI) (auto simp: nth_append)
  have "filter (\<lambda>x. x \<noteq> z) (take k ls) = take k ls"
    unfolding filter_id_conv using assms(1-3) by (force simp: in_set_conv_nth)
  then have "filter (\<lambda>x. x \<noteq> z) ls = take k ls"
    by (subst split) simp
  then have "length (filter (\<lambda>x. x \<noteq> z) ls) = k" using assms(1,2) by simp
  then show ?thesis by (metis mset_filter size_mset)
qed

lemma member_leaf_at:
  assumes tree: "tree_ok E (shard s (tree_sel E R M t))" and card: "card (live E R C s t) \<le> unat (hdr_next (shard s (tree_sel E R M t)))"
    and match: "leaves_match E R C s t (tv_leaves (view (shard s (tree_sel E R M t))))"
    and fin: "finite (live E R C s t)" and c: "c \<in> live E R C s t"
  obtains i where "leaf_at E R M s t c (rate_of E R s t c) i"
proof (cases "\<exists>i < unat (hdr_next (shard s (tree_sel E R M t))).
    tree_leaf (shard s (tree_sel E R M t)) i = membership_leaf E c (rate_of E R s t c)")
  case True
  then show thesis using that by (auto simp: leaf_at_def)
next
  case False
  let ?d = "shard s (tree_sel E R M t)" and ?leaf = "\<lambda>c. membership_leaf E c (rate_of E R s t c)"
  let ?n = "unat (hdr_next ?d)" and ?ls = "tv_leaves (view ?d)" and ?L = "live E R C s t"
  have len: "length ?ls = 2 ^ TREE_DEPTH" and at: "\<And>i. i < 2 ^ TREE_DEPTH \<Longrightarrow> ?ls ! i = tree_leaf ?d i"
    by (simp_all add: view_def)
  have bound: "?n \<le> 2 ^ TREE_DEPTH" and zero: "\<And>i. ?n \<le> i \<Longrightarrow> i < 2 ^ TREE_DEPTH \<Longrightarrow> tree_leaf ?d i = ZERO"
    using tree by (simp_all add: tree_ok_def)
  have "?leaf c \<in># mset ?ls" using match fin c by (auto simp: leaves_match_def)
  then obtain i where "i < 2 ^ TREE_DEPTH" "tree_leaf ?d i = ?leaf c" using len at by (auto simp: in_set_conv_nth)
  then have z: "?leaf c = ZERO" using False zero [of i] by force
  have "size (filter_mset (\<lambda>x. x \<noteq> ZERO) (mset ?ls)) = ?n"
    by (rule count_nonzero [OF len bound]) (use False z at bound zero in auto)
  moreover have "filter_mset (\<lambda>x. x \<noteq> ZERO) (mset ?ls) = filter_mset (\<lambda>x. x \<noteq> ZERO) (image_mset ?leaf (mset_set (?L - {c})))"
    using match fin c z mset_set.remove [OF fin c] by (simp add: leaves_match_def)
  ultimately have "?n = size (filter_mset (\<lambda>x. x \<noteq> ZERO) (image_mset ?leaf (mset_set (?L - {c}))))" by simp
  then have "?n \<le> card (?L - {c})"
    using size_filter_mset_lesseq [of "\<lambda>x. x \<noteq> ZERO" "image_mset ?leaf (mset_set (?L - {c}))"] by simp
  then show thesis using card fin c card_gt_0_iff [of ?L] by (auto simp: card_Diff_singleton)
qed

section \<open>Every membership can end\<close>

definition erase_metas :: "external \<Rightarrow> account_id \<Rightarrow> account_id \<Rightarrow> bytes \<Rightarrow> bytes \<Rightarrow> account_meta list" where
  "erase_metas E R M t c =
     [meta_for False (config_sel E R t), meta_for False (tree_sel E R M t), meta_for False (membership_sel E R t c),
      meta_for False (clock_sel E)]"

lemma member_in_tree:
  assumes "separate E R M" and "poseidon_ok E" and "no_collision E R T C" and "t \<in> T" and "c \<in> C"
    and "reachable E R M T C s" and "has_config E R s t cfg" and "cs_merkle_program_id cfg = M" and "has_member E R s t c mem"
  obtains i where "tree_ok E (shard s (tree_sel E R M t))" and "leaf_at E R M s t c (ms_rate_limit mem) i"
    and "felt_valid E c" and "felt_valid E (rate_felt (ms_rate_limit mem))" and "cs_tree_id cfg = t"
proof -
  have pc: "poseidon_canonical E" using assms(2) by (simp add: poseidon_ok_def)
  note ok = registry_okE [OF reachable_ok [OF assms(1-4,6)] assms(7,8)]
  have live: "c \<in> live E R C s t" using assms(5,9) by (auto simp: live_def has_member_def)
  then have t: "tree_ok E (shard s (tree_sel E R M t))" "card (live E R C s t) \<le> unat (hdr_next (shard s (tree_sel E R M t)))"
    "leaves_match E R C s t (tv_leaves (view (shard s (tree_sel E R M t))))"
    using ok(3) by (auto simp: tree_matches_def Let_def split: if_splits)
  have fin: "finite (live E R C s t)" using ok(2) by (simp add: counts_match_def)
  obtain i where at: "leaf_at E R M s t c (rate_of E R s t c) i" by (rule member_leaf_at [OF t fin live])
  have "member_felts E R s t c" by (rule member_felts_reachable [OF assms(1) pc assms(3-6)])
  then have "felt_valid E c" "felt_valid E (rate_felt (ms_rate_limit mem))"
    using has_member_unique [OF assms(9)] assms(9) by (auto simp: member_felts_def has_member_def)
  then show thesis using that at t(1) ok(1) rate_of_has [OF assms(9)] by simp
qed

text \<open>
  C6. No membership is stuck. In any state a run can reach, every member of a registry can be removed: once
  the clock shows any time past its grace period, the tree still holds its leaf at some index, and the
  \<open>Erase\<close> naming that index is accepted from anyone, with no signature; the membership is gone, its counts are
  given back and its leaf is cleared. Such a time always exists, as the period's end saturates.
\<close>

theorem memberships_can_end:
  assumes "separate E R M" and "poseidon_ok E" and "no_collision E R T C" and "t \<in> T" and "c \<in> C"
    and "reachable E R M T C s" and "has_config E R s t cfg" and "cs_merkle_program_id cfg = M" and "has_member E R s t c mem"
    and "bytes32 t" and "bytes32 M" and "bytes32 c"
    and "clock_timestamp E b = Some ts" and "0 < ts"
    and "sat_add (ms_grace_period_start_timestamp_ms mem) (secs_to_millis (ms_grace_period_duration_sec mem)) \<le> ts"
  shows "\<exists>i s'. replay 2 E (deployed R M) (s(clock_sel E \<mapsto> b)) R None (erase_metas E R M t c)
      (enc_instruction (Erase t c M i (ms_rate_limit mem) ts)) = Inr s' \<and>
    removed_from E R M t c cfg (ms_rate_limit mem) s s'"
proof -
  let ?l = "ms_rate_limit mem" and ?s = "s(clock_sel E \<mapsto> b)"
  have pc: "poseidon_canonical E" using assms(2) by (simp add: poseidon_ok_def)
  obtain i where tree: "tree_ok E (shard s (tree_sel E R M t))" and at: "leaf_at E R M s t c ?l i"
    and felts: "felt_valid E c" "felt_valid E (rate_felt ?l)" "cs_tree_id cfg = t"
    by (rule member_in_tree [OF assms(1-9)])
  have ne: "membership_sel E R t c \<noteq> config_sel E R t"
    using assms(7,9) enc_config_membership by (auto simp: has_config_def has_member_def)
  obtain d1 where del: "remove_leaf E (shard s (tree_sel E R M t)) (word_of_nat i) (membership_leaf E c ?l) = Inr d1"
    by (rule leaf_at_removable [OF assms(2) tree at])
  let ?s1 = "?s(config_sel E R t \<mapsto> enc_config (released cfg ?l), membership_sel E R t c \<mapsto> [])"
  let ?s' = "?s1(tree_sel E R M t \<mapsto> d1)"
  have sels: "config_sel E R t \<noteq> clock_sel E" "membership_sel E R t c \<noteq> clock_sel E" "tree_sel E R M t \<noteq> clock_sel E"
    using assms(1) by (auto simp: config_sel_def membership_sel_def tree_sel_def clock_sel_def separate_def)
  have call: "tree_called E R M M t (MRemove (word_of_nat i) (membership_leaf E c ?l)) ?s1 ?s'"
    using del assms(1) sels by (auto simp: tree_called_def merkle_run_def)
  have run: "replay 2 E (deployed R M) ?s R None (erase_metas E R M t c) (enc_instruction (Erase t c M (word_of_nat i) ?l ts)) = Inr ?s'"
    unfolding numeral_2_eq_2
    by (subst tx_erase [OF assms(1) pc])
      (use assms felts ne call sels in \<open>auto simp: erase_metas_def has_config_def has_member_def clock_ok_def clock_iff is_expired_def\<close>)
  have "removed_from E R M t c cfg ?l s ?s'"
    using removed_member [OF assms(1,7) ne assms(2) tree at del] at sels ne ne [symmetric] assms(1)
    by (auto simp: removed_from_def leaf_at_def has_config_def)
  then show ?thesis using run by blast
qed

theorem memberships_can_end_witness:
  "\<exists>i s'. replay 2 toy (deployed demo_R demo_M) (demo_registered(clock_sel toy \<mapsto> replicate 8 0 @ u64_le 1150000)) demo_R None
      (erase_metas toy demo_R demo_M demo_T demo_C) (enc_instruction (Erase demo_T demo_C demo_M i 200 1150000)) = Inr s' \<and>
    removed_from toy demo_R demo_M demo_T demo_C (counted demo_cfg 200) 200 demo_registered s'"
proof -
  have rate: "ms_rate_limit demo_member = 200" by (simp add: demo_member_def new_membership_def)
  have clock: "clock_timestamp toy (replicate 8 0 @ u64_le 1150000) = Some 1150000" by (simp add: toy_def slice_def)
  have "sat_add (ms_grace_period_start_timestamp_ms demo_member) (secs_to_millis (ms_grace_period_duration_sec demo_member)) \<le> 1150000"
    by (simp add: demo_member_def new_membership_def sat_add_def secs_to_millis_def MILLIS_PER_SECOND_def demo_now_def)
  from memberships_can_end [OF demo_separate toy_poseidon demo_no_collision _ _ demo_reachable(2) demo_has_config(3) _ demo_has_member
      _ _ _ clock _ this] show ?thesis
    unfolding rate by (simp add: counted_def demo_cfg_def)
qed

end
