(* ===== verification/Lifecycle.thy ===== *)
theory Lifecycle
  imports CheckMembership
begin

text \<open>
  The stages of a membership in order, as a datatype with the library's \<open>linorder\<close>, and what the lookup
  tool's \<open>lifecycle\<close> and the guests' time windows say in terms of it.
\<close>

section \<open>Stages\<close>

datatype stage = Active | Grace | Expired

instantiation stage :: linorder
begin

definition stage_rank :: "stage \<Rightarrow> nat" where
  "stage_rank x = (case x of Active \<Rightarrow> 0 | Grace \<Rightarrow> 1 | Expired \<Rightarrow> 2)"

definition less_eq_stage :: "stage \<Rightarrow> stage \<Rightarrow> bool" where "x \<le> y \<longleftrightarrow> stage_rank x \<le> stage_rank y"

definition less_stage :: "stage \<Rightarrow> stage \<Rightarrow> bool" where "x < y \<longleftrightarrow> stage_rank x < stage_rank y"

instance
  by intro_classes (auto simp: less_eq_stage_def less_stage_def stage_rank_def split: stage.splits)

end

definition stage_of :: "membership_state \<Rightarrow> u64 \<Rightarrow> stage" where
  "stage_of m now =
     (let start = ms_grace_period_start_timestamp_ms m;
          grace = secs_to_millis (ms_grace_period_duration_sec m) in
      if sat_add start grace \<le> now then Expired else if start \<le> now then Grace else Active)"

definition stage_name :: "stage \<Rightarrow> string" where
  "stage_name x = (case x of Active \<Rightarrow> ''active'' | Grace \<Rightarrow> ''grace_period'' | Expired \<Rightarrow> ''expired'')"

lemma stage_name_inject [simp]: "stage_name x = stage_name y \<longleftrightarrow> x = y"
  by (cases x; cases y) (simp_all add: stage_name_def)

lemma lifecycle_stage: "lifecycle m now = stage_name (stage_of m now)"
  by (auto simp: lifecycle_def stage_of_def stage_name_def Let_def is_expired_def is_in_grace_period_def not_le)

lemma stage_mono: "now \<le> later \<Longrightarrow> stage_of m now \<le> stage_of m later"
  by (auto simp: stage_of_def Let_def less_eq_stage_def stage_rank_def)

lemma stage_guest:
  assumes "membership_ok m"
  shows "(\<exists>d. apply_extend_membership now (ms_rate_limit m) (enc_membership m) = Inr d) \<longleftrightarrow> stage_of m now = Grace"
    and "(\<exists>d. apply_erase_membership now (ms_rate_limit m) (enc_membership m) = Inr d) \<longleftrightarrow> stage_of m now = Expired"
  using lifecycle_guest [OF assms, of now, unfolded lifecycle_stage]
  by (auto simp: stage_name_def split: stage.splits)

lemma renewed_active: "stage_of m now = Grace \<Longrightarrow> stage_of (renewed m) now = Active"
  using renewed_past [of m now] sat_add_ge [of "ms_grace_period_start_timestamp_ms (renewed m)"]
  by (auto simp: stage_of_def Let_def is_in_grace_period_def not_le split: if_splits)
    (metis leD order_less_le_trans)+

section \<open>Property\<close>

text \<open>
  C19. A membership moves through its stages in one direction: active, then grace, then expired, as time
  passes; the lookup tool names the stage; the guest renews it in the grace stage only, which makes it
  active again at that very time, and lets it be erased in the expired stage only.
\<close>

theorem lifecycle_moves_forward:
  assumes "membership_ok m" and "now \<le> later"
  shows "stage_of m now \<le> stage_of m later \<and> lifecycle m now = stage_name (stage_of m now) \<and>
    ((\<exists>d. apply_extend_membership now (ms_rate_limit m) (enc_membership m) = Inr d) \<longleftrightarrow> stage_of m now = Grace) \<and>
    ((\<exists>d. apply_erase_membership now (ms_rate_limit m) (enc_membership m) = Inr d) \<longleftrightarrow> stage_of m now = Expired) \<and>
    (stage_of m now = Grace \<longrightarrow> stage_of (renewed m) now = Active)"
  using stage_mono [OF assms(2)] lifecycle_stage stage_guest [OF assms(1)] renewed_active by blast

definition sample_membership :: membership_state where
  "sample_membership = \<lparr>ms_rate_limit = 20, ms_id_commitment = replicate 32 1,
     ms_grace_period_start_timestamp_ms = 5000, ms_active_duration_sec = 5, ms_grace_period_duration_sec = 2\<rparr>"

theorem lifecycle_moves_forward_witness:
  "\<exists>d. apply_extend_membership 6000 20 (enc_membership sample_membership) = Inr d \<and>
     stage_of sample_membership 6000 = Grace \<and> stage_of (renewed sample_membership) 6000 = Active"
proof -
  have ok: "membership_ok sample_membership" by (simp add: membership_ok_def sample_membership_def)
  have "stage_of sample_membership 6000 = Grace"
    by (simp add: stage_of_def sample_membership_def secs_to_millis_def MILLIS_PER_SECOND_def sat_add_def)
  then show ?thesis
    using lifecycle_moves_forward [OF ok, of 6000 6000] by (auto simp: sample_membership_def)
qed

end
