(* ===== verification/Cycles.thy ===== *)
theory Cycles
  imports Runtime HostLibs
begin

text \<open>
  The cycle accounting of \<open>src/cycle_harness.rs\<close>: the sessions of one transaction, each with its cycles,
  in the order the chain runs them, and the checks made on their log. The zkVM's cycle counts are the
  parameter \<open>meter\<close>, the chain's own count of a transaction is \<open>whole\<close>, and the budget of a session is the
  smaller of the chain's and the zkVM's limit. A guest that traps keeps its own error.
\<close>

section \<open>Sessions\<close>

definition SESSION_LIMIT :: nat where "SESSION_LIMIT = 2 ^ 25"
definition GAS_LIMIT :: nat where "GAS_LIMIT = 10000000"
definition SESSION_EARLY_WARNING :: nat where "SESSION_EARLY_WARNING = 9000000"

record meter =
  cycle_budget :: nat
  plan_cycles :: "guest \<Rightarrow> plan_input \<Rightarrow> nat"
  apply_cycles :: "guest \<Rightarrow> guest_effect \<Rightarrow> bytes \<Rightarrow> nat"

type_synonym session_log = "(string \<times> nat) list"

definition session :: "meter \<Rightarrow> nat \<Rightarrow> 'a result \<Rightarrow> (nat \<times> 'a) result" where
  "session C cycles output =
     rbind (check (cycles \<le> min (cycle_budget C) SESSION_LIMIT) (Panic ''guest trapped or exceeded the session limit'')) (\<lambda>_.
     rbind output (\<lambda>out. Inr (cycles, out)))"

definition plan_session :: "external \<Rightarrow> meter \<Rightarrow> guest \<Rightarrow> plan_input \<Rightarrow> (nat \<times> guest_effect plan) result" where
  "plan_session E C g input = session C (plan_cycles C g input) (run_plan E g input)"

definition apply_session ::
  "external \<Rightarrow> meter \<Rightarrow> guest \<Rightarrow> guest_effect \<Rightarrow> bytes \<Rightarrow> (nat \<times> bytes option) result" where
  "apply_session E C g e pre_data = session C (apply_cycles C g e pre_data) (run_apply E g e pre_data)"

definition program_name :: "account_id \<Rightarrow> account_id \<Rightarrow> string" where
  "program_name R program_id = (if program_id = R then ''registration'' else ''merkle'')"

definition short_id :: "'j host_libs \<Rightarrow> account_id \<Rightarrow> string" where
  "short_id H a = hex_encode H (take 4 a)"

definition apply_label :: "'j host_libs \<Rightarrow> string \<Rightarrow> selector \<Rightarrow> string" where
  "apply_label H name k = name @ '' apply \"'' @ short_id H (fst k) @ ''\"''"

definition metered_apply ::
  "external \<Rightarrow> 'j host_libs \<Rightarrow> meter \<Rightarrow> string \<Rightarrow> guest \<Rightarrow> shards \<times> session_log \<Rightarrow> guest_effect shard_effect \<Rightarrow>
     (shards \<times> session_log) result" where
  "metered_apply E H C name g = (\<lambda>(s, log) e.
     rbind (apply_session E C g (effect_data e) (shard s (effect_selector e))) (\<lambda>(cycles, post).
     Inr (case post of None \<Rightarrow> s | Some d \<Rightarrow> s(effect_selector e \<mapsto> d),
          log @ [(apply_label H name (effect_selector e), cycles)])))"

primrec metered_replay ::
  "nat \<Rightarrow> external \<Rightarrow> 'j host_libs \<Rightarrow> meter \<Rightarrow> account_id \<Rightarrow> programs \<Rightarrow> shards \<times> session_log \<Rightarrow> account_id \<Rightarrow>
     account_id option \<Rightarrow> account_meta list \<Rightarrow> bytes \<Rightarrow> (shards \<times> session_log) result" where
  "metered_replay 0 E H C R programs sl program_id caller metas data = Inl (Panic ''out of fuel'')"
| "metered_replay (Suc n) E H C R programs sl program_id caller metas data =
     (case programs program_id of
        None \<Rightarrow> Inl (Panic ''no such program'')
      | Some g \<Rightarrow>
          (let name = program_name R program_id in
           rbind (plan_session E C g \<lparr>self_account_id = program_id, caller_account_id = caller,
                                      accounts = metas, instruction_data = data\<rparr>) (\<lambda>(cycles, p).
           rbind (rfold (metered_apply E H C name g) (fst sl, snd sl @ [(name @ '' plan'', cycles)]) (effects p)) (\<lambda>sl1.
           rfold (\<lambda>sl2 call.
               if callee call = native_program E then Inr sl2
               else metered_replay n E H C R programs sl2 (callee call) (Some program_id) (call_metas call) (call_data call))
             sl1 (chained_calls p)))))"

section \<open>Measuring a transaction\<close>

record public_tx =
  tx_program :: account_id
  tx_selectors :: "selector list"
  tx_data :: bytes

text \<open>The shards a transaction names, with what the state holds of them; others read as empty.\<close>

definition shards_of :: "(selector \<Rightarrow> bytes) \<Rightarrow> public_tx \<Rightarrow> shards" where
  "shards_of state tx = (\<lambda>k. if k \<in> set (tx_selectors tx) then Some (state k) else None)"

definition tx_metas :: "account_id option \<Rightarrow> public_tx \<Rightarrow> account_meta list" where
  "tx_metas payer tx =
     map (\<lambda>k. \<lparr>account_id = fst k, is_authorized = (Some (fst k) = payer), program_account_id = snd k\<rparr>) (tx_selectors tx)"

definition measure_tx ::
  "nat \<Rightarrow> external \<Rightarrow> 'j host_libs \<Rightarrow> meter \<Rightarrow> account_id \<Rightarrow> programs \<Rightarrow> nat \<Rightarrow> (selector \<Rightarrow> bytes) \<Rightarrow> public_tx \<Rightarrow>
     account_id option \<Rightarrow> session_log result" where
  "measure_tx n E H C R programs whole state tx payer =
     rbind (metered_replay n E H C R programs (shards_of state tx, []) (tx_program tx) None (tx_metas payer tx) (tx_data tx)) (\<lambda>(_, log).
     rbind (check (sum_list (map snd log) = whole) (Panic ''the session replay must account for every metered cycle'')) (\<lambda>_.
     rbind (check (\<forall>(_, cycles) \<in> set log. cycles < SESSION_LIMIT) (Panic ''crosses the session limit'')) (\<lambda>_.
     rbind (check (whole \<le> GAS_LIMIT) (Panic ''cycles over MAX_GAS_EXEC'')) (\<lambda>_. Inr log))))"

section \<open>The sessions of a registration\<close>

lemma metered_apply_labels:
  "rfold (metered_apply E H C name g) (s, log) es = Inr (s1, log1) \<Longrightarrow>
     map fst log1 = map fst log @ map (\<lambda>e. apply_label H name (effect_selector e)) es"
proof (induction es arbitrary: s log)
  case Nil
  then show ?case by simp
next
  case (Cons e es)
  from Cons.prems obtain s2 cycles where "rfold (metered_apply E H C name g) (s2, log @ [(apply_label H name (effect_selector e), cycles)]) es = Inr (s1, log1)"
    by (auto simp: metered_apply_def result_simps)
  from Cons.IH [OF this] show ?case by simp
qed

lemma plan_session_Inr:
  "plan_session E C g input = Inr (cycles, p) \<Longrightarrow> run_plan E g input = Inr p"
  by (auto simp: plan_session_def session_def result_simps)

lemma metered_merkle:
  assumes "separate E R M" and "metered_replay (Suc n) E H C R (deployed R M) (s, log) M caller metas data = Inr (s', log')"
  shows "\<exists>m. metas = [m] \<and> map fst log' = map fst log @ [''merkle plan'', apply_label H ''merkle'' (meta_selector m)]"
proof -
  let ?input = "\<lparr>self_account_id = M, caller_account_id = caller, accounts = metas, instruction_data = data\<rparr>"
  have name: "program_name R M = ''merkle''" using assms(1) by (auto simp: program_name_def separate_def)
  from assms obtain cycles p sl1 where ps: "plan_session E C MerkleGuest ?input = Inr (cycles, p)"
    and f: "rfold (metered_apply E H C ''merkle'' MerkleGuest) (s, log @ [(''merkle plan'', cycles)]) (effects p) = Inr sl1"
    and c: "rfold (\<lambda>sl2 call. if callee call = native_program E then Inr sl2
        else metered_replay n E H C R (deployed R M) sl2 (callee call) (Some M) (call_metas call) (call_data call))
      sl1 (chained_calls p) = Inr (s', log')"
    by (auto simp: Let_def name result_simps split: option.splits)
  obtain m ix where p: "metas = [m]" "p = map_plan OfMerkle (planned [(meta_selector m, merkle_effect_from ix)] [])"
    using plan_session_Inr [OF ps] by (auto simp: plan_simps)
  then have sl1: "sl1 = (s', log')" using c by (simp add: map_plan_def)
  then show ?thesis using metered_apply_labels [OF f [unfolded sl1]] p by (simp add: map_plan_def)
qed

text \<open>
  A registration is six sessions, in this order: its plan, its effects on the config, the clock and the
  membership, then the plan and the apply of the merkle insert. The native payment is none.
\<close>

lemma registration_sessions:
  assumes sep: "separate E R M"
    and run: "metered_replay (Suc (Suc n)) E H C R (deployed R M) (s, []) R caller metas (enc_instruction (Register t c l M now p d g)) = Inr (s', log)"
    and ok: "instruction_ok (Register t c l M now p d g)"
  shows "map fst log =
    [''registration plan'', apply_label H ''registration'' (config_sel E R t), apply_label H ''registration'' (clock_sel E),
     apply_label H ''registration'' (membership_sel E R t c), ''merkle plan'', apply_label H ''merkle'' (tree_sel E R M t)]"
proof -
  let ?ix = "Register t c l M now p d g"
  let ?input = "\<lparr>self_account_id = R, caller_account_id = caller, accounts = metas, instruction_data = enc_instruction ?ix\<rparr>"
  let ?call = "\<lambda>sl2 call. if callee call = native_program E then Inr sl2
        else metered_replay (Suc n) E H C R (deployed R M) sl2 (callee call) (Some R) (call_metas call) (call_data call)"
  have name: "program_name R R = ''registration''" by (simp add: program_name_def)
  from sep run obtain cycles pl sl1 where ps: "plan_session E C RegistrationGuest ?input = Inr (cycles, pl)"
    and f: "rfold (metered_apply E H C ''registration'' RegistrationGuest) (s, [(''registration plan'', cycles)]) (effects pl) = Inr sl1"
    and c: "rfold ?call sl1 (chained_calls pl) = Inr (s', log)"
    unfolding metered_replay.simps(2) [of "Suc n"] by (auto simp: Let_def name result_simps simp del: metered_replay.simps enc_instruction.simps)
  obtain payer treasury where es: "map effect_selector (effects pl) = [config_sel E R t, clock_sel E, membership_sel E R t c]"
    and cc: "chained_calls pl = [payment E payer treasury l p, to_merkle E R M t (MInsert (membership_leaf E c l))]"
    using plan_session_Inr [OF ps] ok
    by (auto simp: run_plan_registration instruction_codec.enc_inject plan_simps map_plan_def simp del: enc_instruction.simps)
  obtain s1 log1 where sl1: "sl1 = (s1, log1)" by (cases sl1)
  have "map fst log1 = ''registration plan'' # map (apply_label H ''registration'') (map effect_selector (effects pl))"
    using metered_apply_labels [OF f [unfolded sl1]] by simp
  moreover have "callee (payment E payer treasury l p) = native_program E" "M \<noteq> native_program E"
    using sep by (simp_all add: payment_def separate_def)
  then have "metered_replay (Suc n) E H C R (deployed R M) (s1, log1) M (Some R)
      [\<lparr>account_id = pda_main E R t, is_authorized = True, program_account_id = M\<rparr>]
      (enc_merkle_instruction (MInsert (membership_leaf E c l))) = Inr (s', log)"
    using c by (simp add: cc sl1 rbind_Inr_iff del: metered_replay.simps enc_merkle_instruction.simps)
  from metered_merkle [OF sep this] have "map fst log = map fst log1 @ [''merkle plan'', apply_label H ''merkle'' (tree_sel E R M t)]"
    by (auto simp: meta_selector_def tree_sel_def)
  ultimately show ?thesis by (simp add: es)
qed

end
