(* ===== verification/ToolReport.thy ===== *)
theory ToolReport
  imports CheckMembership Cli
begin

text \<open>
  What \<open>check-membership\<close> prints and how it exits, \<open>tools/check-membership/src/main.rs\<close>: its two reports,
  as JSON or as a line for a reader, and its failures. \<open>json_text\<close> is \<open>serde_json\<close>'s printing of an object;
  the two marks and the dash are their UTF-8 bytes. The help text is left out.
\<close>

section \<open>Reports\<close>

datatype json_field = JBool bool | JText string | JNumber nat

type_synonym json_text = "(string \<times> json_field) list \<Rightarrow> string"

definition CHECK_MARK :: string where "CHECK_MARK = map char_of [0xE2, 0x9C, 0x93 :: nat]"
definition CROSS_MARK :: string where "CROSS_MARK = map char_of [0xE2, 0x9C, 0x97 :: nat]"
definition EM_DASH :: string where "EM_DASH = map char_of [0xE2, 0x80, 0x94 :: nat]"

definition registered_fields :: "membership_state \<Rightarrow> string \<Rightarrow> u64 \<Rightarrow> (string \<times> json_field) list" where
  "registered_fields state status now_ms =
     [(''registered'', JBool True), (''state'', JText status),
      (''rate_limit'', JNumber (unat (ms_rate_limit state))),
      (''grace_period_start_timestamp'', JNumber (unat (ms_grace_period_start_timestamp_ms state))),
      (''grace_period_duration'', JNumber (unat (ms_grace_period_duration_sec state))),
      (''clock_timestamp'', JNumber (unat now_ms))]"

definition report_registered :: "json_text \<Rightarrow> bool \<Rightarrow> membership_state \<Rightarrow> string \<Rightarrow> u64 \<Rightarrow> string" where
  "report_registered json_text json state status now_ms =
     (if json then json_text (registered_fields state status now_ms)
      else CHECK_MARK @ '' Registered '' @ EM_DASH @ '' state: '' @ status @ '', rate limit: '' @
        decimal (unat (ms_rate_limit state)))"

definition report_unregistered :: "json_text \<Rightarrow> bool \<Rightarrow> string" where
  "report_unregistered json_text json =
     (if json then json_text [(''registered'', JBool False)]
      else CROSS_MARK @ '' Not registered '' @ EM_DASH @
        '' no membership account for this commitment in this registry'')"

definition tool_fail :: "string \<Rightarrow> line list \<times> nat" where
  "tool_fail msg = ([Err (''check-membership: '' @ msg)], 2)"

text \<open>The run: its lines and its exit code.\<close>

definition tool_main ::
  "external \<Rightarrow> 'j host_libs \<Rightarrow> json_text \<Rightarrow> ('j \<Rightarrow> bool) \<Rightarrow> (string \<Rightarrow> string option) \<Rightarrow> fetch \<Rightarrow> environment \<Rightarrow>
     string list \<Rightarrow> line list \<times> nat" where
  "tool_main E H json_text is_null files fetch env args =
     (case check_membership E H is_null files fetch env args of
        Inl msg \<Rightarrow> tool_fail msg
      | Inr Usage \<Rightarrow> ([], 0)
      | Inr (Unregistered json) \<Rightarrow> ([Out (report_unregistered json_text json)], 1)
      | Inr (Registered json state status now_ms) \<Rightarrow> ([Out (report_registered json_text json state status now_ms)], 0))"

text \<open>The exit code is the verdict's, and only a failure writes to the error stream.\<close>

lemma tool_main_exit:
  "snd (tool_main E H json_text is_null files fetch env args) = exit_code (check_membership E H is_null files fetch env args)"
  by (auto simp: tool_main_def exit_code_def tool_fail_def split: sum.splits verdict.splits)

lemma tool_main_quiet:
  "(\<exists>m. Err m \<in> set (fst (tool_main E H json_text is_null files fetch env args))) \<longleftrightarrow>
     snd (tool_main E H json_text is_null files fetch env args) = 2"
  by (auto simp: tool_main_def tool_fail_def split: sum.splits verdict.splits)

end
