(* ===== verification/BuildRun.thy ===== *)
theory BuildRun
  imports BuildScript Wallet "HOL-Library.Sublist"
begin

text \<open>
  The run of the guest build script after the guests are built, \<open>methods/build.rs\<close>: finding
  \<open>llvm-strip\<close> and stripping the program binaries of both build trees in place, each through a temporary
  file beside it. Building the guests and the warnings printed are not modelled; paths are text, and
  writing a file succeeds.
\<close>

section \<open>Finding the tool\<close>

definition paths_joined :: "string \<Rightarrow> string list \<Rightarrow> string" where
  "paths_joined = foldl path_join"

definition toolchain_candidate :: "string \<Rightarrow> string \<Rightarrow> string \<Rightarrow> string" where
  "toolchain_candidate toolchains name host =
     paths_joined toolchains [name, ''lib'', ''rustlib'', host, ''bin'', ''llvm-strip'']"

definition is_toolchain :: "string \<Rightarrow> bool" where
  "is_toolchain name \<longleftrightarrow> prefix ''v'' name \<and> sublist ''-rust-'' name"

fun first_candidate :: "(string \<Rightarrow> bool) \<Rightarrow> string \<Rightarrow> string \<Rightarrow> string list \<Rightarrow> string option" where
  "first_candidate present toolchains host [] = None"
| "first_candidate present toolchains host (name # names) =
     (if is_toolchain name \<and> present (toolchain_candidate toolchains name host)
      then Some (toolchain_candidate toolchains name host)
      else first_candidate present toolchains host names)"

text \<open>\<open>read_dir path\<close>: the names in a directory in the order it lists them, \<open>None\<close> when it cannot be read.\<close>

definition search_toolchains ::
  "environment \<Rightarrow> (string \<Rightarrow> bool) \<Rightarrow> (string \<Rightarrow> string list option) \<Rightarrow> string option" where
  "search_toolchains env present read_dir =
     (case env ''HOME'' of
        None \<Rightarrow> None
      | Some home \<Rightarrow> (case env ''HOST'' of
            None \<Rightarrow> None
          | Some host \<Rightarrow>
              let toolchains = paths_joined home [''.risc0'', ''toolchains''] in
              (case read_dir toolchains of
                 None \<Rightarrow> None | Some names \<Rightarrow> first_candidate present toolchains host names)))"

definition locate_llvm_strip ::
  "environment \<Rightarrow> (string \<Rightarrow> bool) \<Rightarrow> (string \<Rightarrow> string list option) \<Rightarrow> string option" where
  "locate_llvm_strip env present read_dir =
     (case env ''RISC0_LLVM_STRIP'' of
        Some p \<Rightarrow> if present p then Some p else search_toolchains env present read_dir
      | None \<Rightarrow> search_toolchains env present read_dir)"

lemma first_candidate_exists: "first_candidate present toolchains host names = Some p \<Longrightarrow> present p"
  by (induction names) (auto split: if_splits)

lemma located_exists: "locate_llvm_strip env present read_dir = Some p \<Longrightarrow> present p"
  by (auto simp: locate_llvm_strip_def search_toolchains_def Let_def split: option.splits if_splits
      intro: first_candidate_exists)

section \<open>Stripping the build trees\<close>

definition bin_dirs :: "string \<Rightarrow> string list" where
  "bin_dirs manifest =
     [path_join (path_join manifest ''target/riscv-guest/logos_lez_rln_methods/logos_lez_rln_guest'')
        ''riscv32im-risc0-zkvm-elf/release'',
      path_join manifest ''guest/target/riscv32im-risc0-zkvm-elf/docker'']"

definition bin_paths :: "string \<Rightarrow> string list" where
  "bin_paths manifest =
     concat (map (\<lambda>d. map (path_join d) [''rln_registration.bin'', ''incremental_merkle_tree.bin'']) (bin_dirs manifest))"

text \<open>\<open>Path::with_extension\<close>: the name after the last slash, up to its last dot unless that is its first character.\<close>

definition file_stem :: "string \<Rightarrow> string" where
  "file_stem name =
     (if CHR ''.'' \<in> set (tl name) then rev (tl (dropWhile (\<lambda>c. c \<noteq> CHR ''.'') (rev name))) else name)"

definition with_extension :: "string \<Rightarrow> string \<Rightarrow> string" where
  "with_extension path ext =
     (let name = rev (takeWhile (\<lambda>c. c \<noteq> CHR ''/'') (rev path)) in
      if name = [] then path else take (length path - length name) path @ file_stem name @ ''.'' @ ext)"

text \<open>
  \<open>run tool file fs\<close> is the command \<open>tool --strip-all file\<close> on the files \<open>fs\<close>: \<open>None\<close> when it cannot be
  invoked, else whether it exits with success, and the files then.
\<close>

type_synonym binaries = "string \<Rightarrow> bytes option"
type_synonym strip_command = "string \<Rightarrow> string \<Rightarrow> binaries \<Rightarrow> (bool \<times> binaries) option"

definition strip_elf :: "strip_command \<Rightarrow> string \<Rightarrow> string \<Rightarrow> bytes \<Rightarrow> binaries \<Rightarrow> (bytes \<times> binaries) result" where
  "strip_elf run tool tmp elf fs =
     (case run tool tmp (fs(tmp \<mapsto> elf)) of
        None \<Rightarrow> Inl (Panic ''invoke llvm-strip'')
      | Some (success, fs1) \<Rightarrow>
          rbind (check success (Panic ''llvm-strip failed'')) (\<lambda>_.
          case fs1 tmp of
            None \<Rightarrow> Inl (Panic ''read stripped elf'')
          | Some stripped \<Rightarrow> Inr (stripped, fs1(tmp := None))))"

definition strip_binary_file :: "strip_command \<Rightarrow> string \<Rightarrow> binaries \<Rightarrow> string \<Rightarrow> binaries result" where
  "strip_binary_file run tool fs path =
     (case fs path of
        None \<Rightarrow> Inl (Panic ''read program binary'')
      | Some blob \<Rightarrow>
          rbind (split_r0bf blob) (\<lambda>(header, user_elf, kernel_elf).
          rbind (strip_elf run tool (with_extension path ''user.elf.tmp'') user_elf fs) (\<lambda>(stripped_user, fs1).
          Inr (fs1(path \<mapsto> pack_r0bf header stripped_user kernel_elf)))))"

definition strip_at :: "strip_command \<Rightarrow> string \<Rightarrow> binaries \<Rightarrow> string \<Rightarrow> binaries result" where
  "strip_at run tool fs path = (if fs path = None then Inr fs else strip_binary_file run tool fs path)"

definition post_build ::
  "environment \<Rightarrow> (string \<Rightarrow> bool) \<Rightarrow> (string \<Rightarrow> string list option) \<Rightarrow> strip_command \<Rightarrow>
     string \<Rightarrow> binaries \<Rightarrow> binaries result" where
  "post_build env present read_dir run manifest fs =
     (case locate_llvm_strip env present read_dir of
        None \<Rightarrow> Inl (Panic ''llvm-strip not found'')
      | Some tool \<Rightarrow> rfold (strip_at run tool) fs (bin_paths manifest))"

section \<open>Stripping through a file\<close>

text \<open>
  \<open>llvm-strip\<close> rewrites the one file it is given, by its content alone: \<open>strip\<close>, whose output it keeps and
  whose length a container can hold.
\<close>

definition strips_file :: "strip_command \<Rightarrow> string \<Rightarrow> (bytes \<Rightarrow> bytes result) \<Rightarrow> bool" where
  "strips_file run tool strip \<longleftrightarrow>
     (\<forall>fs file elf. fs file = Some elf \<longrightarrow>
        (case strip elf of
           Inr out \<Rightarrow> run tool file fs = Some (True, fs(file \<mapsto> out))
         | Inl _ \<Rightarrow> \<forall>fs1. run tool file fs \<noteq> Some (True, fs1)))"

definition strip_laws :: "(bytes \<Rightarrow> bytes result) \<Rightarrow> bool" where
  "strip_laws strip \<longleftrightarrow> (\<forall>x y. strip x = Inr y \<longrightarrow> length y < 2 ^ 32 \<and> strip y = Inr y)"

abbreviation tmp_of :: "string \<Rightarrow> string" where "tmp_of path \<equiv> with_extension path ''user.elf.tmp''"

lemma strip_elf_file:
  assumes "strips_file run tool strip" and "strip_elf run tool tmp elf fs = Inr (out, fs')"
  shows "strip elf = Inr out" and "fs' = fs(tmp := None)"
proof -
  have "case strip elf of Inr out \<Rightarrow> run tool tmp (fs(tmp \<mapsto> elf)) = Some (True, fs(tmp \<mapsto> elf, tmp \<mapsto> out))
      | Inl _ \<Rightarrow> \<forall>fs1. run tool tmp (fs(tmp \<mapsto> elf)) \<noteq> Some (True, fs1)"
    using assms(1) [unfolded strips_file_def, rule_format, of "fs(tmp \<mapsto> elf)" tmp elf] by simp
  then show "strip elf = Inr out" "fs' = fs(tmp := None)"
    using assms(2) by (auto simp: strip_elf_def result_simps split: sum.splits option.splits)
qed

lemma strip_elf_runs:
  "strips_file run tool strip \<Longrightarrow> strip elf = Inr out \<Longrightarrow> strip_elf run tool tmp elf fs = Inr (out, fs(tmp := None))"
  unfolding strips_file_def by (drule spec [of _ "fs(tmp \<mapsto> elf)"], drule spec [of _ tmp]) (simp add: strip_elf_def)

text \<open>So a step is the container surgery of \<open>BuildScript\<close>, and removes the temporary file.\<close>

lemma strip_at_iff:
  assumes "strips_file run tool strip"
  shows "strip_at run tool fs path = Inr fs' \<longleftrightarrow>
    (case fs path of None \<Rightarrow> fs' = fs
     | Some blob \<Rightarrow> \<exists>out. strip_program_binary strip blob = Inr out \<and> fs' = fs(tmp_of path := None, path \<mapsto> out))"
proof (cases "fs path")
  case None
  then show ?thesis by (auto simp: strip_at_def)
next
  case (Some blob)
  show ?thesis
  proof (cases "split_r0bf blob")
    case (Inl e)
    then show ?thesis using Some by (simp add: strip_at_def strip_binary_file_def strip_program_binary_def)
  next
    case (Inr parts)
    obtain h u k where parts: "parts = (h, u, k)" by (cases parts)
    have "strip_elf run tool (tmp_of path) u fs = Inr (x, fs1) \<longleftrightarrow> strip u = Inr x \<and> fs1 = fs(tmp_of path := None)" for x fs1
      using strip_elf_runs [OF assms] strip_elf_file [OF assms] by blast
    then show ?thesis
      using Some Inr parts by (auto simp: strip_at_def strip_binary_file_def strip_program_binary_def result_simps)
  qed
qed

lemma path_join_last: "b \<noteq> [] \<Longrightarrow> last (path_join a b) = last b"
  by (simp add: path_join_def)

lemma path_join_not_Nil: "b \<noteq> [] \<Longrightarrow> path_join a b \<noteq> []"
  by (simp add: path_join_def)

lemma bin_paths_last: "path \<in> set (bin_paths manifest) \<Longrightarrow> last path = CHR ''n'' \<and> path \<noteq> []"
  by (auto simp: bin_paths_def path_join_last path_join_not_Nil)

lemma tmp_of_last:
  assumes "last path = CHR ''n''" and "path \<noteq> []"
  shows "last (tmp_of path) = CHR ''p''"
proof -
  have "takeWhile (\<lambda>c. c \<noteq> CHR ''/'') (rev path) \<noteq> []"
    using assms by (cases path rule: rev_cases) auto
  then show ?thesis by (simp add: with_extension_def Let_def)
qed

lemma tmp_not_bin: "path \<in> set (bin_paths manifest) \<Longrightarrow> tmp_of path \<notin> set (bin_paths manifest)"
proof
  assume p: "path \<in> set (bin_paths manifest)" and t: "tmp_of path \<in> set (bin_paths manifest)"
  have "last (tmp_of path) = CHR ''p''" using bin_paths_last [OF p] by (intro tmp_of_last) simp_all
  then show False using bin_paths_last [OF t] by simp
qed

section \<open>Re-running changes nothing\<close>

text \<open>A path holds nothing, or a binary that strips to itself, with no temporary file left.\<close>

definition settled :: "(bytes \<Rightarrow> bytes result) \<Rightarrow> binaries \<Rightarrow> string \<Rightarrow> bool" where
  "settled strip fs path \<longleftrightarrow>
     (case fs path of None \<Rightarrow> True | Some b \<Rightarrow> strip_program_binary strip b = Inr b \<and> fs (tmp_of path) = None)"

lemma strip_at_settles:
  assumes "strips_file run tool strip" and "strip_laws strip" and "strip_at run tool fs path = Inr fs'" and "tmp_of path \<noteq> path"
  shows "settled strip fs' path"
    and "settled strip fs q \<Longrightarrow> q \<noteq> tmp_of path \<Longrightarrow> tmp_of q \<noteq> path \<Longrightarrow> settled strip fs' q"
    and "q \<noteq> path \<Longrightarrow> q \<noteq> tmp_of path \<Longrightarrow> fs' q = fs q"
    and "q \<noteq> tmp_of path \<Longrightarrow> (fs' q = None) = (fs q = None)"
proof -
  note step = assms(3) [unfolded strip_at_iff [OF assms(1)]]
  show path: "settled strip fs' path"
  proof (cases "fs path")
    case None
    then show ?thesis using step by (simp add: settled_def)
  next
    case (Some b)
    then obtain out where out: "strip_program_binary strip b = Inr out" "fs' = fs(tmp_of path := None, path \<mapsto> out)"
      using step by auto
    have "strip_program_binary strip out = Inr out"
      by (rule strip_twice [OF out(1)]) (use assms(2) in \<open>auto simp: strip_laws_def\<close>)
    then show ?thesis using assms(4) by (simp add: settled_def out)
  qed
  show same: "q \<noteq> path \<Longrightarrow> q \<noteq> tmp_of path \<Longrightarrow> fs' q = fs q" for q
    using step by (auto split: option.splits)
  show "q \<noteq> tmp_of path \<Longrightarrow> (fs' q = None) = (fs q = None)"
    using step by (auto split: option.splits if_splits)
  assume q: "settled strip fs q" "q \<noteq> tmp_of path" "tmp_of q \<noteq> path"
  have "fs (tmp_of q) = None \<Longrightarrow> fs' (tmp_of q) = None" using step q(3) by (auto split: option.splits)
  then show "settled strip fs' q"
    using path same [OF _ q(2)] q(1) by (cases "q = path") (auto simp: settled_def split: option.splits)
qed

text \<open>The step over a list of paths none of whose temporary files is in the list.\<close>

lemma strip_all_settles:
  assumes "strips_file run tool strip" and "strip_laws strip" and "\<And>p. p \<in> P \<Longrightarrow> tmp_of p \<notin> P"
  shows "set paths \<subseteq> P \<Longrightarrow> rfold (strip_at run tool) fs paths = Inr fs' \<Longrightarrow>
    (\<forall>q \<in> P. settled strip fs q \<or> q \<in> set paths \<longrightarrow> settled strip fs' q) \<and>
    (\<forall>q. q \<notin> P \<union> tmp_of ` P \<longrightarrow> fs' q = fs q) \<and> (\<forall>q \<in> P. (fs' q = None) = (fs q = None))"
proof (induction paths arbitrary: fs)
  case Nil
  then show ?case by simp
next
  case (Cons p paths)
  from Cons.prems(2) obtain fs1 where one: "strip_at run tool fs p = Inr fs1" and rest: "rfold (strip_at run tool) fs1 paths = Inr fs'"
    by (auto simp: result_simps)
  have p: "p \<in> P" "set paths \<subseteq> P" "tmp_of p \<noteq> p" "tmp_of p \<notin> P" using Cons.prems(1) assms(3) [of p] by (auto dest: arg_cong [of _ p "\<lambda>x. x \<in> P"])
  note s = strip_at_settles [OF assms(1,2) one p(3)] and IH = Cons.IH [OF p(2) rest]
  have "settled strip fs1 q" if "q \<in> P" "settled strip fs q \<or> q = p" for q
    using that s(1) s(2) [of q] p assms(3) by metis
  moreover have "fs1 q = fs q" if "q \<notin> P \<union> tmp_of ` P" for q using that s(3) [of q] p(1) by blast
  moreover have "(fs1 q = None) = (fs q = None)" if "q \<in> P" for q using that s(4) [of q] p(4) by blast
  ultimately show ?case using IH by auto
qed

lemma strip_settled:
  assumes "strips_file run tool strip"
  shows "\<forall>q \<in> set paths. settled strip fs q \<Longrightarrow> rfold (strip_at run tool) fs paths = Inr fs"
proof (induction paths)
  case Nil
  then show ?case by simp
next
  case (Cons p paths)
  have "strip_at run tool fs p = Inr fs"
    using Cons.prems by (auto simp: settled_def strip_at_iff [OF assms] fun_upd_idem split: option.splits)
  then show ?case using Cons by simp
qed

section \<open>Property\<close>

text \<open>
  C39. The post-build step can be repeated. When it ends well, the program binaries of both build trees that
  were there are there, no other file changed but the temporary ones, and running the step again
  on the result finds the same tool and leaves every file as it is. The strip tool is a parameter that gives
  a stripped file back unchanged, as the build script's comment relies on.
\<close>

theorem post_build_idempotent:
  assumes "\<And>tool. strips_file run tool (strip tool)" and "\<And>tool. strip_laws (strip tool)"
    and "post_build env present read_dir run manifest fs = Inr fs'"
  shows "post_build env present read_dir run manifest fs' = Inr fs' \<and>
    (\<forall>path. path \<notin> set (bin_paths manifest) \<union> tmp_of ` set (bin_paths manifest) \<longrightarrow> fs' path = fs path) \<and>
    (\<forall>path \<in> set (bin_paths manifest). (fs' path = None) = (fs path = None))"
proof -
  obtain tool where tool: "locate_llvm_strip env present read_dir = Some tool"
    and step: "rfold (strip_at run tool) fs (bin_paths manifest) = Inr fs'"
    using assms(3) by (auto simp: post_build_def split: option.splits)
  note s = strip_all_settles [OF assms(1,2) tmp_not_bin subset_refl step]
  have "rfold (strip_at run tool) fs' (bin_paths manifest) = Inr fs'"
    by (rule strip_settled [OF assms(1)]) (use s in blast)
  then show ?thesis using s by (simp add: post_build_def tool)
qed

text \<open>A tool that keeps the first three bytes of a file, on one binary of the docker tree.\<close>

definition sample_path :: string where
  "sample_path = ''m/guest/target/riscv32im-risc0-zkvm-elf/docker/rln_registration.bin''"

definition sample_tool :: strip_command where
  "sample_tool tool file fs = (case fs file of None \<Rightarrow> Some (False, fs) | Some elf \<Rightarrow> Some (True, fs(file \<mapsto> take 3 elf)))"

theorem post_build_idempotent_witness:
  "let step = post_build [''RISC0_LLVM_STRIP'' \<mapsto> ''tool''] (\<lambda>p. p = ''tool'') (\<lambda>_. None) sample_tool ''m'';
       before = [sample_path \<mapsto> pack_r0bf [7] [1, 2, 3, 4, 5] [9]]; after = [sample_path \<mapsto> pack_r0bf [7] [1, 2, 3] [9]]
   in step before = Inr after \<and> step after = Inr after"
proof -
  let ?step = "post_build [''RISC0_LLVM_STRIP'' \<mapsto> ''tool''] (\<lambda>p. p = ''tool'') (\<lambda>_. None) sample_tool ''m''"
  have keeps: "strips_file sample_tool tool (\<lambda>elf. Inr (take 3 elf))" for tool by (auto simp: strips_file_def sample_tool_def)
  have laws: "strip_laws (\<lambda>elf. Inr (take 3 elf))" for tool :: string by (auto simp: strip_laws_def)
  have paths: "bin_paths ''m'' =
      [''m/target/riscv-guest/logos_lez_rln_methods/logos_lez_rln_guest/riscv32im-risc0-zkvm-elf/release/rln_registration.bin'',
       ''m/target/riscv-guest/logos_lez_rln_methods/logos_lez_rln_guest/riscv32im-risc0-zkvm-elf/release/incremental_merkle_tree.bin'',
       sample_path, ''m/guest/target/riscv32im-risc0-zkvm-elf/docker/incremental_merkle_tree.bin'']"
    by (simp add: bin_paths_def bin_dirs_def path_join_def sample_path_def)
  have at: "strip_at sample_tool ''tool'' [sample_path \<mapsto> pack_r0bf [7] [1, 2, 3, 4, 5] [9]] sample_path =
      Inr [sample_path \<mapsto> pack_r0bf [7] [1, 2, 3] [9]]"
    using split_pack [of "[7]" "[1, 2, 3, 4, 5]" "[9]"] tmp_of_last [of sample_path]
    by (auto simp: strip_at_iff [OF keeps] strip_program_binary_def sample_path_def fun_eq_iff)
  have other: "p \<noteq> sample_path \<Longrightarrow> strip_at sample_tool ''tool'' [sample_path \<mapsto> b] p = Inr [sample_path \<mapsto> b]" for p b
    by (simp add: strip_at_def)
  have "?step [sample_path \<mapsto> pack_r0bf [7] [1, 2, 3, 4, 5] [9]] = Inr [sample_path \<mapsto> pack_r0bf [7] [1, 2, 3] [9]]"
    unfolding post_build_def paths
    using other [of "''m/target/riscv-guest/logos_lez_rln_methods/logos_lez_rln_guest/riscv32im-risc0-zkvm-elf/release/rln_registration.bin''"]
      other [of "''m/target/riscv-guest/logos_lez_rln_methods/logos_lez_rln_guest/riscv32im-risc0-zkvm-elf/release/incremental_merkle_tree.bin''"]
      other [of "''m/guest/target/riscv32im-risc0-zkvm-elf/docker/incremental_merkle_tree.bin''"]
    by (simp add: locate_llvm_strip_def at [unfolded sample_path_def] sample_path_def)
  then show ?thesis
    using post_build_idempotent [OF keeps laws] by (simp add: Let_def)
qed

end
