(* ===== verification/TestHarness.thy ===== *)
theory TestHarness
  imports ProgramSpec Instances
begin

text \<open>
  What the repository's unit tests are made of: a named test with the condition its body asserts, and
  \<open>#[should_panic(expected = ..)]\<close>. A test is a condition on the model, so a suite is a list of conditions
  to prove; what a test takes from outside the repository (hashes, account derivation, clock bytes) is the
  parameter of the model it runs on.
\<close>

text \<open>\<open>haystack.contains(needle)\<close>.\<close>

fun contains :: "string \<Rightarrow> string \<Rightarrow> bool" where
  "contains needle [] \<longleftrightarrow> needle = []"
| "contains needle (c # cs) \<longleftrightarrow> take (length needle) (c # cs) = needle \<or> contains needle cs"

text \<open>What a test sees of a failure: off the zkVM \<open>fail\<close> panics with the exit code in front of the message.\<close>

fun panic_message :: "failure \<Rightarrow> string option" where
  "panic_message (Panic msg) = Some msg"
| "panic_message (Halt code msg) = Some (''exit '' @ decimal (unat code) @ '': '' @ msg)"
| "panic_message (Exit code) = None"

definition should_panic :: "string \<Rightarrow> 'a result \<Rightarrow> bool" where
  "should_panic expected r \<longleftrightarrow>
     (case r of Inr x \<Rightarrow> False
      | Inl e \<Rightarrow> (case panic_message e of None \<Rightarrow> False | Some msg \<Rightarrow> contains expected msg))"

lemma should_panicI: "r = Inl (Panic msg) \<Longrightarrow> contains expected msg \<Longrightarrow> should_panic expected r"
  by (simp add: should_panic_def)

lemma contains_empty [simp]: "contains [] s"
  by (cases s) simp_all

lemma contains_append: "contains needle ys \<Longrightarrow> contains needle (xs @ ys)"
  by (induction xs) simp_all

lemma should_haltI: "r = Inl (Halt code msg) \<Longrightarrow> contains expected msg \<Longrightarrow> should_panic expected r"
  by (simp add: should_panic_def contains_append)

text \<open>The assertions at the end of a test whose steps may panic.\<close>

definition holds :: "bool result \<Rightarrow> bool" where
  "holds r \<longleftrightarrow> r = Inr True"

type_synonym suite = "(string \<times> bool) list"

definition passes :: "suite \<Rightarrow> bool" where
  "passes tests \<longleftrightarrow> list_all snd tests"

lemma passes_simps [simp]:
  "passes []" "passes ((name, ok) # tests) \<longleftrightarrow> ok \<and> passes tests" "passes (xs @ ys) \<longleftrightarrow> passes xs \<and> passes ys"
  by (simp_all add: passes_def)

text \<open>What a plan session yields: \<open>plan.output()\<close> has these effects and these calls.\<close>

definition plans :: "'e plan result \<Rightarrow> 'e shard_effect list \<Rightarrow> chained_call list \<Rightarrow> bool" where
  "plans r es cs \<longleftrightarrow> (case r of Inl e \<Rightarrow> False | Inr p \<Rightarrow> effects p = es \<and> chained_calls p = cs)"

definition shard_effect_new :: "account_meta \<Rightarrow> 'e \<Rightarrow> 'e shard_effect" where
  "shard_effect_new m e = \<lparr>effect_selector = meta_selector m, effect_data = e\<rparr>"

definition account_meta_new :: "account_id \<Rightarrow> bool \<Rightarrow> account_id \<Rightarrow> account_meta" where
  "account_meta_new a auth p = \<lparr>account_id = a, is_authorized = auth, program_account_id = p\<rparr>"

definition native_balance_meta :: "external \<Rightarrow> account_id \<Rightarrow> bool \<Rightarrow> account_meta" where
  "native_balance_meta E a auth = account_meta_new a auth (native_program E)"

text \<open>The numbers the tests' messages display.\<close>

lemma decimals:
  "decimal 0 = ''0''" "decimal 5 = ''5''" "decimal 10 = ''10''" "decimal 11 = ''11''" "decimal 12 = ''12''" "decimal 13 = ''13''"
  "decimal 14 = ''14''" "decimal 15 = ''15''" "decimal 16 = ''16''" "decimal 17 = ''17''" "decimal 18 = ''18''"
  "decimal 19 = ''19''" "decimal 20 = ''20''"
  by code_simp+

section \<open>The concrete instance\<close>

lemma toy_hash: "compress2 toy = toy_compress2" "felt_valid toy = toy_valid"
  by (simp_all add: toy_def)

text \<open>The first byte of a node that is not an empty subtree's.\<close>

lemma toy_first_byte:
  assumes "length a = 32" and "length b = 32" and "a \<noteq> b \<or> a \<notin> set DEFAULT_HASHES"
  shows "toy_compress2 a b ! 0 = a ! 0 + 3 * b ! 0 + 7"
proof -
  have "DEFAULT_HASHES \<noteq> []" by (simp add: DEFAULT_HASHES_def)
  then have "a = b \<Longrightarrow> map_of toy_ladder a = None"
    using assms(3) by (auto simp: toy_ladder_def map_of_eq_None_iff dest!: set_zip_leftD list.set_sel(2) [rotated])
  then show ?thesis
    using assms(1,2) by (simp add: toy_compress2_def toy_pad_def nth_append)
qed

end
