(* ===== verification/ProgramTests.thy ===== *)
theory ProgramTests
  imports TestHarness
begin

text \<open>
  The unit tests of the registration program (\<open>methods/guest/src/program.rs\<close>, \<open>mod tests\<close>): its fixtures
  and its tests, by their names, as conditions on the model's plan and apply.
\<close>

section \<open>Fixtures\<close>

definition SELF_ID :: bytes where "SELF_ID = replicate 32 0xA1"
definition MERKLE :: bytes where "MERKLE = replicate 32 0xB2"
definition TREE_ID :: bytes where "TREE_ID = replicate 32 0x07"
definition TREASURY :: bytes where "TREASURY = replicate 32 0x77"
definition PAYER :: bytes where "PAYER = replicate 32 0x55"
definition PRICE :: u128 where "PRICE = 10"
definition ACTIVE_SEC :: u32 where "ACTIVE_SEC = 100"
definition GRACE_SEC :: u32 where "GRACE_SEC = 50"
definition NOW_MS :: u64 where "NOW_MS = 1000000"
definition RATE :: u64 where "RATE = 200"

definition pda_of :: "external \<Rightarrow> bytes result \<Rightarrow> account_id" where
  "pda_of E seed = (case seed of Inl e \<Rightarrow> [] | Inr s \<Rightarrow> for_public_pda E SELF_ID s)"

definition secret_fixture :: bytes where "secret_fixture = (replicate 32 0)[0 := 42]"

definition commitment_fixture :: "external \<Rightarrow> bytes" where
  "commitment_fixture E = (case hash_single E secret_fixture of Inl e \<Rightarrow> [] | Inr h \<Rightarrow> h)"

definition config_meta :: "external \<Rightarrow> account_meta" where
  "config_meta E = account_meta_new (pda_of E (config_seed E TREE_ID)) False SELF_ID"

definition tree_main_meta :: "external \<Rightarrow> account_meta" where
  "tree_main_meta E = account_meta_new (pda_of E (main_seed E TREE_ID)) False MERKLE"

definition membership_meta :: "external \<Rightarrow> account_meta" where
  "membership_meta E = account_meta_new (pda_of E (membership_seed E TREE_ID (commitment_fixture E))) False SELF_ID"

definition payer_meta :: "external \<Rightarrow> bool \<Rightarrow> account_meta" where
  "payer_meta E auth = native_balance_meta E PAYER auth"

definition treasury_meta :: "external \<Rightarrow> account_meta" where
  "treasury_meta E = native_balance_meta E TREASURY False"

definition clock_meta :: "external \<Rightarrow> account_meta" where
  "clock_meta E = account_meta_new CLOCK_50_ACCOUNT_ID_BYTES False (clock_account_id E)"

definition input_fixture :: "account_meta list \<Rightarrow> plan_input" where
  "input_fixture metas = \<lparr>self_account_id = SELF_ID, caller_account_id = None, accounts = metas, instruction_data = []\<rparr>"

definition config_fixture :: config_state where
  "config_fixture = \<lparr>cs_merkle_program_id = MERKLE, cs_tree_id = TREE_ID, cs_price_per_unit = PRICE,
     cs_treasury_account_id = TREASURY, cs_total_registrations = 3, cs_max_total_rate_limit = 1000,
     cs_current_total_rate_limit = 600, cs_active_duration_sec = ACTIVE_SEC, cs_grace_period_duration_sec = GRACE_SEC\<rparr>"

definition membership_fixture :: "external \<Rightarrow> u64 \<Rightarrow> membership_state" where
  "membership_fixture E grace_start_ms = \<lparr>ms_rate_limit = RATE, ms_id_commitment = commitment_fixture E,
     ms_grace_period_start_timestamp_ms = grace_start_ms, ms_active_duration_sec = ACTIVE_SEC,
     ms_grace_period_duration_sec = GRACE_SEC\<rparr>"

definition register_ix :: "external \<Rightarrow> instruction" where
  "register_ix E = Register TREE_ID (commitment_fixture E) RATE MERKLE NOW_MS PRICE ACTIVE_SEC GRACE_SEC"

definition register_accounts :: "external \<Rightarrow> account_meta list" where
  "register_accounts E =
     [config_meta E, tree_main_meta E, payer_meta E True, treasury_meta E, clock_meta E, membership_meta E]"

definition expected_merkle :: "external \<Rightarrow> merkle_instruction \<Rightarrow> chained_call" where
  "expected_merkle E ix =
     \<lparr>callee = MERKLE, shard_selectors = [(account_id (tree_main_meta E), MERKLE)],
      call_data = enc_merkle_instruction ix,
      pda_seeds = (case main_seed E TREE_ID of Inl e \<Rightarrow> [] | Inr s \<Rightarrow> [s])\<rparr>"

definition expected_payment :: "external \<Rightarrow> u128 \<Rightarrow> chained_call" where
  "expected_payment E amount =
     \<lparr>callee = native_program E, shard_selectors = [(PAYER, native_program E), (TREASURY, native_program E)],
      call_data = native_transfer E amount, pda_seeds = []\<rparr>"

lemmas fixture_simps = SELF_ID_def MERKLE_def TREE_ID_def TREASURY_def PAYER_def

section \<open>Seeds\<close>

definition seeds_combine_label_and_args :: "external \<Rightarrow> bool" where
  "seeds_combine_label_and_args E \<longleftrightarrow>
     config_seed E TREE_ID = rbind (label_seed ''config'') (\<lambda>l. combine_seeds E [l, TREE_ID]) \<and>
     main_seed E TREE_ID = rbind (label_seed ''main'') (\<lambda>l. combine_seeds E [l, TREE_ID]) \<and>
     membership_seed E TREE_ID (replicate 32 1) =
       rbind (label_seed ''membership'') (\<lambda>l. combine_seeds E [l, TREE_ID, replicate 32 1])"

section \<open>Plan\<close>

definition plan_initialize_emits_init_config :: "external \<Rightarrow> bool" where
  "plan_initialize_emits_init_config E \<longleftrightarrow>
     plans (plan_instruction E (input_fixture [config_meta E])
         (Initialize MERKLE TREE_ID PRICE TREASURY 1000 ACTIVE_SEC GRACE_SEC))
       [shard_effect_new (config_meta E)
          (InitConfig (config_fixture\<lparr>cs_total_registrations := 0, cs_current_total_rate_limit := 0\<rparr>))] []"

definition plan_initialize_rejects_foreign_config_pda :: "external \<Rightarrow> bool" where
  "plan_initialize_rejects_foreign_config_pda E \<longleftrightarrow>
     should_panic ''Wrong config PDA''
       (plan_instruction E (input_fixture [account_meta_new (replicate 32 9) False SELF_ID])
         (Initialize MERKLE TREE_ID PRICE TREASURY 1000 ACTIVE_SEC GRACE_SEC))"

definition plan_initialize_merkle_tree_guards_config_then_calls_merkle :: "external \<Rightarrow> bool" where
  "plan_initialize_merkle_tree_guards_config_then_calls_merkle E \<longleftrightarrow>
     plans (plan_instruction E (input_fixture [config_meta E, tree_main_meta E]) (InitializeMerkleTree TREE_ID MERKLE))
       [shard_effect_new (config_meta E) (InitTreeGuard TREE_ID MERKLE)] [expected_merkle E MInitialize]"

definition plan_initialize_merkle_tree_rejects_tree_main_of_other_program :: "external \<Rightarrow> bool" where
  "plan_initialize_merkle_tree_rejects_tree_main_of_other_program E \<longleftrightarrow>
     should_panic ''tree_main must select the merkle program's shard''
       (plan_instruction E
         (input_fixture [config_meta E, account_meta_new (pda_of E (main_seed E TREE_ID)) False (replicate 32 0xEE)])
         (InitializeMerkleTree TREE_ID MERKLE))"

definition plan_register_emits_effects_payment_then_insert :: "external \<Rightarrow> bool" where
  "plan_register_emits_effects_payment_then_insert E \<longleftrightarrow>
     (case compute_registration_leaf E (commitment_fixture E) RATE of
        Inl e \<Rightarrow> False
      | Inr leaf \<Rightarrow>
          plans (plan_instruction E (input_fixture (register_accounts E)) (register_ix E))
            [shard_effect_new (config_meta E) (RegisterConfig TREE_ID MERKLE PRICE TREASURY RATE ACTIVE_SEC GRACE_SEC),
             shard_effect_new (clock_meta E) (ClockIs NOW_MS),
             shard_effect_new (membership_meta E)
               (InitMembership (membership_fixture E (NOW_MS + secs_to_millis ACTIVE_SEC)))]
            [expected_payment E (ucast RATE * PRICE), expected_merkle E (MInsert leaf)])"

definition plan_register_rejects_zero_commitment :: "external \<Rightarrow> bool" where
  "plan_register_rejects_zero_commitment E \<longleftrightarrow>
     should_panic ''id_commitment must not be zero''
       (plan_instruction E
         (input_fixture ((register_accounts E)
            [5 := account_meta_new (pda_of E (membership_seed E TREE_ID (replicate 32 0))) False SELF_ID]))
         (Register TREE_ID (replicate 32 0) RATE MERKLE NOW_MS PRICE ACTIVE_SEC GRACE_SEC))"

definition plan_register_rejects_unauthorized_payer :: "external \<Rightarrow> bool" where
  "plan_register_rejects_unauthorized_payer E \<longleftrightarrow>
     should_panic ''Payer must authorize payment''
       (plan_instruction E (input_fixture ((register_accounts E)[2 := payer_meta E False])) (register_ix E))"

definition plan_register_rejects_wrong_clock :: "external \<Rightarrow> bool" where
  "plan_register_rejects_wrong_clock E \<longleftrightarrow>
     should_panic ''Wrong clock account''
       (plan_instruction E
         (input_fixture ((register_accounts E)
            [4 := account_meta_new (ascii ''/LEZ/ClockProgramAccount/0000001'') False (clock_account_id E)]))
         (register_ix E))"

definition plan_register_rejects_membership_of_other_commitment :: "external \<Rightarrow> bool" where
  "plan_register_rejects_membership_of_other_commitment E \<longleftrightarrow>
     should_panic ''Wrong membership PDA''
       (plan_instruction E
         (input_fixture ((register_accounts E)
            [5 := account_meta_new (pda_of E (membership_seed E TREE_ID (replicate 32 3))) False SELF_ID]))
         (register_ix E))"

definition plan_register_rejects_foreign_membership_shard :: "external \<Rightarrow> bool" where
  "plan_register_rejects_foreign_membership_shard E \<longleftrightarrow>
     should_panic ''membership must select this program's shard''
       (plan_instruction E
         (input_fixture ((register_accounts E)[5 := (register_accounts E ! 5)\<lparr>program_account_id := MERKLE\<rparr>]))
         (register_ix E))"

definition plan_register_rejects_wrong_account_count :: "external \<Rightarrow> bool" where
  "plan_register_rejects_wrong_account_count E \<longleftrightarrow>
     should_panic ''exactly 6 accounts''
       (plan_instruction E (input_fixture (butlast (register_accounts E))) (register_ix E))"

definition plan_slash_releases_and_removes :: "external \<Rightarrow> bool" where
  "plan_slash_releases_and_removes E \<longleftrightarrow>
     (case compute_registration_leaf E (commitment_fixture E) RATE of
        Inl e \<Rightarrow> False
      | Inr leaf \<Rightarrow>
          plans (plan_instruction E (input_fixture [config_meta E, tree_main_meta E, membership_meta E])
              (Slash TREE_ID (commitment_fixture E) secret_fixture MERKLE 5 RATE))
            [shard_effect_new (config_meta E) (ReleaseConfig TREE_ID MERKLE RATE),
             shard_effect_new (membership_meta E) (SlashMembership (commitment_fixture E) RATE)]
            [expected_merkle E (MRemove 5 leaf)])"

definition plan_slash_rejects_wrong_secret :: "external \<Rightarrow> bool" where
  "plan_slash_rejects_wrong_secret E \<longleftrightarrow>
     should_panic ''must match hash(identity_secret)''
       (plan_instruction E (input_fixture [config_meta E, tree_main_meta E, membership_meta E])
         (Slash TREE_ID (commitment_fixture E) (secret_fixture[1 := 1]) MERKLE 5 RATE))"

definition plan_extend_charges_the_registration_price :: "external \<Rightarrow> bool" where
  "plan_extend_charges_the_registration_price E \<longleftrightarrow>
     plans (plan_instruction E
         (input_fixture [config_meta E, membership_meta E, payer_meta E True, treasury_meta E, clock_meta E])
         (Extend TREE_ID (commitment_fixture E) NOW_MS PRICE RATE))
       [shard_effect_new (config_meta E) (ExtendConfig TREE_ID PRICE TREASURY),
        shard_effect_new (clock_meta E) (ClockIs NOW_MS),
        shard_effect_new (membership_meta E) (ExtendMembership NOW_MS RATE)]
       [expected_payment E (ucast RATE * PRICE)]"

definition plan_extend_rejects_unauthorized_payer :: "external \<Rightarrow> bool" where
  "plan_extend_rejects_unauthorized_payer E \<longleftrightarrow>
     should_panic ''Payer must authorize payment''
       (plan_instruction E
         (input_fixture [config_meta E, membership_meta E, payer_meta E False, treasury_meta E, clock_meta E])
         (Extend TREE_ID (commitment_fixture E) NOW_MS PRICE RATE))"

definition plan_erase_releases_and_removes :: "external \<Rightarrow> bool" where
  "plan_erase_releases_and_removes E \<longleftrightarrow>
     (case compute_registration_leaf E (commitment_fixture E) RATE of
        Inl e \<Rightarrow> False
      | Inr leaf \<Rightarrow>
          plans (plan_instruction E (input_fixture [config_meta E, tree_main_meta E, membership_meta E, clock_meta E])
              (Erase TREE_ID (commitment_fixture E) MERKLE 5 RATE NOW_MS))
            [shard_effect_new (config_meta E) (ReleaseConfig TREE_ID MERKLE RATE),
             shard_effect_new (clock_meta E) (ClockIs NOW_MS),
             shard_effect_new (membership_meta E) (EraseMembership NOW_MS RATE)]
            [expected_merkle E (MRemove 5 leaf)])"

definition plan_erase_rejects_foreign_clock_shard :: "external \<Rightarrow> bool" where
  "plan_erase_rejects_foreign_clock_shard E \<longleftrightarrow>
     should_panic ''clock program's shard''
       (plan_instruction E
         (input_fixture [config_meta E, tree_main_meta E, membership_meta E, (clock_meta E)\<lparr>program_account_id := SELF_ID\<rparr>])
         (Erase TREE_ID (commitment_fixture E) MERKLE 5 RATE NOW_MS))"

section \<open>Apply\<close>

definition config_bytes :: bytes where "config_bytes = enc_config config_fixture"

text \<open>\<open>ClockAccountData { block_id: 1, timestamp }.to_bytes()\<close>, over the clock crate's \<open>to_bytes\<close>.\<close>

type_synonym clock_to_bytes = "u64 \<Rightarrow> u64 \<Rightarrow> bytes"

definition clock_bytes :: "clock_to_bytes \<Rightarrow> u64 \<Rightarrow> bytes" where
  "clock_bytes to_bytes timestamp = to_bytes 1 timestamp"

definition register_config ::
  "(bytes \<times> u128 \<times> bytes \<times> u32 \<times> u32 \<Rightarrow> bytes \<times> u128 \<times> bytes \<times> u32 \<times> u32) \<Rightarrow> effect" where
  "register_config f =
     (case f (MERKLE, PRICE, TREASURY, ACTIVE_SEC, GRACE_SEC) of
        (merkle, price, treasury, active, grace) \<Rightarrow> RegisterConfig TREE_ID merkle price treasury RATE active grace)"

definition apply_init_config_writes_once :: "external \<Rightarrow> bool" where
  "apply_init_config_writes_once E \<longleftrightarrow>
     apply_effect E (InitConfig config_fixture) [] = Inr (Some config_bytes)"

definition apply_init_config_refuses_live_config :: "external \<Rightarrow> bool" where
  "apply_init_config_refuses_live_config E \<longleftrightarrow>
     should_panic ''AccountAlreadyInitialized'' (apply_effect E (InitConfig config_fixture) config_bytes)"

definition apply_init_tree_guard_keeps_config :: "external \<Rightarrow> bool" where
  "apply_init_tree_guard_keeps_config E \<longleftrightarrow>
     apply_effect E (InitTreeGuard TREE_ID MERKLE) config_bytes = Inr None"

definition apply_init_tree_guard_rejects_caller_named_program :: "external \<Rightarrow> bool" where
  "apply_init_tree_guard_rejects_caller_named_program E \<longleftrightarrow>
     should_panic ''merkle_program_id claim must match config''
       (apply_effect E (InitTreeGuard TREE_ID (replicate 32 0xEE)) config_bytes)"

definition apply_register_config_counts_the_member :: "external \<Rightarrow> bool" where
  "apply_register_config_counts_the_member E \<longleftrightarrow>
     apply_effect E (register_config (\<lambda>c. c)) config_bytes =
       Inr (Some (enc_config (config_fixture\<lparr>cs_total_registrations := 4, cs_current_total_rate_limit := 800\<rparr>)))"

definition apply_register_config_rejects_wrong_merkle_claim :: "external \<Rightarrow> bool" where
  "apply_register_config_rejects_wrong_merkle_claim E \<longleftrightarrow>
     should_panic ''merkle_program_id claim''
       (apply_effect E (register_config (\<lambda>(m, p, t, a, g). (replicate 32 0, p, t, a, g))) config_bytes)"

definition apply_register_config_rejects_underpriced_claim :: "external \<Rightarrow> bool" where
  "apply_register_config_rejects_underpriced_claim E \<longleftrightarrow>
     should_panic ''price_per_unit claim''
       (apply_effect E (register_config (\<lambda>(m, p, t, a, g). (m, 0, t, a, g))) config_bytes)"

definition apply_register_config_rejects_wrong_treasury :: "external \<Rightarrow> bool" where
  "apply_register_config_rejects_wrong_treasury E \<longleftrightarrow>
     should_panic ''Wrong treasury''
       (apply_effect E (register_config (\<lambda>(m, p, t, a, g). (m, p, PAYER, a, g))) config_bytes)"

definition apply_register_config_rejects_wrong_active_duration :: "external \<Rightarrow> bool" where
  "apply_register_config_rejects_wrong_active_duration E \<longleftrightarrow>
     should_panic ''active_duration_sec claim''
       (apply_effect E (register_config (\<lambda>(m, p, t, a, g). (m, p, t, a + 1, g))) config_bytes)"

definition apply_register_config_rejects_wrong_grace_duration :: "external \<Rightarrow> bool" where
  "apply_register_config_rejects_wrong_grace_duration E \<longleftrightarrow>
     should_panic ''grace_period_duration_sec claim''
       (apply_effect E (register_config (\<lambda>(m, p, t, a, g). (m, p, t, a, g + 1))) config_bytes)"

definition apply_register_config_rejects_over_capacity :: "external \<Rightarrow> bool" where
  "apply_register_config_rejects_over_capacity E \<longleftrightarrow>
     should_panic ''Would exceed max total rate limit''
       (apply_effect E (register_config (\<lambda>c. c)) (enc_config (config_fixture\<lparr>cs_current_total_rate_limit := 900\<rparr>)))"

definition apply_init_membership_writes_once :: "external \<Rightarrow> bool" where
  "apply_init_membership_writes_once E \<longleftrightarrow>
     apply_effect E (InitMembership (membership_fixture E 7)) [] = Inr (Some (enc_membership (membership_fixture E 7)))"

definition apply_init_membership_blocks_duplicate_registration :: "external \<Rightarrow> bool" where
  "apply_init_membership_blocks_duplicate_registration E \<longleftrightarrow>
     should_panic ''AccountAlreadyInitialized: membership already exists''
       (apply_effect E (InitMembership (membership_fixture E 7)) (enc_membership (membership_fixture E 7)))"

definition apply_clock_is_accepts_matching_timestamp :: "external \<Rightarrow> clock_to_bytes \<Rightarrow> bool" where
  "apply_clock_is_accepts_matching_timestamp E to_bytes \<longleftrightarrow>
     apply_effect E (ClockIs NOW_MS) (clock_bytes to_bytes NOW_MS) = Inr None"

definition apply_clock_is_rejects_a_claim_ahead_of_the_clock :: "external \<Rightarrow> clock_to_bytes \<Rightarrow> bool" where
  "apply_clock_is_rejects_a_claim_ahead_of_the_clock E to_bytes \<longleftrightarrow>
     should_panic ''is not within'' (apply_effect E (ClockIs (NOW_MS + 1)) (clock_bytes to_bytes NOW_MS))"

definition apply_clock_is_accepts_a_claim_one_step_behind :: "external \<Rightarrow> clock_to_bytes \<Rightarrow> bool" where
  "apply_clock_is_accepts_a_claim_one_step_behind E to_bytes \<longleftrightarrow>
     apply_effect E (ClockIs NOW_MS) (clock_bytes to_bytes (NOW_MS + 750000)) = Inr None"

definition apply_release_config_uncounts_the_member :: "external \<Rightarrow> bool" where
  "apply_release_config_uncounts_the_member E \<longleftrightarrow>
     apply_effect E (ReleaseConfig TREE_ID MERKLE RATE) config_bytes =
       Inr (Some (enc_config (config_fixture\<lparr>cs_total_registrations := 2, cs_current_total_rate_limit := 400\<rparr>)))"

definition apply_release_config_rejects_other_tree :: "external \<Rightarrow> bool" where
  "apply_release_config_rejects_other_tree E \<longleftrightarrow>
     should_panic ''tree_id arg must match config''
       (apply_effect E (ReleaseConfig (replicate 32 0) MERKLE RATE) config_bytes)"

definition apply_slash_membership_clears :: "external \<Rightarrow> bool" where
  "apply_slash_membership_clears E \<longleftrightarrow>
     apply_effect E (SlashMembership (commitment_fixture E) RATE) (enc_membership (membership_fixture E 7)) = Inr (Some [])"

definition apply_slash_membership_rejects_wrong_rate_claim :: "external \<Rightarrow> bool" where
  "apply_slash_membership_rejects_wrong_rate_claim E \<longleftrightarrow>
     should_panic ''rate_limit claim must match membership''
       (apply_effect E (SlashMembership (commitment_fixture E) (RATE - 1)) (enc_membership (membership_fixture E 7)))"

definition apply_slash_membership_rejects_empty :: "external \<Rightarrow> bool" where
  "apply_slash_membership_rejects_empty E \<longleftrightarrow>
     should_panic ''already slashed'' (apply_effect E (SlashMembership (commitment_fixture E) RATE) [])"

definition apply_extend_config_keeps :: "external \<Rightarrow> bool" where
  "apply_extend_config_keeps E \<longleftrightarrow>
     apply_effect E (ExtendConfig TREE_ID PRICE TREASURY) config_bytes = Inr None"

definition apply_extend_config_rejects_free_renewal :: "external \<Rightarrow> bool" where
  "apply_extend_config_rejects_free_renewal E \<longleftrightarrow>
     should_panic ''price_per_unit claim'' (apply_effect E (ExtendConfig TREE_ID 0 TREASURY) config_bytes)"

definition apply_extend_membership_advances_one_period :: "external \<Rightarrow> bool" where
  "apply_extend_membership_advances_one_period E \<longleftrightarrow>
     apply_effect E (ExtendMembership NOW_MS RATE) (enc_membership (membership_fixture E (NOW_MS - 10))) =
       Inr (Some (enc_membership (membership_fixture E (NOW_MS - 10 + secs_to_millis GRACE_SEC + secs_to_millis ACTIVE_SEC))))"

definition apply_extend_membership_rejects_active_membership :: "external \<Rightarrow> bool" where
  "apply_extend_membership_rejects_active_membership E \<longleftrightarrow>
     should_panic ''CannotExtendNonGracePeriodMembership''
       (apply_effect E (ExtendMembership NOW_MS RATE) (enc_membership (membership_fixture E (NOW_MS + 1))))"

definition apply_extend_membership_rejects_understated_rate :: "external \<Rightarrow> bool" where
  "apply_extend_membership_rejects_understated_rate E \<longleftrightarrow>
     should_panic ''rate_limit claim must match membership''
       (apply_effect E (ExtendMembership NOW_MS (RATE - 1)) (enc_membership (membership_fixture E (NOW_MS - 10))))"

definition apply_erase_membership_clears_expired :: "external \<Rightarrow> bool" where
  "apply_erase_membership_clears_expired E \<longleftrightarrow>
     apply_effect E (EraseMembership NOW_MS RATE) (enc_membership (membership_fixture E (NOW_MS - secs_to_millis GRACE_SEC))) = Inr (Some [])"

definition apply_erase_membership_rejects_unexpired :: "external \<Rightarrow> bool" where
  "apply_erase_membership_rejects_unexpired E \<longleftrightarrow>
     should_panic ''CannotEraseUnexpiredMembership''
       (apply_effect E (EraseMembership NOW_MS RATE) (enc_membership (membership_fixture E (NOW_MS - 10))))"

definition apply_erase_membership_rejects_wrong_rate_claim :: "external \<Rightarrow> bool" where
  "apply_erase_membership_rejects_wrong_rate_claim E \<longleftrightarrow>
     should_panic ''rate_limit claim must match membership''
       (apply_effect E (EraseMembership NOW_MS (RATE + 1)) (enc_membership (membership_fixture E (NOW_MS - secs_to_millis GRACE_SEC))))"

section \<open>The suite\<close>

definition plan_tests :: "external \<Rightarrow> suite" where
  "plan_tests E =
    [(''seeds_combine_label_and_args'', seeds_combine_label_and_args E),
     (''plan_initialize_emits_init_config'', plan_initialize_emits_init_config E),
     (''plan_initialize_rejects_foreign_config_pda'', plan_initialize_rejects_foreign_config_pda E),
     (''plan_initialize_merkle_tree_guards_config_then_calls_merkle'', plan_initialize_merkle_tree_guards_config_then_calls_merkle E),
     (''plan_initialize_merkle_tree_rejects_tree_main_of_other_program'', plan_initialize_merkle_tree_rejects_tree_main_of_other_program E),
     (''plan_register_emits_effects_payment_then_insert'', plan_register_emits_effects_payment_then_insert E),
     (''plan_register_rejects_zero_commitment'', plan_register_rejects_zero_commitment E),
     (''plan_register_rejects_unauthorized_payer'', plan_register_rejects_unauthorized_payer E),
     (''plan_register_rejects_wrong_clock'', plan_register_rejects_wrong_clock E),
     (''plan_register_rejects_membership_of_other_commitment'', plan_register_rejects_membership_of_other_commitment E),
     (''plan_register_rejects_foreign_membership_shard'', plan_register_rejects_foreign_membership_shard E),
     (''plan_register_rejects_wrong_account_count'', plan_register_rejects_wrong_account_count E),
     (''plan_slash_releases_and_removes'', plan_slash_releases_and_removes E),
     (''plan_slash_rejects_wrong_secret'', plan_slash_rejects_wrong_secret E),
     (''plan_extend_charges_the_registration_price'', plan_extend_charges_the_registration_price E),
     (''plan_extend_rejects_unauthorized_payer'', plan_extend_rejects_unauthorized_payer E),
     (''plan_erase_releases_and_removes'', plan_erase_releases_and_removes E),
     (''plan_erase_rejects_foreign_clock_shard'', plan_erase_rejects_foreign_clock_shard E)]"

definition apply_tests :: "external \<Rightarrow> clock_to_bytes \<Rightarrow> suite" where
  "apply_tests E to_bytes =
    [(''apply_init_config_writes_once'', apply_init_config_writes_once E),
     (''apply_init_config_refuses_live_config'', apply_init_config_refuses_live_config E),
     (''apply_init_tree_guard_keeps_config'', apply_init_tree_guard_keeps_config E),
     (''apply_init_tree_guard_rejects_caller_named_program'', apply_init_tree_guard_rejects_caller_named_program E),
     (''apply_register_config_counts_the_member'', apply_register_config_counts_the_member E),
     (''apply_register_config_rejects_wrong_merkle_claim'', apply_register_config_rejects_wrong_merkle_claim E),
     (''apply_register_config_rejects_underpriced_claim'', apply_register_config_rejects_underpriced_claim E),
     (''apply_register_config_rejects_wrong_treasury'', apply_register_config_rejects_wrong_treasury E),
     (''apply_register_config_rejects_wrong_active_duration'', apply_register_config_rejects_wrong_active_duration E),
     (''apply_register_config_rejects_wrong_grace_duration'', apply_register_config_rejects_wrong_grace_duration E),
     (''apply_register_config_rejects_over_capacity'', apply_register_config_rejects_over_capacity E),
     (''apply_init_membership_writes_once'', apply_init_membership_writes_once E),
     (''apply_init_membership_blocks_duplicate_registration'', apply_init_membership_blocks_duplicate_registration E),
     (''apply_clock_is_accepts_matching_timestamp'', apply_clock_is_accepts_matching_timestamp E to_bytes),
     (''apply_clock_is_rejects_a_claim_ahead_of_the_clock'', apply_clock_is_rejects_a_claim_ahead_of_the_clock E to_bytes),
     (''apply_clock_is_accepts_a_claim_one_step_behind'', apply_clock_is_accepts_a_claim_one_step_behind E to_bytes),
     (''apply_release_config_uncounts_the_member'', apply_release_config_uncounts_the_member E),
     (''apply_release_config_rejects_other_tree'', apply_release_config_rejects_other_tree E),
     (''apply_slash_membership_clears'', apply_slash_membership_clears E),
     (''apply_slash_membership_rejects_wrong_rate_claim'', apply_slash_membership_rejects_wrong_rate_claim E),
     (''apply_slash_membership_rejects_empty'', apply_slash_membership_rejects_empty E),
     (''apply_extend_config_keeps'', apply_extend_config_keeps E),
     (''apply_extend_config_rejects_free_renewal'', apply_extend_config_rejects_free_renewal E),
     (''apply_extend_membership_advances_one_period'', apply_extend_membership_advances_one_period E),
     (''apply_extend_membership_rejects_active_membership'', apply_extend_membership_rejects_active_membership E),
     (''apply_extend_membership_rejects_understated_rate'', apply_extend_membership_rejects_understated_rate E),
     (''apply_erase_membership_clears_expired'', apply_erase_membership_clears_expired E),
     (''apply_erase_membership_rejects_unexpired'', apply_erase_membership_rejects_unexpired E),
     (''apply_erase_membership_rejects_wrong_rate_claim'', apply_erase_membership_rejects_wrong_rate_claim E)]"

section \<open>The tests on the model\<close>

text \<open>What the tests' own values must be like, of Poseidon, of the chain's derivation and of the clock crate.\<close>

definition test_values :: "external \<Rightarrow> bool" where
  "test_values E \<longleftrightarrow>
     felt_valid E ZERO \<and> felt_valid E (rate_felt RATE) \<and> felt_valid E secret_fixture \<and> felt_valid E (secret_fixture[1 := 1]) \<and>
     compress1 E secret_fixture \<noteq> ZERO \<and> compress1 E (secret_fixture[1 := 1]) \<noteq> compress1 E secret_fixture \<and>
     pda_config E SELF_ID TREE_ID \<noteq> replicate 32 9 \<and>
     pda_membership E SELF_ID TREE_ID (replicate 32 3) \<noteq> pda_membership E SELF_ID TREE_ID (compress1 E secret_fixture) \<and>
     clock_account_id E \<noteq> SELF_ID"

definition clock_codec :: "external \<Rightarrow> clock_to_bytes \<Rightarrow> bool" where
  "clock_codec E to_bytes \<longleftrightarrow> (\<forall>block ts. clock_timestamp E (to_bytes block ts) = Some ts)"

lemma fixture_sel [simp]:
  "account_id (account_meta_new a auth p) = a" "is_authorized (account_meta_new a auth p) = auth"
  "program_account_id (account_meta_new a auth p) = p" "meta_selector (account_meta_new a auth p) = (a, p)"
  "self_account_id (input_fixture metas) = SELF_ID" "accounts (input_fixture metas) = metas"
  "pda_of E (Inr seed) = for_public_pda E SELF_ID seed" "pda E (input_fixture metas) seed = for_public_pda E SELF_ID seed"
  by (simp_all add: account_meta_new_def meta_selector_def input_fixture_def pda_of_def pda_def)

lemma fixture_ids [simp]:
  "MERKLE \<noteq> SELF_ID" "SELF_ID \<noteq> MERKLE" "replicate 32 0xEE \<noteq> MERKLE" "TREASURY \<noteq> PAYER" "PAYER \<noteq> TREASURY"
  "replicate 32 0 \<noteq> MERKLE" "replicate 32 0 \<noteq> TREE_ID" "ZERO \<noteq> MERKLE" "ZERO \<noteq> TREE_ID"
  "length SELF_ID = 32" "length MERKLE = 32" "length TREE_ID = 32" "length TREASURY = 32" "length PAYER = 32"
  by (simp_all add: fixture_simps ZERO_def)

lemmas plan_test_defs =
  seeds_combine_label_and_args_def plan_initialize_emits_init_config_def
  plan_initialize_rejects_foreign_config_pda_def plan_initialize_merkle_tree_guards_config_then_calls_merkle_def
  plan_initialize_merkle_tree_rejects_tree_main_of_other_program_def
  plan_register_emits_effects_payment_then_insert_def plan_register_rejects_zero_commitment_def
  plan_register_rejects_unauthorized_payer_def plan_register_rejects_wrong_clock_def
  plan_register_rejects_membership_of_other_commitment_def plan_register_rejects_foreign_membership_shard_def
  plan_register_rejects_wrong_account_count_def plan_slash_releases_and_removes_def
  plan_slash_rejects_wrong_secret_def plan_extend_charges_the_registration_price_def
  plan_extend_rejects_unauthorized_payer_def plan_erase_releases_and_removes_def
  plan_erase_rejects_foreign_clock_shard_def

lemmas apply_test_defs =
  apply_init_config_writes_once_def apply_init_config_refuses_live_config_def apply_init_tree_guard_keeps_config_def
  apply_init_tree_guard_rejects_caller_named_program_def apply_register_config_counts_the_member_def
  apply_register_config_rejects_wrong_merkle_claim_def apply_register_config_rejects_underpriced_claim_def
  apply_register_config_rejects_wrong_treasury_def apply_register_config_rejects_wrong_active_duration_def
  apply_register_config_rejects_wrong_grace_duration_def apply_register_config_rejects_over_capacity_def
  apply_init_membership_writes_once_def apply_init_membership_blocks_duplicate_registration_def
  apply_clock_is_accepts_matching_timestamp_def apply_clock_is_rejects_a_claim_ahead_of_the_clock_def
  apply_clock_is_accepts_a_claim_one_step_behind_def apply_release_config_uncounts_the_member_def
  apply_release_config_rejects_other_tree_def apply_slash_membership_clears_def
  apply_slash_membership_rejects_wrong_rate_claim_def apply_slash_membership_rejects_empty_def
  apply_extend_config_keeps_def apply_extend_config_rejects_free_renewal_def
  apply_extend_membership_advances_one_period_def apply_extend_membership_rejects_active_membership_def
  apply_extend_membership_rejects_understated_rate_def apply_erase_membership_clears_expired_def
  apply_erase_membership_rejects_unexpired_def apply_erase_membership_rejects_wrong_rate_claim_def

lemmas meta_defs = config_meta_def tree_main_meta_def membership_meta_def payer_meta_def treasury_meta_def clock_meta_def
  native_balance_meta_def register_accounts_def register_ix_def

lemma commitment_value: "test_values E \<Longrightarrow> commitment_fixture E = compress1 E secret_fixture"
  by (simp add: test_values_def commitment_fixture_def hash_single_def validate_field_element_def)

lemma fixture_leaf:
  "test_values E \<Longrightarrow> poseidon_canonical E \<Longrightarrow>
     compute_registration_leaf E (commitment_fixture E) RATE = Inr (membership_leaf E (commitment_fixture E) RATE)"
  by (simp add: commitment_value test_values_def poseidon_canonical_def result_simps)

lemmas plan_eval = plan_initialize_def plan_initialize_merkle_tree_def plan_register_def plan_slash_def plan_extend_def
  plan_erase_def require_own_pda_def require_tree_main_def require_clock_account_def validate_field_element_def
  validate_rate_limit_def merkle_call_def native_payment_def hash_single_def wrong_accounts_def plan_builders Let_def

lemma fixture_numbers:
  "MIN_RATE_LIMIT \<le> RATE" "RATE \<le> MAX_RATE_LIMIT" "0 < ACTIVE_SEC"
  "calculate_payment_amount RATE PRICE = ucast RATE * PRICE"
  "sat_add NOW_MS (secs_to_millis ACTIVE_SEC) = NOW_MS + secs_to_millis ACTIVE_SEC"
  by (simp_all add: RATE_def PRICE_def ACTIVE_SEC_def NOW_MS_def MIN_RATE_LIMIT_def MAX_RATE_LIMIT_def
      calculate_payment_amount_def sat_mul_def sat_add_def secs_to_millis_def MILLIS_PER_SECOND_def)

lemma fixture_values:
  assumes "poseidon_canonical E" and "test_values E"
  shows "felt_valid E (compress1 E secret_fixture)" and "compress1 E secret_fixture \<noteq> replicate 32 0"
    and "felt_valid E (replicate 32 0)" and "felt_valid E secret_fixture" and "felt_valid E (secret_fixture[1 := 1])"
    and "compress1 E (secret_fixture[1 := 1]) \<noteq> compress1 E secret_fixture"
    and "for_public_pda E SELF_ID (seed_config E TREE_ID) \<noteq> replicate 32 9"
    and "for_public_pda E SELF_ID (seed_membership E TREE_ID (replicate 32 3)) \<noteq>
      for_public_pda E SELF_ID (seed_membership E TREE_ID (compress1 E secret_fixture))"
    and "clock_account_id E \<noteq> SELF_ID"
  using assms by (simp_all add: test_values_def poseidon_canonical_def ZERO_def pda_config_def pda_membership_def)

lemma other_clock: "ascii ''/LEZ/ClockProgramAccount/0000001'' \<noteq> CLOCK_50_ACCOUNT_ID_BYTES"
  by (simp add: CLOCK_50_ACCOUNT_ID_BYTES_def ascii_def)

lemma plan_tests_pass:
  assumes "poseidon_canonical E" and "test_values E"
  shows "passes (plan_tests E)"
  unfolding plan_tests_def passes_simps
proof (intro conjI)
  show "seeds_combine_label_and_args E"
    by (simp only: seeds_combine_label_and_args_def config_seed_def main_seed_def membership_seed_def)
qed (use fixture_values [OF assms] other_clock fixture_leaf [OF assms(2,1)] in
    \<open>simp_all add: plan_test_defs plans_def should_panic_def shard_effect_new_def meta_defs plan_eval fixture_numbers
       commitment_value [OF assms(2)] config_fixture_def membership_fixture_def expected_merkle_def expected_payment_def\<close>)

lemma config_decodes: "config_ok c \<Longrightarrow> decode_config (enc_config c) = Inr c"
  by (simp add: result_simps)

lemma membership_decodes: "membership_ok m \<Longrightarrow> decode_membership (enc_membership m) msg = Inr m"
  by (simp add: result_simps)

lemma no_membership: "decode_membership [] msg = Inl (Halt EXIT_MEMBERSHIP_MISSING msg)"
  by (simp add: decode_membership_def ensure_def fail_def)

lemmas apply_eval = apply_init_config_def apply_init_tree_guard_def apply_register_config_def apply_init_membership_def
  apply_release_config_def apply_slash_membership_def apply_extend_config_def apply_extend_membership_def
  apply_erase_membership_def assert_config_ids_def assert_clock_is_def ensure_def fail_def config_decodes
  membership_decodes no_membership

lemmas fixture_defs = config_bytes_def config_fixture_def membership_fixture_def register_config_def clock_bytes_def
  RATE_def PRICE_def ACTIVE_SEC_def GRACE_SEC_def NOW_MS_def

lemmas time_defs = secs_to_millis_def MILLIS_PER_SECOND_def is_in_grace_period_def is_expired_def CLOCK_CLAIM_TOLERANCE_MS_def

lemma apply_tests_pass:
  assumes "poseidon_canonical E" and "test_values E" and "clock_codec E to_bytes"
  shows "passes (apply_tests E to_bytes)"
proof -
  have c: "length (compress1 E secret_fixture) = 32" using assms(1) by (simp add: poseidon_canonical_def)
  have clock: "clock_timestamp E (to_bytes block ts) = Some ts" for block ts using assms(3) by (simp add: clock_codec_def)
  show ?thesis
    unfolding apply_tests_def passes_simps apply_test_defs
    by (intro conjI)
      (use c clock fixture_ids(3,6,7) [symmetric] in \<open>simp_all add: should_panic_def decimals exit_codes stale_clock_def contains_append apply_eval fixture_defs time_defs commitment_value [OF assms(2)]
         config_ok_def membership_ok_def can_register_def sat_add_def sat_sub_def\<close>)
qed

text \<open>
  The unit tests of the registration program hold of the model, whatever the hash, the derivation of
  accounts and the clock's encoding are, as long as they are as the tests' own values need: every condition
  that a test asserts of \<open>plan\<close> and \<open>apply\<close>, and every panic it expects.
\<close>

theorem program_tests_pass:
  assumes "poseidon_canonical E" and "test_values E" and "clock_codec E to_bytes"
  shows "passes (plan_tests E @ apply_tests E to_bytes)"
  using plan_tests_pass [OF assms(1,2)] apply_tests_pass [OF assms] by simp

definition toy_clock_bytes :: clock_to_bytes where
  "toy_clock_bytes block ts = u64_le block @ u64_le ts"

lemma toy_test_values: "test_values toy" "clock_codec toy toy_clock_bytes"
proof -
  show "clock_codec toy toy_clock_bytes"
    by (simp add: clock_codec_def toy_clock_bytes_def) (simp add: toy_def slice_def)
  show "test_values toy" by code_simp
qed

theorem program_tests_pass_witness: "passes (plan_tests toy @ apply_tests toy toy_clock_bytes)"
  using program_tests_pass [OF toy_canonical toy_test_values] .

end
