(* ===== verification/TreeContents.thy ===== *)
theory TreeContents
  imports MerkleOps
begin

text \<open>
  Runs of tree operations by what the tree holds: \<open>tree_at E d n f\<close> says that the shard is consistent, that
  its next index is \<open>n\<close> and that its leaves are \<open>f\<close>. Every operation that succeeds moves one such state to
  another, a tree built in one pass from its leaf layer has the root the shard stores, and a full tree's
  shard is as long as a shard can be.
\<close>

unbundle bit_operations_syntax

section \<open>What a tree holds\<close>

definition tree_at :: "external \<Rightarrow> bytes \<Rightarrow> nat \<Rightarrow> (nat \<Rightarrow> bytes) \<Rightarrow> bool" where
  "tree_at E d n f \<longleftrightarrow> tree_ok E d \<and> unat (hdr_next d) = n \<and> (\<forall>i < 2 ^ TREE_DEPTH. tree_leaf d i = f i)"

lemma tree_at_ok: "tree_at E d n f \<Longrightarrow> tree_ok E d"
  by (simp add: tree_at_def)

lemma tree_at_bound: "tree_at E d n f \<Longrightarrow> n \<le> 2 ^ TREE_DEPTH"
  by (auto simp: tree_at_def tree_ok_def)

lemma tree_at_header: "tree_at E d n f \<Longrightarrow> header_ok d"
  by (simp add: tree_at_def tree_ok_def)

lemma merkle_root_cong: "(\<And>i. i < 2 ^ TREE_DEPTH \<Longrightarrow> f i = g i) \<Longrightarrow> merkle_root E f = merkle_root E g"
  unfolding merkle_root_def by (rule merkle_node_cong) simp

lemma tree_at_cong: "tree_at E d n f \<Longrightarrow> (\<And>i. i < 2 ^ TREE_DEPTH \<Longrightarrow> f i = g i) \<Longrightarrow> tree_at E d n g"
  by (simp add: tree_at_def)

lemma tree_at_root: "tree_at E d n f \<Longrightarrow> hdr_root d = merkle_root E f"
  using tree_ok_root [of E d] merkle_root_cong [of "tree_leaf d" f E] by (simp add: tree_at_def)

lemma read_root_ok: "header_ok d \<Longrightarrow> read_root d = Inr (hdr_root d)"
  by (simp add: read_root_def hdr_root_def header_offsets header_ok_def read_slice_ok)

lemma tree_at_reads:
  assumes "tree_at E d n f"
  shows "read_root d = Inr (merkle_root E f)" and "read_next_index d = Inr (word_of_nat n)"
    and "read_sparse_node (drop OFFSET_TREE_DATA d) TREE_DEPTH i ZERO = Inr (tree_leaf d i)"
proof -
  note hd = tree_at_header [OF assms]
  have "hdr_next d = word_of_nat n" using assms by (auto simp: tree_at_def)
  then show "read_next_index d = Inr (word_of_nat n)" by (simp add: read_next_index_ok [OF hd])
  show "read_root d = Inr (merkle_root E f)" by (simp add: read_root_ok [OF hd] tree_at_root [OF assms])
  show "read_sparse_node (drop OFFSET_TREE_DATA d) TREE_DEPTH i ZERO = Inr (tree_leaf d i)"
    using read_leaf_ok [OF tree_at_ok [OF assms]] .
qed

text \<open>A view is what the tree holds.\<close>

lemma tree_at_view:
  "tree_ok E d \<Longrightarrow> view d = t \<Longrightarrow> tree_at E d (tv_next t) (\<lambda>i. tv_leaves t ! i) \<and> hdr_history d = tv_history t"
  by (auto simp: tree_at_def)

lemma spec_root_at: "tree_at E d n f \<Longrightarrow> spec_root E (view d) = merkle_root E f"
  unfolding spec_root_view by (rule merkle_root_cong) (simp add: tree_at_def)

lemma spec_put_at:
  assumes "tree_at E d n f" and "tree_ok E d1" and "view d1 = (spec_put E i h (view d))\<lparr>tv_next := m\<rparr>"
  shows "tree_at E d1 m (f(i := h)) \<and> hdr_history d1 = merkle_root E f # take 3 (hdr_history d)"
proof -
  let ?t = "(spec_put E i h (view d))\<lparr>tv_next := m\<rparr>"
  have "tree_at E d1 m (\<lambda>i. tv_leaves ?t ! i)" "hdr_history d1 = tv_history ?t"
    using tree_at_view [OF assms(2,3)] by simp_all
  moreover have "tv_leaves ?t ! j = (f(i := h)) j" if "j < 2 ^ TREE_DEPTH" for j
    using assms(1) that by (simp add: spec_put_def nth_list_update tree_at_def)
  moreover have "tv_history ?t = merkle_root E f # take 3 (hdr_history d)"
    by (simp add: spec_put_def spec_root_at [OF assms(1)])
  ultimately show ?thesis by (metis (no_types, lifting) tree_at_cong)
qed

section \<open>The operations\<close>

lemma map_sum_view: "map_sum id view r = Inr t \<Longrightarrow> \<exists>d. r = Inr d \<and> view d = t"
  by (cases r) auto

lemma initialize_at:
  assumes "poseidon_ok E"
  obtains d where "initialize_tree [] = Inr d" and "tree_at E d 0 (\<lambda>_. ZERO)"
    and "length d = OFFSET_TREE_DATA" and "hdr_history d = replicate ROOT_HISTORY_SIZE ZERO"
  by (rule initialize_tree_correct [OF assms]) (rule that; simp add: tree_at_def)

lemma insert_at:
  assumes E: "poseidon_ok E" and at: "tree_at E d n f" and n: "n < 2 ^ TREE_DEPTH" and h: "node_ok E leaf"
  obtains d1 where "insert_leaf E d leaf = Inr d1" and "tree_at E d1 (Suc n) (f(n := leaf))"
    and "hdr_history d1 = merkle_root E f # take 3 (hdr_history d)"
proof -
  have nx: "unat (hdr_next d) = n" using at by (simp add: tree_at_def)
  have b: "bytes32 leaf" "felt_valid E leaf" using h by (simp_all add: node_ok_def)
  note ins = insert_leaf_cases [OF E tree_at_ok [OF at] b(1)]
  have "map_sum id view (insert_leaf E d leaf) = Inr ((spec_put E n leaf (view d))\<lparr>tv_next := Suc n\<rparr>)"
    using ins b n nx by (simp add: spec_insert_def)
  then obtain d1 where "insert_leaf E d leaf = Inr d1" "view d1 = (spec_put E n leaf (view d))\<lparr>tv_next := Suc n\<rparr>"
    using map_sum_view by blast
  with ins show ?thesis using spec_put_at [OF at] that by blast
qed

lemma insert_refused:
  assumes "poseidon_ok E" and at: "tree_at E d (2 ^ TREE_DEPTH) f" and h: "node_ok E leaf"
  shows "insert_leaf E d leaf = Inl (Halt EXIT_TREE_FULL (''tree is full: next_index '' @ decimal (2 ^ TREE_DEPTH) @ '' is past the last leaf''))"
proof -
  have "map_sum id view (insert_leaf E d leaf) = Inl (Halt EXIT_TREE_FULL (''tree is full: next_index '' @ decimal (2 ^ TREE_DEPTH) @ '' is past the last leaf''))"
    using insert_leaf_cases [OF assms(1) tree_at_ok [OF at], of leaf] at h
    by (simp add: spec_insert_def tree_at_def node_ok_def)
  then show ?thesis by (cases "insert_leaf E d leaf") auto
qed

text \<open>Overwriting the next index by a later one.\<close>

lemma skip_to:
  assumes at: "tree_at E d n f" and m: "n \<le> unat m" "unat m \<le> 2 ^ TREE_DEPTH"
  obtains d1 where "write_slice OFFSET_NEXT_INDEX (u64_le m) d = Inr d1" and "tree_at E d1 (unat m) f"
proof -
  have ok: "tree_ok E d" "unat (hdr_next d) = n" "OFFSET_TREE_DATA \<le> length d"
    using at by (simp_all add: tree_at_def tree_ok_def header_ok_def)
  obtain d1 where w: "write_slice OFFSET_NEXT_INDEX (u64_le m) d = Inr d1" and d1: "length d1 = length d"
    "d1 ! 0 = d ! 0" "hdr_next d1 = m" "hdr_root d1 = hdr_root d" "hdr_cached d1 = hdr_cached d"
    "drop OFFSET_TREE_DATA d1 = drop OFFSET_TREE_DATA d"
    by (rule write_next_index_correct [OF ok(3), of m])
  have same: "tree_node d1 = tree_node d" by (simp only: tree_node_def d1)
  have "tree_at E d1 (unat m) f"
    using at ok m d1 by (auto simp: tree_at_def tree_ok_def header_ok_def OFFSET_DEPTH_def tree_leaf_def same)
  with w show ?thesis by (rule that)
qed

lemma put_same_next: "spec_put E i h t = (spec_put E i h t)\<lparr>tv_next := tv_next t\<rparr>"
  by (simp add: spec_put_def)

lemma remove_at:
  assumes E: "poseidon_ok E" and at: "tree_at E d n f" and i: "unat i < n" and leaf: "f (unat i) = leaf"
  obtains d1 where "remove_leaf E d i leaf = Inr d1" and "tree_at E d1 n (f(unat i := ZERO))"
proof -
  have nx: "unat (hdr_next d) = n" "unat i < 2 ^ TREE_DEPTH" using at i tree_at_bound [OF at] by (simp_all add: tree_at_def)
  note rm = remove_leaf_cases [OF E tree_at_ok [OF at], of i leaf]
  have "map_sum id view (remove_leaf E d i leaf) = Inr (spec_put E (unat i) ZERO (view d))"
    using rm at i leaf nx by (simp add: spec_remove_def tree_at_def)
  then obtain d1 where "remove_leaf E d i leaf = Inr d1" "view d1 = (spec_put E (unat i) ZERO (view d))\<lparr>tv_next := n\<rparr>"
    using map_sum_view put_same_next [of E _ ZERO "view d"] nx by (metis view_sel(1))
  with rm show ?thesis using spec_put_at [OF at] that by blast
qed

text \<open>The message of a refused removal.\<close>

definition no_leaf :: "nat \<Rightarrow> nat \<Rightarrow> string" where
  "no_leaf i n =
     (if i < n then ''leaf at index '' @ decimal i @ '' is not this member's''
      else ''Cannot remove leaf at index '' @ decimal i @ '' when next_index is '' @ decimal n)"

lemma remove_refused:
  assumes "poseidon_ok E" and at: "tree_at E d n f" and "\<not> (unat i < n \<and> f (unat i) = leaf)"
  shows "remove_leaf E d i leaf = Inl (Halt EXIT_LEAF_MISMATCH (no_leaf (unat i) n))"
proof -
  have "unat i < n \<Longrightarrow> unat i < 2 ^ TREE_DEPTH" using tree_at_bound [OF at] by simp
  then have "map_sum id view (remove_leaf E d i leaf) = Inl (Halt EXIT_LEAF_MISMATCH (no_leaf (unat i) n))"
    using remove_leaf_cases [OF assms(1) tree_at_ok [OF at], of i leaf] assms(2,3)
    by (auto simp: spec_remove_def tree_at_def no_leaf_def)
  then show ?thesis by (cases "remove_leaf E d i leaf") auto
qed

lemma set_at:
  assumes E: "poseidon_ok E" and at: "tree_at E d n f" and i: "unat i < n" and f: "f (unat i) = ZERO"
    and h: "node_ok E leaf"
  obtains d1 where "set_leaf E d i leaf = Inr d1" and "tree_at E d1 n (f(unat i := leaf))"
proof -
  have nx: "unat (hdr_next d) = n" "unat i < 2 ^ TREE_DEPTH" using at i tree_at_bound [OF at] by (simp_all add: tree_at_def)
  have b: "bytes32 leaf" "felt_valid E leaf" using h by (simp_all add: node_ok_def)
  note st = set_leaf_cases [OF E tree_at_ok [OF at] b(1), of i]
  have "map_sum id view (set_leaf E d i leaf) = Inr (spec_put E (unat i) leaf (view d))"
    using st at i f b nx by (simp add: spec_set_def tree_at_def)
  then obtain d1 where "set_leaf E d i leaf = Inr d1" "view d1 = (spec_put E (unat i) leaf (view d))\<lparr>tv_next := n\<rparr>"
    using map_sum_view put_same_next [of E _ leaf "view d"] nx by (metis view_sel(1))
  with st show ?thesis using spec_put_at [OF at] that by blast
qed

section \<open>Runs of inserts and removals\<close>

lemma insert_many_at:
  assumes E: "poseidon_ok E" and leaves: "\<And>i. i < n \<Longrightarrow> node_ok E (g i)"
  shows "n \<le> 2 ^ TREE_DEPTH \<Longrightarrow> tree_at E d 0 (\<lambda>_. ZERO) \<Longrightarrow>
    \<exists>d1. rfold (\<lambda>d i. insert_leaf E d (g i)) d [0..<n] = Inr d1 \<and> tree_at E d1 n (\<lambda>i. if i < n then g i else ZERO)"
  using leaves
proof (induction n)
  case 0
  then show ?case by simp
next
  case (Suc n)
  obtain d1 where d1: "rfold (\<lambda>d i. insert_leaf E d (g i)) d [0..<n] = Inr d1"
    and at: "tree_at E d1 n (\<lambda>i. if i < n then g i else ZERO)"
    using Suc by auto
  have n: "n < 2 ^ TREE_DEPTH" and h: "node_ok E (g n)" using Suc.prems by auto
  obtain d2 where "insert_leaf E d1 (g n) = Inr d2" and at2: "tree_at E d2 (Suc n) ((\<lambda>i. if i < n then g i else ZERO)(n := g n))"
    by (rule insert_at [OF E at n h])
  moreover have "(\<lambda>i. if i < n then g i else ZERO)(n := g n) = (\<lambda>i. if i < Suc n then g i else ZERO)" by auto
  ultimately show ?case using d1 by (simp add: rfold_append)
qed

text \<open>Removing every leaf, the newest first.\<close>

lemma remove_many_at:
  assumes E: "poseidon_ok E" and N: "N \<le> 2 ^ TREE_DEPTH"
  shows "n \<le> N \<Longrightarrow> tree_at E d N (\<lambda>i. if i < n then g i else ZERO) \<Longrightarrow>
    \<exists>d1. rfold (\<lambda>d i. remove_leaf E d (word_of_nat i) (g i)) d (rev [0..<n]) = Inr d1 \<and> tree_at E d1 N (\<lambda>_. ZERO)"
proof (induction n arbitrary: d)
  case 0
  then show ?case by simp
next
  case (Suc n)
  have u: "unat (word_of_nat n :: u64) = n" using Suc.prems(1) N by (simp add: unat_of_nat TREE_DEPTH_def)
  obtain d1 where d1: "remove_leaf E d (word_of_nat n) (g n) = Inr d1"
    and at: "tree_at E d1 N ((\<lambda>i. if i < Suc n then g i else ZERO)(n := ZERO))"
    using remove_at [OF E Suc.prems(2), of "word_of_nat n" "g n"] Suc.prems(1) by (auto simp: u)
  have "(\<lambda>i. if i < Suc n then g i else ZERO)(n := ZERO) = (\<lambda>i. if i < n then g i else ZERO)" by auto
  with at obtain d2 where "rfold (\<lambda>d i. remove_leaf E d (word_of_nat i) (g i)) d1 (rev [0..<n]) = Inr d2"
    "tree_at E d2 N (\<lambda>_. ZERO)"
    using Suc.IH [of d1] Suc.prems(1) by auto
  then show ?case using d1 by simp
qed

section \<open>The tree built in one pass\<close>

text \<open>A layer's nodes hashed in pairs, up to the root.\<close>

fun hash_layer :: "external \<Rightarrow> bytes list \<Rightarrow> bytes list result" where
  "hash_layer E (a # b # layer) = rbind (hash_pair E a b) (\<lambda>h. rbind (hash_layer E layer) (\<lambda>hs. Inr (h # hs)))"
| "hash_layer E [] = Inr []"
| "hash_layer E [a] = Inl out_of_range"

fun hash_layers :: "external \<Rightarrow> nat \<Rightarrow> bytes list \<Rightarrow> bytes list result" where
  "hash_layers E 0 layer = Inr layer"
| "hash_layers E (Suc fuel) layer =
     (if 1 < length layer then rbind (hash_layer E layer) (hash_layers E fuel) else Inr layer)"

lemma hash_layer_up:
  assumes "\<And>j. j < 2 * n \<Longrightarrow> felt_valid E (merkle_node E f k j)"
  shows "hash_layer E (map (merkle_node E f k) [0..<2 * n]) = Inr (map (merkle_node E f (Suc k)) [0..<n])"
proof -
  have "hash_layer E (map (merkle_node E f k) [2 * m..<2 * m + 2 * n]) = Inr (map (merkle_node E f (Suc k)) [m..<m + n])"
    if "\<And>j. j < 2 * m + 2 * n \<Longrightarrow> felt_valid E (merkle_node E f k j)" for m
    using that
  proof (induction n arbitrary: m)
    case 0
    then show ?case by simp
  next
    case (Suc n)
    have "[2 * m..<2 * m + 2 * Suc n] = 2 * m # (2 * m + 1) # [2 * Suc m..<2 * Suc m + 2 * n]"
      by (simp add: upt_rec)
    moreover have "[m..<m + Suc n] = m # [Suc m..<Suc m + n]" by (simp add: upt_rec)
    moreover have "hash_layer E (map (merkle_node E f k) [2 * Suc m..<2 * Suc m + 2 * n]) =
        Inr (map (merkle_node E f (Suc k)) [Suc m..<Suc m + n])"
      using Suc.prems by (intro Suc.IH) simp
    ultimately show ?case using Suc.prems by (simp add: hash_pair_ok)
  qed
  from this [of 0] assms show ?thesis by simp
qed

lemma hash_layers_root:
  assumes E: "poseidon_ok E" and leaves: "\<And>i. felt_valid E (f i)"
  shows "hash_layers E m (map (merkle_node E f k) [0..<2 ^ m]) = Inr [merkle_node E f (k + m) 0]"
proof (induction m arbitrary: k)
  case 0
  then show ?case by simp
next
  case (Suc m)
  have "felt_valid E (merkle_node E f k j)" for j
    using leaves poseidon_compress2 [OF E] by (cases k) (simp_all add: node_ok_def)
  then have "hash_layer E (map (merkle_node E f k) [0..<2 ^ Suc m]) = Inr (map (merkle_node E f (Suc k)) [0..<2 ^ m])"
    using hash_layer_up [of "2 ^ m" E f k] by simp
  moreover have "1 < (2::nat) ^ Suc m" by (rule one_less_power) simp_all
  ultimately show ?case using Suc.IH [of "Suc k"] by (simp del: power_Suc merkle_node.simps)
qed

section \<open>Which nodes are in the map\<close>

definition stored :: "bytes \<Rightarrow> (nat \<times> nat) set" where
  "stored nodes = {(l, j). in_tree l j \<and> sparse_node nodes l j \<noteq> None}"

text \<open>The ancestors of node \<open>(l, i)\<close>, itself included.\<close>

definition ancestors :: "nat \<Rightarrow> nat \<Rightarrow> (nat \<times> nat) set" where
  "ancestors l i = {(m, i div 2 ^ (l - m)) | m. m \<le> l}"

lemma ancestors_Suc: "ancestors (Suc l) i = insert (Suc l, i) (ancestors l (i div 2))"
  by (force simp: ancestors_def le_Suc_eq Suc_diff_le div_mult2_eq)

lemma write_stored:
  assumes "sparse_wf nodes" and "in_tree l i" and "bytes32 h" and "write_sparse_node nodes l i h = Inr nodes1"
  shows "sparse_wf nodes1" and "stored nodes1 = insert (l, i) (stored nodes)"
  using sparse_map.write_wf [OF assms] sparse_map.write_node [OF assms] assms(2)
  by (auto simp: stored_def split: if_splits)

lemma update_path_stored:
  assumes "poseidon_ok E"
  shows "sparse_wf nodes \<Longrightarrow> in_tree l i \<Longrightarrow> bytes32 h \<Longrightarrow> update_path E cached l nodes h i = Inr (nodes1, root) \<Longrightarrow>
    write_sparse_node nodes1 0 0 root = Inr nodes2 \<Longrightarrow>
    bytes32 root \<and> sparse_wf nodes2 \<and> stored nodes2 = stored nodes \<union> ancestors l i"
proof (induction l arbitrary: nodes h i)
  case 0
  then have "i = 0" by (simp add: in_tree_def)
  with 0 write_stored [of nodes 0 0 h nodes2] show ?case by (auto simp: ancestors_def)
next
  case (Suc l)
  from Suc.prems(4) obtain n l' r' where w: "write_sparse_node nodes (Suc l) i h = Inr n"
    and up: "update_path E cached l n (compress2 E l' r') (i div 2) = Inr (nodes1, root)"
    by (cases "i mod 2 = 0") (auto simp: rbind_Inr_iff hash_pair_Inr_iff Let_def)
  have "bytes32 (compress2 E l' r')" using poseidon_compress2 [OF assms] by (simp add: node_ok_def)
  with Suc.IH [OF _ in_tree_parent [OF Suc.prems(2)] _ up Suc.prems(5)] write_stored [OF Suc.prems(1-3) w]
  show ?case by (auto simp: ancestors_Suc)
qed

abbreviation shard_nodes :: "bytes \<Rightarrow> (nat \<times> nat) set" where
  "shard_nodes d \<equiv> stored (drop OFFSET_TREE_DATA d)"

lemma insert_stored:
  assumes E: "poseidon_ok E" and at: "tree_at E d n f" and n: "n < 2 ^ TREE_DEPTH" and h: "node_ok E leaf"
    and ins: "insert_leaf E d leaf = Inr d1"
  shows "shard_nodes d1 = shard_nodes d \<union> ancestors TREE_DEPTH n"
proof -
  have hd: "header_ok d" and wf: "sparse_wf (drop OFFSET_TREE_DATA d)" and nx: "unat (hdr_next d) = n"
    using at by (auto simp: tree_at_def tree_ok_def nodes_ok_def)
  have u: "as_usize (hdr_next d) = n" using nx n by (simp add: as_usize_small)
  obtain n1 root n2 header where
    up: "update_path E DEFAULT_HASHES TREE_DEPTH (drop OFFSET_TREE_DATA d) leaf n = Inr (n1, root)"
    and w: "write_sparse_node n1 0 0 root = Inr n2"
    and hist: "push_root_history (take OFFSET_TREE_DATA d) root = Inr header"
    and d1: "write_slice OFFSET_NEXT_INDEX (u64_le (hdr_next d + 1)) (header @ n2) = Inr d1"
    using ins
    by (simp add: insert_leaf_def tree_ok_parts [OF hd] update_leaf_def u compute_root_after_update_def rbind_Inr_iff Let_def)
      (auto simp: rbind_Inr_iff)
  have "in_tree TREE_DEPTH n" using n by (simp add: in_tree_leaf)
  with update_path_stored [OF E wf _ _ up w] h have r: "bytes32 root"
    and st: "stored n2 = shard_nodes d \<union> ancestors TREE_DEPTH n"
    by (simp_all add: node_ok_def)
  have "length (take OFFSET_TREE_DATA d) = OFFSET_TREE_DATA" using hd by (simp add: header_ok_def)
  from push_root_history_correct [OF this r] hist have len: "length header = OFFSET_TREE_DATA" by (metis sum.inject(2))
  then have "drop OFFSET_TREE_DATA d1 = n2"
    using d1 write_next_index_correct [of "header @ n2" "hdr_next d + 1"] by (auto simp: sum.inject(2))
  with st show ?thesis by simp
qed

lemma insert_many_stored:
  assumes E: "poseidon_ok E" and at: "tree_at E d 0 (\<lambda>_. ZERO)" and leaves: "\<And>i. i < n \<Longrightarrow> node_ok E (g i)"
  shows "n \<le> 2 ^ TREE_DEPTH \<Longrightarrow> rfold (\<lambda>d i. insert_leaf E d (g i)) d [0..<n] = Inr d1 \<Longrightarrow>
    shard_nodes d1 = shard_nodes d \<union> (\<Union>i < n. ancestors TREE_DEPTH i)"
  using leaves
proof (induction n arbitrary: d1)
  case 0
  then show ?case by simp
next
  case (Suc n)
  from Suc.prems(2) obtain d0 where d0: "rfold (\<lambda>d i. insert_leaf E d (g i)) d [0..<n] = Inr d0"
    and ins: "insert_leaf E d0 (g n) = Inr d1"
    by (auto simp: rfold_append rbind_Inr_iff)
  have le: "n \<le> 2 ^ TREE_DEPTH" and lt: "n < 2 ^ TREE_DEPTH" and h: "\<And>i. i < n \<Longrightarrow> node_ok E (g i)" "node_ok E (g n)"
    using Suc.prems by auto
  have "tree_at E d0 n (\<lambda>i. if i < n then g i else ZERO)"
    using insert_many_at [OF E h(1) le at, of "\<lambda>i. i"] d0 by auto
  then have "shard_nodes d1 = shard_nodes d0 \<union> ancestors TREE_DEPTH n"
    using insert_stored [OF E _ lt h(2) ins] by blast
  moreover have "shard_nodes d0 = shard_nodes d \<union> (\<Union>i < n. ancestors TREE_DEPTH i)"
    by (rule Suc.IH [OF le d0 h(1)])
  ultimately show ?case by (auto simp: less_Suc_eq)
qed

text \<open>Every node of the tree is the ancestor of a leaf.\<close>

lemma node_has_leaf:
  assumes "in_tree l j" shows "\<exists>i < 2 ^ TREE_DEPTH. (l, j) \<in> ancestors TREE_DEPTH i"
proof -
  have l: "l \<le> TREE_DEPTH" and j: "j < 2 ^ l" using assms by (simp_all add: in_tree_def)
  have "j * 2 ^ (TREE_DEPTH - l) < 2 ^ l * 2 ^ (TREE_DEPTH - l)" using j by simp
  also have "\<dots> = 2 ^ TREE_DEPTH" using l by (simp flip: power_add)
  finally have "j * 2 ^ (TREE_DEPTH - l) < 2 ^ TREE_DEPTH" .
  moreover have "(l, j) \<in> ancestors TREE_DEPTH (j * 2 ^ (TREE_DEPTH - l))"
    using l by (auto simp: ancestors_def)
  ultimately show ?thesis by blast
qed

lemma node_offset_onto: "k < 2 ^ Suc D - 1 \<Longrightarrow> \<exists>l \<le> D. \<exists>j < 2 ^ l. node_offset l j = k"
proof (induction D)
  case 0
  then show ?case by (simp add: node_offset_eq)
next
  case (Suc D)
  show ?case
  proof (cases "k < 2 ^ Suc D - 1")
    case True
    with Suc.IH show ?thesis by (meson le_SucI)
  next
    case False
    then have "node_offset (Suc D) (k - (2 ^ Suc D - 1)) = k" "k - (2 ^ Suc D - 1) < 2 ^ Suc D"
      using Suc.prems by (auto simp: node_offset_eq)
    then show ?thesis by blast
  qed
qed

text \<open>A map with every node has \<open>TREE_NODES\<close> entries.\<close>

lemma stored_all_length:
  assumes wf: "sparse_wf nodes" and all: "\<And>l j. in_tree l j \<Longrightarrow> (l, j) \<in> stored nodes"
  shows "length nodes = 2 + TREE_NODES * SPARSE_ENTRY_LEN"
  using wf
proof (cases rule: sparse_wf_cases)
  case empty
  then show ?thesis using all [of 0 0] by (simp add: stored_def in_tree_def)
next
  case (enc es)
  have "k \<in> unat ` fst ` set es" if "k < TREE_NODES" for k
  proof -
    have "\<exists>l j. in_tree l j \<and> node_offset l j = k"
      using that node_offset_onto [of k TREE_DEPTH] by (auto simp: TREE_NODES_def push_bit_eq_mult in_tree_def)
    then obtain l j where lj: "in_tree l j" "node_offset l j = k" by blast
    then have "sparse_node nodes l j \<noteq> None" using all [OF lj(1)] by (simp add: stored_def)
    then have "offset16 l j \<in> fst ` set es" by (simp add: sparse_node_def enc(3) map_of_eq_None_iff)
    with unat_offset16 [OF lj(1)] lj(2) show ?thesis by (metis image_eqI)
  qed
  then have "{..<TREE_NODES} \<subseteq> unat ` fst ` set es" by auto
  then have "card {..<TREE_NODES} \<le> card (unat ` fst ` set es)" by (intro card_mono) auto
  also have "\<dots> \<le> card (set es)" by (metis card_image_le finite_imageI finite_set le_trans)
  also have "\<dots> \<le> length es" by (rule card_length)
  finally have "length es = TREE_NODES" using entries_ok_length [OF enc(1)] by simp
  then show ?thesis by (simp add: enc(2) length_enc_sparse [OF enc(1)] SPARSE_ENTRY_LEN_def)
qed

text \<open>Filling a fresh tree.\<close>

lemma full_tree:
  assumes E: "poseidon_ok E" and leaves: "\<And>i. i < 2 ^ TREE_DEPTH \<Longrightarrow> node_ok E (g i)" and at: "tree_at E d 0 (\<lambda>_. ZERO)"
    and run: "rfold (\<lambda>d i. insert_leaf E d (g i)) d [0..<2 ^ TREE_DEPTH] = Inr d1"
  shows "length d1 = TREE_SHARD_MAX_BYTES"
proof -
  have ok: "tree_ok E d1"
    using insert_many_at [OF E leaves order_refl at, of "\<lambda>i. i"] run by (auto simp: tree_at_def)
  have "(l, j) \<in> shard_nodes d1" if "in_tree l j" for l j
    using insert_many_stored [OF E at leaves order_refl run] node_has_leaf [OF that] by blast
  then have "length (drop OFFSET_TREE_DATA d1) = 2 + TREE_NODES * SPARSE_ENTRY_LEN"
    using ok by (intro stored_all_length) (simp_all add: tree_ok_def nodes_ok_def)
  then show ?thesis using ok by (simp add: TREE_SHARD_MAX_BYTES_def tree_ok_def header_ok_def)
qed

lemma create_at:
  assumes "poseidon_ok E" and "unat n \<le> 2 ^ TREE_DEPTH"
  obtains d where "create_main_account_data_with_state n (DEFAULT_HASHES ! 0) DEFAULT_HASHES = Inr d"
    and "tree_at E d (unat n) (\<lambda>_. ZERO)"
  by (rule create_empty_tree [OF assms]) (rule that, assumption, simp add: tree_at_def)

text \<open>The root of the empty tree is the top of the pinned table.\<close>

lemma empty_root:
  assumes "poseidon_ok E" shows "merkle_root E (\<lambda>_. ZERO) = DEFAULT_HASHES ! 0"
proof -
  obtain d where "tree_ok E d" "hdr_root d = DEFAULT_HASHES ! 0" "\<And>i. tree_leaf d i = ZERO"
    using initialize_tree_correct [OF assms] by metis
  then show ?thesis using tree_ok_root [of E d] merkle_root_cong [of "tree_leaf d" "\<lambda>_. ZERO" E] by simp
qed

end
