(* ===== verification/TreeTests.thy ===== *)
theory TreeTests
  imports TestHarness TreeContents
begin

text \<open>
  The unit tests of the merkle program (\<open>methods/guest/src/merkle_tree.rs\<close>, \<open>mod tests\<close>): the fixtures and
  the tests, by their names, as conditions on the model. The tests that compare roots need the compared
  trees not to collide under the hash, which \<open>tree_test_values\<close> states. The test of \<open>hash.rs\<close> on the pinned
  table is not in the suite: that the table is right for the hash is the hypothesis \<open>default_ladder\<close>, and
  \<open>ladder_test\<close> shows that the test says exactly that.
\<close>

section \<open>Fixtures\<close>

definition leaf_for :: "u64 \<Rightarrow> bytes" where
  "leaf_for i = (splice 0 (u64_le i) (replicate 32 0))[8 := 0xAB]"

definition initialized :: "bytes result" where
  "initialized = initialize_tree []"

definition insert_n_leaves :: "external \<Rightarrow> nat \<Rightarrow> bytes result" where
  "insert_n_leaves E count =
     rbind initialized (\<lambda>data. rfold (\<lambda>data i. insert_leaf E data (leaf_for (word_of_nat i))) data [0..<count])"

definition merkle_program_id :: bytes where "merkle_program_id = replicate 32 7"

definition merkle_plan_input :: "account_meta list \<Rightarrow> plan_input" where
  "merkle_plan_input metas =
     \<lparr>self_account_id = merkle_program_id, caller_account_id = None, accounts = metas, instruction_data = []\<rparr>"

definition tree_main_fixture :: "bool \<Rightarrow> account_meta" where
  "tree_main_fixture auth = account_meta_new (replicate 32 1) auth merkle_program_id"

text \<open>\<open>&data[OFFSET_TREE_DATA..]\<close>.\<close>

definition tree_nodes :: "bytes \<Rightarrow> bytes result" where
  "tree_nodes data = rbind (check (OFFSET_TREE_DATA \<le> length data) out_of_range) (\<lambda>_. Inr (drop OFFSET_TREE_DATA data))"

definition all_leaves :: nat where "all_leaves = unat TREE_LEAVES"

section \<open>Plan\<close>

definition test_plan_emits_one_effect_on_tree_shard :: bool where
  "test_plan_emits_one_effect_on_tree_shard \<longleftrightarrow>
     plans (merkle_plan (merkle_plan_input [tree_main_fixture True]) (MInsert (replicate 32 5)))
       [\<lparr>effect_selector = (replicate 32 1, merkle_program_id), effect_data = EInsert (replicate 32 5)\<rparr>] []"

definition test_plan_rejects_unauthorized_tree :: bool where
  "test_plan_rejects_unauthorized_tree \<longleftrightarrow>
     should_panic ''tree account must be authorized''
       (merkle_plan (merkle_plan_input [tree_main_fixture False]) MInitialize)"

definition test_plan_rejects_foreign_shard :: bool where
  "test_plan_rejects_foreign_shard \<longleftrightarrow>
     should_panic ''merkle program's own shard''
       (merkle_plan (merkle_plan_input [account_meta_new (replicate 32 1) True (replicate 32 9)]) MInitialize)"

definition test_plan_rejects_extra_accounts :: bool where
  "test_plan_rejects_extra_accounts \<longleftrightarrow>
     should_panic ''exactly one account''
       (merkle_plan (merkle_plan_input [tree_main_fixture True, tree_main_fixture True]) MInitialize)"

text \<open>\<open>apply(effect, &data).unwrap()\<close>.\<close>

definition apply_unwrap :: "external \<Rightarrow> merkle_effect \<Rightarrow> bytes \<Rightarrow> bytes result" where
  "apply_unwrap E e data =
     rbind (merkle_apply E e data) (\<lambda>r. case r of
        None \<Rightarrow> Inl (Panic ''called `Option::unwrap()` on a `None` value'') | Some d \<Rightarrow> Inr d)"

definition test_apply_dispatches_every_effect :: "external \<Rightarrow> bool" where
  "test_apply_dispatches_every_effect E \<longleftrightarrow> holds (
     rbind (compute_default_hashes TREE_DEPTH) (\<lambda>defaults.
     rbind (apply_unwrap E EInitialize []) (\<lambda>data0.
     rbind (apply_unwrap E (EInsert (replicate 32 1)) data0) (\<lambda>data1.
     rbind (read_next_index data1) (\<lambda>next1.
     rbind (apply_unwrap E (ERemove 0 (replicate 32 1)) data1) (\<lambda>data2.
     rbind (read_root data2) (\<lambda>root2.
     rbind (apply_unwrap E (ESet 0 (replicate 32 2)) data2) (\<lambda>data3.
     rbind (read_next_index data3) (\<lambda>next3.
     rbind (read_root data3) (\<lambda>root3.
     Inr (next1 = 1 \<and> root2 = defaults ! 0 \<and> next3 = 1 \<and> root3 \<noteq> defaults ! 0)))))))))))"

section \<open>Initialize\<close>

definition test_initialize_rejects_live_tree :: bool where
  "test_initialize_rejects_live_tree \<longleftrightarrow>
     should_panic ''tree already initialized'' (rbind initialized initialize_tree)"

definition test_initialize_empty_tree :: bool where
  "test_initialize_empty_tree \<longleftrightarrow> holds (
     rbind initialized (\<lambda>data.
     rbind (index_at data OFFSET_DEPTH) (\<lambda>depth.
     rbind (read_next_index data) (\<lambda>next_index.
     rbind (read_root data) (\<lambda>root.
     Inr (depth = word_of_nat TREE_DEPTH \<and> next_index = 0 \<and> root \<noteq> ZERO \<and> length data = OFFSET_TREE_DATA))))))"

definition test_initialize_cached_defaults_correct :: bool where
  "test_initialize_cached_defaults_correct \<longleftrightarrow> holds (
     rbind initialized (\<lambda>data.
     rbind (extract_cached_nodes data) (\<lambda>cached.
     rbind (compute_default_hashes TREE_DEPTH) (\<lambda>defaults. Inr (cached = defaults)))))"

definition test_initialize_root_matches_cached_default :: bool where
  "test_initialize_root_matches_cached_default \<longleftrightarrow> holds (
     rbind initialized (\<lambda>data.
     rbind (read_slice OFFSET_CACHED_NODES 32 data) (\<lambda>cached_level_0.
     rbind (read_root data) (\<lambda>root. Inr (root = cached_level_0)))))"

definition test_insert_into_uninitialized_shard_panics :: "external \<Rightarrow> bool" where
  "test_insert_into_uninitialized_shard_panics E \<longleftrightarrow>
     should_panic ''tree not initialized'' (insert_leaf E [] (replicate 32 1))"

section \<open>Insert\<close>

definition test_insert_first_leaf :: "external \<Rightarrow> bool" where
  "test_insert_first_leaf E \<longleftrightarrow> holds (
     rbind initialized (\<lambda>pre.
     rbind (insert_leaf E pre (replicate 32 42)) (\<lambda>post.
     rbind (read_next_index post) (\<lambda>next_index.
     rbind (read_root post) (\<lambda>post_root.
     rbind (read_root pre) (\<lambda>pre_root.
     rbind (read_slice OFFSET_ROOT_HISTORY 32 post) (\<lambda>newest.
     Inr (next_index = 1 \<and> post_root \<noteq> pre_root \<and> OFFSET_TREE_DATA < length post \<and> newest = pre_root))))))))"

definition test_insert_takes_the_index_from_the_tree :: "external \<Rightarrow> bool" where
  "test_insert_takes_the_index_from_the_tree E \<longleftrightarrow> holds (
     rbind initialized (\<lambda>data.
     rbind (insert_leaf E data (replicate 32 1)) (\<lambda>one.
     rbind (insert_leaf E one (replicate 32 2)) (\<lambda>two.
     rbind (tree_nodes two) (\<lambda>nodes.
     rbind (compute_default_hashes TREE_DEPTH) (\<lambda>defaults.
     rbind (index_at defaults TREE_DEPTH) (\<lambda>default.
     rbind (read_sparse_node nodes TREE_DEPTH 0 default) (\<lambda>leaf0.
     rbind (read_sparse_node nodes TREE_DEPTH 1 default) (\<lambda>leaf1.
     Inr (leaf0 = replicate 32 1 \<and> leaf1 = replicate 32 2))))))))))"

definition test_insert_rejects_non_field_leaf :: "external \<Rightarrow> bool" where
  "test_insert_rejects_non_field_leaf E \<longleftrightarrow>
     should_panic ''not a valid BN254 field element''
       (rbind initialized (\<lambda>data. insert_leaf E data (replicate 32 0xFF)))"

definition test_insert_rejects_foreign_depth :: "external \<Rightarrow> bool" where
  "test_insert_rejects_foreign_depth E \<longleftrightarrow>
     should_panic ''different depth''
       (rbind initialized (\<lambda>data.
        rbind (index_at data OFFSET_DEPTH) (\<lambda>_.
        insert_leaf E (data[OFFSET_DEPTH := word_of_nat (TREE_DEPTH + 1)]) (replicate 32 1))))"

definition test_insert_two_leaves_sequential :: "external \<Rightarrow> bool" where
  "test_insert_two_leaves_sequential E \<longleftrightarrow> holds (
     rbind initialized (\<lambda>data.
     rbind (insert_leaf E data (replicate 32 1)) (\<lambda>one.
     rbind (insert_leaf E one (replicate 32 2)) (\<lambda>two.
     rbind (read_next_index two) (\<lambda>next_index.
     rbind (read_root two) (\<lambda>root2.
     rbind (read_root one) (\<lambda>root1. Inr (next_index = 2 \<and> root2 \<noteq> root1))))))))"

text \<open>The loop over layers runs \<open>TREE_DEPTH\<close> times on \<open>TREE_LEAVES\<close> leaves and leaves one node.\<close>

definition test_root_matches_reference_tree :: "external \<Rightarrow> bool" where
  "test_root_matches_reference_tree E \<longleftrightarrow> holds (
     rbind (insert_n_leaves E 5) (\<lambda>data.
     rbind (compute_default_hashes TREE_DEPTH) (\<lambda>defaults.
     rbind (rmap (\<lambda>i. if i < 5 then Inr (leaf_for (word_of_nat i)) else index_at defaults TREE_DEPTH) [0..<all_leaves])
       (\<lambda>leaves.
     rbind (hash_layers E TREE_DEPTH leaves) (\<lambda>layer.
     rbind (read_root data) (\<lambda>root.
     rbind (tree_nodes data) (\<lambda>nodes.
     rbind (index_at defaults 0) (\<lambda>default.
     rbind (read_sparse_node nodes 0 0 default) (\<lambda>node.
     Inr (length layer = 1 \<and> root = layer ! 0 \<and> node = layer ! 0))))))))))"

section \<open>Remove and set\<close>

definition test_remove_nonexistent_leaf_panics :: "external \<Rightarrow> bool" where
  "test_remove_nonexistent_leaf_panics E \<longleftrightarrow>
     should_panic ''Cannot remove leaf at index 0 when next_index is 0'' (rbind initialized (\<lambda>data. remove_leaf E data 0 (replicate 32 42)))"

definition test_remove_leaf_updates_root :: "external \<Rightarrow> bool" where
  "test_remove_leaf_updates_root E \<longleftrightarrow> holds (
     rbind initialized (\<lambda>data.
     rbind (insert_leaf E data (replicate 32 42)) (\<lambda>inserted.
     rbind (remove_leaf E inserted 0 (replicate 32 42)) (\<lambda>removed.
     rbind (read_root removed) (\<lambda>r. rbind (read_root inserted) (\<lambda>i. Inr (r \<noteq> i)))))))"

definition test_remove_leaf_restores_original_root :: "external \<Rightarrow> bool" where
  "test_remove_leaf_restores_original_root E \<longleftrightarrow> holds (
     rbind initialized (\<lambda>empty.
     rbind (insert_leaf E empty (replicate 32 42)) (\<lambda>inserted.
     rbind (remove_leaf E inserted 0 (replicate 32 42)) (\<lambda>removed.
     rbind (read_root removed) (\<lambda>r. rbind (read_root empty) (\<lambda>e. Inr (r = e)))))))"

definition test_remove_does_not_change_next_index :: "external \<Rightarrow> bool" where
  "test_remove_does_not_change_next_index E \<longleftrightarrow> holds (
     rbind initialized (\<lambda>data.
     rbind (insert_leaf E data (replicate 32 42)) (\<lambda>inserted.
     rbind (read_next_index inserted) (\<lambda>before.
     rbind (remove_leaf E inserted 0 (replicate 32 42)) (\<lambda>removed.
     rbind (read_next_index removed) (\<lambda>after. Inr (before = 1 \<and> after = 1)))))))"

definition test_remove_refuses_a_leaf_that_is_not_the_named_one :: "external \<Rightarrow> bool" where
  "test_remove_refuses_a_leaf_that_is_not_the_named_one E \<longleftrightarrow>
     should_panic ''leaf at index 0 is not this member's'' (rbind (insert_n_leaves E 2) (\<lambda>two. remove_leaf E two 0 (leaf_for 1)))"

definition test_remove_refuses_an_already_removed_leaf :: "external \<Rightarrow> bool" where
  "test_remove_refuses_an_already_removed_leaf E \<longleftrightarrow>
     should_panic ''is not this member's''
       (rbind (insert_n_leaves E 1) (\<lambda>one.
        rbind (remove_leaf E one 0 (leaf_for 0)) (\<lambda>removed. remove_leaf E removed 0 (leaf_for 0))))"

definition test_remove_second_leaf_of_two :: "external \<Rightarrow> bool" where
  "test_remove_second_leaf_of_two E \<longleftrightarrow> holds (
     rbind (insert_n_leaves E 2) (\<lambda>two.
     rbind (remove_leaf E two 1 (leaf_for 1)) (\<lambda>removed.
     rbind (read_root removed) (\<lambda>r.
     rbind (read_root two) (\<lambda>t.
     rbind (insert_n_leaves E 1) (\<lambda>one.
     rbind (read_root one) (\<lambda>root1. Inr (r \<noteq> t \<and> r = root1))))))))"

definition test_set_rejects_occupied_slot :: "external \<Rightarrow> bool" where
  "test_set_rejects_occupied_slot E \<longleftrightarrow>
     should_panic ''Can only set at an empty (zeroed) index''
       (rbind (insert_n_leaves E 1) (\<lambda>one. set_leaf E one 0 (replicate 32 3)))"

definition test_set_rejects_index_past_next_index :: "external \<Rightarrow> bool" where
  "test_set_rejects_index_past_next_index E \<longleftrightarrow>
     should_panic ''Can only set at index < next_index''
       (rbind initialized (\<lambda>data. set_leaf E data 0 (replicate 32 3)))"

definition test_set_after_remove_matches_insert :: "external \<Rightarrow> bool" where
  "test_set_after_remove_matches_insert E \<longleftrightarrow> holds (
     rbind initialized (\<lambda>data.
     rbind (insert_leaf E data (replicate 32 3)) (\<lambda>inserted.
     rbind (remove_leaf E inserted 0 (replicate 32 3)) (\<lambda>removed.
     rbind (set_leaf E removed 0 (replicate 32 3)) (\<lambda>reset.
     rbind (read_root reset) (\<lambda>r.
     rbind (read_root inserted) (\<lambda>i.
     rbind (read_next_index reset) (\<lambda>next_index. Inr (r = i \<and> next_index = 1)))))))))"

section \<open>History, addressing, capacity\<close>

definition test_same_insertions_produce_same_root :: "external \<Rightarrow> bool" where
  "test_same_insertions_produce_same_root E \<longleftrightarrow> holds (
     rbind (rbind (insert_n_leaves E 3) read_root) (\<lambda>a.
     rbind (rbind (insert_n_leaves E 3) read_root) (\<lambda>b. Inr (a = b))))"

definition test_root_history_keeps_last_four_roots :: "external \<Rightarrow> bool" where
  "test_root_history_keeps_last_four_roots E \<longleftrightarrow> holds (
     rbind (rmap (\<lambda>n. rbind (insert_n_leaves E n) read_root) [0..<6]) (\<lambda>roots.
     rbind (insert_n_leaves E 5) (\<lambda>data.
     rbind (rmap (\<lambda>slot. read_slice (OFFSET_ROOT_HISTORY + slot * 32) 32 data) [0..<ROOT_HISTORY_SIZE]) (\<lambda>history.
     rbind (rmap (\<lambda>slot. index_at roots (4 - slot)) [0..<ROOT_HISTORY_SIZE]) (\<lambda>expected.
     Inr (history = expected))))))"

definition test_node_offset :: bool where
  "test_node_offset \<longleftrightarrow>
     node_offset 0 0 = 0 \<and> node_offset 1 0 = 1 \<and> node_offset 1 1 = 2 \<and> node_offset 2 0 = 3 \<and> node_offset 2 3 = 6 \<and>
     node_offset TREE_DEPTH 0 = push_bit TREE_DEPTH 1 - 1 \<and>
     node_offset TREE_DEPTH (all_leaves - 1) = push_bit (TREE_DEPTH + 1) 1 - 2"

definition full_tree_fits_in_one_shard :: "external \<Rightarrow> bool" where
  "full_tree_fits_in_one_shard E \<longleftrightarrow> holds (
     rbind (insert_n_leaves E all_leaves) (\<lambda>data.
     rbind (read_next_index data) (\<lambda>next_index.
     Inr (next_index = TREE_LEAVES \<and> length data = TREE_SHARD_MAX_BYTES \<and> length data \<le> SHARD_MAX_BYTES))))"

text \<open>The shard the boundary tests start from: empty, with every leaf but the last one taken.\<close>

definition last_index :: u64 where "last_index = TREE_LEAVES - 1"

definition almost_full :: "bytes list \<Rightarrow> bytes result" where
  "almost_full cached_nodes =
     rbind (index_at cached_nodes 0) (\<lambda>root. create_main_account_data_with_state last_index root cached_nodes)"

definition test_insert_at_last_index :: "external \<Rightarrow> bool" where
  "test_insert_at_last_index E \<longleftrightarrow> holds (
     rbind (compute_default_hashes TREE_DEPTH) (\<lambda>cached_nodes.
     rbind (almost_full cached_nodes) (\<lambda>pre.
     rbind (insert_leaf E pre (replicate 32 1)) (\<lambda>post.
     rbind (read_next_index post) (\<lambda>next_index.
     rbind (read_root post) (\<lambda>root. Inr (next_index = last_index + 1 \<and> root \<noteq> cached_nodes ! 0)))))))"

definition test_insert_and_remove_at_last_index :: "external \<Rightarrow> bool" where
  "test_insert_and_remove_at_last_index E \<longleftrightarrow> holds (
     rbind (compute_default_hashes TREE_DEPTH) (\<lambda>cached_nodes.
     rbind (almost_full cached_nodes) (\<lambda>pre.
     rbind (insert_leaf E pre (replicate 32 1)) (\<lambda>inserted.
     rbind (remove_leaf E inserted last_index (replicate 32 1)) (\<lambda>removed.
     rbind (read_root removed) (\<lambda>r.
     rbind (read_root inserted) (\<lambda>i. Inr (r \<noteq> i \<and> r = cached_nodes ! 0))))))))"

definition test_first_and_last_leaf_give_different_roots :: "external \<Rightarrow> bool" where
  "test_first_and_last_leaf_give_different_roots E \<longleftrightarrow> holds (
     rbind (compute_default_hashes TREE_DEPTH) (\<lambda>cached_nodes.
     rbind initialized (\<lambda>data.
     rbind (insert_leaf E data (replicate 32 1)) (\<lambda>first.
     rbind (almost_full cached_nodes) (\<lambda>pre.
     rbind (insert_leaf E pre (replicate 32 1)) (\<lambda>last_tree.
     rbind (read_root first) (\<lambda>f. rbind (read_root last_tree) (\<lambda>l. Inr (f \<noteq> l)))))))))"

definition test_insert_past_the_last_leaf_is_refused :: "external \<Rightarrow> bool" where
  "test_insert_past_the_last_leaf_is_refused E \<longleftrightarrow>
     should_panic ''tree is full''
       (rbind initialized (\<lambda>empty.
        rbind (insert_leaf E empty (replicate 32 1)) (\<lambda>data.
        rbind (write_slice OFFSET_NEXT_INDEX (u64_le TREE_LEAVES) data) (\<lambda>full. insert_leaf E full (replicate 32 2)))))"

definition test_full_tree_then_remove_all :: "external \<Rightarrow> bool" where
  "test_full_tree_then_remove_all E \<longleftrightarrow> holds (
     rbind (compute_default_hashes TREE_DEPTH) (\<lambda>defaults.
     rbind (insert_n_leaves E all_leaves) (\<lambda>full.
     rbind (read_root full) (\<lambda>full_root.
     rbind (rfold (\<lambda>data i. remove_leaf E data (word_of_nat i) (leaf_for (word_of_nat i))) full (rev [0..<all_leaves]))
       (\<lambda>emptied.
     rbind (read_root emptied) (\<lambda>root.
     rbind (read_next_index emptied) (\<lambda>next_index.
     Inr (full_root \<noteq> defaults ! 0 \<and> root = defaults ! 0 \<and> next_index = TREE_LEAVES))))))))"

section \<open>The pinned table\<close>

definition default_hashes_match_the_ladder :: "external \<Rightarrow> bool" where
  "default_hashes_match_the_ladder E \<longleftrightarrow>
     rfold (\<lambda>expected level. rbind (index_at expected (level + 1)) (\<lambda>child.
         rbind (hash_pair E child child) (\<lambda>h. Inr (expected[level := h]))))
       ((replicate (TREE_DEPTH + 1) (replicate 32 0))[TREE_DEPTH := ZERO]) (rev [0..<TREE_DEPTH]) = Inr DEFAULT_HASHES"

section \<open>The suite\<close>

definition tree_tests :: "external \<Rightarrow> suite" where
  "tree_tests E =
     [(''test_plan_emits_one_effect_on_tree_shard'', test_plan_emits_one_effect_on_tree_shard),
      (''test_plan_rejects_unauthorized_tree'', test_plan_rejects_unauthorized_tree),
      (''test_plan_rejects_foreign_shard'', test_plan_rejects_foreign_shard),
      (''test_plan_rejects_extra_accounts'', test_plan_rejects_extra_accounts),
      (''test_apply_dispatches_every_effect'', test_apply_dispatches_every_effect E),
      (''test_initialize_rejects_live_tree'', test_initialize_rejects_live_tree),
      (''test_initialize_empty_tree'', test_initialize_empty_tree),
      (''test_initialize_cached_defaults_correct'', test_initialize_cached_defaults_correct),
      (''test_initialize_root_matches_cached_default'', test_initialize_root_matches_cached_default),
      (''test_insert_into_uninitialized_shard_panics'', test_insert_into_uninitialized_shard_panics E),
      (''test_insert_first_leaf'', test_insert_first_leaf E),
      (''test_insert_takes_the_index_from_the_tree'', test_insert_takes_the_index_from_the_tree E),
      (''test_insert_rejects_non_field_leaf'', test_insert_rejects_non_field_leaf E),
      (''test_insert_rejects_foreign_depth'', test_insert_rejects_foreign_depth E),
      (''test_insert_two_leaves_sequential'', test_insert_two_leaves_sequential E),
      (''test_root_matches_reference_tree'', test_root_matches_reference_tree E),
      (''test_remove_nonexistent_leaf_panics'', test_remove_nonexistent_leaf_panics E),
      (''test_remove_leaf_updates_root'', test_remove_leaf_updates_root E),
      (''test_remove_leaf_restores_original_root'', test_remove_leaf_restores_original_root E),
      (''test_remove_does_not_change_next_index'', test_remove_does_not_change_next_index E),
      (''test_remove_refuses_a_leaf_that_is_not_the_named_one'', test_remove_refuses_a_leaf_that_is_not_the_named_one E),
      (''test_remove_refuses_an_already_removed_leaf'', test_remove_refuses_an_already_removed_leaf E),
      (''test_remove_second_leaf_of_two'', test_remove_second_leaf_of_two E),
      (''test_set_rejects_occupied_slot'', test_set_rejects_occupied_slot E),
      (''test_set_rejects_index_past_next_index'', test_set_rejects_index_past_next_index E),
      (''test_set_after_remove_matches_insert'', test_set_after_remove_matches_insert E),
      (''test_same_insertions_produce_same_root'', test_same_insertions_produce_same_root E),
      (''test_root_history_keeps_last_four_roots'', test_root_history_keeps_last_four_roots E),
      (''test_node_offset'', test_node_offset),
      (''full_tree_fits_in_one_shard'', full_tree_fits_in_one_shard E),
      (''test_insert_at_last_index'', test_insert_at_last_index E),
      (''test_insert_and_remove_at_last_index'', test_insert_and_remove_at_last_index E),
      (''test_first_and_last_leaf_give_different_roots'', test_first_and_last_leaf_give_different_roots E),
      (''test_insert_past_the_last_leaf_is_refused'', test_insert_past_the_last_leaf_is_refused E),
      (''test_full_tree_then_remove_all'', test_full_tree_then_remove_all E)]"

section \<open>What the tests' values need\<close>

abbreviation bytes_of :: "u8 \<Rightarrow> bytes" where
  "bytes_of b \<equiv> replicate 32 b"

definition one_leaf :: "nat \<Rightarrow> bytes \<Rightarrow> nat \<Rightarrow> bytes" where
  "one_leaf i h = (\<lambda>_. ZERO)(i := h)"

definition first_leaves :: "nat \<Rightarrow> nat \<Rightarrow> bytes" where
  "first_leaves n = (\<lambda>i. if i < n then leaf_for (word_of_nat i) else ZERO)"

text \<open>The trees whose roots the tests compare with \<open>assert_ne!\<close>.\<close>

definition compared_trees :: "((nat \<Rightarrow> bytes) \<times> (nat \<Rightarrow> bytes)) list" where
  "compared_trees =
     [(one_leaf 0 (bytes_of 2), \<lambda>_. ZERO), (one_leaf 0 (bytes_of 42), \<lambda>_. ZERO),
      ((one_leaf 0 (bytes_of 1))(1 := bytes_of 2), one_leaf 0 (bytes_of 1)), (first_leaves 2, first_leaves 1),
      (one_leaf 511 (bytes_of 1), \<lambda>_. ZERO), (one_leaf 0 (bytes_of 1), one_leaf 511 (bytes_of 1)),
      (first_leaves 512, \<lambda>_. ZERO)]"

definition tree_test_values :: "external \<Rightarrow> bool" where
  "tree_test_values E \<longleftrightarrow>
     list_all (\<lambda>i. felt_valid E (leaf_for (word_of_nat i))) [0..<512] \<and>
     list_all (\<lambda>b. felt_valid E (bytes_of b)) [1, 2, 3, 42] \<and> \<not> felt_valid E (bytes_of 0xFF) \<and>
     list_all (\<lambda>(f, g). merkle_root E f \<noteq> merkle_root E g) compared_trees"

section \<open>The trees the tests build\<close>

lemma depth_leaves: "2 ^ TREE_DEPTH = (512 :: nat)" "all_leaves = 512" "unat last_index = 511"
  by (simp_all add: TREE_DEPTH_def all_leaves_def TREE_LEAVES_def last_index_def)

lemma tree_leaves: "TREE_LEAVES = 512"
  by (simp add: TREE_LEAVES_def TREE_DEPTH_def)

lemma length_leaf_for [simp]: "length (leaf_for i) = 32"
  by (simp add: leaf_for_def length_splice)

lemma test_leaves:
  assumes "tree_test_values E"
  shows "node_ok E (bytes_of 1)" "node_ok E (bytes_of 2)" "node_ok E (bytes_of 3)" "node_ok E (bytes_of 42)"
    and "i < 512 \<Longrightarrow> node_ok E (leaf_for (word_of_nat i))"
  using assms by (simp_all add: tree_test_values_def node_ok_def list_all_iff)

lemma initialized_at:
  assumes "poseidon_ok E"
  obtains d where "initialized = Inr d" and "tree_at E d 0 (\<lambda>_. ZERO)" and "length d = 489"
    and "hdr_history d = replicate 4 ZERO"
  using initialize_at [OF assms] unfolding initialized_def offset_tree_data ROOT_HISTORY_SIZE_def by blast

lemma insert_n_at:
  assumes E: "poseidon_ok E" and v: "tree_test_values E" and n: "n \<le> 512"
  obtains d where "insert_n_leaves E n = Inr d" and "tree_at E d n (first_leaves n)"
proof -
  obtain d0 where d0: "initialized = Inr d0" "tree_at E d0 0 (\<lambda>_. ZERO)" by (rule initialized_at [OF E])
  have "node_ok E (leaf_for (word_of_nat i))" if "i < n" for i using test_leaves(5) [OF v] that n by simp
  then obtain d where "rfold (\<lambda>d i. insert_leaf E d (leaf_for (word_of_nat i))) d0 [0..<n] = Inr d" "tree_at E d n (first_leaves n)"
    using insert_many_at [OF E, where g = "\<lambda>i. leaf_for (word_of_nat i)" and n = n and d = d0] n d0(2)
    by (auto simp: depth_leaves first_leaves_def)
  moreover from this(1) have "insert_n_leaves E n = Inr d" unfolding insert_n_leaves_def d0(1) by simp
  ultimately show ?thesis by (intro that)
qed

lemma insert_one_at:
  assumes E: "poseidon_ok E" and "node_ok E leaf"
  obtains d0 d1 where "initialized = Inr d0" and "tree_at E d0 0 (\<lambda>_. ZERO)" and "insert_leaf E d0 leaf = Inr d1"
    and "tree_at E d1 1 (one_leaf 0 leaf)" and "hdr_history d1 = merkle_root E (\<lambda>_. ZERO) # replicate 3 ZERO"
proof -
  obtain d0 where d0: "initialized = Inr d0" "tree_at E d0 0 (\<lambda>_. ZERO)" "hdr_history d0 = replicate 4 ZERO"
    by (rule initialized_at [OF E])
  have "0 < (2::nat) ^ TREE_DEPTH" by simp
  from insert_at [OF E d0(2) this assms(2)] obtain d1 where "insert_leaf E d0 leaf = Inr d1"
    "tree_at E d1 1 ((\<lambda>_. ZERO)(0 := leaf))" "hdr_history d1 = merkle_root E (\<lambda>_. ZERO) # take 3 (hdr_history d0)"
    by (metis One_nat_def)
  with d0 show ?thesis by (intro that) (simp_all add: one_leaf_def)
qed

lemma one_leaf_sel [simp]: "one_leaf i h i = h" "one_leaf i ZERO = (\<lambda>_. ZERO)" "(one_leaf i h)(i := g) = one_leaf i g"
  by (auto simp: one_leaf_def)

lemma remove_one_at:
  assumes E: "poseidon_ok E" and at: "tree_at E d1 1 (one_leaf 0 leaf)"
  obtains d2 where "remove_leaf E d1 0 leaf = Inr d2" and "tree_at E d2 1 (\<lambda>_. ZERO)"
  using remove_at [OF E at, of 0 leaf] by (auto intro: that)

section \<open>The tests pass\<close>

lemma plan_tests_hold:
  "test_plan_emits_one_effect_on_tree_shard" "test_plan_rejects_unauthorized_tree"
  "test_plan_rejects_foreign_shard" "test_plan_rejects_extra_accounts"
  by (simp_all add: test_plan_emits_one_effect_on_tree_shard_def test_plan_rejects_unauthorized_tree_def
      test_plan_rejects_foreign_shard_def test_plan_rejects_extra_accounts_def plans_def should_panic_def
      merkle_plan_def merkle_plan_input_def tree_main_fixture_def account_meta_new_def plan_effect_def new_plan_def
      meta_selector_def merkle_program_id_def)

lemma defaults: "compute_default_hashes TREE_DEPTH = Inr DEFAULT_HASHES"
  "index_at DEFAULT_HASHES 0 = Inr (DEFAULT_HASHES ! 0)"
  by (simp_all add: compute_default_hashes_def index_at_def)

lemma default_root_nonzero: "DEFAULT_HASHES ! 0 \<noteq> ZERO"
proof -
  have "(DEFAULT_HASHES ! 0) ! 0 \<noteq> ZERO ! 0" by (simp add: DEFAULT_HASHES_def ZERO_def)
  then show ?thesis by metis
qed

lemma tree_at_bytes:
  assumes "tree_at E d n f"
  shows "489 \<le> length d" and "index_at d OFFSET_DEPTH = Inr 9" and "extract_cached_nodes d = Inr DEFAULT_HASHES"
    and "read_slice OFFSET_CACHED_NODES 32 d = Inr (DEFAULT_HASHES ! 0)"
    and "i < 4 \<Longrightarrow> read_slice (OFFSET_ROOT_HISTORY + i * 32) 32 d = Inr (hdr_history d ! i)"
proof -
  have hd: "header_ok d" using tree_at_header [OF assms] .
  then show len: "489 \<le> length d" by (simp add: header_ok_def)
  show "extract_cached_nodes d = Inr DEFAULT_HASHES" using cached_ok [OF hd] .
  have "unat (d ! 0) = unat (9::u8)" using hd by (simp add: header_ok_def OFFSET_DEPTH_def TREE_DEPTH_def)
  then show "index_at d OFFSET_DEPTH = Inr 9" using len by (cases d) (simp_all add: index_at_def OFFSET_DEPTH_def word_unat_eq_iff)
  have "hdr_cached d ! 0 = DEFAULT_HASHES ! 0" using hd by (simp add: header_ok_def)
  then show "read_slice OFFSET_CACHED_NODES 32 d = Inr (DEFAULT_HASHES ! 0)"
    using len by (simp add: hdr_cached_def header_offsets read_slice_ok TREE_DEPTH_def del: offset_tree_data)
  show "read_slice (OFFSET_ROOT_HISTORY + i * 32) 32 d = Inr (hdr_history d ! i)" if "i < 4"
    using len that by (simp add: hdr_history_def header_offsets read_slice_ok ROOT_HISTORY_SIZE_def)
qed

lemma initialize_tests_hold:
  assumes "poseidon_ok E"
  shows "test_initialize_rejects_live_tree" and "test_initialize_empty_tree" and "test_initialize_cached_defaults_correct"
    and "test_initialize_root_matches_cached_default" and "test_insert_into_uninitialized_shard_panics E"
proof -
  obtain d where d: "initialized = Inr d" "tree_at E d 0 (\<lambda>_. ZERO)" "length d = 489"
    by (rule initialized_at [OF assms])
  note facts = d(1) rbind.simps tree_at_reads(1,2) [OF d(2)] tree_at_bytes(2-4) [OF d(2)] empty_root [OF assms] defaults
  show "test_initialize_rejects_live_tree"
    using d(3) by (cases d) (simp_all add: test_initialize_rejects_live_tree_def should_panic_def facts initialize_tree_def)
  show "test_initialize_empty_tree"
    using d(3) default_root_nonzero
    by (simp add: test_initialize_empty_tree_def holds_def facts) (simp add: TREE_DEPTH_def)
  show "test_initialize_cached_defaults_correct" "test_initialize_root_matches_cached_default"
    by (simp_all only: test_initialize_cached_defaults_correct_def test_initialize_root_matches_cached_default_def
        holds_def facts simp_thms)
  show "test_insert_into_uninitialized_shard_panics E"
    by (simp add: test_insert_into_uninitialized_shard_panics_def should_panic_def insert_leaf_def check_header_def)
qed

lemma roots_differ:
  assumes "poseidon_ok E" and "tree_test_values E"
  shows "merkle_root E (one_leaf 0 (bytes_of 2)) \<noteq> DEFAULT_HASHES ! 0"
    and "merkle_root E (one_leaf 0 (bytes_of 42)) \<noteq> DEFAULT_HASHES ! 0"
    and "merkle_root E ((one_leaf 0 (bytes_of 1))(1 := bytes_of 2)) \<noteq> merkle_root E (one_leaf 0 (bytes_of 1))"
    and "merkle_root E (first_leaves 2) \<noteq> merkle_root E (first_leaves 1)"
    and "merkle_root E (one_leaf 511 (bytes_of 1)) \<noteq> DEFAULT_HASHES ! 0"
    and "merkle_root E (one_leaf 0 (bytes_of 1)) \<noteq> merkle_root E (one_leaf 511 (bytes_of 1))"
    and "merkle_root E (first_leaves 512) \<noteq> DEFAULT_HASHES ! 0"
  using assms(2) unfolding tree_test_values_def compared_trees_def empty_root [OF assms(1), symmetric]
  by (simp_all only: list.pred_inject prod.case simp_thms)

lemma apply_test_holds:
  assumes E: "poseidon_ok E" and v: "tree_test_values E"
  shows "test_apply_dispatches_every_effect E"
proof -
  obtain d0 d1 where d: "initialized = Inr d0" "insert_leaf E d0 (bytes_of 1) = Inr d1" and at: "tree_at E d1 1 (one_leaf 0 (bytes_of 1))"
    by (rule insert_one_at [OF E test_leaves(1) [OF v]])
  obtain d2 where d2: "remove_leaf E d1 0 (bytes_of 1) = Inr d2" "tree_at E d2 1 (\<lambda>_. ZERO)"
    by (rule remove_one_at [OF E at])
  obtain d3 where d3: "set_leaf E d2 0 (bytes_of 2) = Inr d3" "tree_at E d3 1 (one_leaf 0 (bytes_of 2))"
    using set_at [OF E d2(2), of 0, OF _ _ test_leaves(2) [OF v]] by (auto simp: one_leaf_def)
  have "initialize_tree [] = Inr d0" using d(1) by (simp add: initialized_def)
  then show ?thesis
    using roots_differ(1) [OF E v]
    by (simp add: test_apply_dispatches_every_effect_def holds_def apply_unwrap_def defaults d(2) d2(1) d3(1)
        tree_at_reads [OF at] tree_at_reads [OF d2(2)] tree_at_reads [OF d3(2)] empty_root [OF E])
qed

text \<open>An insert puts nodes in the map.\<close>

lemma insert_longer:
  assumes "poseidon_ok E" and "tree_at E d n f" and "n < 2 ^ TREE_DEPTH" and "node_ok E leaf" and "insert_leaf E d leaf = Inr d1"
  shows "489 < length d1"
proof (rule ccontr)
  assume "\<not> 489 < length d1"
  then have "stored (drop OFFSET_TREE_DATA d1) = {}" by (simp add: stored_def)
  moreover have "(TREE_DEPTH, n) \<in> ancestors TREE_DEPTH n" by (auto simp: ancestors_def)
  ultimately show False using insert_stored [OF assms] by auto
qed

lemma insert_two_at:
  assumes E: "poseidon_ok E" and v: "tree_test_values E"
  obtains d0 d1 d2 where "initialized = Inr d0" and "insert_leaf E d0 (bytes_of 1) = Inr d1"
    and "insert_leaf E d1 (bytes_of 2) = Inr d2" and "tree_at E d1 1 (one_leaf 0 (bytes_of 1))"
    and "tree_at E d2 2 ((one_leaf 0 (bytes_of 1))(1 := bytes_of 2))"
proof -
  obtain d0 d1 where d: "initialized = Inr d0" "insert_leaf E d0 (bytes_of 1) = Inr d1" "tree_at E d1 1 (one_leaf 0 (bytes_of 1))"
    by (rule insert_one_at [OF E test_leaves(1) [OF v]])
  have "(1::nat) < 2 ^ TREE_DEPTH" by (simp add: depth_leaves)
  then obtain d2 where "insert_leaf E d1 (bytes_of 2) = Inr d2"
    "tree_at E d2 (Suc 1) ((one_leaf 0 (bytes_of 1))(1 := bytes_of 2))"
    by (rule insert_at [OF E d(3) _ test_leaves(2) [OF v]])
  with d show ?thesis by (intro that) (simp_all add: numeral_2_eq_2)
qed

lemma tree_at_nodes:
  assumes "tree_at E d n f"
  shows "tree_nodes d = Inr (drop 489 d)"
    and "i < 512 \<Longrightarrow> read_sparse_node (drop 489 d) TREE_DEPTH i ZERO = Inr (f i)"
    and "read_sparse_node (drop 489 d) 0 0 (DEFAULT_HASHES ! 0) = Inr (merkle_root E f)"
proof -
  show "tree_nodes d = Inr (drop 489 d)" using tree_at_bytes(1) [OF assms] by (simp add: tree_nodes_def)
  show "read_sparse_node (drop 489 d) TREE_DEPTH i ZERO = Inr (f i)" if "i < 512"
    using tree_at_reads(3) [OF assms, of i] assms that by (simp add: tree_at_def depth_leaves)
  have "sparse_wf (drop OFFSET_TREE_DATA d)" "hdr_root d = tree_node d 0 0"
    using assms by (auto simp: tree_at_def tree_ok_def nodes_ok_def)
  then show "read_sparse_node (drop 489 d) 0 0 (DEFAULT_HASHES ! 0) = Inr (merkle_root E f)"
    using node_value_read [of "drop OFFSET_TREE_DATA d" 0 0] tree_at_root [OF assms] by (simp add: tree_node_def)
qed

lemma insert_tests_hold:
  assumes E: "poseidon_ok E" and v: "tree_test_values E"
  shows "test_insert_first_leaf E" and "test_insert_takes_the_index_from_the_tree E"
    and "test_insert_rejects_non_field_leaf E" and "test_insert_rejects_foreign_depth E"
    and "test_insert_two_leaves_sequential E"
proof -
  obtain d0 d where d0: "initialized = Inr d0" "tree_at E d0 0 (\<lambda>_. ZERO)" and d: "insert_leaf E d0 (bytes_of 42) = Inr d"
    "tree_at E d 1 (one_leaf 0 (bytes_of 42))" "hdr_history d = merkle_root E (\<lambda>_. ZERO) # replicate 3 ZERO"
    by (rule insert_one_at [OF E test_leaves(4) [OF v]])
  have "489 < length d" by (rule insert_longer [OF E d0(2) _ test_leaves(4) [OF v] d(1)]) simp
  then show "test_insert_first_leaf E"
    using roots_differ(2) [OF E v] tree_at_bytes(5) [OF d(2), of 0]
    by (simp add: test_insert_first_leaf_def holds_def d0 d tree_at_reads [OF d0(2)] tree_at_reads [OF d(2)] empty_root [OF E])
  obtain d0' d1 d2 where s: "initialized = Inr d0'" "insert_leaf E d0' (bytes_of 1) = Inr d1"
    "insert_leaf E d1 (bytes_of 2) = Inr d2" and at: "tree_at E d1 1 (one_leaf 0 (bytes_of 1))"
    "tree_at E d2 2 ((one_leaf 0 (bytes_of 1))(1 := bytes_of 2))"
    by (rule insert_two_at [OF E v])
  show "test_insert_takes_the_index_from_the_tree E"
    by (simp add: test_insert_takes_the_index_from_the_tree_def holds_def s tree_at_nodes [OF at(2)] defaults cached_leaf_ok)
  show "test_insert_two_leaves_sequential E"
    using roots_differ(3) [OF E v]
    by (simp add: test_insert_two_leaves_sequential_def holds_def s tree_at_reads [OF at(1)] tree_at_reads [OF at(2)])
  show "test_insert_rejects_non_field_leaf E"
    using v by (simp add: test_insert_rejects_non_field_leaf_def should_panic_def d0 insert_leaf_def
        check_header_ok [OF tree_at_header [OF d0(2)]] validate_field_element_def tree_test_values_def)
  show "test_insert_rejects_foreign_depth E"
    using tree_at_bytes(1) [OF d0(2)]
    by (cases d0) (simp_all add: test_insert_rejects_foreign_depth_def should_panic_def d0 insert_leaf_def check_header_def index_at_def
        OFFSET_DEPTH_def TREE_DEPTH_def)
qed

lemma first_leaves_sel [simp]:
  "i < n \<Longrightarrow> first_leaves n i = leaf_for (word_of_nat i)" "n \<le> i \<Longrightarrow> first_leaves n i = ZERO"
  "(first_leaves (Suc n))(n := ZERO) = first_leaves n"
  by (auto simp: first_leaves_def fun_eq_iff)

lemma leaf_for_nth: "leaf_for i ! 8 = 0xAB"
  by (simp add: leaf_for_def splice_def nth_append)

lemma leaf_for_0_1: "leaf_for 0 \<noteq> leaf_for 1" "leaf_for i \<noteq> ZERO"
proof -
  show "leaf_for 0 \<noteq> leaf_for 1" by code_simp
  have "leaf_for i ! 8 \<noteq> ZERO ! 8" by (simp add: leaf_for_nth) (simp add: ZERO_def)
  then show "leaf_for i \<noteq> ZERO" by metis
qed

lemma remove_tests_hold:
  assumes E: "poseidon_ok E" and v: "tree_test_values E"
  shows "test_remove_nonexistent_leaf_panics E" and "test_remove_leaf_updates_root E"
    and "test_remove_leaf_restores_original_root E" and "test_remove_does_not_change_next_index E"
proof -
  obtain d0 d1 where d0: "initialized = Inr d0" "tree_at E d0 0 (\<lambda>_. ZERO)" and d1: "insert_leaf E d0 (bytes_of 42) = Inr d1"
    and at: "tree_at E d1 1 (one_leaf 0 (bytes_of 42))"
    by (rule insert_one_at [OF E test_leaves(4) [OF v]])
  obtain d2 where d2: "remove_leaf E d1 0 (bytes_of 42) = Inr d2" "tree_at E d2 1 (\<lambda>_. ZERO)"
    by (rule remove_one_at [OF E at])
  note facts = holds_def d0(1) d1 d2(1) rbind.simps tree_at_reads(1,2) [OF d0(2)] tree_at_reads(1,2) [OF at]
    tree_at_reads(1,2) [OF d2(2)] empty_root [OF E]
  show "test_remove_nonexistent_leaf_panics E"
    using remove_refused [OF E d0(2), of 0] by (simp add: test_remove_nonexistent_leaf_panics_def should_panic_def decimals exit_codes no_leaf_def contains_append d0(1))
  show "test_remove_leaf_updates_root E"
    using roots_differ(2) [OF E v] by (simp add: test_remove_leaf_updates_root_def facts)
  show "test_remove_leaf_restores_original_root E" "test_remove_does_not_change_next_index E"
    by (simp_all add: test_remove_leaf_restores_original_root_def test_remove_does_not_change_next_index_def facts)
qed

lemma remove_n_tests_hold:
  assumes E: "poseidon_ok E" and v: "tree_test_values E"
  shows "test_remove_refuses_a_leaf_that_is_not_the_named_one E" and "test_remove_refuses_an_already_removed_leaf E"
    and "test_remove_second_leaf_of_two E"
proof -
  obtain d1 where d1: "insert_n_leaves E 1 = Inr d1" "tree_at E d1 1 (first_leaves 1)" by (rule insert_n_at [OF E v, of 1]) simp
  obtain d2 where d2: "insert_n_leaves E 2 = Inr d2" "tree_at E d2 2 (first_leaves 2)" by (rule insert_n_at [OF E v, of 2]) simp
  show "test_remove_refuses_a_leaf_that_is_not_the_named_one E"
    using remove_refused [OF E d2(2), of 0 "leaf_for 1"] leaf_for_0_1
    by (simp add: test_remove_refuses_a_leaf_that_is_not_the_named_one_def should_panic_def decimals exit_codes no_leaf_def contains_append d2(1))
  obtain r1 where r1: "remove_leaf E d1 0 (leaf_for 0) = Inr r1" "tree_at E r1 1 ((first_leaves 1)(0 := ZERO))"
    using remove_at [OF E d1(2), of 0 "leaf_for 0"] by auto
  show "test_remove_refuses_an_already_removed_leaf E"
    using remove_refused [OF E r1(2), of 0 "leaf_for 0"] leaf_for_0_1(2) [of 0]
    by (simp add: test_remove_refuses_an_already_removed_leaf_def should_panic_def decimals exit_codes no_leaf_def contains_append d1(1) r1(1) del: One_nat_def)
  obtain r2 where r2: "remove_leaf E d2 1 (leaf_for 1) = Inr r2" "tree_at E r2 2 (first_leaves 1)"
    using remove_at [OF E d2(2), of 1 "leaf_for 1"] first_leaves_sel(3) [of 1] by (auto simp: numeral_2_eq_2)
  show "test_remove_second_leaf_of_two E"
    using roots_differ(4) [OF E v]
    by (simp add: test_remove_second_leaf_of_two_def holds_def d1(1) d2(1) r2(1) tree_at_reads [OF d1(2)]
        tree_at_reads [OF d2(2)] tree_at_reads [OF r2(2)] del: One_nat_def)
qed

lemma set_tests_hold:
  assumes E: "poseidon_ok E" and v: "tree_test_values E"
  shows "test_set_rejects_occupied_slot E" and "test_set_rejects_index_past_next_index E"
    and "test_set_after_remove_matches_insert E"
proof -
  note h = test_leaves(3) [OF v]
  have valid: "felt_valid E (bytes_of 3)" using h by (simp add: node_ok_def)
  obtain d0 d1 where d0: "initialized = Inr d0" "tree_at E d0 0 (\<lambda>_. ZERO)" and d1: "insert_leaf E d0 (bytes_of 3) = Inr d1"
    and at: "tree_at E d1 1 (one_leaf 0 (bytes_of 3))"
    by (rule insert_one_at [OF E h])
  obtain d2 where d2: "remove_leaf E d1 0 (bytes_of 3) = Inr d2" "tree_at E d2 1 (\<lambda>_. ZERO)"
    by (rule remove_one_at [OF E at])
  obtain d3 where d3: "set_leaf E d2 0 (bytes_of 3) = Inr d3" "tree_at E d3 1 (one_leaf 0 (bytes_of 3))"
    using set_at [OF E d2(2), of 0, OF _ _ h] by (auto simp: one_leaf_def)
  show "test_set_after_remove_matches_insert E"
    by (simp add: test_set_after_remove_matches_insert_def holds_def d0(1) d1 d2(1) d3(1) tree_at_reads [OF at] tree_at_reads [OF d3(2)])
  show "test_set_rejects_index_past_next_index E"
    using valid by (simp add: test_set_rejects_index_past_next_index_def should_panic_def d0(1) set_leaf_def
        validate_field_element_def check_header_ok [OF tree_at_header [OF d0(2)]] tree_at_reads(2) [OF d0(2)])
  obtain d where one: "insert_n_leaves E 1 = Inr d" "tree_at E d 1 (first_leaves 1)" by (rule insert_n_at [OF E v, of 1]) simp
  show "test_set_rejects_occupied_slot E"
    using valid leaf_for_0_1(2) [of 0] tree_at_nodes(2) [OF one(2), of 0]
    by (simp add: test_set_rejects_occupied_slot_def should_panic_def one(1) set_leaf_def as_usize_def
        validate_field_element_def check_header_ok [OF tree_at_header [OF one(2)]] tree_at_reads(2) [OF one(2)]
        tree_at_bytes(3) [OF one(2)] cached_leaf_ok del: One_nat_def)
qed

lemma rbind_Inr_right: "rbind r Inr = r"
  by (cases r) auto

lemma insert_n_Suc:
  "insert_n_leaves E (Suc n) = rbind (insert_n_leaves E n) (\<lambda>d. insert_leaf E d (leaf_for (word_of_nat n)))"
  by (simp add: insert_n_leaves_def rfold_append rbind_assoc rbind_Inr_right)

definition root_n :: "external \<Rightarrow> nat \<Rightarrow> bytes" where
  "root_n E n = merkle_root E (first_leaves n)"

lemma take_4_Cons: "take 4 (x # xs) = x # take 3 (take 4 xs)"
  by (simp add: take_Cons' min_def)

lemma insert_n_history:
  assumes E: "poseidon_ok E" and v: "tree_test_values E"
  shows "n \<le> 512 \<Longrightarrow> \<exists>d. insert_n_leaves E n = Inr d \<and> tree_at E d n (first_leaves n) \<and>
    hdr_history d = take 4 (map (root_n E) (rev [0..<n]) @ replicate 4 ZERO)"
proof (induction n)
  case 0
  obtain d where d: "initialized = Inr d" "tree_at E d 0 (\<lambda>_. ZERO)" "hdr_history d = replicate 4 ZERO"
    by (rule initialized_at [OF E])
  then show ?case by (simp add: insert_n_leaves_def d(1) first_leaves_def)
next
  case (Suc n)
  then obtain d where d: "insert_n_leaves E n = Inr d" and at: "tree_at E d n (first_leaves n)"
    and hist: "hdr_history d = take 4 (map (root_n E) (rev [0..<n]) @ replicate 4 ZERO)"
    by auto
  have n: "n < 2 ^ TREE_DEPTH" "n < 512" using Suc.prems by (simp_all add: depth_leaves)
  from insert_at [OF E at n(1) test_leaves(5) [OF v n(2)]] obtain d1
    where d1: "insert_leaf E d (leaf_for (word_of_nat n)) = Inr d1"
      and at1: "tree_at E d1 (Suc n) ((first_leaves n)(n := leaf_for (word_of_nat n)))"
      and h1: "hdr_history d1 = merkle_root E (first_leaves n) # take 3 (hdr_history d)" by metis
  have "(first_leaves n)(n := leaf_for (word_of_nat n)) = first_leaves (Suc n)" by (auto simp: first_leaves_def)
  moreover have "hdr_history d1 = take 4 (map (root_n E) (rev [0..<Suc n]) @ replicate 4 ZERO)"
    using h1 hist by (simp only: upt_Suc_append le0 rev_append rev.simps append_Nil append_Cons list.map take_4_Cons root_n_def)
  ultimately show ?case using at1 d d1 by (simp add: insert_n_Suc)
qed

lemma insert_n_root:
  assumes "poseidon_ok E" and "tree_test_values E" and "n \<le> 512"
  shows "rbind (insert_n_leaves E n) read_root = Inr (root_n E n)"
  using insert_n_history [OF assms] tree_at_reads(1) by (fastforce simp: root_n_def)

lemma history_tests_hold:
  assumes E: "poseidon_ok E" and v: "tree_test_values E"
  shows "test_same_insertions_produce_same_root E" and "test_root_history_keeps_last_four_roots E"
proof -
  show "test_same_insertions_produce_same_root E"
    by (simp add: test_same_insertions_produce_same_root_def holds_def insert_n_root [OF E v])
  have five: "[0..<5] = [0, 1, 2, 3, 4]" "[0..<6] = [0, 1, 2, 3, 4, 5]" "[0..<4] = [0, 1, 2, 3 :: nat]"
    by (simp_all add: upt_rec)
  obtain d where d: "insert_n_leaves E 5 = Inr d" "tree_at E d 5 (first_leaves 5)"
    and h: "hdr_history d = [root_n E 4, root_n E 3, root_n E 2, root_n E 1]"
    using insert_n_history [OF E v, of 5] by (auto simp: five)
  have h4: "read_slice (OFFSET_ROOT_HISTORY + i * 32) 32 d = Inr (hdr_history d ! i)" if "i < 4" for i
    using tree_at_bytes(5) [OF d(2) that] .
  have roots: "rmap (\<lambda>n. rbind (insert_n_leaves E n) read_root) [0..<6] = Inr (map (root_n E) [0..<6])"
    by (rule rmap_ok) (simp add: insert_n_root [OF E v])
  have slots: "rmap (\<lambda>slot. read_slice (OFFSET_ROOT_HISTORY + slot * 32) 32 d) [0..<ROOT_HISTORY_SIZE] =
      Inr (map (\<lambda>i. hdr_history d ! i) [0..<ROOT_HISTORY_SIZE])"
    by (rule rmap_ok) (simp add: h4 ROOT_HISTORY_SIZE_def)
  show "test_root_history_keeps_last_four_roots E"
    unfolding test_root_history_keeps_last_four_roots_def holds_def roots rbind.simps d(1) slots
    by (simp add: h ROOT_HISTORY_SIZE_def five index_at_def)
qed

lemma reference_tree_hold:
  assumes E: "poseidon_ok E" and v: "tree_test_values E"
  shows "test_root_matches_reference_tree E"
proof -
  obtain d where d: "insert_n_leaves E 5 = Inr d" "tree_at E d 5 (first_leaves 5)"
    by (rule insert_n_at [OF E v, of 5]) simp
  have valid: "felt_valid E (first_leaves 5 i)" for i
    using test_leaves(5) [OF v, of i] poseidon_ZERO [OF E] by (simp add: first_leaves_def node_ok_def)
  have "rmap (\<lambda>i. if i < 5 then Inr (leaf_for (word_of_nat i)) else index_at DEFAULT_HASHES TREE_DEPTH) [0..<all_leaves] =
      Inr (map (first_leaves 5) [0..<all_leaves])" (is ?leaves)
    by (rule rmap_ok) (simp add: cached_leaf_ok first_leaves_def)
  have level0: "merkle_node E (first_leaves 5) 0 = first_leaves 5" by (simp add: fun_eq_iff)
  have "hash_layers E TREE_DEPTH (map (first_leaves 5) [0..<all_leaves]) = Inr [merkle_root E (first_leaves 5)]"
    using hash_layers_root [OF E, of "first_leaves 5" TREE_DEPTH 0] valid level0 by (simp add: depth_leaves merkle_root_def)
  with \<open>?leaves\<close> show ?thesis
    by (simp add: test_root_matches_reference_tree_def holds_def d(1) defaults tree_at_reads(1) [OF d(2)] tree_at_nodes [OF d(2)])
qed

lemma full_tree_at:
  assumes E: "poseidon_ok E" and v: "tree_test_values E"
  obtains d where "insert_n_leaves E 512 = Inr d" and "tree_at E d 512 (first_leaves 512)" and "length d = TREE_SHARD_MAX_BYTES"
proof -
  obtain d0 where d0: "initialized = Inr d0" "tree_at E d0 0 (\<lambda>_. ZERO)" by (rule initialized_at [OF E])
  obtain d where d: "insert_n_leaves E 512 = Inr d" "tree_at E d 512 (first_leaves 512)"
    by (rule insert_n_at [OF E v, of 512]) simp
  have "rfold (\<lambda>d i. insert_leaf E d (leaf_for (word_of_nat i))) d0 [0..<2 ^ TREE_DEPTH] = Inr d"
    using d(1) by (simp only: insert_n_leaves_def d0(1) rbind.simps depth_leaves)
  then have "length d = TREE_SHARD_MAX_BYTES"
    using full_tree [OF E _ d0(2), where g = "\<lambda>i. leaf_for (word_of_nat i)"] test_leaves(5) [OF v] by (simp add: depth_leaves)
  with d show ?thesis by (rule that)
qed

lemma full_tree_tests_hold:
  assumes E: "poseidon_ok E" and v: "tree_test_values E"
  shows "full_tree_fits_in_one_shard E" and "test_full_tree_then_remove_all E"
proof -
  obtain d where d: "insert_n_leaves E 512 = Inr d" "tree_at E d 512 (first_leaves 512)" "length d = TREE_SHARD_MAX_BYTES"
    by (rule full_tree_at [OF E v])
  have nxt: "read_next_index d = Inr TREE_LEAVES" using tree_at_reads(2) [OF d(2)] by (simp add: tree_leaves)
  show "full_tree_fits_in_one_shard E"
    using d(3) tree_ok_length [OF tree_at_ok [OF d(2)]]
    by (simp add: full_tree_fits_in_one_shard_def holds_def depth_leaves d(1) nxt)
      (simp add: TREE_SHARD_MAX_BYTES_def SHARD_MAX_BYTES_def TREE_NODES_eq SPARSE_ENTRY_LEN_def)
  have "512 \<le> (2::nat) ^ TREE_DEPTH" by (simp add: depth_leaves)
  from remove_many_at [OF E this order_refl, of d "\<lambda>i. leaf_for (word_of_nat i)"] d(2)
  obtain r where r: "rfold (\<lambda>d i. remove_leaf E d (word_of_nat i) (leaf_for (word_of_nat i))) d (rev [0..<512]) = Inr r"
    "tree_at E r 512 (\<lambda>_. ZERO)"
    by (auto simp: first_leaves_def)
  show "test_full_tree_then_remove_all E"
    unfolding test_full_tree_then_remove_all_def holds_def defaults rbind.simps depth_leaves d(1)
      tree_at_reads(1) [OF d(2)] r(1) tree_at_reads(1,2) [OF r(2)]
    using roots_differ(7) [OF E v] by (simp add: empty_root [OF E] tree_leaves)
qed

lemma boundary_tests_hold:
  assumes E: "poseidon_ok E" and v: "tree_test_values E"
  shows "test_insert_at_last_index E" and "test_insert_and_remove_at_last_index E"
    and "test_first_and_last_leaf_give_different_roots E" and "test_insert_past_the_last_leaf_is_refused E"
proof -
  note h = test_leaves(1) [OF v]
  have "unat last_index \<le> 2 ^ TREE_DEPTH" by (simp add: depth_leaves)
  then obtain p where c: "create_main_account_data_with_state last_index (DEFAULT_HASHES ! 0) DEFAULT_HASHES = Inr p"
    and at0: "tree_at E p (unat last_index) (\<lambda>_. ZERO)"
    by (rule create_at [OF E])
  then have p: "almost_full DEFAULT_HASHES = Inr p" "tree_at E p 511 (\<lambda>_. ZERO)"
    by (simp_all add: almost_full_def defaults depth_leaves)
  have lt: "511 < (2::nat) ^ TREE_DEPTH" by (simp add: depth_leaves)
  have "Suc 511 = 512" "(\<lambda>_. ZERO)(511 := bytes_of 1) = one_leaf 511 (bytes_of 1)" by (simp_all add: one_leaf_def)
  with insert_at [OF E p(2) lt h] obtain d where d: "insert_leaf E p (bytes_of 1) = Inr d"
    "tree_at E d 512 (one_leaf 511 (bytes_of 1))" by metis
  obtain r where r: "remove_leaf E d last_index (bytes_of 1) = Inr r" "tree_at E r 512 (\<lambda>_. ZERO)"
    using remove_at [OF E d(2), of last_index "bytes_of 1"] by (auto simp: depth_leaves)
  obtain d0 d1 where d0: "initialized = Inr d0" and d1: "insert_leaf E d0 (bytes_of 1) = Inr d1"
    and at: "tree_at E d1 1 (one_leaf 0 (bytes_of 1))"
    by (rule insert_one_at [OF E h])
  note facts = holds_def defaults rbind.simps p(1) d(1) r(1) d0 d1 tree_at_reads(1,2) [OF d(2)] tree_at_reads(1,2) [OF r(2)]
    tree_at_reads(1) [OF at] empty_root [OF E] and differ = roots_differ(5,6) [OF E v]
  show "test_insert_at_last_index E"
    unfolding test_insert_at_last_index_def facts using differ by (simp add: last_index_def tree_leaves)
  show "test_insert_and_remove_at_last_index E"
    unfolding test_insert_and_remove_at_last_index_def facts using differ(1) by simp
  show "test_first_and_last_leaf_give_different_roots E"
    unfolding test_first_and_last_leaf_give_different_roots_def facts using differ(2) by simp
  obtain d2 where d2: "write_slice OFFSET_NEXT_INDEX (u64_le TREE_LEAVES) d1 = Inr d2"
    "tree_at E d2 (2 ^ TREE_DEPTH) (one_leaf 0 (bytes_of 1))"
    using skip_to [OF at, of TREE_LEAVES] by (auto simp: depth_leaves tree_leaves)
  show "test_insert_past_the_last_leaf_is_refused E"
    by (simp add: test_insert_past_the_last_leaf_is_refused_def should_panic_def decimals exit_codes no_leaf_def contains_append d0 d1 d2(1) insert_refused [OF E d2(2) test_leaves(2) [OF v]])
qed

lemma addressing_test_holds: "test_node_offset"
  by (simp add: test_node_offset_def node_offset_eq depth_leaves push_bit_eq_mult)

text \<open>
  C40. The unit tests in \<open>merkle_tree.rs\<close> hold of the model: over any hash with canonical digests for which
  the pinned table of empty subtrees is right, as long as the tests' leaves are field elements where they must
  be and the trees they compare do not collide. Every root, index, history slot and length a test asserts is
  what the model computes, and every panic or exit a test expects is the one it ends with, with the message it
  expects. The test of the pinned table itself, in \<open>hash.rs\<close>, is the hypothesis and not in the suite.
\<close>

theorem tree_tests_pass:
  assumes "poseidon_ok E" and "tree_test_values E"
  shows "passes (tree_tests E)"
  unfolding tree_tests_def passes_simps
  by (intro conjI plan_tests_hold initialize_tests_hold [OF assms(1)] apply_test_holds insert_tests_hold remove_tests_hold
      remove_n_tests_hold set_tests_hold history_tests_hold reference_tree_hold addressing_test_holds
      full_tree_tests_hold boundary_tests_hold assms passes_simps(1))

text \<open>The hypothesis on the pinned table is what the test of \<open>hash.rs\<close> checks.\<close>

lemma ladder_steps:
  assumes "poseidon_canonical E" and "felt_valid E z"
  shows "rfold (\<lambda>expected level. rbind (index_at expected (level + 1)) (\<lambda>child.
      rbind (hash_pair E child child) (\<lambda>h. Inr (expected[level := h]))))
      [x0, x1, x2, x3, x4, x5, x6, x7, x8, z] [8, 7, 6, 5, 4, 3, 2, 1, 0] = Inr [d0, d1, d2, d3, d4, d5, d6, d7, d8, z] \<longleftrightarrow>
    d8 = compress2 E z z \<and> d7 = compress2 E d8 d8 \<and> d6 = compress2 E d7 d7 \<and> d5 = compress2 E d6 d6 \<and>
    d4 = compress2 E d5 d5 \<and> d3 = compress2 E d4 d4 \<and> d2 = compress2 E d3 d3 \<and> d1 = compress2 E d2 d2 \<and>
    d0 = compress2 E d1 d1"
  using assms by (simp add: index_at_def hash_pair_ok poseidon_canonical_def) (metis (no_types))

lemma ladder_test:
  assumes "poseidon_canonical E" and "felt_valid E ZERO"
  shows "default_hashes_match_the_ladder E \<longleftrightarrow> default_ladder E"
proof -
  have nth: "TREE_DEPTH = 9" "[0..<9] = [0, 1, 2, 3, 4, 5, 6, 7, 8 :: nat]"
    "rev [0, 1, 2, 3, 4, 5, 6, 7, 8] = [8, 7, 6, 5, 4, 3, 2, 1, 0 :: nat]"
    by (simp_all add: TREE_DEPTH_def upt_rec)
  have z: "DEFAULT_HASHES ! 9 = ZERO" using DEFAULT_HASHES_leaf by (simp add: TREE_DEPTH_def)
  obtain d0 d1 d2 d3 d4 d5 d6 d7 d8 d9 where D: "DEFAULT_HASHES = [d0, d1, d2, d3, d4, d5, d6, d7, d8, d9]"
    by (simp add: DEFAULT_HASHES_def)
  have start: "(replicate (9 + 1) ZERO)[9 := ZERO] = [ZERO, ZERO, ZERO, ZERO, ZERO, ZERO, ZERO, ZERO, ZERO, ZERO]"
    by (simp add: eval_nat_numeral)
  have d9: "d9 = ZERO" using z by (simp add: D)
  show ?thesis
    unfolding default_hashes_match_the_ladder_def default_ladder_def nth D ZERO_def [symmetric] start d9
      ladder_steps [OF assms]
    using assms(2) by (simp; blast)
qed

section \<open>The tests on the concrete instance\<close>

lemma zero_block:
  assumes "default_ladder E"
  shows "k \<le> TREE_DEPTH \<Longrightarrow> (\<And>i. j * 2 ^ k \<le> i \<Longrightarrow> i < Suc j * 2 ^ k \<Longrightarrow> f i = ZERO) \<Longrightarrow>
    merkle_node E f k j = DEFAULT_HASHES ! (TREE_DEPTH - k)"
proof (induction k arbitrary: j)
  case 0
  then show ?case by (simp add: DEFAULT_HASHES_leaf)
next
  case (Suc k)
  have child: "merkle_node E f k j' = DEFAULT_HASHES ! (TREE_DEPTH - k)" if "j' = 2 * j \<or> j' = 2 * j + 1" for j'
  proof (rule Suc.IH)
    fix i
    assume "j' * 2 ^ k \<le> i" "i < Suc j' * 2 ^ k"
    moreover have "j * 2 ^ Suc k \<le> j' * 2 ^ k" "Suc j' * 2 ^ k \<le> Suc j * 2 ^ Suc k" using that by auto
    ultimately show "f i = ZERO" by (intro Suc.prems(2)) linarith+
  qed (use Suc.prems(1) in simp)
  then show ?case
    using child [of "2 * j"] child [of "2 * j + 1"] default_ladder_step [OF assms, of "TREE_DEPTH - Suc k"] Suc.prems(1) by (simp add: Suc_diff_Suc)
qed

text \<open>The stand-in hash's other digests end in byte 1, the table's entries do not.\<close>

lemma toy_ladder_only: 
  assumes "DEFAULT_HASHES ! l ! 31 \<noteq> 1" and  "toy_compress2 a b = DEFAULT_HASHES ! l"
  shows "a = b \<and> map_of toy_ladder a = Some (DEFAULT_HASHES ! l)"
proof -
  have one: "map (\<lambda>i. if i = 31 then 1 else f i) [0..<32] ! 31 = (1 :: u8)" for f by (subst nth_map) simp_all
  show ?thesis
  proof (cases "if a = b then map_of toy_ladder a else None")
    case None
    then show ?thesis using assms(1) one unfolding assms(2) [symmetric] toy_compress2_def by (simp only: option.case simp_thms)
  next
    case (Some h)
    then have "h = DEFAULT_HASHES ! l" using assms(2) by (simp only: toy_compress2_def option.case)
    with Some show ?thesis by (simp only: split: if_splits) simp_all
  qed
qed

text \<open>The stand-in hash gives an entry of the pinned table only on the entry below it.\<close>

lemma toy_preimage:
  assumes "l < 9" and "toy_compress2 a b = DEFAULT_HASHES ! l"
  shows "a = DEFAULT_HASHES ! Suc l" and "b = DEFAULT_HASHES ! Suc l"
proof -
  have "distinct (map hd DEFAULT_HASHES)" by (simp add: DEFAULT_HASHES_def)
  then have d: "distinct DEFAULT_HASHES" by (simp add: distinct_map)
  have "list_all (\<lambda>h. h ! 31 \<noteq> 1) DEFAULT_HASHES" by (simp add: DEFAULT_HASHES_def)
  then have "DEFAULT_HASHES ! l ! 31 \<noteq> 1" using assms(1) by (simp add: list_all_length)
  then have ab: "a = b" and m: "map_of toy_ladder a = Some (DEFAULT_HASHES ! l)"
    using toy_ladder_only assms(2) by blast+
  from map_of_SomeD [OF m] obtain i where i: "i < 9" "a = tl DEFAULT_HASHES ! i" "DEFAULT_HASHES ! i = DEFAULT_HASHES ! l"
    by (auto simp: toy_ladder_def set_zip)
  then have "i = l" using d assms(1) by (simp add: nth_eq_iff_index_eq)
  with i ab show "a = DEFAULT_HASHES ! Suc l" and "b = DEFAULT_HASHES ! Suc l"
    by (simp_all add: nth_tl)
qed

lemma toy_only_empty:
  "k \<le> 9 \<Longrightarrow> merkle_node toy f k j = DEFAULT_HASHES ! (9 - k) \<Longrightarrow> j * 2 ^ k \<le> i \<Longrightarrow> i < Suc j * 2 ^ k \<Longrightarrow> f i = ZERO"
proof (induction k arbitrary: j)
  case 0
  then show ?case using DEFAULT_HASHES_leaf by (simp add: TREE_DEPTH_def le_less_Suc_eq)
next
  case (Suc k)
  have c: "toy_compress2 (merkle_node toy f k (2 * j)) (merkle_node toy f k (2 * j + 1)) = DEFAULT_HASHES ! (9 - Suc k)"
    using Suc.prems(2) by (simp add: toy_hash)
  have sk: "Suc (9 - Suc k) = 9 - k" and lt: "9 - Suc k < 9" using Suc.prems(1) by simp_all
  have ch: "merkle_node toy f k (2 * j) = DEFAULT_HASHES ! (9 - k)" "merkle_node toy f k (2 * j + 1) = DEFAULT_HASHES ! (9 - k)"
    using toy_preimage [OF lt c] by (simp_all only: sk)
  have i: "2 * j * 2 ^ k \<le> i" "i < Suc (2 * j + 1) * 2 ^ k" using Suc.prems(3,4) by simp_all
  have k: "k \<le> 9" using Suc.prems(1) by simp
  show ?case
  proof (cases "i < Suc (2 * j) * 2 ^ k")
    case True
    then show ?thesis by (rule Suc.IH [OF k ch(1) i(1)])
  next
    case False
    then show ?thesis by (intro Suc.IH [OF k ch(2) _ i(2)]) simp
  qed
qed

lemma toy_root_differs: "i < 512 \<Longrightarrow> f i \<noteq> ZERO \<Longrightarrow> merkle_root toy f \<noteq> merkle_root toy (\<lambda>_. ZERO)"
  using toy_only_empty [of 9 f 0 i] by (auto simp: merkle_root_def TREE_DEPTH_def empty_root [OF toy_poseidon, unfolded merkle_root_def TREE_DEPTH_def])

lemma toy_node_length: "(\<And>i. length (f i) = 32) \<Longrightarrow> length (merkle_node toy f k j) = 32"
  using poseidon_compress2 [OF toy_poseidon] by (cases k) (simp_all add: node_ok_def)

lemma toy_left_step:
  assumes "k < 9" and "\<And>i. length (f i) = 32" and "\<And>i. 2 ^ k \<le> i \<Longrightarrow> f i = ZERO" and "f 0 \<noteq> ZERO"
  shows "merkle_node toy f (Suc k) 0 ! 0 = merkle_node toy f k 0 ! 0 + 3 * (DEFAULT_HASHES ! (9 - k)) ! 0 + 7"
proof -
  have "merkle_node toy f k 1 = DEFAULT_HASHES ! (9 - k)"
    using zero_block [OF toy_ladder_ok, of k 1 f] assms(1,3) by (simp add: TREE_DEPTH_def)
  moreover have "merkle_node toy f k 0 \<noteq> DEFAULT_HASHES ! (9 - k)"
    using toy_only_empty [of k f 0 0] assms(1,4) by auto
  ultimately show ?thesis
    using toy_first_byte [of "merkle_node toy f k 0" "merkle_node toy f k 1"] toy_node_length [of f k, OF assms(2)] by (simp add: toy_hash) metis
qed

lemma toy_left_differs:
  assumes "\<And>i. length (f i) = 32" and "\<And>i. length (g i) = 32" and "\<And>i. 2 ^ k \<le> i \<Longrightarrow> f i = ZERO \<and> g i = ZERO"
    and "f 0 \<noteq> ZERO" and "g 0 \<noteq> ZERO" and "merkle_node toy f k 0 ! 0 \<noteq> merkle_node toy g k 0 ! 0" and "k \<le> 9"
  shows "merkle_root toy f \<noteq> merkle_root toy g"
proof -
  have "m \<le> 9 - k \<Longrightarrow> merkle_node toy f (k + m) 0 ! 0 \<noteq> merkle_node toy g (k + m) 0 ! 0" for m
  proof (induction m)
    case 0
    then show ?case using assms(6) by simp
  next
    case (Suc m)
    have "2 ^ k \<le> i" if "2 ^ (k + m) \<le> i" for i :: nat
      using that power_increasing [of k "k + m" "2::nat"] by linarith
    then show ?case
      using Suc toy_left_step [of "k + m" f] toy_left_step [of "k + m" g] assms by simp
  qed
  from this [of "9 - k"] assms(7) show ?thesis by (auto simp: merkle_root_def TREE_DEPTH_def)
qed

text \<open>The path of the last leaf.\<close>

primrec last_byte :: "nat \<Rightarrow> u8" where
  "last_byte 0 = 1"
| "last_byte (Suc k) = (DEFAULT_HASHES ! (9 - k)) ! 0 + 3 * last_byte k + 7"

primrec first_byte :: "nat \<Rightarrow> u8" where
  "first_byte 0 = 1"
| "first_byte (Suc k) = first_byte k + 3 * (DEFAULT_HASHES ! (9 - k)) ! 0 + 7"

lemma one_leaf_length: "length h = 32 \<Longrightarrow> length (one_leaf i h j) = 32"
  by (simp add: one_leaf_def)

lemma ZERO_first: "ZERO ! 0 = 0"
  by (simp add: ZERO_def)

lemma ones: "bytes_of 1 \<noteq> ZERO"
proof -
  have "bytes_of 1 ! 0 \<noteq> ZERO ! 0" by (simp add: ZERO_def)
  then show ?thesis by metis
qed

lemma first_leaf_byte: "k \<le> 9 \<Longrightarrow> merkle_node toy (one_leaf 0 (bytes_of 1)) k 0 ! 0 = first_byte k"
proof (induction k)
  case 0
  then show ?case by simp
next
  case (Suc k)
  have "one_leaf 0 (bytes_of 1) i = ZERO" if "2 ^ k \<le> i" for i using that by (cases i) (simp_all add: one_leaf_def)
  then show ?case
    using Suc toy_left_step [of k "one_leaf 0 (bytes_of 1)"] ones by (simp add: one_leaf_length del: merkle_node.simps)
qed

lemma last_leaf_byte: "k \<le> 9 \<Longrightarrow> merkle_node toy (one_leaf 511 (bytes_of 1)) k (511 div 2 ^ k) ! 0 = last_byte k"
proof (induction k)
  case 0
  then show ?case by simp
next
  case (Suc k)
  let ?f = "one_leaf 511 (bytes_of 1)" and ?j = "511 div 2 ^ Suc k :: nat"
  have k: "k \<in> {0, 1, 2, 3, 4, 5, 6, 7, 8}" using Suc.prems by auto
  then have j: "2 * ?j + 1 = 511 div 2 ^ k" "511 div 2 ^ k * 2 ^ k \<le> (511::nat)" "(511::nat) < Suc (511 div 2 ^ k) * 2 ^ k"
    "Suc (2 * ?j) * 2 ^ k \<le> 511"
    by auto
  have left: "merkle_node toy ?f k (2 * ?j) = DEFAULT_HASHES ! (9 - k)"
    using zero_block [OF toy_ladder_ok, of k "2 * ?j" ?f] Suc.prems j(4) by (simp add: TREE_DEPTH_def one_leaf_def)
  have "merkle_node toy ?f k (511 div 2 ^ k) \<noteq> DEFAULT_HASHES ! (9 - k)"
    using toy_only_empty [of k ?f "511 div 2 ^ k" 511] Suc.prems j(2,3) ones by auto
  then have "toy_compress2 (merkle_node toy ?f k (2 * ?j)) (merkle_node toy ?f k (511 div 2 ^ k)) ! 0 = last_byte (Suc k)"
    using toy_first_byte [of "merkle_node toy ?f k (2 * ?j)" "merkle_node toy ?f k (511 div 2 ^ k)"] Suc left
      toy_node_length [of ?f k] by (simp add: one_leaf_length del: div_mult2_eq)
  then show ?case using j(1) by (simp add: toy_hash)
qed

lemma toy_leaves_differ:
  "merkle_root toy (one_leaf 0 (bytes_of 1)) \<noteq> merkle_root toy (one_leaf 511 (bytes_of 1))"
  "merkle_root toy ((one_leaf 0 (bytes_of 1))(1 := bytes_of 2)) \<noteq> merkle_root toy (one_leaf 0 (bytes_of 1))"
  "merkle_root toy (first_leaves 2) \<noteq> merkle_root toy (first_leaves 1)"
proof -
  have "first_byte 9 \<noteq> last_byte 9" by code_simp
  then have "merkle_node toy (one_leaf 0 (bytes_of 1)) 9 0 ! 0 \<noteq> merkle_node toy (one_leaf 511 (bytes_of 1)) 9 0 ! 0"
    using first_leaf_byte [of 9] last_leaf_byte [of 9] by simp
  then show "merkle_root toy (one_leaf 0 (bytes_of 1)) \<noteq> merkle_root toy (one_leaf 511 (bytes_of 1))"
    unfolding merkle_root_def TREE_DEPTH_def by metis
  show "merkle_root toy ((one_leaf 0 (bytes_of 1))(1 := bytes_of 2)) \<noteq> merkle_root toy (one_leaf 0 (bytes_of 1))"
    by (rule toy_left_differs [where k = 1])
      (use ones in \<open>simp_all add: one_leaf_def toy_hash toy_first_byte ZERO_first\<close>)
  have two: "first_leaves 2 0 = leaf_for 0" "first_leaves 2 1 = leaf_for 1" "first_leaves 1 0 = leaf_for 0" "first_leaves 1 1 = ZERO"
    by (simp_all add: first_leaves_def)
  have byte: "leaf_for 1 ! 0 = 1" by code_simp
  have node: "merkle_node toy f 1 0 ! 0 = f 0 ! 0 + 3 * f 1 ! 0 + 7"
    if "length (f 0) = 32" "length (f 1) = 32" "f 0 \<noteq> f 1" for f
    using toy_first_byte [OF that(1,2)] that(3) by (simp add: toy_hash)
  show "merkle_root toy (first_leaves 2) \<noteq> merkle_root toy (first_leaves 1)"
  proof (rule toy_left_differs [where k = 1])
    show "merkle_node toy (first_leaves 2) 1 0 ! 0 \<noteq> merkle_node toy (first_leaves 1) 1 0 ! 0"
      using leaf_for_0_1 by (subst (1 2) node) (simp_all only: two length_leaf_for length_ZERO byte ZERO_first, simp_all)
  qed (simp_all add: first_leaves_def leaf_for_0_1)
qed

lemma toy_tree_test_values: "tree_test_values toy"
proof -
  have "list_all (\<lambda>i. felt_valid toy (leaf_for (word_of_nat i))) [0..<512]"
    by (simp add: list_all_iff toy_hash toy_valid_def leaf_for_def splice_def nth_append)
  moreover have "list_all (\<lambda>b. felt_valid toy (bytes_of b)) [1, 2, 3, 42]" "\<not> felt_valid toy (bytes_of 0xFF)"
    by (simp_all add: toy_hash toy_valid_def)
  moreover have b: "bytes_of 2 \<noteq> ZERO" "bytes_of 42 \<noteq> ZERO" by code_simp+
  have "merkle_root toy f \<noteq> merkle_root toy (\<lambda>_. ZERO)"
    if "f \<in> {one_leaf 0 (bytes_of 2), one_leaf 0 (bytes_of 42), first_leaves 512}" for f
    using that b leaf_for_0_1(2) by (intro toy_root_differs [of 0]) (auto simp: first_leaves_def)
  moreover have "merkle_root toy (one_leaf 511 (bytes_of 1)) \<noteq> merkle_root toy (\<lambda>_. ZERO)"
    using ones by (intro toy_root_differs [of 511]) simp_all
  ultimately show ?thesis
    unfolding tree_test_values_def compared_trees_def by (simp add: toy_leaves_differ del: One_nat_def)
qed

theorem tree_tests_pass_witness: "passes (tree_tests toy)"
  using tree_tests_pass [OF toy_poseidon toy_tree_test_values] .

end
