(* ===== verification/LayoutTests.thy ===== *)
theory LayoutTests
  imports TestHarness
begin

text \<open>
  The unit tests of the layout crate (\<open>rln-layouts/src/state.rs\<close>, \<open>exit.rs\<close>), of the host's offset table
  (\<open>src/rln/constants.rs\<close>), of the guest's registration helpers (\<open>methods/guest/src/registration.rs\<close>,
  \<open>fail.rs\<close>) and of the host's account derivations (\<open>src/rln/pda.rs\<close>, \<open>src/merkle_tree/pda.rs\<close>).
\<close>

section \<open>Encodings and their offsets\<close>

definition config_state_is_the_size_its_readers_assume :: bool where
  "config_state_is_the_size_its_readers_assume \<longleftrightarrow>
     length (enc_config \<lparr>cs_merkle_program_id = replicate 32 1, cs_tree_id = replicate 32 2, cs_price_per_unit = 3,
       cs_treasury_account_id = replicate 32 4, cs_total_registrations = 5, cs_max_total_rate_limit = 6,
       cs_current_total_rate_limit = 7, cs_active_duration_sec = 8, cs_grace_period_duration_sec = 9\<rparr>) = CONFIG_STATE_SIZE"

definition config_state_fields_sit_where_the_offset_readers_look :: bool where
  "config_state_fields_sit_where_the_offset_readers_look \<longleftrightarrow>
     (let b = enc_config \<lparr>cs_merkle_program_id = replicate 32 0xAA, cs_tree_id = replicate 32 0xBB,
        cs_price_per_unit = 0x1122334455667788, cs_treasury_account_id = replicate 32 0xCC,
        cs_total_registrations = 0x01020304, cs_max_total_rate_limit = 0x05060708,
        cs_current_total_rate_limit = 0x090A0B0C, cs_active_duration_sec = 0x0D0E, cs_grace_period_duration_sec = 0x0F10\<rparr>
      in read_slice 0 32 b = Inr (replicate 32 0xAA) \<and> read_slice 32 32 b = Inr (replicate 32 0xBB) \<and>
         read_slice 64 16 b = Inr (u128_le 0x1122334455667788) \<and> read_slice 80 32 b = Inr (replicate 32 0xCC) \<and>
         read_slice 112 8 b = Inr (u64_le 0x01020304) \<and> read_slice 120 8 b = Inr (u64_le 0x05060708) \<and>
         read_slice 128 8 b = Inr (u64_le 0x090A0B0C) \<and> read_slice 136 4 b = Inr (u32_le 0x0D0E) \<and>
         read_slice 140 4 b = Inr (u32_le 0x0F10))"

definition membership_state_is_the_size_its_readers_assume :: bool where
  "membership_state_is_the_size_its_readers_assume \<longleftrightarrow>
     length (enc_membership \<lparr>ms_rate_limit = 2, ms_id_commitment = replicate 32 3, ms_grace_period_start_timestamp_ms = 4,
       ms_active_duration_sec = 5, ms_grace_period_duration_sec = 6\<rparr>) = MEMBERSHIP_STATE_SIZE"

definition CONFIG_SIZE :: nat where "CONFIG_SIZE = CONFIG_STATE_SIZE"
definition MEMBERSHIP_SIZE :: nat where "MEMBERSHIP_SIZE = MEMBERSHIP_STATE_SIZE"

text \<open>Reading an integer out of a slice, as \<open>from_le_bytes(b[off..off + n].try_into().unwrap())\<close> does.\<close>

definition reads_to :: "(bytes \<Rightarrow> 'a) \<Rightarrow> nat \<Rightarrow> nat \<Rightarrow> bytes \<Rightarrow> 'a \<Rightarrow> bool" where
  "reads_to f off n b v \<longleftrightarrow> rbind (read_slice off n b) (\<lambda>s. Inr (f s)) = Inr v"

definition config_offsets_match_the_shared_layout :: bool where
  "config_offsets_match_the_shared_layout \<longleftrightarrow>
     (let b = enc_config \<lparr>cs_merkle_program_id = replicate 32 0x11, cs_tree_id = replicate 32 0x22,
        cs_price_per_unit = 0xDEADBEEF, cs_treasury_account_id = replicate 32 0x33,
        cs_total_registrations = 0x0A0B, cs_max_total_rate_limit = 0x0C0D, cs_current_total_rate_limit = 0x0E0F,
        cs_active_duration_sec = 0x1011, cs_grace_period_duration_sec = 0x1213\<rparr>
      in length b = CONFIG_SIZE \<and>
         reads_to id CONFIG_OFFSET_MERKLE_PROGRAM_ID 32 b (replicate 32 0x11) \<and>
         reads_to id CONFIG_OFFSET_TREE_ID 32 b (replicate 32 0x22) \<and>
         reads_to u128_of CONFIG_OFFSET_PRICE_PER_UNIT 16 b 0xDEADBEEF \<and>
         reads_to id CONFIG_OFFSET_TREASURY_ACCOUNT_ID 32 b (replicate 32 0x33) \<and>
         reads_to u64_of CONFIG_OFFSET_TOTAL_REGISTRATIONS 8 b 0x0A0B \<and>
         reads_to u64_of CONFIG_OFFSET_MAX_TOTAL_RATE_LIMIT 8 b 0x0C0D \<and>
         reads_to u64_of CONFIG_OFFSET_CURRENT_TOTAL_RATE_LIMIT 8 b 0x0E0F \<and>
         reads_to u32_of CONFIG_OFFSET_ACTIVE_DURATION 4 b 0x1011 \<and>
         reads_to u32_of CONFIG_OFFSET_GRACE_PERIOD_DURATION 4 b 0x1213)"

definition membership_offsets_match_the_shared_layout :: bool where
  "membership_offsets_match_the_shared_layout \<longleftrightarrow>
     (let b = enc_membership \<lparr>ms_rate_limit = 0x0102, ms_id_commitment = replicate 32 0x44,
        ms_grace_period_start_timestamp_ms = 0x0304, ms_active_duration_sec = 0x0506, ms_grace_period_duration_sec = 0x0708\<rparr>
      in length b = MEMBERSHIP_SIZE \<and>
         reads_to u64_of MEMBERSHIP_OFFSET_RATE_LIMIT 8 b 0x0102 \<and>
         reads_to id MEMBERSHIP_OFFSET_ID_COMMITMENT 32 b (replicate 32 0x44) \<and>
         reads_to u64_of MEMBERSHIP_OFFSET_GRACE_PERIOD_START_TIMESTAMP 8 b 0x0304 \<and>
         reads_to u32_of MEMBERSHIP_OFFSET_ACTIVE_DURATION 4 b 0x0506 \<and>
         reads_to u32_of MEMBERSHIP_OFFSET_GRACE_PERIOD_DURATION 4 b 0x0708)"

definition all_exit_codes :: "u8 list" where
  "all_exit_codes = [EXIT_STALE_CLOCK, EXIT_CLOCK_NOT_INITIALIZED, EXIT_STALE_CONFIG, EXIT_RATE_LIMIT_FULL,
     EXIT_MEMBERSHIP_EXISTS, EXIT_MEMBERSHIP_MISSING, EXIT_STALE_RATE_LIMIT, EXIT_NOT_IN_GRACE_PERIOD,
     EXIT_NOT_EXPIRED, EXIT_LEAF_MISMATCH, EXIT_TREE_FULL]"

definition every_code_is_named_and_distinct :: bool where
  "every_code_is_named_and_distinct \<longleftrightarrow>
     list_all (\<lambda>a. exit_code_name (ucast a) \<noteq> None) all_exit_codes \<and> distinct all_exit_codes \<and>
     distinct (map (\<lambda>a. exit_code_name (ucast a)) all_exit_codes) \<and>
     exit_code_name 0 = None \<and> exit_code_name (256 + ucast EXIT_STALE_CLOCK) = None"

section \<open>The guest's helpers\<close>

definition ensure_fails_with_code_and_message :: bool where
  "ensure_fails_with_code_and_message \<longleftrightarrow> should_panic ''exit 10: clock moved to 5'' (ensure ((1::nat) + 1 = 3) 10 (''clock moved to '' @ decimal 5))"

definition ensure_passes_when_true :: bool where
  "ensure_passes_when_true \<longleftrightarrow> ensure ((1::nat) + 1 = 2) 10 ''unreachable'' = Inr ()"

definition test_validate_rate_limit_valid :: bool where
  "test_validate_rate_limit_valid \<longleftrightarrow>
     rbind (validate_rate_limit MIN_RATE_LIMIT) (\<lambda>_. rbind (validate_rate_limit MAX_RATE_LIMIT) (\<lambda>_.
     validate_rate_limit 300)) = Inr ()"

definition test_validate_rate_limit_too_low :: bool where
  "test_validate_rate_limit_too_low \<longleftrightarrow> should_panic ''below minimum'' (validate_rate_limit (MIN_RATE_LIMIT - 1))"

definition test_validate_rate_limit_too_high :: bool where
  "test_validate_rate_limit_too_high \<longleftrightarrow> should_panic ''above maximum'' (validate_rate_limit (MAX_RATE_LIMIT + 1))"

definition test_calculate_payment_amount :: bool where
  "test_calculate_payment_amount \<longleftrightarrow> calculate_payment_amount 100 10 = 1000 \<and> calculate_payment_amount 600 5 = 3000"

definition calculate_payment_amount_saturates_instead_of_wrapping :: bool where
  "calculate_payment_amount_saturates_instead_of_wrapping \<longleftrightarrow> calculate_payment_amount 2 (- 1) = - 1"

definition test_compute_registration_leaf :: "external \<Rightarrow> bool" where
  "test_compute_registration_leaf E \<longleftrightarrow> holds (
     rbind (compute_registration_leaf E (replicate 32 1) 100) (\<lambda>leaf.
     rbind (compute_registration_leaf E (replicate 32 1) 100) (\<lambda>leaf2.
     rbind (compute_registration_leaf E (replicate 32 1) 200) (\<lambda>leaf3.
     Inr (leaf = leaf2 \<and> leaf \<noteq> leaf3)))))"

definition test_is_in_grace_period_boundaries :: bool where
  "test_is_in_grace_period_boundaries \<longleftrightarrow>
     \<not> is_in_grace_period 1000 100 999 \<and> is_in_grace_period 1000 100 1000 \<and> is_in_grace_period 1000 100 1099 \<and>
     \<not> is_in_grace_period 1000 100 1100 \<and> \<not> is_in_grace_period 1000 100 5000"

definition test_is_expired_boundaries :: bool where
  "test_is_expired_boundaries \<longleftrightarrow>
     \<not> is_expired 1000 100 999 \<and> \<not> is_expired 1000 100 1099 \<and> is_expired 1000 100 1100 \<and> is_expired 1000 100 5000"

definition test_grace_period_zero_duration_transitions_directly_to_expired :: bool where
  "test_grace_period_zero_duration_transitions_directly_to_expired \<longleftrightarrow>
     \<not> is_in_grace_period 1000 0 1000 \<and> is_expired 1000 0 1000"

text \<open>\<open>ClockAccountData { block_id: 7, timestamp }.to_bytes()\<close>, over the clock crate's \<open>to_bytes\<close>.\<close>

definition clock_shard :: "(u64 \<Rightarrow> u64 \<Rightarrow> bytes) \<Rightarrow> u64 \<Rightarrow> bytes" where
  "clock_shard to_bytes timestamp = to_bytes 7 timestamp"

definition clock_meta_at :: "bytes \<Rightarrow> account_id \<Rightarrow> account_meta" where
  "clock_meta_at a program = account_meta_new a False program"

definition require_clock_account_accepts_clock50_clock_shard :: "external \<Rightarrow> bool" where
  "require_clock_account_accepts_clock50_clock_shard E \<longleftrightarrow>
     require_clock_account E (clock_meta_at CLOCK_50_ACCOUNT_ID_BYTES (clock_account_id E)) = Inr ()"

definition require_clock_account_rejects_other_account :: "external \<Rightarrow> bool" where
  "require_clock_account_rejects_other_account E \<longleftrightarrow>
     should_panic ''Wrong clock account'' (require_clock_account E (clock_meta_at (replicate 32 9) (clock_account_id E)))"

definition require_clock_account_rejects_foreign_shard :: "external \<Rightarrow> bool" where
  "require_clock_account_rejects_foreign_shard E \<longleftrightarrow>
     should_panic ''clock program's shard''
       (require_clock_account E (clock_meta_at CLOCK_50_ACCOUNT_ID_BYTES (replicate 32 3)))"

definition T_ms :: u64 where "T_ms = 10000000"

definition assert_clock_is_accepts_matching_timestamp :: "external \<Rightarrow> (u64 \<Rightarrow> u64 \<Rightarrow> bytes) \<Rightarrow> bool" where
  "assert_clock_is_accepts_matching_timestamp E to_bytes \<longleftrightarrow> assert_clock_is E (clock_shard to_bytes T_ms) T_ms = Inr ()"

definition assert_clock_is_accepts_a_claim_up_to_the_tolerance_behind :: "external \<Rightarrow> (u64 \<Rightarrow> u64 \<Rightarrow> bytes) \<Rightarrow> bool" where
  "assert_clock_is_accepts_a_claim_up_to_the_tolerance_behind E to_bytes \<longleftrightarrow>
     assert_clock_is E (clock_shard to_bytes T_ms) (T_ms - 1) = Inr () \<and>
     assert_clock_is E (clock_shard to_bytes T_ms) (T_ms - CLOCK_CLAIM_TOLERANCE_MS) = Inr ()"

definition assert_clock_is_rejects_a_claim_ahead_of_the_clock :: "external \<Rightarrow> (u64 \<Rightarrow> u64 \<Rightarrow> bytes) \<Rightarrow> bool" where
  "assert_clock_is_rejects_a_claim_ahead_of_the_clock E to_bytes \<longleftrightarrow>
     should_panic ''exit 10: Claimed now_ms'' (assert_clock_is E (clock_shard to_bytes T_ms) (T_ms + 1))"

definition assert_clock_is_rejects_a_claim_older_than_the_tolerance :: "external \<Rightarrow> (u64 \<Rightarrow> u64 \<Rightarrow> bytes) \<Rightarrow> bool" where
  "assert_clock_is_rejects_a_claim_older_than_the_tolerance E to_bytes \<longleftrightarrow>
     should_panic ''exit 10: Claimed now_ms'' (assert_clock_is E (clock_shard to_bytes T_ms) (T_ms - CLOCK_CLAIM_TOLERANCE_MS - 1))"

definition assert_clock_is_rejects_genesis_zero :: "external \<Rightarrow> (u64 \<Rightarrow> u64 \<Rightarrow> bytes) \<Rightarrow> bool" where
  "assert_clock_is_rejects_genesis_zero E to_bytes \<longleftrightarrow>
     should_panic ''ClockNotInitialized'' (assert_clock_is E (clock_shard to_bytes 0) 0)"

section \<open>The host's account derivations\<close>

definition mock_program_id :: account_id where "mock_program_id = replicate 32 1"

definition tree_id_a :: bytes where "tree_id_a = (replicate 32 0)[0 := 7]"

definition tree_id_b :: bytes where "tree_id_b = tree_id_a[1 := 9]"

definition pda_derivation_is_deterministic :: "external \<Rightarrow> bool" where
  "pda_derivation_is_deterministic E \<longleftrightarrow> holds (
     rbind (derive_config_account E mock_program_id tree_id_a) (\<lambda>c1.
     rbind (derive_config_account E mock_program_id tree_id_a) (\<lambda>c2.
     rbind (derive_membership_account E mock_program_id tree_id_a (replicate 32 2)) (\<lambda>m1.
     rbind (derive_membership_account E mock_program_id tree_id_a (replicate 32 2)) (\<lambda>m2.
     Inr (c1 = c2 \<and> m1 = m2))))))"

definition different_tree_ids_produce_different_pdas :: "external \<Rightarrow> bool" where
  "different_tree_ids_produce_different_pdas E \<longleftrightarrow> holds (
     rbind (derive_config_account E mock_program_id tree_id_a) (\<lambda>a.
     rbind (derive_config_account E mock_program_id tree_id_b) (\<lambda>b. Inr (a \<noteq> b))))"

definition all_pda_types_are_distinct :: "external \<Rightarrow> bool" where
  "all_pda_types_are_distinct E \<longleftrightarrow> holds (
     rbind (derive_config_account E mock_program_id tree_id_a) (\<lambda>config.
     rbind (derive_main_account E mock_program_id tree_id_a) (\<lambda>main.
     rbind (derive_membership_account E mock_program_id tree_id_a (replicate 32 3)) (\<lambda>mem.
     Inr (distinct [config, main, mem])))))"

definition membership_pdas_differ_by_commitment :: "external \<Rightarrow> bool" where
  "membership_pdas_differ_by_commitment E \<longleftrightarrow> holds (
     rbind (derive_membership_account E mock_program_id tree_id_a (replicate 32 1)) (\<lambda>a.
     rbind (derive_membership_account E mock_program_id tree_id_a (replicate 32 2)) (\<lambda>b. Inr (a \<noteq> b))))"

definition membership_pdas_differ_by_tree :: "external \<Rightarrow> bool" where
  "membership_pdas_differ_by_tree E \<longleftrightarrow> holds (
     rbind (derive_membership_account E mock_program_id tree_id_a (replicate 32 5)) (\<lambda>a.
     rbind (derive_membership_account E mock_program_id tree_id_b (replicate 32 5)) (\<lambda>b. Inr (a \<noteq> b))))"

definition membership_seed_matches_derive :: "external \<Rightarrow> bool" where
  "membership_seed_matches_derive E \<longleftrightarrow> holds (
     rbind (membership_pda_seed E tree_id_a (replicate 32 4)) (\<lambda>seed.
     rbind (derive_membership_account E mock_program_id tree_id_a (replicate 32 4)) (\<lambda>derived.
     Inr (for_public_pda E mock_program_id seed = derived))))"

definition main_pdas_vary_by_tree :: "external \<Rightarrow> bool" where
  "main_pdas_vary_by_tree E \<longleftrightarrow> holds (
     rbind (derive_main_account E (replicate 32 1) (replicate 32 1)) (\<lambda>a.
     rbind (derive_main_account E (replicate 32 1) (replicate 32 2)) (\<lambda>b. Inr (a \<noteq> b))))"

definition raw_seed_matches_derived_account :: "external \<Rightarrow> bool" where
  "raw_seed_matches_derived_account E \<longleftrightarrow> holds (
     rbind (main_pda_seed E (replicate 32 2)) (\<lambda>seed.
     rbind (derive_main_account E (replicate 32 1) (replicate 32 2)) (\<lambda>derived.
     Inr (for_public_pda E (replicate 32 1) seed = derived))))"

section \<open>The suite\<close>

definition layout_tests :: "external \<Rightarrow> (u64 \<Rightarrow> u64 \<Rightarrow> bytes) \<Rightarrow> suite" where
  "layout_tests E to_bytes =
     [(''config_state_is_the_size_its_readers_assume'', config_state_is_the_size_its_readers_assume),
      (''config_state_fields_sit_where_the_offset_readers_look'', config_state_fields_sit_where_the_offset_readers_look),
      (''membership_state_is_the_size_its_readers_assume'', membership_state_is_the_size_its_readers_assume),
      (''config_offsets_match_the_shared_layout'', config_offsets_match_the_shared_layout),
      (''membership_offsets_match_the_shared_layout'', membership_offsets_match_the_shared_layout),
      (''every_code_is_named_and_distinct'', every_code_is_named_and_distinct),
      (''ensure_fails_with_code_and_message'', ensure_fails_with_code_and_message),
      (''ensure_passes_when_true'', ensure_passes_when_true),
      (''test_validate_rate_limit_valid'', test_validate_rate_limit_valid),
      (''test_validate_rate_limit_too_low'', test_validate_rate_limit_too_low),
      (''test_validate_rate_limit_too_high'', test_validate_rate_limit_too_high),
      (''test_calculate_payment_amount'', test_calculate_payment_amount),
      (''calculate_payment_amount_saturates_instead_of_wrapping'', calculate_payment_amount_saturates_instead_of_wrapping),
      (''test_compute_registration_leaf'', test_compute_registration_leaf E),
      (''test_is_in_grace_period_boundaries'', test_is_in_grace_period_boundaries),
      (''test_is_expired_boundaries'', test_is_expired_boundaries),
      (''test_grace_period_zero_duration_transitions_directly_to_expired'', test_grace_period_zero_duration_transitions_directly_to_expired),
      (''require_clock_account_accepts_clock50_clock_shard'', require_clock_account_accepts_clock50_clock_shard E),
      (''require_clock_account_rejects_other_account'', require_clock_account_rejects_other_account E),
      (''require_clock_account_rejects_foreign_shard'', require_clock_account_rejects_foreign_shard E),
      (''assert_clock_is_accepts_matching_timestamp'', assert_clock_is_accepts_matching_timestamp E to_bytes),
      (''assert_clock_is_accepts_a_claim_up_to_the_tolerance_behind'', assert_clock_is_accepts_a_claim_up_to_the_tolerance_behind E to_bytes),
      (''assert_clock_is_rejects_a_claim_ahead_of_the_clock'', assert_clock_is_rejects_a_claim_ahead_of_the_clock E to_bytes),
      (''assert_clock_is_rejects_a_claim_older_than_the_tolerance'', assert_clock_is_rejects_a_claim_older_than_the_tolerance E to_bytes),
      (''assert_clock_is_rejects_genesis_zero'', assert_clock_is_rejects_genesis_zero E to_bytes),
      (''pda_derivation_is_deterministic'', pda_derivation_is_deterministic E),
      (''different_tree_ids_produce_different_pdas'', different_tree_ids_produce_different_pdas E),
      (''all_pda_types_are_distinct'', all_pda_types_are_distinct E),
      (''membership_pdas_differ_by_commitment'', membership_pdas_differ_by_commitment E),
      (''membership_pdas_differ_by_tree'', membership_pdas_differ_by_tree E),
      (''membership_seed_matches_derive'', membership_seed_matches_derive E),
      (''main_pdas_vary_by_tree'', main_pdas_vary_by_tree E),
      (''raw_seed_matches_derived_account'', raw_seed_matches_derived_account E)]"

text \<open>What the values of the tests need of the hashes and of the clock crate: no collision among the hashed preimages.\<close>

definition no_clash :: "('a \<Rightarrow> 'b) \<Rightarrow> 'a list \<Rightarrow> bool" where
  "no_clash f xs \<longleftrightarrow> list_all (\<lambda>x. list_all (\<lambda>y. f x = f y \<longrightarrow> x = y) xs) xs"

definition pda_preimages :: "bytes list" where
  "pda_preimages =
     [padded ''config'' @ tree_id_a, padded ''config'' @ tree_id_b, padded ''main'' @ tree_id_a,
      padded ''main'' @ replicate 32 1, padded ''main'' @ replicate 32 2,
      padded ''membership'' @ tree_id_a @ replicate 32 1, padded ''membership'' @ tree_id_a @ replicate 32 2,
      padded ''membership'' @ tree_id_a @ replicate 32 3, padded ''membership'' @ tree_id_a @ replicate 32 5,
      padded ''membership'' @ tree_id_b @ replicate 32 5]"

definition layout_test_values :: "external \<Rightarrow> (u64 \<Rightarrow> u64 \<Rightarrow> bytes) \<Rightarrow> bool" where
  "layout_test_values E to_bytes \<longleftrightarrow>
     no_clash (\<lambda>p. for_public_pda E mock_program_id (sha256 E p)) pda_preimages \<and>
     list_all (felt_valid E) [replicate 32 1, rate_felt 100, rate_felt 200] \<and>
     no_clash (\<lambda>r. compress2 E (replicate 32 1) (rate_felt r)) [100, 200] \<and>
     clock_account_id E \<noteq> replicate 32 3 \<and>
     list_all (\<lambda>ts. clock_timestamp E (to_bytes 7 ts) = Some ts) [T_ms, 0]"

section \<open>The tests pass\<close>

lemma encoding_tests_hold:
  "config_state_is_the_size_its_readers_assume" "config_state_fields_sit_where_the_offset_readers_look"
  "membership_state_is_the_size_its_readers_assume" "config_offsets_match_the_shared_layout"
  "membership_offsets_match_the_shared_layout"
  by (simp_all add: config_state_is_the_size_its_readers_assume_def config_state_fields_sit_where_the_offset_readers_look_def
      membership_state_is_the_size_its_readers_assume_def config_offsets_match_the_shared_layout_def
      membership_offsets_match_the_shared_layout_def reads_to_def enc_config_def enc_membership_def CONFIG_STATE_SIZE_def
      MEMBERSHIP_STATE_SIZE_def CONFIG_SIZE_def MEMBERSHIP_SIZE_def config_offsets membership_offsets Let_def
      read_slice_ok slice_def)

lemma exit_test_holds: "every_code_is_named_and_distinct"
  by (simp add: every_code_is_named_and_distinct_def all_exit_codes_def exit_code_name_def exit_codes Let_def)

lemma helper_tests_hold:
  "ensure_fails_with_code_and_message" "ensure_passes_when_true" "test_validate_rate_limit_valid"
  "test_validate_rate_limit_too_low" "test_validate_rate_limit_too_high" "test_calculate_payment_amount"
  "calculate_payment_amount_saturates_instead_of_wrapping" "test_is_in_grace_period_boundaries"
  "test_is_expired_boundaries" "test_grace_period_zero_duration_transitions_directly_to_expired"
  by (simp_all add: ensure_fails_with_code_and_message_def ensure_passes_when_true_def test_validate_rate_limit_valid_def
      test_validate_rate_limit_too_low_def test_validate_rate_limit_too_high_def test_calculate_payment_amount_def
      calculate_payment_amount_saturates_instead_of_wrapping_def test_is_in_grace_period_boundaries_def
      test_is_expired_boundaries_def test_grace_period_zero_duration_transitions_directly_to_expired_def
      should_panic_def decimals contains_append ensure_def fail_def validate_rate_limit_def MIN_RATE_LIMIT_def MAX_RATE_LIMIT_def
      calculate_payment_amount_def is_in_grace_period_def is_expired_def sat_add_def sat_mul_def unat_max_word)

lemma no_clashD: "no_clash f xs \<Longrightarrow> x \<in> set xs \<Longrightarrow> y \<in> set xs \<Longrightarrow> x \<noteq> y \<Longrightarrow> f x \<noteq> f y"
  by (auto simp: no_clash_def list_all_iff)

text \<open>The preimages are different strings of bytes.\<close>

lemma distinct_preimages: "distinct pda_preimages"
  by code_simp

lemma preimage_accounts:
  assumes "layout_test_values E to_bytes"
  shows "distinct (map (\<lambda>p. for_public_pda E mock_program_id (sha256 E p)) pda_preimages)"
proof -
  have "inj_on (\<lambda>p. for_public_pda E mock_program_id (sha256 E p)) (set pda_preimages)"
    using assms by (auto simp: layout_test_values_def no_clash_def list_all_iff intro!: inj_onI)
  then show ?thesis using distinct_preimages by (simp add: distinct_map)
qed

lemma pda_tests_hold:
  assumes "layout_test_values E to_bytes"
  shows "pda_derivation_is_deterministic E" and "different_tree_ids_produce_different_pdas E"
    and "all_pda_types_are_distinct E" and "membership_pdas_differ_by_commitment E"
    and "membership_pdas_differ_by_tree E" and "membership_seed_matches_derive E"
    and "main_pdas_vary_by_tree E" and "raw_seed_matches_derived_account E"
  using preimage_accounts [OF assms]
  unfolding pda_derivation_is_deterministic_def different_tree_ids_produce_different_pdas_def
    all_pda_types_are_distinct_def membership_pdas_differ_by_commitment_def membership_pdas_differ_by_tree_def
    membership_seed_matches_derive_def main_pdas_vary_by_tree_def raw_seed_matches_derived_account_def holds_def
  by (simp_all add: pda_preimages_def pda_config_def pda_main_def pda_membership_def seed_config_def seed_main_def
      seed_membership_def mock_program_id_def)

lemma leaf_test_holds:
  assumes "layout_test_values E to_bytes" shows "test_compute_registration_leaf E"
proof -
  have leaf: "compute_registration_leaf E (replicate 32 1) r = Inr (membership_leaf E (replicate 32 1) r)" if "r \<in> {100, 200}" for r
    using assms that by (auto simp: registration_leaf_iff layout_test_values_def)
  have "membership_leaf E (replicate 32 1) 100 \<noteq> membership_leaf E (replicate 32 1) 200"
    using assms no_clashD [of "\<lambda>r. compress2 E (replicate 32 1) (rate_felt r)" "[100, 200]" 100 200]
    by (simp add: layout_test_values_def membership_leaf_def)
  then show ?thesis by (simp add: test_compute_registration_leaf_def holds_def leaf)
qed

lemma clock_tests_hold:
  assumes "layout_test_values E to_bytes"
  shows "require_clock_account_accepts_clock50_clock_shard E" and "require_clock_account_rejects_other_account E"
    and "require_clock_account_rejects_foreign_shard E" and "assert_clock_is_accepts_matching_timestamp E to_bytes"
    and "assert_clock_is_accepts_a_claim_up_to_the_tolerance_behind E to_bytes"
    and "assert_clock_is_rejects_a_claim_ahead_of_the_clock E to_bytes"
    and "assert_clock_is_rejects_a_claim_older_than_the_tolerance E to_bytes"
    and "assert_clock_is_rejects_genesis_zero E to_bytes"
proof -
  have other: "replicate 32 9 \<noteq> CLOCK_50_ACCOUNT_ID_BYTES" by code_simp
  have "clock_account_id E \<noteq> replicate 32 3" "clock_timestamp E (to_bytes 7 T_ms) = Some T_ms"
    "clock_timestamp E (to_bytes 7 0) = Some 0"
    using assms by (simp_all add: layout_test_values_def)
  with other show "require_clock_account_accepts_clock50_clock_shard E" and "require_clock_account_rejects_other_account E"
    and "require_clock_account_rejects_foreign_shard E" and "assert_clock_is_accepts_matching_timestamp E to_bytes"
    and "assert_clock_is_accepts_a_claim_up_to_the_tolerance_behind E to_bytes"
    and "assert_clock_is_rejects_a_claim_ahead_of_the_clock E to_bytes"
    and "assert_clock_is_rejects_a_claim_older_than_the_tolerance E to_bytes"
    and "assert_clock_is_rejects_genesis_zero E to_bytes"
    by (simp_all add: require_clock_account_accepts_clock50_clock_shard_def require_clock_account_rejects_other_account_def
        require_clock_account_rejects_foreign_shard_def assert_clock_is_accepts_matching_timestamp_def
        assert_clock_is_accepts_a_claim_up_to_the_tolerance_behind_def assert_clock_is_rejects_a_claim_ahead_of_the_clock_def
        assert_clock_is_rejects_a_claim_older_than_the_tolerance_def assert_clock_is_rejects_genesis_zero_def
        require_clock_account_def clock_meta_at_def account_meta_new_def assert_clock_is_def clock_shard_def
        should_panic_def decimals exit_codes stale_clock_def ensure_def fail_def eq_commute [of "replicate 32 3"])
      (simp_all add: T_ms_def CLOCK_CLAIM_TOLERANCE_MS_def)
qed

text \<open>
  The unit tests of the layouts, of the guest's helpers and of the account derivations hold of the model:
  sizes and offsets of the encodings, names of the exit codes, rate and price checks, period boundaries, the
  clock tolerance and the distinctness of derived accounts, over any hash that does not collide on the tests'
  preimages.
\<close>

theorem layout_tests_pass:
  assumes "layout_test_values E to_bytes"
  shows "passes (layout_tests E to_bytes)"
  unfolding layout_tests_def passes_simps
  by (intro conjI encoding_tests_hold exit_test_holds helper_tests_hold pda_tests_hold [OF assms]
      leaf_test_holds [OF assms] clock_tests_hold [OF assms] passes_simps(1))

lemma no_clashI: "distinct (map f xs) \<Longrightarrow> no_clash f xs"
  by (auto simp: no_clash_def list_all_iff distinct_map dest: inj_onD)

lemma toy_sha_nth:
  "i < 32 \<Longrightarrow> toy_sha d ! i = (d @ replicate 96 0) ! i + 3 * (d @ replicate 96 0) ! (i + 32) + 9 * (d @ replicate 96 0) ! (i + 64)"
  by (simp add: toy_sha_def Let_def)

text \<open>The first two bytes of an account derived on the concrete instance.\<close>

lemma toy_account_nth:
  "for_public_pda toy mock_program_id (sha256 toy p) ! 0 = 50 + 9 * ((p @ replicate 96 0) ! 0 + 3 * (p @ replicate 96 0) ! 32 + 9 * (p @ replicate 96 0) ! 64)"
  "for_public_pda toy mock_program_id (sha256 toy p) ! Suc 0 =
    79 + 9 * ((p @ replicate 96 0) ! 1 + 3 * (p @ replicate 96 0) ! 33 + 9 * (p @ replicate 96 0) ! 65)"
proof -
  have len: "length (toy_sha p) = 32" by (simp add: toy_sha_def Let_def)
  have form: "for_public_pda toy mock_program_id (sha256 toy p) =
      toy_sha ((ascii ''/LEE/v0.2/AccountId/PDA/'' @ replicate 8 0) @ mock_program_id @ toy_sha p)"
    by (simp add: toy_def)
  have pre: "length (ascii ''/LEE/v0.2/AccountId/PDA/'' @ replicate 8 (0::u8)) = 32" by (simp add: ascii_def)
  show "for_public_pda toy mock_program_id (sha256 toy p) ! 0 = 50 + 9 * ((p @ replicate 96 0) ! 0 + 3 * (p @ replicate 96 0) ! 32 + 9 * (p @ replicate 96 0) ! 64)"
    using toy_sha_nth [of 0 p] len pre unfolding form by (simp add: toy_sha_nth nth_append mock_program_id_def ascii_def)
  show "for_public_pda toy mock_program_id (sha256 toy p) ! Suc 0 =
      79 + 9 * ((p @ replicate 96 0) ! 1 + 3 * (p @ replicate 96 0) ! 33 + 9 * (p @ replicate 96 0) ! 65)"
    using toy_sha_nth [of 1 p] len pre unfolding form by (simp add: toy_sha_nth nth_append mock_program_id_def ascii_def)
qed

lemma toy_layout_test_values: "layout_test_values toy (\<lambda>block ts. u64_le block @ u64_le ts)"
proof -
  have "distinct (map (\<lambda>h. (h ! 0, h ! 1)) (map (\<lambda>p. for_public_pda toy mock_program_id (sha256 toy p)) pda_preimages))"
    by (simp add: toy_account_nth pda_preimages_def padded_def ascii_def tree_id_a_def tree_id_b_def nth_append)
  then have "no_clash (\<lambda>p. for_public_pda toy mock_program_id (sha256 toy p)) pda_preimages"
    by (intro no_clashI) (simp only: distinct_map)
  moreover have "no_clash (\<lambda>r. compress2 toy (replicate 32 1) (rate_felt r)) [100, 200]"
  proof (rule no_clashI)
    have "replicate 32 1 ! 31 \<noteq> rate_felt r ! 31" for r by (simp add: rate_felt_def nth_append)
    then have "replicate 32 1 \<noteq> rate_felt r" for r by metis
    then have byte: "compress2 toy (replicate 32 1) (rate_felt r) ! 0 = 8 + 3 * rate_felt r ! 0" for r
      by (simp add: toy_hash toy_first_byte)
    have "rate_felt 100 ! 0 = 100" "rate_felt 200 ! 0 = 200" by code_simp+
    then show "distinct (map (\<lambda>r. compress2 toy (replicate 32 1) (rate_felt r)) [100, 200])"
      using byte [of 100] byte [of 200] by auto
  qed
  moreover have "list_all (felt_valid toy) [replicate 32 1, rate_felt 100, rate_felt 200]" by code_simp
  moreover have "clock_account_id toy \<noteq> replicate 32 3" by code_simp
  moreover have "list_all (\<lambda>ts. clock_timestamp toy (u64_le 7 @ u64_le ts) = Some ts) [T_ms, 0]"
    by (simp add: toy_def slice_def)
  ultimately show ?thesis by (simp only: layout_test_values_def simp_thms)
qed

theorem layout_tests_pass_witness: "passes (layout_tests toy (\<lambda>block ts. u64_le block @ u64_le ts))"
  using layout_tests_pass [OF toy_layout_test_values] .

end
