(* ===== verification/HostTests.thy ===== *)
theory HostTests
  imports TestHarness HostScenario
begin

text \<open>
  The unit tests of the host library: reading a tree shard (\<open>src/merkle_tree/client.rs\<close>), fee reserves, program
  headers and segment counts (\<open>src/rln/client.rs\<close>), field bytes (\<open>src/fr_bytes.rs\<close>), the circuit's padding
  (\<open>src/proof_circuit.rs\<close>) and the record of program ids (\<open>src/rln/program_ids.rs\<close>). The chain's loader, the
  field and the text libraries are parameters, as in the model.
\<close>

section \<open>Reading a tree shard\<close>

definition default_at :: "nat \<Rightarrow> bytes" where
  "default_at level = replicate 32 (or (0xD0 :: u8) (word_of_nat level))"

definition empty_shard :: "bytes result" where
  "empty_shard =
     (let shard = (replicate OFFSET_TREE_DATA 0)[OFFSET_DEPTH := word_of_nat TREE_DEPTH] in
      rbind (write_slice OFFSET_ROOT (default_at 0) shard) (\<lambda>shard1.
      write_levels 0 (map default_at [0..<TREE_DEPTH + 1]) shard1))"

definition with_nodes :: "bytes \<Rightarrow> (nat \<times> nat \<times> bytes) list \<Rightarrow> bytes" where
  "with_nodes header nodes =
     header @ u16_le (word_of_nat (length nodes)) @
     concat (map (\<lambda>(level, index, hash). u16_le (word_of_nat (node_offset level index)) @ hash) nodes)"

definition a_fresh_shard_is_the_header_and_defaults :: bool where
  "a_fresh_shard_is_the_header_and_defaults \<longleftrightarrow> OFFSET_TREE_DATA = 489 \<and> holds (
     rbind empty_shard (\<lambda>shard.
     rbind (ParsedTreeMain_from_bytes shard) (\<lambda>header.
     rbind (node_hash shard TREE_DEPTH 7) (\<lambda>leaf.
     rbind (node_hash shard 0 0) (\<lambda>root.
     Inr (ptm_next_index header = 0 \<and> leaf = default_at TREE_DEPTH \<and> root = default_at 0))))))"

definition a_stored_leaf_is_read_at_its_node_offset :: bool where
  "a_stored_leaf_is_read_at_its_node_offset \<longleftrightarrow> holds (
     rbind empty_shard (\<lambda>empty. let shard = with_nodes empty [(TREE_DEPTH, 3, replicate 32 0x33)] in
     rbind (node_hash shard TREE_DEPTH 3) (\<lambda>leaf3.
     rbind (node_hash shard TREE_DEPTH 2) (\<lambda>leaf2.
     Inr (leaf3 = replicate 32 0x33 \<and> leaf2 = default_at TREE_DEPTH)))))"

definition a_proof_takes_each_sibling_from_its_own_level :: bool where
  "a_proof_takes_each_sibling_from_its_own_level \<longleftrightarrow> holds (
     rbind empty_shard (\<lambda>empty.
     let shard = with_nodes empty [(TREE_DEPTH - 1, 0, replicate 32 0x10), (TREE_DEPTH, 2, replicate 32 0x22),
       (TREE_DEPTH, 3, replicate 32 0x33)] in
     rbind (merkle_proof_of shard 2) (\<lambda>proof.
     rbind (index_at (mp_path_elements proof) 0) (\<lambda>sibling0.
     rbind (index_at (mp_path_elements proof) 1) (\<lambda>sibling1.
     rbind (read_slice 0 2 (mp_path_indices proof)) (\<lambda>bits.
     Inr (mp_leaf proof = replicate 32 0x22 \<and> length (mp_path_elements proof) = TREE_DEPTH \<and>
       sibling0 = replicate 32 0x33 \<and> sibling1 = replicate 32 0x10 \<and>
       list_all (\<lambda>i. mp_path_elements proof ! i = default_at (TREE_DEPTH - i)) [2..<length (mp_path_elements proof)] \<and>
       bits = [0, 1] \<and> list_all (\<lambda>bit. bit = 0) (drop 2 (mp_path_indices proof)))))))))"

definition find_leaf_index_scans_below_next_index_newest_first :: bool where
  "find_leaf_index_scans_below_next_index_newest_first \<longleftrightarrow> holds (
     rbind empty_shard (\<lambda>empty.
     rbind (write_slice OFFSET_NEXT_INDEX (u64_le 3) empty) (\<lambda>three.
     let shard = with_nodes three [(TREE_DEPTH, 0, replicate 32 0x11), (TREE_DEPTH, 2, replicate 32 0x11),
       (TREE_DEPTH, 3, replicate 32 0x33)] in
     rbind (find_leaf_index shard (replicate 32 0x11)) (\<lambda>newest.
     rbind (find_leaf_index shard (replicate 32 0x33)) (\<lambda>past.
     rbind (find_leaf_index shard (replicate 32 0x44)) (\<lambda>absent.
     Inr (newest = Some 2 \<and> past = None \<and> absent = None)))))))"

definition a_proof_past_the_last_leaf_is_refused :: bool where
  "a_proof_past_the_last_leaf_is_refused \<longleftrightarrow>
     should_panic ''past the last leaf'' (rbind empty_shard (\<lambda>shard. merkle_proof_of shard (unat TREE_LEAVES)))"

definition an_empty_shard_is_refused :: bool where
  "an_empty_shard_is_refused \<longleftrightarrow> should_panic ''Is the tree initialized'' (ParsedTreeMain_from_bytes [])"

definition a_shard_of_another_depth_is_refused :: bool where
  "a_shard_of_another_depth_is_refused \<longleftrightarrow>
     should_panic ''this host is built for depth''
       (rbind empty_shard (\<lambda>shard. rbind (index_at shard OFFSET_DEPTH) (\<lambda>_.
        ParsedTreeMain_from_bytes (shard[OFFSET_DEPTH := 20]))))"

section \<open>Fees\<close>

definition GAS :: u64 where "GAS = 10000000"

definition devnet_quote :: fee_quote where
  "devnet_quote = \<lparr>fq_height = 15448, fq_exec_ceiling = 9, fq_stor_ceiling = 9\<rparr>"

definition the_reserve_is_sized_from_the_quoted_ceiling :: bool where
  "the_reserve_is_sized_from_the_quoted_ceiling \<longleftrightarrow> fee_reserve_from devnet_quote GAS = 181800000"

definition the_headroom_multiplies_the_quoted_reserve :: bool where
  "the_headroom_multiplies_the_quoted_reserve \<longleftrightarrow>
     (let unscaled = ucast GAS * ucast (fq_exec_ceiling devnet_quote) +
        ASSUMED_DATA_BYTES * ucast (fq_stor_ceiling devnet_quote) in
      fee_reserve_from devnet_quote GAS = unscaled * BASE_FEE_HEADROOM)"

definition the_reserve_follows_the_declared_gas_limit :: bool where
  "the_reserve_follows_the_declared_gas_limit \<longleftrightarrow>
     fee_reserve_from devnet_quote 2000000 = (2000000 * 9 + 100000 * 9) * 2"

definition a_quote_reports_its_height :: bool where
  "a_quote_reports_its_height \<longleftrightarrow> fee_reserve (Some devnet_quote) GAS = (181800000, Quote 15448)"

definition no_quote_falls_back_to_the_fixed_reserve :: bool where
  "no_quote_falls_back_to_the_fixed_reserve \<longleftrightarrow>
     fee_reserve None GAS = (DECLARED_MAX_FEE, Fallback) \<and> DECLARED_MAX_FEE = 646400000"

definition the_declared_cap_clears_the_chains_reserve :: bool where
  "the_declared_cap_clears_the_chains_reserve \<longleftrightarrow>
     (let at_ceiling = ucast GAS * ucast (fq_exec_ceiling devnet_quote) +
        ASSUMED_DATA_BYTES * ucast (fq_stor_ceiling devnet_quote) in
      at_ceiling \<le> fee_reserve_from devnet_quote GAS \<and> fee_reserve_from devnet_quote GAS < DECLARED_MAX_FEE)"

definition the_reserve_saturates_instead_of_overflowing :: bool where
  "the_reserve_saturates_instead_of_overflowing \<longleftrightarrow>
     fee_reserve_from (devnet_quote\<lparr>fq_exec_ceiling := - 1, fq_stor_ceiling := - 1\<rparr>) (- 1) = - 1"

section \<open>Deployment\<close>

definition image_id_fixture :: image_id where "image_id_fixture = replicate 8 7"

text \<open>\<open>ProgramHeader { .. }.to_bytes()\<close> and \<open>ProgramBinary::new(..).encode()\<close>, over the crates' encoders.\<close>

definition header_for :: "(image_id \<Rightarrow> account_id \<Rightarrow> bool \<Rightarrow> bytes) \<Rightarrow> image_id \<Rightarrow> bytes" where
  "header_for header_to_bytes image_id = header_to_bytes image_id (replicate 32 1) True"

definition an_empty_loader_shard_is_not_deployed :: "loader \<Rightarrow> bool" where
  "an_empty_loader_shard_is_not_deployed L \<longleftrightarrow> header_deployed L [] image_id_fixture = Inr False"

definition a_header_for_this_image_is_deployed :: "loader \<Rightarrow> (image_id \<Rightarrow> account_id \<Rightarrow> bool \<Rightarrow> bytes) \<Rightarrow> bool" where
  "a_header_for_this_image_is_deployed L header_to_bytes \<longleftrightarrow>
     header_deployed L (header_for header_to_bytes image_id_fixture) image_id_fixture = Inr True"

definition is_err :: "'e + 'a \<Rightarrow> bool" where
  "is_err r \<longleftrightarrow> (case r of Inl e \<Rightarrow> True | Inr x \<Rightarrow> False)"

definition a_header_for_another_image_is_refused :: "loader \<Rightarrow> (image_id \<Rightarrow> account_id \<Rightarrow> bool \<Rightarrow> bytes) \<Rightarrow> bool" where
  "a_header_for_another_image_is_refused L header_to_bytes \<longleftrightarrow>
     is_err (header_deployed L (header_for header_to_bytes (replicate 8 9)) image_id_fixture)"

definition a_loader_shard_that_is_not_a_header_is_refused :: "loader \<Rightarrow> bool" where
  "a_loader_shard_that_is_not_a_header_is_refused L \<longleftrightarrow> is_err (header_deployed L [1, 2, 3] image_id_fixture)"

type_synonym binary_encode = "bytes \<Rightarrow> bytes \<Rightarrow> bytes"

definition a_default_kernel_binary_uploads_one_segment_per_chunk :: "loader \<Rightarrow> binary_encode \<Rightarrow> bool" where
  "a_default_kernel_binary_uploads_one_segment_per_chunk L binary \<longleftrightarrow>
     deploy_segment_count L (binary (replicate (max_segment_data_len L + 1) 0) (default_kernel L)) = Inr 2"

definition a_binary_with_another_kernel_is_refused :: "loader \<Rightarrow> binary_encode \<Rightarrow> bool" where
  "a_binary_with_another_kernel_is_refused L binary \<longleftrightarrow>
     (case deploy_segment_count L (binary [1, 2, 3] (ascii ''not the kernel'')) of
        Inl err \<Rightarrow> contains ''V1COMPAT_ELF'' err | Inr n \<Rightarrow> False)"

definition a_binary_over_the_segment_cap_is_refused :: "loader \<Rightarrow> binary_encode \<Rightarrow> bool" where
  "a_binary_over_the_segment_cap_is_refused L binary \<longleftrightarrow>
     is_err (deploy_segment_count L
       (binary (replicate (max_segment_data_len L * max_program_segments L + 1) 0) (default_kernel L)))"

definition bytes_that_are_not_a_program_binary_are_refused :: "loader \<Rightarrow> bool" where
  "bytes_that_are_not_a_program_binary_are_refused L \<longleftrightarrow> is_err (deploy_segment_count L (ascii ''garbage''))"

section \<open>Field bytes, the circuit, the record\<close>

definition fr_round_trip :: "'f host_field \<Rightarrow> bool" where
  "fr_round_trip F \<longleftrightarrow>
     (let fr = fr_from F 12345678 in holds (rbind (fr_to_bytes_le F fr) (\<lambda>bytes. Inr (bytes_le_to_fr F bytes = Some fr))))"

definition rejects_non_canonical :: "'f host_field \<Rightarrow> bool" where
  "rejects_non_canonical F \<longleftrightarrow> bytes_le_to_fr F (replicate 32 0xFF) = None"

definition padding_and_folding_agree :: "'f host_field \<Rightarrow> bool" where
  "padding_and_folding_agree F \<longleftrightarrow>
     (let leaf = fr_hash_pair F (fr_from F 11) (fr_from F 22);
          elements = map (\<lambda>i. fr_from F (word_of_nat i + 7)) [0..<TREE_DEPTH];
          indices = replicate TREE_DEPTH 0;
          tree_root = fold_path (fr_hash_pair F) leaf elements indices
      in holds (
        rbind (fold_root F tree_root) (\<lambda>lifted.
        rbind (pad_path F elements indices) (\<lambda>(elements1, indices1).
        Inr (length elements1 = CIRCUIT_DEPTH \<and> fold_path (fr_hash_pair F) leaf elements1 indices1 = lifted)))))"

definition a_record_round_trips :: "'j host_libs \<Rightarrow> bool" where
  "a_record_round_trips H \<longleftrightarrow>
     (let ids = \<lparr>pi_registration = replicate 32 0xA1, pi_merkle = replicate 32 0xB2\<rparr> in
      decode_record H (encode_record H ids) = Inr ids)"

section \<open>The suite\<close>

definition shard_tests :: suite where
  "shard_tests =
     [(''a_fresh_shard_is_the_header_and_defaults'', a_fresh_shard_is_the_header_and_defaults),
      (''a_stored_leaf_is_read_at_its_node_offset'', a_stored_leaf_is_read_at_its_node_offset),
      (''a_proof_takes_each_sibling_from_its_own_level'', a_proof_takes_each_sibling_from_its_own_level),
      (''find_leaf_index_scans_below_next_index_newest_first'', find_leaf_index_scans_below_next_index_newest_first),
      (''a_proof_past_the_last_leaf_is_refused'', a_proof_past_the_last_leaf_is_refused),
      (''an_empty_shard_is_refused'', an_empty_shard_is_refused),
      (''a_shard_of_another_depth_is_refused'', a_shard_of_another_depth_is_refused)]"

definition fee_tests :: suite where
  "fee_tests =
     [(''the_reserve_is_sized_from_the_quoted_ceiling'', the_reserve_is_sized_from_the_quoted_ceiling),
      (''the_headroom_multiplies_the_quoted_reserve'', the_headroom_multiplies_the_quoted_reserve),
      (''the_reserve_follows_the_declared_gas_limit'', the_reserve_follows_the_declared_gas_limit),
      (''a_quote_reports_its_height'', a_quote_reports_its_height),
      (''no_quote_falls_back_to_the_fixed_reserve'', no_quote_falls_back_to_the_fixed_reserve),
      (''the_declared_cap_clears_the_chains_reserve'', the_declared_cap_clears_the_chains_reserve),
      (''the_reserve_saturates_instead_of_overflowing'', the_reserve_saturates_instead_of_overflowing)]"

definition deployment_tests :: "loader \<Rightarrow> (image_id \<Rightarrow> account_id \<Rightarrow> bool \<Rightarrow> bytes) \<Rightarrow> binary_encode \<Rightarrow> suite" where
  "deployment_tests L header_to_bytes binary =
     [(''an_empty_loader_shard_is_not_deployed'', an_empty_loader_shard_is_not_deployed L),
      (''a_header_for_this_image_is_deployed'', a_header_for_this_image_is_deployed L header_to_bytes),
      (''a_header_for_another_image_is_refused'', a_header_for_another_image_is_refused L header_to_bytes),
      (''a_loader_shard_that_is_not_a_header_is_refused'', a_loader_shard_that_is_not_a_header_is_refused L),
      (''a_default_kernel_binary_uploads_one_segment_per_chunk'',
        a_default_kernel_binary_uploads_one_segment_per_chunk L binary),
      (''a_binary_with_another_kernel_is_refused'', a_binary_with_another_kernel_is_refused L binary),
      (''a_binary_over_the_segment_cap_is_refused'', a_binary_over_the_segment_cap_is_refused L binary),
      (''bytes_that_are_not_a_program_binary_are_refused'', bytes_that_are_not_a_program_binary_are_refused L)]"

definition codec_tests :: "'f host_field \<Rightarrow> 'j host_libs \<Rightarrow> suite" where
  "codec_tests F H =
     [(''round_trip'', fr_round_trip F), (''rejects_non_canonical'', rejects_non_canonical F),
      (''padding_and_folding_agree'', padding_and_folding_agree F), (''a_record_round_trips'', a_record_round_trips H)]"

section \<open>The tests pass\<close>

text \<open>A shard of the tests: a header with the tests' defaults, then a node map.\<close>

definition test_header :: "bytes \<Rightarrow> u64 \<Rightarrow> bool" where
  "test_header d n \<longleftrightarrow> length d = 489 \<and> d ! 0 = 9 \<and> hdr_next d = n \<and> hdr_cached d = map default_at [0..<10]"

lemma empty_shard_header:
  obtains d where "empty_shard = Inr d" and "test_header d 0"
proof -
  have z: "write_slice OFFSET_NEXT_INDEX (u64_le 0) ((replicate OFFSET_TREE_DATA 0)[OFFSET_DEPTH := x]) =
      Inr ((replicate OFFSET_TREE_DATA 0)[OFFSET_DEPTH := x])" for x
  proof -
    have "u64_le 0 = replicate 8 0" by code_simp
    moreover have "splice 1 (replicate 8 0) ((replicate 489 (0::u8))[0 := x]) = (replicate 489 0)[0 := x]"
      by (rule nth_equalityI) (auto simp: splice_def nth_append nth_list_update)
    ultimately show ?thesis by (simp add: write_slice_def header_offsets)
  qed
  have l: "length (default_at 0) = 32" "list_all bytes32 (map default_at [0..<TREE_DEPTH + 1])"
    "length (map default_at [0..<TREE_DEPTH + 1]) = TREE_DEPTH + 1"
    by (simp_all add: default_at_def list_all_iff)
  obtain d where d: "create_main_account_data_with_state 0 (default_at 0) (map default_at [0..<TREE_DEPTH + 1]) = Inr d"
    and h: "length d = OFFSET_TREE_DATA" "unat (d ! 0) = TREE_DEPTH" "hdr_next d = 0" "hdr_cached d = map default_at [0..<TREE_DEPTH + 1]"
    using create_main_account_data_correct [OF l, of 0] by metis
  have "empty_shard = Inr d"
    using d by (simp only: create_main_account_data_with_state_def empty_shard_def Let_def z rbind.simps)
  moreover have "test_header d 0"
    using h by (simp add: test_header_def TREE_DEPTH_def word_unat_eq_iff)
  ultimately show ?thesis by (rule that)
qed

lemma test_header_reads:
  assumes "test_header d n"
  shows "check_tree_shard (d @ m) = Inr ()" and "cached_defaults (d @ m) = Inr (map default_at [0..<10])"
    and "\<exists>h. ParsedTreeMain_from_bytes (d @ m) = Inr h \<and> ptm_next_index h = n"
proof -
  have h: "length d = 489" "(d @ m) ! 0 = 9" "d \<noteq> []" using assms by (auto simp: test_header_def nth_append)
  then show c: "check_tree_shard (d @ m) = Inr ()"
    by (simp add: check_tree_shard_def OFFSET_DEPTH_def index_at_def TREE_DEPTH_def)
  have "rmap (\<lambda>level. read32 (d @ m) (OFFSET_CACHED_NODES + level * 32)) [0..<TREE_DEPTH + 1] = Inr (hdr_cached (d @ m))"
    unfolding hdr_cached_def by (rule rmap_ok) (use h(1) in \<open>auto simp: read32_def header_offsets read_slice_ok\<close>)
  then show "cached_defaults (d @ m) = Inr (map default_at [0..<10])"
    using assms by (simp add: cached_defaults_def c hdr_append test_header_def)
  have "rmap (\<lambda>i. read32 (d @ m) (OFFSET_ROOT_HISTORY + i * 32)) [0..<ROOT_HISTORY_SIZE] = Inr (hdr_history (d @ m))"
    unfolding hdr_history_def by (rule rmap_ok) (use h(1) in \<open>auto simp: read32_def header_offsets read_slice_ok\<close>)
  moreover have "u64_of (slice OFFSET_NEXT_INDEX 8 (d @ m)) = n"
    using assms by (simp add: test_header_def hdr_append flip: hdr_next_def)
  ultimately show "\<exists>h. ParsedTreeMain_from_bytes (d @ m) = Inr h \<and> ptm_next_index h = n"
    using h by (simp add: ParsedTreeMain_from_bytes_def c read32_def header_offsets read_slice_ok index_at_def)
qed

text \<open>A node is what the map holds, or the default of its level.\<close>

lemma test_node_hash:
  assumes "test_header d n" and "sparse_wf m" and "in_tree l i"
  shows "node_hash (d @ m) l i = Inr (case sparse_node m l i of None \<Rightarrow> default_at l | Some h \<Rightarrow> h)"
proof -
  have l: "l < 10" "l \<le> TREE_DEPTH" "i < 2 ^ l" using assms(3) by (auto simp: in_tree_def TREE_DEPTH_def)
  have "drop OFFSET_TREE_DATA (d @ m) = m" using assms(1) by (simp add: test_header_def)
  moreover have "index_at (map default_at [0..<10]) l = Inr (default_at l)" using l(1) by (simp add: index_at_def)
  ultimately show ?thesis
    using l by (simp only: node_hash_def check_True test_header_reads(2) [OF assms(1)] rbind.simps read_sparse_node_wf [OF assms(2)])
qed

definition node_entries :: "(nat \<times> nat \<times> bytes) list \<Rightarrow> entries" where
  "node_entries nodes = map (\<lambda>(level, index, hash). (offset16 level index, hash)) nodes"

lemma with_nodes_enc: "with_nodes d nodes = d @ enc_sparse (node_entries nodes)"
  by (simp add: with_nodes_def enc_sparse_def node_entries_def enc_entry_def comp_def case_prod_unfold)

lemma with_nodes_map:
  assumes "entries_ok (node_entries nodes)"
  shows "sparse_wf (enc_sparse (node_entries nodes))"
    and "sparse_node (enc_sparse (node_entries nodes)) l i = map_of (node_entries nodes) (offset16 l i)"
  using assms by (simp_all add: sparse_wf_enc sparse_node_def sparse_entries_enc)

lemma small_tree: "TREE_DEPTH = 9" "OFFSET_TREE_DATA = 489" "unat TREE_LEAVES = 512"
  by (simp_all add: TREE_DEPTH_def TREE_LEAVES_def push_bit_eq_mult)

lemma test_tree:
  assumes "test_header d n" and "entries_ok (node_entries nodes)" and "in_tree l i"
  shows "node_hash (with_nodes d nodes) l i =
    Inr (case map_of (node_entries nodes) (offset16 l i) of None \<Rightarrow> default_at l | Some h \<Rightarrow> h)"
  using test_node_hash [OF assms(1) with_nodes_map(1) [OF assms(2)] assms(3)] with_nodes_map(2) [OF assms(2)]
  by (simp add: with_nodes_enc)

lemma test_fresh: a_fresh_shard_is_the_header_and_defaults
proof -
  obtain d where d: "empty_shard = Inr d" "test_header d 0" by (rule empty_shard_header)
  obtain h where h: "ParsedTreeMain_from_bytes d = Inr h" "ptm_next_index h = 0"
    using test_header_reads(3) [OF d(2), of "[]"] by auto
  have n: "node_hash d l i = Inr (default_at l)" if "in_tree l i" for l i
    using test_node_hash [OF d(2) sparse_wf_Nil that] by (simp add: sparse_node_def sparse_entries_def)
  show ?thesis
    using n [of 9 7] n [of 0 0]
    by (simp add: a_fresh_shard_is_the_header_and_defaults_def holds_def d h small_tree in_tree_def)
qed

lemma test_stored_leaf: a_stored_leaf_is_read_at_its_node_offset
proof -
  obtain d where d: "empty_shard = Inr d" "test_header d 0" by (rule empty_shard_header)
  let ?n = "[(9, 3, replicate 32 0x33)] :: (nat \<times> nat \<times> bytes) list"
  have "entries_ok (node_entries ?n)" by code_simp
  note n = test_tree [OF d(2) this]
  show ?thesis
    using n [of 9 3] n [of 9 2]
    by (simp add: a_stored_leaf_is_read_at_its_node_offset_def holds_def d small_tree in_tree_def node_entries_def node_offset_def)
qed

lemma test_sibling_levels: a_proof_takes_each_sibling_from_its_own_level
proof -
  obtain d where d: "empty_shard = Inr d" "test_header d 0" by (rule empty_shard_header)
  let ?n = "[(8, 0, replicate 32 0x10), (9, 2, replicate 32 0x22), (9, 3, replicate 32 0x33)] :: (nat \<times> nat \<times> bytes) list"
  have "entries_ok (node_entries ?n)" by code_simp
  note n = test_tree [OF d(2) this]
  let ?m = "map_of (node_entries ?n)"
  have m: "?m (offset16 9 2) = Some (replicate 32 0x22)" "?m (offset16 9 3) = Some (replicate 32 0x33)"
    "?m (offset16 8 0) = Some (replicate 32 0x10)" "?m (offset16 7 1) = None" "?m (offset16 6 1) = None" "?m (offset16 5 1) = None"
    "?m (offset16 4 1) = None" "?m (offset16 3 1) = None" "?m (offset16 2 1) = None" "?m (offset16 1 1) = None"
    by (simp_all add: node_entries_def node_offset_def)
  have t: "in_tree 9 2" "in_tree 9 3" "in_tree 8 0" "in_tree 7 1" "in_tree 6 1" "in_tree 5 1" "in_tree 4 1" "in_tree 3 1"
    "in_tree 2 1" "in_tree 1 1" by (simp_all add: in_tree_def TREE_DEPTH_def)
  note nodes = t [THEN n, unfolded m option.case]
  have unroll: "Suc 0 = 1" "Suc 1 = 2" "Suc 2 = 3" "Suc 3 = 4" "Suc 4 = 5" "Suc 5 = 6" "Suc 6 = 7" "Suc 7 = 8" "Suc 8 = 9" by simp_all
  have s1: "proof_path s 1 i = rbind (node_hash s 1 (i XOR 1)) (\<lambda>h. Inr ([h], [word_of_nat (i mod 2)]))" for s i
    using proof_path.simps(2) [of s 0 i] by simp
  have "proof_path (with_nodes d ?n) 9 2 =
     Inr ([replicate 32 0x33, replicate 32 0x10, default_at 7, default_at 6, default_at 5, default_at 4, default_at 3, default_at 2, default_at 1],
          [0, 1, 0, 0, 0, 0, 0, 0, 0])"
    using nodes proof_path.simps(2) [where l = 1, unfolded unroll] proof_path.simps(2) [where l = 2, unfolded unroll]
      proof_path.simps(2) [where l = 3, unfolded unroll] proof_path.simps(2) [where l = 4, unfolded unroll]
      proof_path.simps(2) [where l = 5, unfolded unroll] proof_path.simps(2) [where l = 6, unfolded unroll]
      proof_path.simps(2) [where l = 7, unfolded unroll] proof_path.simps(2) [where l = 8, unfolded unroll] s1
    by simp
  moreover obtain h where "ParsedTreeMain_from_bytes (with_nodes d ?n) = Inr h"
    using test_header_reads(3) [OF d(2)] with_nodes_enc by metis
  ultimately show ?thesis
    using nodes(1)
    by (simp add: a_proof_takes_each_sibling_from_its_own_level_def holds_def d small_tree merkle_proof_of_def index_at_def
        read_slice_def slice_def upt_conv_Cons)
qed

lemma test_find: find_leaf_index_scans_below_next_index_newest_first
proof -
  obtain d0 where d0: "empty_shard = Inr d0" "test_header d0 0" by (rule empty_shard_header)
  obtain d where d: "write_slice OFFSET_NEXT_INDEX (u64_le 3) d0 = Inr d" "test_header d 3"
  proof -
    have "length d0 = 489" using d0 by (simp add: test_header_def)
    then have "write_slice OFFSET_NEXT_INDEX (u64_le 3) d0 = Inr (splice 1 (u64_le 3) d0)" "test_header (splice 1 (u64_le 3) d0) 3"
      using d0(2) by (simp_all add: test_header_def write_slice_ok length_splice nth_splice_before hdr_next_def hdr_cached_def header_offsets bytes_simps)
    then show ?thesis by (rule that)
  qed
  let ?n = "[(9, 0, replicate 32 0x11), (9, 2, replicate 32 0x11), (9, 3, replicate 32 0x33)] :: (nat \<times> nat \<times> bytes) list"
  have ok: "entries_ok (node_entries ?n)" by code_simp
  have m: "map_of (node_entries ?n) (offset16 9 0) = Some (replicate 32 0x11)" "map_of (node_entries ?n) (offset16 9 1) = None"
    "map_of (node_entries ?n) (offset16 9 2) = Some (replicate 32 0x11)"
    by (simp_all add: node_entries_def node_offset_def)
  obtain h where h: "ParsedTreeMain_from_bytes (with_nodes d ?n) = Inr h" "ptm_next_index h = 3"
    using test_header_reads(3) [OF d(2)] with_nodes_enc by metis
  have c: "cached_defaults (with_nodes d ?n) = Inr (map default_at [0..<10])"
    using test_header_reads(2) [OF d(2)] by (simp add: with_nodes_enc)
  have e: "drop 489 (with_nodes d ?n) = enc_sparse (node_entries ?n)" using d(2) by (simp add: with_nodes_enc test_header_def)
  have u: "unat (min 3 TREE_LEAVES) = Suc (Suc (Suc 0))" by (simp add: TREE_LEAVES_def TREE_DEPTH_def push_bit_eq_mult)
  have two: "offset16 9 (Suc (Suc 0)) = offset16 9 2" "offset16 9 (Suc 0) = offset16 9 1" by (simp_all add: numeral_2_eq_2)
  have "find_leaf_index (with_nodes d ?n) leaf = scan_leaves (enc_sparse (node_entries ?n)) (default_at 9) leaf (Suc (Suc (Suc 0)))" for leaf
    by (simp add: find_leaf_index_def h c small_tree e u Let_def index_at_def del: scan_leaves.simps)
  then have f: "find_leaf_index (with_nodes d ?n) leaf =
      Inr (if leaf = replicate 32 0x11 then Some 2 else if leaf = default_at 9 then Some 1 else None)" for leaf
    by (simp add: read_sparse_enc [OF ok] small_tree two m del: One_nat_def)
  have "default_at 9 ! 0 = 0xD9" by (simp add: default_at_def)
  then have ne: "replicate 32 0x33 \<noteq> default_at 9" "replicate 32 0x44 \<noteq> default_at 9" by (auto dest: arg_cong [where f = "\<lambda>b. b ! 0"])
  have "(replicate 32 0x33 :: bytes) \<noteq> replicate 32 0x11" "(replicate 32 0x44 :: bytes) \<noteq> replicate 32 0x11" by simp_all
  with ne show ?thesis
    by (simp add: find_leaf_index_scans_below_next_index_newest_first_def holds_def d0 d small_tree f)
qed

lemma test_refusals: a_proof_past_the_last_leaf_is_refused an_empty_shard_is_refused a_shard_of_another_depth_is_refused
proof -
  obtain d where d: "empty_shard = Inr d" "test_header d 0" by (rule empty_shard_header)
  show a_proof_past_the_last_leaf_is_refused
    by (simp add: a_proof_past_the_last_leaf_is_refused_def should_panic_def d merkle_proof_of_def check_def)
  show an_empty_shard_is_refused
    by (simp add: an_empty_shard_is_refused_def should_panic_def ParsedTreeMain_from_bytes_def check_tree_shard_def check_def)
  have "d \<noteq> []" using d(2) by (auto simp: test_header_def)
  with d(2) show a_shard_of_another_depth_is_refused
    by (simp add: a_shard_of_another_depth_is_refused_def should_panic_def d ParsedTreeMain_from_bytes_def
        check_tree_shard_def check_def test_header_def index_at_def OFFSET_DEPTH_def TREE_DEPTH_def)
qed

lemma shard_tests_pass: "passes shard_tests"
  by (simp add: shard_tests_def test_fresh test_stored_leaf test_sibling_levels test_find test_refusals)

lemma max_u64_in_u128: "(ucast (- 1 :: u64) :: u128) = 18446744073709551615"
  by code_simp

lemma fee_tests_pass: "passes fee_tests"
  by (simp add: fee_tests_def max_u64_in_u128 the_reserve_is_sized_from_the_quoted_ceiling_def the_headroom_multiplies_the_quoted_reserve_def
      the_reserve_follows_the_declared_gas_limit_def a_quote_reports_its_height_def no_quote_falls_back_to_the_fixed_reserve_def
      the_declared_cap_clears_the_chains_reserve_def the_reserve_saturates_instead_of_overflowing_def fee_reserve_def
      fee_reserve_from_def devnet_quote_def GAS_def ASSUMED_DATA_BYTES_def BASE_FEE_HEADROOM_def DECLARED_MAX_FEE_def
      sat_add_def sat_mul_def unat_max_word)

text \<open>
  What the deployment tests rely on: the loader reads back the headers and the binaries the tests write, refuses the
  bytes they make up, and takes more than one byte and more than one segment.
\<close>

definition deployment_values :: "loader \<Rightarrow> (image_id \<Rightarrow> account_id \<Rightarrow> bool \<Rightarrow> bytes) \<Rightarrow> binary_encode \<Rightarrow> bool" where
  "deployment_values L header_to_bytes binary \<longleftrightarrow>
     (\<forall>i a b. header_to_bytes i a b \<noteq> [] \<and> header_image L (header_to_bytes i a b) = Some i) \<and> header_image L [1, 2, 3] = None \<and>
     (\<forall>user kernel. decode_binary L (binary user kernel) = Some (user, kernel)) \<and> decode_binary L (ascii ''garbage'') = None \<and>
     default_kernel L \<noteq> ascii ''not the kernel'' \<and> 1 < max_segment_data_len L \<and> 1 < max_program_segments L"

lemma deployment_tests_pass:
  assumes "deployment_values L header_to_bytes binary"
  shows "passes (deployment_tests L header_to_bytes binary)"
proof -
  have "div_ceil (a * b + 1) a = b + 1" if "1 < a" for a b
    using that div_mult_self2 [of a 1 b] by (simp add: div_ceil_def mod_Suc)
  from this [of "max_segment_data_len L"] this [of "max_segment_data_len L" 1] show ?thesis
    using assms
    by (auto simp: deployment_values_def deployment_tests_def an_empty_loader_shard_is_not_deployed_def
        a_header_for_this_image_is_deployed_def a_header_for_another_image_is_refused_def is_err_def header_for_def
        a_loader_shard_that_is_not_a_header_is_refused_def a_default_kernel_binary_uploads_one_segment_per_chunk_def
        a_binary_with_another_kernel_is_refused_def a_binary_over_the_segment_cap_is_refused_def
        bytes_that_are_not_a_program_binary_are_refused_def header_deployed_def image_id_fixture_def deploy_segment_count_def)
qed

text \<open>
  What the codec tests rely on: the field library writes an element on 32 bytes that it reads back, and refuses bytes at
  or above the modulus, whose last byte is 0x30.
\<close>

definition codec_values :: "'f host_field \<Rightarrow> 'j host_libs \<Rightarrow> bool" where
  "codec_values F H \<longleftrightarrow>
     (\<forall>n. length (fr_serialize F (fr_from F n)) = 32 \<and> fr_deserialize F (fr_serialize F (fr_from F n)) = Some (fr_from F n)) \<and>
     (\<forall>b. length b = 32 \<longrightarrow> 0x30 < b ! 31 \<longrightarrow> fr_deserialize F b = None) \<and> hex_ok H \<and> json_ok H"

lemma codec_tests_pass:
  assumes "codec_values F H"
  shows "passes (codec_tests F H)"
proof -
  have "padding_and_folding_agree F"
  proof -
    let ?leaf = "fr_hash_pair F (fr_from F 11) (fr_from F 22)"
    let ?es = "map (\<lambda>i. fr_from F (word_of_nat i + 7)) [0..<TREE_DEPTH]" and ?is = "replicate TREE_DEPTH (0 :: u8)"
    have "length ?es = TREE_DEPTH" "length ?is = TREE_DEPTH" by simp_all
    then obtain es' is' where "pad_path F ?es ?is = Inr (es', is')" "length es' = CIRCUIT_DEPTH"
      "fold_root F (fold_path (fr_hash_pair F) ?leaf ?es ?is) = Inr (fold_path (fr_hash_pair F) ?leaf es' is')"
      by (rule padded_fold)
    then show ?thesis by (simp add: padding_and_folding_agree_def Let_def holds_def)
  qed
  moreover have "a_record_round_trips H"
    using assms decode_encode_record [of H] by (simp add: codec_values_def a_record_round_trips_def Let_def)
  moreover have "fr_round_trip F" "rejects_non_canonical F"
    using assms
    by (simp_all add: codec_values_def fr_round_trip_def rejects_non_canonical_def holds_def fr_to_bytes_le_def bytes_le_to_fr_def Let_def)
  ultimately show ?thesis by (simp add: codec_tests_def)
qed

text \<open>
  The host library's unit tests pass on the model: reading a tree shard, sizing a fee reserve, reading the program
  loader's shard and a binary's segments, field bytes, the circuit's padding and the record of program ids, given what
  the tests take from the loader's, the field's and the text libraries.
\<close>

theorem host_tests_pass:
  assumes "deployment_values L header_to_bytes binary" and "codec_values F H"
  shows "passes (shard_tests @ fee_tests @ deployment_tests L header_to_bytes binary @ codec_tests F H)"
  using shard_tests_pass fee_tests_pass deployment_tests_pass [OF assms(1)] codec_tests_pass [OF assms(2)] by simp

text \<open>A loader whose headers are the image id's words and whose binaries hold the user part's length first.\<close>

definition toy_header :: "image_id \<Rightarrow> account_id \<Rightarrow> bool \<Rightarrow> bytes" where
  "toy_header i a b = 0 # concat (map u32_le i)"

fun toy_words :: "bytes \<Rightarrow> image_id" where
  "toy_words (a # b # c # d # r) = u32_of [a, b, c, d] # toy_words r"
| "toy_words r = []"

definition toy_binary :: binary_encode where
  "toy_binary user k = replicate (length user) 1 @ 0 # user @ k"

definition toy_loader :: loader where
  "toy_loader = \<lparr>
     decode_binary = (\<lambda>b. let n = length (takeWhile ((=) 1) b); r = drop (Suc n) b in
       if b ! 0 \<in> {0, 1} then Some (take n r, drop n r) else None),
     program_image = (\<lambda>_. None), header_image = (\<lambda>b. if b ! 0 = 0 then Some (toy_words (tl b)) else None),
     default_kernel = [0], max_segment_data_len = 2, max_program_segments = 2, loader_account = replicate 32 4\<rparr>"

theorem host_tests_pass_witness:
  "passes (shard_tests @ fee_tests @ deployment_tests toy_loader toy_header toy_binary @ codec_tests toy_field (toy_libs demo_ready))"
proof (rule host_tests_pass)
  have w: "toy_words (concat (map u32_le i)) = i" for i
  proof (induction i)
    case (Cons x i)
    obtain b0 b1 b2 b3 where "u32_le x = [b0, b1, b2, b3]" proof -
      have "length (u32_le x) = Suc (Suc (Suc (Suc 0)))" by simp
      then show ?thesis using that by (auto simp only: length_Suc_conv length_0_conv)
    qed
    with Cons u32_of_le [of x] show ?case by simp
  qed simp
  have "takeWhile ((=) 1) (replicate n (1::u8) @ 0 # r) = replicate n 1" for n and r
    by (induction n) simp_all
  moreover have "(replicate n (1::u8) @ 0 # r) ! 0 \<in> {0, 1}" for n r by (cases n) simp_all
  moreover have g: "ascii ''garbage'' ! 0 = 103" "hd (ascii ''not the kernel'') = 110" by code_simp+
  then have "[0] \<noteq> ascii ''not the kernel''" by (auto dest: arg_cong [where f = hd])
  ultimately show "deployment_values toy_loader toy_header toy_binary"
    by (simp add: deployment_values_def toy_loader_def toy_header_def toy_binary_def w Let_def g)
  show "codec_values toy_field (toy_libs demo_ready)"
  proof -
    have "toy_valid (rate_felt n)" "length (rate_felt n) = 32" for n
      by (simp_all add: toy_valid_def rate_felt_def nth_append)
    moreover have "\<not> toy_valid b" if "0x30 < b ! 31" for b using that by (auto simp: toy_valid_def word_less_nat_alt)
    ultimately show ?thesis
      using toy_hex [of demo_ready] toy_json [of demo_ready] by (simp add: codec_values_def toy_field_def)
  qed
qed

end
