(* ===== verification/Spec2Isabelle.thy ===== *)
theory Spec2Isabelle
  imports Treasury Endings Lifecycle Cycles ToolReport BuildRun ProgramTests TreeTests LayoutTests HostTests
begin

text \<open>
  A verification development of the RLN membership registry for LEZ (\<open>src/lez-rln\<close>) and its
  lookup tool (\<open>src/tools/check-membership\<close>).

  The program. Two guest programs run on a LEZ chain. The registration program
  (\<open>methods/guest/src/program.rs\<close>) keeps, per tree id, a config shard with the terms of the registry
  and two counters, and per identity commitment a membership shard. The merkle program
  (\<open>methods/guest/src/merkle_tree.rs\<close>) keeps a tree of depth 9 in one shard: a header with the
  next free index, the root, the four last roots and the hashes of the empty subtrees, followed by a
  sparse map of the non-empty nodes. A transaction is planned from its account list and its
  instruction, without any shard; the plan yields effects, each applied to one shard on the chain, and
  chained calls of the merkle program and of native transfers. So the instruction repeats what the
  chain holds (price, durations, treasury, time) and the apply phase checks those claims. The host
  (\<open>src/rln/client.rs\<close>, \<open>src/merkle_tree/client.rs\<close>) derives the accounts, reads the shards, sizes the
  fee, builds the transactions and the Merkle proofs, and \<open>check-membership\<close> reads a membership
  through a JSON-RPC gateway.

  The theories, in the order of their imports:
  \<^item> \<open>Prelude\<close>: machine integers, byte strings, results with panics and exit codes, slices,
    little-endian numbers, saturating arithmetic; \<open>External\<close>: the record of the code that is not in the
    repository (Poseidon, SHA-256, the chain's account layout) and the named laws relied on.
  \<^item> \<open>Layouts\<close>, \<open>Sparse\<close>, \<open>Borsh\<close>, \<open>State\<close>, \<open>Instruction\<close>: the crate \<open>rln-layouts\<close>, that is the
    constants, exit codes, time windows, tree header, sparse node map, and the Borsh encodings of shards
    and instructions. \<open>Borsh\<close> has the locale \<open>codec\<close> (an encoder with a decoder that inverts it),
    interpreted for both states and both instruction sets; \<open>Sparse\<close> has the locale of a node store,
    interpreted for the sparse map.
  \<^item> \<open>Hash\<close>, \<open>Lez\<close>, \<open>MerkleTree\<close>: \<open>hash.rs\<close>, the types of the plan and apply interface, and the merkle
    program. \<open>MerkleSpec\<close>, \<open>MerkleOps\<close>: its specification, a tree of 512 leaves with a next index and a root
    history (\<open>tree_view\<close>), the invariant \<open>tree_ok\<close> of a shard, and the refinement of every operation on
    every branch.
  \<^item> \<open>Pda\<close>, \<open>Registration\<close>, \<open>Program\<close>: derived accounts (\<open>spel_pda.rs\<close>, \<open>rln/pda.rs\<close>,
    \<open>merkle_tree/pda.rs\<close>), the helpers of \<open>registration.rs\<close>, and \<open>program.rs\<close> with one definition
    per instruction in the plan and one per effect in the apply phase. \<open>ProgramSpec\<close> gives for each exactly
    when it succeeds and what it yields.
  \<^item> \<open>Runtime\<close>: how calls are composed, from \<open>src/cycle_harness.rs\<close>: a plan, its effects in order, its
    calls in order. \<open>Cycles\<close>: the same with the harness's session log, budgets and checks, over the zkVM's
    cycle counts as a parameter; it is a model only, with no property of its own. \<open>Registry\<close>: the registry as a state machine with
    its invariant.
  \<^item> \<open>ShardTypes\<close>: a type system for the shards of the two programs, and what it gives the readers.
    \<open>Interleaving\<close>: requests of the host that run after transactions of others, over the locale of an
    environment's moves. \<open>Payments\<close>, \<open>Revenue\<close>: transactions with their native transfers, over the native
    program as a parameter, which refuses an unsigned sender, a balance too small and a receiver's \<open>u128\<close>
    overflow; and the client's check of the payer's funds.
  \<^item> \<open>Refinement\<close>, \<open>TreeRefinement\<close>: locales for simulation and data refinement over runs of operations,
    interpreted for the merkle program and its specification, and for the chain and \<open>Ledger\<close>, the registry as
    an abstract machine (\<open>LedgerSteps\<close>, \<open>LedgerCalls\<close>, \<open>LedgerRefinement\<close>, \<open>LedgerProperties\<close>): one function
    per instruction on configs, trees, members, the clock and balances, with what each refuses; its histories are
    over given tree ids and commitments and one merkle program, and leave out direct calls of that program that
    carry an authorized shard. \<open>Endings\<close>:
    every membership can be removed. \<open>Treasury\<close>: along a history on the chain, what the treasury's balance
    has grown by covers the price of the members' rates, and only accounts that sign pay. \<open>Lifecycle\<close>: the stages of a membership as a
    linear order, in terms of which tool and guest decide.
  \<^item> \<open>MerkleClient\<close>, \<open>ProofCircuit\<close>, \<open>RlnClient\<close>, \<open>Setup\<close>, \<open>ProgramIds\<close>: the host, with its environment,
    chain reads and text libraries as parameters (\<open>HostLibs\<close> for hex and JSON). \<open>Wallet\<close>: its files, the
    guest binaries, identities, and a registration from the request to the end of its wait. \<open>EndToEnd\<close>: the
    requests of the host run by the guests. \<open>CheckMembership\<close>, \<open>ToolReport\<close>: the lookup tool and what it
    prints. \<open>BuildScript\<close>, \<open>BuildRun\<close>: \<open>methods/build.rs\<close>.
  \<^item> \<open>Cli\<close>, \<open>Binaries\<close>, \<open>RlnProof\<close>: the nine binaries of \<open>src/bin\<close>. A run is the lines it prints, in
    order, and how it ends. \<open>TextProperties\<close>, \<open>HostRuns\<close>, \<open>RegistrationRuns\<close>: what is printed and read
    back, setup and the tools after it, and whole runs of the registration binaries and the proof demo.
  \<^item> \<open>Instances\<close>, \<open>Scenario\<close>, \<open>HostScenario\<close>: concrete externals and a concrete registry, for witnesses.
    \<open>TreeProperties\<close>, \<open>ProgramProperties\<close>, \<open>RegistryProperties\<close>, \<open>HostProperties\<close> and this theory state
    the other properties.
  \<^item> \<open>TestHarness\<close>: tests as named conditions on the model, with the message a test expects of a panic or an
    exit. \<open>ProgramTests\<close>, \<open>TreeTests\<close>, \<open>LayoutTests\<close>,
    \<open>HostTests\<close>: the repository's unit tests, by their names, each suite with the theorem that it passes and, as a
    named hypothesis, what its tests take from outside the repository. The suites check the model against what
    the authors expect of the code, on the tests' own inputs; the one of the merkle program is a property as
    it holds for any hash. The test of \<open>hash.rs\<close> on the pinned table of empty
    subtrees is in none, since that table being right for the hash is a hypothesis here (\<open>default_ladder\<close>,
    to which \<open>ladder_test\<close> shows the test equal). \<open>TreeContents\<close>: the tree after a given sequence of operations, and the tree
    built layer by layer that a test compares it with.

  Bounds and fuel. \<open>replay\<close> and \<open>metered_replay\<close> recurse on a call depth; two levels are enough for every
  transaction of the two programs (\<open>replay_terminates\<close>), since the merkle program calls nothing. The loops
  of the sources run over fixed ranges or lists and are structural recursions; retry loops over the network
  take the list of answers or a number of attempts. Integers are words of the source's width and
  wrap or saturate as the source does.

  Errors. A panic of a guest with its message, or its halt with an exit code and message, is the left of a
  result, and so is the panic or exit of a host program. What the sources compute on a machine word is
  computed on that word here.

  Not modelled. What the client's library calls print on the way, the text of library errors, and the help text
  of the lookup tool; a shard read that fails in transport; opening and storing the wallet, the sequencer's
  execution, and signing (a sent transaction is a value, its outcome a parameter); sleeping between polls;
  making and verifying the zk-proof, which is zerokit's and a parameter of the proof demo; the zkVM's cycle
  counts; the guest build; the generated \<open>methods/src/lib.rs\<close>; the tests that run on the LEZ crates or a
  sequencer (\<open>state_tests.rs\<close>, \<open>tests/local_sequencer.rs\<close>), and, of the unit tests, those that only check the clock
  crate's constants or account, those on the JSON text of the id record, and those of the lookup tool. Native
  transfers are skipped by \<open>replay\<close>, as the harness does; \<open>paid_replay\<close> runs them through a native program
  of which only the documented behaviour is assumed (\<open>native_ok\<close>). Guest indices are \<open>u64\<close> in the source's
  types; the guest's 32-bit \<open>usize\<close> is a natural number here, which is safe as tree indices are below 512.
\<close>

section \<open>The client and the programs together\<close>

text \<open>
  An erasure works end to end. In any state a run can reach, when the client builds an erase request
  for a membership that is expired at the clock, the guests accept it whoever signs it, and the member is
  removed.
\<close>

theorem erase_end_to_end:
  assumes "separate E R M" and "poseidon_ok E" and "same_poseidon E F" and "no_collision E R T C" and "t \<in> T" and "c \<in> C"
    and "reachable E R M T C s" and "w_chain w = shard s" and "bytes32 t" and "bytes32 M"
    and "erase_request E F w \<lparr>pi_registration = R, pi_merkle = M\<rparr> t c payer = Inr rq"
    and "has_config E R s t cfg" and "has_member E R s t c m"
    and "\<And>ts. clock_timestamp E (shard s (clock_sel E)) = Some ts \<Longrightarrow>
      is_expired (ms_grace_period_start_timestamp_ms m) (secs_to_millis (ms_grace_period_duration_sec m)) ts"
  shows "\<exists>s'. run_request E R M s rq = Inr s' \<and> removed_from E R M t c cfg (ms_rate_limit m) s s'"
proof -
  note k = erase_request_registry [OF assms(11,8,12)]
  note r = reached_registry [OF assms(1,2,4,5,7,12) k(1)]
  note mem = assms(13) r(3) [OF assms(6,13)] and tree = r(2) [OF k(2)]
  show ?thesis
  proof (rule erase_content [OF assms(2,3,8,11,12) mem tree])
    fix i now
    assume clock: "read_clock_ms E (shard s) = Inr now" and c: "bytes32 c" "felt_valid E c" and at: "leaf_at E R M s t c (ms_rate_limit m) i"
      and q: "rq_program rq = R" "rq_selectors rq = [config_sel E R t, tree_sel E R M t, membership_sel E R t c, clock_sel E]"
        "rq_instruction rq = Erase t c M (word_of_nat i) (ms_rate_limit m) now"
    show ?thesis
      by (rule erase_runs [OF assms(1-3,9,10) c q assms(12) r(1) k(1) mem read_clock_ok [OF clock]
            assms(14) [OF read_clock_time [OF clock]] tree at]) blast
  qed
qed

theorem erase_end_to_end_witness:
  "\<exists>rq s'. erase_request toy toy_field (demo_world (demo_at 1200000)) demo_programs demo_T demo_C demo_payer = Inr rq \<and>
     run_request toy demo_R demo_M (demo_at 1200000) rq = Inr s' \<and>
     removed_from toy demo_R demo_M demo_T demo_C (counted demo_cfg 200) 200 (demo_at 1200000) s'"
proof -
  obtain rq where rq: "erase_request toy toy_field (demo_world (demo_at 1200000)) demo_programs demo_T demo_C demo_payer = Inr rq"
    by (rule demo_erase_request [of 1200000]) simp
  have "is_expired 1100000 (secs_to_millis 50) 1200000"
    by (simp add: is_expired_def sat_add_def secs_to_millis_def MILLIS_PER_SECOND_def)
  then show ?thesis
    using erase_end_to_end [OF demo_separate toy_poseidon toy_same_poseidon demo_no_collision _ _ demo_reach_at
        demo_world_chain _ _ rq [unfolded demo_programs_def] demo_at_shards(2,3)] rq
    by (auto simp: demo_programs_def demo_clock_at)
qed

text \<open>
  A slashing works end to end. In any state a run can reach, when the client builds a slash request
  with the secret of a member's commitment, the guests accept it at any time, whoever signs it, and the
  member is removed.
\<close>

theorem slash_end_to_end:
  assumes "separate E R M" and "poseidon_ok E" and "same_poseidon E F" and "no_collision E R T C" and "t \<in> T" and "c \<in> C"
    and "reachable E R M T C s" and "w_chain w = shard s" and "bytes32 t" and "bytes32 M" and "bytes32 c"
    and "slash_request E F w \<lparr>pi_registration = R, pi_merkle = M\<rparr> t secret c payer = Inr rq"
    and "has_config E R s t cfg" and "has_member E R s t c m" and "compress1 E secret = c"
  shows "\<exists>s'. run_request E R M s rq = Inr s' \<and> removed_from E R M t c cfg (ms_rate_limit m) s s'"
proof -
  note k = slash_request_registry [OF assms(12,8,13)]
  note r = reached_registry [OF assms(1,2,4,5,7,13) k(1)]
  note mem = assms(14) r(3) [OF assms(6,14)] and tree = r(2) [OF k(2)]
  show ?thesis
  proof (rule slash_content [OF assms(2,3,8,12,13) mem tree])
    fix i
    assume v: "bytes32 secret" "felt_valid E secret" "felt_valid E c" and at: "leaf_at E R M s t c (ms_rate_limit m) i"
      and q: "rq_program rq = R" "rq_selectors rq = [config_sel E R t, tree_sel E R M t, membership_sel E R t c]"
        "rq_instruction rq = Slash t c secret M (word_of_nat i) (ms_rate_limit m)"
    show ?thesis
      by (rule slash_runs [OF assms(1-3,9-11) v assms(15) q assms(13) r(1) k(1) mem tree at]) blast
  qed
qed

theorem slash_end_to_end_witness:
  "\<exists>rq s'. slash_request toy toy_field (demo_world (demo_at 1)) demo_programs demo_T demo_secret demo_C demo_payer = Inr rq \<and>
     run_request toy demo_R demo_M (demo_at 1) rq = Inr s' \<and>
     removed_from toy demo_R demo_M demo_T demo_C (counted demo_cfg 200) 200 (demo_at 1) s'"
proof -
  obtain rq where rq: "slash_request toy toy_field (demo_world (demo_at 1)) demo_programs demo_T demo_secret demo_C demo_payer = Inr rq"
    by (rule demo_slash_request)
  then show ?thesis
    using slash_end_to_end [OF demo_separate toy_poseidon toy_same_poseidon demo_no_collision _ _ demo_reach_at
        demo_world_chain _ _ _ rq [unfolded demo_programs_def] demo_at_shards(2,3)]
    by (auto simp: demo_programs_def demo_secret_ok)
qed

text \<open>
  A renewal works end to end. In any state a run can reach, when the client builds an extend request
  for a membership that is in its grace period at the clock, the guests accept it and the membership is
  renewed past that time.
\<close>

theorem extend_end_to_end:
  assumes "separate E R M" and "poseidon_ok E" and "same_poseidon E F" and "no_collision E R T C" and "t \<in> T"
    and "reachable E R M T C s" and "w_chain w = shard s" and "bytes32 t"
    and "extend_request E F w \<lparr>pi_registration = R, pi_merkle = M\<rparr> t c payer = Inr rq"
    and "has_config E R s t cfg" and "cs_merkle_program_id cfg = M" and "has_member E R s t c m"
    and "clock_timestamp E (shard s (clock_sel E)) = Some ts"
    and "is_in_grace_period (ms_grace_period_start_timestamp_ms m) (secs_to_millis (ms_grace_period_duration_sec m)) ts"
  shows "\<exists>s'. run_request E R M s rq = Inr s' \<and> has_member E R s' t c (renewed m) \<and>
    ts < ms_grace_period_start_timestamp_ms (renewed m)"
proof -
  note r = reached_registry [OF assms(1,2,4-6,10,11)]
  show ?thesis
  proof (rule extend_content [OF assms(3,7,9,10,12)])
    fix now
    assume clock: "read_clock_ms E (shard s) = Inr now" and c: "bytes32 c" and q: "rq_program rq = R" "rq_signer rq = payer"
      "rq_selectors rq = [config_sel E R t, membership_sel E R t c, native_balance_selector E payer,
         native_balance_selector E (cs_treasury_account_id cfg), clock_sel E]"
      "rq_instruction rq = Extend t c now (cs_price_per_unit cfg) (ms_rate_limit m)"
    have now: "now = ts" using read_clock_time [OF clock] assms(13) by simp
    obtain s' where "run_request E R M s rq = Inr s'" "has_member E R s' t c (renewed m)"
      by (rule extend_runs [OF assms(1,8) c q assms(10) r(1) assms(12) read_clock_ok [OF clock]]) (use assms(14) now in simp_all)
    then show ?thesis using renewed_past [OF assms(14)] by blast
  qed
qed

theorem extend_end_to_end_witness:
  "\<exists>rq s'. extend_request toy toy_field (demo_world (demo_at 1120000)) demo_programs demo_T demo_C demo_payer = Inr rq \<and>
     run_request toy demo_R demo_M (demo_at 1120000) rq = Inr s' \<and>
     has_member toy demo_R s' demo_T demo_C (renewed demo_member)"
proof -
  obtain rq where rq: "extend_request toy toy_field (demo_world (demo_at 1120000)) demo_programs demo_T demo_C demo_payer = Inr rq"
    by (rule demo_extend_request [of 1120000]) simp
  have "is_in_grace_period 1100000 (secs_to_millis 50) 1120000"
    by (simp add: is_in_grace_period_def sat_add_def secs_to_millis_def MILLIS_PER_SECOND_def)
  then show ?thesis
    using extend_end_to_end [OF demo_separate toy_poseidon toy_same_poseidon demo_no_collision _ demo_reach_at
        demo_world_chain _ rq [unfolded demo_programs_def] demo_at_shards(2) _ demo_at_shards(3) demo_clock_at] rq
    by (auto simp: demo_programs_def)
qed

end
